(* ===== verification/Prelude.thy ===== *)
theory Prelude
  imports Main "HOL-Library.Word" "HOL-Library.Multiset"
begin

text \<open>
  The vocabulary shared by every component: machine integers and byte strings, the
  result type of fallible Rust code, big-endian encodings with their inverse, the
  lexicographic order of byte slices, ASCII case folding and the generic list facts the
  component theories rely on.
\<close>

unbundle bit_operations_syntax

named_theorems len_simps "lengths of the byte encoders"
named_theorems wf_simps "unfolding of the well-formedness predicates of fixed-size data"

section \<open>Types\<close>

type_synonym u8 = "8 word"
type_synonym u16 = "16 word"
type_synonym u32 = "32 word"
type_synonym u64 = "64 word"
type_synonym u128 = "128 word"
type_synonym bytes = "u8 list"

text \<open>
  A Rust \<open>Result<T, E>\<close> is the sum \<open>'e + 'a\<close>; \<open>Ok\<close> and \<open>Err\<close> name its injections, and
  \<open>and_then\<close> is the \<open>?\<close> operator.
\<close>

abbreviation Ok :: "'a \<Rightarrow> 'e + 'a" where "Ok \<equiv> Inr"
abbreviation Err :: "'e \<Rightarrow> 'e + 'a" where "Err \<equiv> Inl"

definition and_then :: "'e + 'a \<Rightarrow> ('a \<Rightarrow> 'e + 'b) \<Rightarrow> 'e + 'b" where
  "and_then r f = (case r of Inl e \<Rightarrow> Inl e | Inr a \<Rightarrow> f a)"

lemma and_then_simps [simp]:
  "and_then (Ok a) f = f a" "and_then (Err e) f = Err e"
  by (simp_all add: and_then_def)

lemma and_then_OkD:
  "and_then r f = Ok b \<Longrightarrow> \<exists>a. r = Ok a \<and> f a = Ok b"
  by (cases r) (auto simp: and_then_def)

lemma and_then_Ok_iff:
  "and_then r f = Ok b \<longleftrightarrow> (\<exists>a. r = Ok a \<and> f a = Ok b)"
  by (cases r) (auto simp: and_then_def)

lemma and_then_Err_iff:
  "and_then r f = Err e \<longleftrightarrow> r = Err e \<or> (\<exists>a. r = Ok a \<and> f a = Err e)"
  by (cases r) (auto simp: and_then_def)

definition map_err :: "('e \<Rightarrow> 'f) \<Rightarrow> 'e + 'a \<Rightarrow> 'f + 'a" where
  "map_err g r = (case r of Inl e \<Rightarrow> Inl (g e) | Inr a \<Rightarrow> Inr a)"

lemma map_err_simps [simp]:
  "map_err g (Ok a) = Ok a" "map_err g (Err e) = Err (g e)"
  by (simp_all add: map_err_def)

lemma map_err_Ok_iff [simp]: "map_err g r = Ok a \<longleftrightarrow> r = Ok a"
  by (cases r) (auto simp: map_err_def)

text \<open>The \<open>?\<close> operator in code that may also not return: running out of fuel, or a panic, is \<open>None\<close>.\<close>

definition run_then :: "('e + 'a) option \<Rightarrow> ('a \<Rightarrow> ('e + 'b) option) \<Rightarrow> ('e + 'b) option" where
  "run_then r f = (case r of None \<Rightarrow> None | Some (Inl e) \<Rightarrow> Some (Inl e) | Some (Inr a) \<Rightarrow> f a)"

lemma run_then_simps [simp]:
  "run_then None f = None" "run_then (Some (Err e)) f = Some (Err e)" "run_then (Some (Ok a)) f = f a"
  by (simp_all add: run_then_def)

lemma run_then_Ok_iff:
  "run_then r f = Some (Ok b) \<longleftrightarrow> (\<exists>a. r = Some (Ok a) \<and> f a = Some (Ok b))"
  by (auto simp: run_then_def split: option.splits sum.splits)

definition ok_or :: "'e \<Rightarrow> 'a option \<Rightarrow> 'e + 'a" where
  "ok_or e x = (case x of None \<Rightarrow> Inl e | Some a \<Rightarrow> Inr a)"

lemma ok_or_simps [simp]: "ok_or e None = Err e" "ok_or e (Some a) = Ok a"
  by (simp_all add: ok_or_def)

lemma ok_or_Ok_iff [simp]: "ok_or e x = Ok a \<longleftrightarrow> x = Some a"
  by (cases x) (auto simp: ok_or_def)

definition res_ok :: "'e + 'a \<Rightarrow> 'a option" where
  "res_ok r = (case r of Inl _ \<Rightarrow> None | Inr a \<Rightarrow> Some a)"

lemma res_ok_simps [simp]: "res_ok (Ok a) = Some a" "res_ok (Err e) = None"
  by (simp_all add: res_ok_def)

definition is_ok :: "'e + 'a \<Rightarrow> bool" where
  "is_ok r = (case r of Inl _ \<Rightarrow> False | Inr _ \<Rightarrow> True)"

lemma is_ok_simps [simp]: "is_ok (Ok a)" "\<not> is_ok (Err e)"
  by (simp_all add: is_ok_def)

section \<open>Big-endian integers\<close>

text \<open>\<open>be_nat k n\<close> is the \<open>k\<close>-byte big-endian encoding of \<open>n\<close> (its low \<open>8 * k\<close> bits).\<close>

fun be_nat :: "nat \<Rightarrow> nat \<Rightarrow> bytes" where
  "be_nat 0 n = []"
| "be_nat (Suc k) n = be_nat k (n div 256) @ [of_nat n]"

fun from_be_acc :: "nat \<Rightarrow> bytes \<Rightarrow> nat" where
  "from_be_acc a [] = a"
| "from_be_acc a (b # bs) = from_be_acc (a * 256 + unat b) bs"

definition from_be :: "bytes \<Rightarrow> nat" where
  "from_be bs = from_be_acc 0 bs"

lemma length_be_nat [simp, len_simps]: "length (be_nat k n) = k"
  by (induction k arbitrary: n) auto

lemma from_be_acc_eq: "from_be_acc a bs = a * 256 ^ length bs + from_be_acc 0 bs"
proof (induction bs arbitrary: a)
  case Nil
  then show ?case by simp
next
  case (Cons b bs)
  have "from_be_acc a (b # bs) = (a * 256 + unat b) * 256 ^ length bs + from_be_acc 0 bs"
    using Cons[of "a * 256 + unat b"] by simp
  moreover have "from_be_acc 0 (b # bs) = unat b * 256 ^ length bs + from_be_acc 0 bs"
    using Cons[of "unat b"] by simp
  ultimately show ?case by (simp add: algebra_simps)
qed

lemma from_be_Nil [simp]: "from_be [] = 0"
  by (simp add: from_be_def)

lemma from_be_Cons: "from_be (b # bs) = unat b * 256 ^ length bs + from_be bs"
  using from_be_acc_eq[of "unat b" bs] by (simp add: from_be_def)

lemma from_be_append: "from_be (xs @ ys) = from_be xs * 256 ^ length ys + from_be ys"
  by (induction xs) (auto simp: from_be_Cons algebra_simps power_add)

lemma from_be_snoc: "from_be (xs @ [b]) = from_be xs * 256 + unat b"
  by (simp add: from_be_append from_be_Cons)

lemma unat_u8_less: "unat (b :: u8) < 256"
  using unsigned_less[of b, where 'a=nat] by simp

lemma from_be_less: "from_be bs < 256 ^ length bs"
proof (induction bs)
  case Nil
  then show ?case by simp
next
  case (Cons b bs)
  have "unat b * 256 ^ length bs + from_be bs < (unat b + 1) * 256 ^ length bs"
    using Cons by (simp add: algebra_simps)
  also have "\<dots> \<le> 256 * 256 ^ length bs"
    using unat_u8_less[of b] by (intro mult_right_mono) auto
  finally show ?case by (simp add: from_be_Cons)
qed

lemma unat_of_nat_u8: "unat (of_nat n :: u8) = n mod 256"
  by (simp add: unat_of_nat)

lemma from_be_be_nat: "from_be (be_nat k n) = n mod 256 ^ k"
proof (induction k arbitrary: n)
  case 0
  then show ?case by simp
next
  case (Suc k)
  have "n mod 256 ^ Suc k = (n div 256) mod 256 ^ k * 256 + n mod 256"
    by (metis mod_mult2_eq power_Suc add.commute mult.commute)
  then show ?case by (simp add: from_be_snoc Suc unat_of_nat_u8)
qed

lemma be_nat_from_be: "be_nat (length bs) (from_be bs) = bs"
proof (induction bs rule: rev_induct)
  case Nil
  then show ?case by simp
next
  case (snoc b bs)
  have d: "(from_be bs * 256 + unat b) div 256 = from_be bs"
    using unat_u8_less[of b] by simp
  have "(of_nat (from_be bs * 256 + unat b) :: u8) = b"
    by (rule word_unat_eq_iff[THEN iffD2])
      (use unat_u8_less[of b] in \<open>simp add: unat_of_nat_u8 mod_mult_self3 del: of_nat_add of_nat_mult\<close>)
  with snoc d show ?case by (simp add: from_be_snoc del: of_nat_add of_nat_mult)
qed

lemma from_be_inj:
  assumes "length xs = length ys" "from_be xs = from_be ys"
  shows "xs = ys"
proof -
  have "xs = be_nat (length xs) (from_be xs)" by (simp add: be_nat_from_be)
  also have "\<dots> = be_nat (length ys) (from_be ys)" by (simp only: assms)
  also have "\<dots> = ys" by (rule be_nat_from_be)
  finally show ?thesis .
qed

text \<open>The four \<open>to_be_bytes\<close> of the code and their inverses \<open>from_be_bytes\<close>.\<close>

definition be16 :: "u16 \<Rightarrow> bytes" where "be16 w = be_nat 2 (unat w)"
definition be32 :: "u32 \<Rightarrow> bytes" where "be32 w = be_nat 4 (unat w)"
definition be64 :: "u64 \<Rightarrow> bytes" where "be64 w = be_nat 8 (unat w)"
definition be128 :: "u128 \<Rightarrow> bytes" where "be128 w = be_nat 16 (unat w)"
definition of_be16 :: "bytes \<Rightarrow> u16" where "of_be16 bs = of_nat (from_be bs)"
definition of_be32 :: "bytes \<Rightarrow> u32" where "of_be32 bs = of_nat (from_be bs)"
definition of_be64 :: "bytes \<Rightarrow> u64" where "of_be64 bs = of_nat (from_be bs)"

lemma length_be_words [simp, len_simps]:
  "length (be16 a) = 2" "length (be32 b) = 4" "length (be64 c) = 8" "length (be128 d) = 16"
  by (simp_all add: be16_def be32_def be64_def be128_def)

lemma from_be_words [simp]:
  "from_be (be16 a) = unat a" "from_be (be32 b) = unat b" "from_be (be64 c) = unat c"
  "from_be (be128 d) = unat d"
  using unsigned_less[of a, where 'a=nat] unsigned_less[of b, where 'a=nat]
    unsigned_less[of c, where 'a=nat] unsigned_less[of d, where 'a=nat]
  by (simp_all add: be16_def be32_def be64_def be128_def from_be_be_nat)

lemma of_be_words [simp]:
  "of_be16 (be16 a) = a" "of_be32 (be32 b) = b" "of_be64 (be64 c) = c"
  by (simp_all add: of_be16_def of_be32_def of_be64_def)

lemma be_words_inj [simp]:
  "be16 a = be16 a' \<longleftrightarrow> a = a'" "be32 b = be32 b' \<longleftrightarrow> b = b'"
  "be64 c = be64 c' \<longleftrightarrow> c = c'" "be128 d = be128 d' \<longleftrightarrow> d = d'"
  by (metis from_be_words(1) word_unat_eq_iff, metis from_be_words(2) word_unat_eq_iff,
      metis from_be_words(3) word_unat_eq_iff, metis from_be_words(4) word_unat_eq_iff)

lemma be_of_be64: "length bs = 8 \<Longrightarrow> be64 (of_be64 bs) = bs"
  using from_be_less[of bs] be_nat_from_be[of bs]
  by (simp add: be64_def of_be64_def unat_of_nat)

lemma be_of_be32: "length bs = 4 \<Longrightarrow> be32 (of_be32 bs) = bs"
  using from_be_less[of bs] be_nat_from_be[of bs]
  by (simp add: be32_def of_be32_def unat_of_nat)

lemma from_be_replicate0 [simp]: "from_be (replicate n 0 @ bs) = from_be bs"
  by (induction n) (auto simp: from_be_Cons)

lemma from_be_zeros [simp]: "from_be (replicate n 0) = 0"
  using from_be_replicate0[of n "[]"] by simp

section \<open>Byte slices\<close>

text \<open>Rust's lexicographic \<open><\<close> on byte slices.\<close>

fun slice_less :: "bytes \<Rightarrow> bytes \<Rightarrow> bool" where
  "slice_less xs [] = False"
| "slice_less [] (y # ys) = True"
| "slice_less (x # xs) (y # ys) = (x < y \<or> x = y \<and> slice_less xs ys)"

lemma slice_less_iff_from_be:
  "length xs = length ys \<Longrightarrow> slice_less xs ys \<longleftrightarrow> from_be xs < from_be ys"
proof (induction xs ys rule: slice_less.induct)
  case (3 x xs y ys)
  then have len: "length xs = length ys" by simp
  have bx: "from_be xs < 256 ^ length ys" and bounds: "from_be ys < 256 ^ length ys"
    using from_be_less[of xs] from_be_less[of ys] len by simp_all
  consider "unat x < unat y" | "unat x = unat y" | "unat y < unat x" by linarith
  then show ?case
  proof cases
    case 1
    then have "(unat x + 1) * 256 ^ length ys \<le> unat y * 256 ^ length ys"
      by (intro mult_right_mono) auto
    with bx 1 show ?thesis by (simp add: from_be_Cons len word_less_nat_alt algebra_simps)
  next
    case 2
    with 3 len show ?thesis by (auto simp: from_be_Cons word_unat_eq_iff word_less_nat_alt)
  next
    case 3
    then have "(unat y + 1) * 256 ^ length ys \<le> unat x * 256 ^ length ys"
      by (intro mult_right_mono) auto
    with bounds 3 show ?thesis by (auto simp add: from_be_Cons len word_less_nat_alt algebra_simps)
  qed
qed simp_all

end
