(* ===== verification/Core_Abi.thy ===== *)
theory Core_Abi
  imports Prelude
begin

text \<open>
  Model of \<open>prover/crates/core/src/abi.rs\<close>: the Solidity ABI words and the head/tail
  framing of \<open>abi.encode\<close> that every Keccak commitment of the bridge is taken over. A
  panic is the value \<open>None\<close>; \<open>abi_encode_total\<close> shows that framing never panics, and
  the injectivity lemmas show that equal encodings come from equal values.
\<close>

section \<open>Values and words\<close>

datatype val =
    VStr string
  | VU32 u32
  | VU64 u64
  | VU256 bytes
  | VAddr bytes
  | VB32 bytes

fun is_dynamic :: "val \<Rightarrow> bool" where
  "is_dynamic (VStr _) = True"
| "is_dynamic _ = False"

text \<open>\<open>Val::word\<close>: the 32-byte word of a static value; a string has none (the code panics).\<close>

fun val_word :: "val \<Rightarrow> bytes option" where
  "val_word (VU32 v) = Some (replicate 28 0 @ be32 v)"
| "val_word (VU64 v) = Some (replicate 24 0 @ be64 v)"
| "val_word (VU256 v) = Some v"
| "val_word (VAddr v) = Some (replicate 12 0 @ v)"
| "val_word (VB32 v) = Some v"
| "val_word (VStr _) = None"

definition word_u64 :: "u64 \<Rightarrow> bytes" where
  "word_u64 v = replicate 24 0 @ be64 v"

text \<open>\<open>str::as_bytes\<close>: a string is the list of its UTF-8 bytes.\<close>

definition as_bytes :: "string \<Rightarrow> bytes" where
  "as_bytes s = map of_char s"

section \<open>Framing\<close>

definition pad32 :: "bytes \<Rightarrow> bytes" where
  "pad32 bs = (let rem = length bs mod 32
               in if rem \<noteq> 0 then bs @ replicate (32 - rem) 0 else bs)"

fun encode_loop :: "nat \<Rightarrow> val list \<Rightarrow> bytes \<Rightarrow> bytes \<Rightarrow> bytes option" where
  "encode_loop head_size [] head tail = Some (head @ tail)"
| "encode_loop head_size (VStr text # vs) head tail =
     encode_loop head_size vs
       (head @ word_u64 (of_nat (head_size + length tail)))
       (tail @ word_u64 (of_nat (length text)) @ pad32 (as_bytes text))"
| "encode_loop head_size (v # vs) head tail =
     (case val_word v of
        None \<Rightarrow> None
      | Some w \<Rightarrow> encode_loop head_size vs (head @ w) tail)"

definition abi_encode :: "val list \<Rightarrow> bytes option" where
  "abi_encode vs = encode_loop (32 * length vs) vs [] []"

fun pack_words :: "val list \<Rightarrow> bytes option" where
  "pack_words [] = Some []"
| "pack_words (v # vs) =
     (case val_word v of
        None \<Rightarrow> None
      | Some w \<Rightarrow> (case pack_words vs of None \<Rightarrow> None | Some out \<Rightarrow> Some (w @ out)))"

section \<open>Well-formed values\<close>

fun wf_val :: "val \<Rightarrow> bool" where
  "wf_val (VU256 v) = (length v = 32)"
| "wf_val (VAddr v) = (length v = 20)"
| "wf_val (VB32 v) = (length v = 32)"
| "wf_val _ = True"

lemma val_word_static: "\<not> is_dynamic v \<Longrightarrow> \<exists>w. val_word v = Some w"
  by (cases v) auto

lemma val_word_length: "val_word v = Some w \<Longrightarrow> wf_val v \<Longrightarrow> length w = 32"
  by (cases v) auto

lemma length_word_u64 [simp, len_simps]: "length (word_u64 v) = 32"
  by (simp add: word_u64_def)

lemma word_u64_inj [simp]: "word_u64 a = word_u64 b \<longleftrightarrow> a = b"
  by (simp add: word_u64_def)

lemma length_as_bytes [simp]: "length (as_bytes s) = length s"
  by (simp add: as_bytes_def)

lemma of_char_u8_inj: "(of_char c :: u8) = of_char d \<longleftrightarrow> c = d"
proof
  assume "(of_char c :: u8) = of_char d"
  then have "unat (of_nat (of_char c) :: u8) = unat (of_nat (of_char d) :: u8)"
    by (simp add: of_nat_of_char)
  moreover have "of_char c < (256 :: nat)" "of_char d < (256 :: nat)"
    using nat_of_char_less_256 by simp_all
  ultimately have "(of_char c :: nat) = of_char d"
    by (simp only: unat_of_nat_u8 mod_less)
  then show "c = d" by (metis char_of_char)
qed simp

lemma as_bytes_inj [simp]: "as_bytes s = as_bytes t \<longleftrightarrow> s = t"
  unfolding as_bytes_def by (rule inj_map_eq_map) (auto simp: inj_def of_char_u8_inj)

text \<open>The framing never reaches the panic of \<open>Val::word\<close>.\<close>

lemma encode_loop_total: "\<exists>out. encode_loop n vs head tail = Some out"
proof (induction vs arbitrary: head tail)
  case (Cons v vs)
  then show ?case by (cases v) auto
qed simp

lemma abi_encode_total: "\<exists>out. abi_encode vs = Some out"
  by (simp add: abi_encode_def encode_loop_total)

lemma pack_words_static: "\<forall>v \<in> set vs. \<not> is_dynamic v \<Longrightarrow> \<exists>out. pack_words vs = Some out"
  by (induction vs) (use val_word_static in fastforce)+

lemma pack_words_length:
  "pack_words vs = Some out \<Longrightarrow> \<forall>v \<in> set vs. wf_val v \<Longrightarrow> length out = 32 * length vs"
  by (induction vs arbitrary: out) (auto split: option.splits dest: val_word_length)

text \<open>Without strings, framing is packing: the head is the words and the tail is empty.\<close>

lemma encode_loop_static:
  "\<forall>v \<in> set vs. \<not> is_dynamic v \<Longrightarrow> pack_words vs = Some out \<Longrightarrow>
   encode_loop n vs head tail = Some (head @ out @ tail)"
proof (induction vs arbitrary: head out)
  case (Cons v vs)
  from Cons.prems(1) have "\<not> is_dynamic v" by simp
  then show ?case using Cons by (cases v) (auto split: option.splits)
qed simp

lemma abi_encode_static:
  "\<forall>v \<in> set vs. \<not> is_dynamic v \<Longrightarrow> pack_words vs = Some out \<Longrightarrow> abi_encode vs = Some out"
  by (simp add: abi_encode_def encode_loop_static)

lemma abi_encode_leading_str:
  assumes "\<forall>v \<in> set vs. \<not> is_dynamic v" "pack_words vs = Some out"
  shows "abi_encode (VStr s # vs) =
    Some (word_u64 (of_nat (32 + 32 * length vs)) @ out @ word_u64 (of_nat (length s))
          @ pad32 (as_bytes s))"
  using encode_loop_static[OF assms] by (simp add: abi_encode_def)

text \<open>Packing is injective on well-formed values of the same shape.\<close>

fun same_shape :: "val \<Rightarrow> val \<Rightarrow> bool" where
  "same_shape (VStr _) (VStr _) = True"
| "same_shape (VU32 _) (VU32 _) = True"
| "same_shape (VU64 _) (VU64 _) = True"
| "same_shape (VU256 _) (VU256 _) = True"
| "same_shape (VAddr _) (VAddr _) = True"
| "same_shape (VB32 _) (VB32 _) = True"
| "same_shape _ _ = False"

lemma same_shape_dynamic: "same_shape v u \<Longrightarrow> is_dynamic u = is_dynamic v"
  by (cases v; cases u) auto

lemma val_word_inj:
  "same_shape v u \<Longrightarrow> \<not> is_dynamic v \<Longrightarrow> val_word v = val_word u \<Longrightarrow> v = u"
  by (cases v; cases u) auto

lemma pack_words_inj:
  assumes "list_all2 same_shape vs us" "\<forall>v \<in> set vs. \<not> is_dynamic v \<and> wf_val v"
    and "\<forall>u \<in> set us. wf_val u" "pack_words vs = pack_words us"
  shows "vs = us"
  using assms
proof (induction vs us rule: list_all2_induct)
  case (Cons v vs u us)
  have ndv: "\<not> is_dynamic v" and wv: "wf_val v" using Cons.prems by auto
  have ndu: "\<not> is_dynamic u" using Cons.hyps ndv by (simp add: same_shape_dynamic)
  obtain wv' wu' where w: "val_word v = Some wv'" "val_word u = Some wu'"
    using val_word_static ndv ndu by meson
  have len: "length wv' = length wu'" using val_word_length w wv Cons.prems(2) by auto
  have nds: "\<forall>u \<in> set us. \<not> is_dynamic u"
  proof
    fix y assume "y \<in> set us"
    then obtain i where i: "i < length us" "y = us ! i" by (auto simp: in_set_conv_nth)
    then have "same_shape (vs ! i) y" "vs ! i \<in> set vs"
      using Cons.hyps by (auto simp: list_all2_conv_all_nth)
    with Cons.prems(1) show "\<not> is_dynamic y" by (simp add: same_shape_dynamic)
  qed
  obtain ov ou where o: "pack_words vs = Some ov" "pack_words us = Some ou"
    using pack_words_static[of vs] pack_words_static[of us] nds Cons.prems(1) by auto
  from Cons.prems(3) w o len have "val_word v = val_word u" "pack_words vs = pack_words us"
    by auto
  with Cons ndv show ?case using val_word_inj by auto
qed simp

end
