(* ===== verification/Core_Cbor.thy ===== *)
theory Core_Cbor
  imports Core_Abi
begin

text \<open>
  Model of \<open>prover/crates/core/src/cbor.rs\<close>: the deterministic CBOR heads and the hash of
  an encoded array. The head decoder of RFC 8949 serves as the specification: it recovers
  the major type, the argument and the rest of the input, so the encoding is prefix-free.
\<close>

section \<open>Encoders\<close>

definition major :: "u8 \<Rightarrow> u64 \<Rightarrow> bytes" where
  "major m v =
     (let prefix = push_bit 5 m in
      if v \<le> 23 then [prefix OR ucast v]
      else if v \<le> 0xff then [prefix OR 24, ucast v]
      else if v \<le> 0xffff then (prefix OR 25) # be16 (ucast v)
      else if v \<le> 0xffffffff then (prefix OR 26) # be32 (ucast v)
      else (prefix OR 27) # be64 v)"

definition cbor_uint :: "u64 \<Rightarrow> bytes" where
  "cbor_uint v = major 0 v"

definition cbor_bytes :: "bytes \<Rightarrow> bytes" where
  "cbor_bytes v = major 2 (of_nat (length v)) @ v"

definition cbor_text :: "string \<Rightarrow> bytes" where
  "cbor_text s = major 3 (of_nat (length s)) @ as_bytes s"

definition array_header :: "u64 \<Rightarrow> bytes" where
  "array_header n = major 4 n"

definition cbor_tag :: "u64 \<Rightarrow> bytes" where
  "cbor_tag v = major 6 v"

definition h_array :: "(bytes \<Rightarrow> bytes) \<Rightarrow> bytes list \<Rightarrow> bytes" where
  "h_array sha256 items = sha256 (array_header (of_nat (length items)) @ concat items)"

section \<open>The head decoder as specification\<close>

text \<open>
  \<open>head_dec\<close> reads one initial byte and its argument (RFC 8949, section 3): major type in
  the high three bits, the argument in the low five or in the following 1, 2, 4 or 8 bytes.
\<close>

definition head_arg :: "nat \<Rightarrow> u8 \<Rightarrow> bytes \<Rightarrow> (u8 \<times> u64 \<times> bytes) option" where
  "head_arg k m bs =
     (if length bs < k then None
      else Some (m, of_nat (from_be (take k bs)), drop k bs))"

fun head_dec :: "bytes \<Rightarrow> (u8 \<times> u64 \<times> bytes) option" where
  "head_dec [] = None"
| "head_dec (b # bs) =
     (let m = drop_bit 5 b; a = b AND 31 in
      if a \<le> 23 then Some (m, ucast a, bs)
      else if a = 24 then head_arg 1 m bs
      else if a = 25 then head_arg 2 m bs
      else if a = 26 then head_arg 4 m bs
      else if a = 27 then head_arg 8 m bs
      else None)"

lemma head_byte:
  fixes m a :: u8
  assumes "m < 8" "a < 32"
  shows "drop_bit 5 (push_bit 5 m OR a) = m" "(push_bit 5 m OR a) AND 31 = a"
proof -
  have "\<forall>m \<in> set (map of_nat [0..<8]). \<forall>a \<in> set (map of_nat [0..<32]).
    drop_bit 5 (push_bit 5 m OR a) = (m :: u8) \<and> (push_bit 5 m OR a) AND 31 = (a :: u8)"
    by code_simp
  moreover have "m \<in> set (map of_nat [0..<8])"
    using assms(1) by (auto intro!: image_eqI[where x = "unat m"] simp: word_less_nat_alt)
  moreover have "a \<in> set (map of_nat [0..<32])"
    using assms(2) by (auto intro!: image_eqI[where x = "unat a"] simp: word_less_nat_alt)
  ultimately show "drop_bit 5 (push_bit 5 m OR a) = m" "(push_bit 5 m OR a) AND 31 = a"
    by blast+
qed

lemma unat_ucast_mod [simp]:
  "unat (ucast (v :: u64) :: u8) = unat v mod 2 ^ 8"
  "unat (ucast (v :: u64) :: u16) = unat v mod 2 ^ 16"
  "unat (ucast (v :: u64) :: u32) = unat v mod 2 ^ 32"
  "unat (ucast (b :: u8) :: u64) = unat b"
  using unsigned_less[of b, where 'a=nat]
  by (simp_all add: unsigned_ucast_eq take_bit_eq_mod)

lemma head_arg_append:
  "length bs = k \<Longrightarrow> head_arg k m (bs @ rest) = Some (m, of_nat (from_be bs), rest)"
  by (simp add: head_arg_def)

lemma head_dec_byte:
  assumes "m < 8" "a < 32"
  shows "head_dec ((push_bit 5 m OR a) # bs) =
     (if a \<le> 23 then Some (m, ucast a, bs)
      else if a = 24 then head_arg 1 m bs
      else if a = 25 then head_arg 2 m bs
      else if a = 26 then head_arg 4 m bs
      else if a = 27 then head_arg 8 m bs
      else None)"
  using head_byte[OF assms] by (simp add: Let_def)

lemma head_dec_major:
  assumes m: "m < 8"
  shows "head_dec (major m v @ rest) = Some (m, v, rest)"
proof -
  have u: "of_nat (unat v) = v" by simp
  consider "v \<le> 23" | "\<not> v \<le> 23" "v \<le> 0xff" | "\<not> v \<le> 0xff" "v \<le> 0xffff"
    | "\<not> v \<le> 0xffff" "v \<le> 0xffffffff" | "\<not> v \<le> 0xffffffff" by blast
  then show ?thesis
  proof cases
    case 1
    then have n: "unat v \<le> 23" by (simp add: word_le_nat_alt)
    then have "(ucast v :: u8) \<le> 23" "(ucast v :: u8) < 32"
      by (simp_all add: word_le_nat_alt word_less_nat_alt)
    moreover have "ucast (ucast v :: u8) = v"
      using n by (intro word_unat_eq_iff[THEN iffD2]) simp
    ultimately show ?thesis using 1 m by (simp add: major_def Let_def head_dec_byte del: head_dec.simps)
  next
    case 2
    then have "unat v \<le> 255" by (simp add: word_le_nat_alt)
    with 2 m show ?thesis
      by (auto simp add: major_def Let_def head_dec_byte head_arg_def from_be_Cons word_le_nat_alt
          simp del: head_dec.simps)
  next
    case 3
    then have "unat v < 65536" by (simp add: word_le_nat_alt)
    with 3 m show ?thesis
      by (auto simp add: major_def Let_def head_dec_byte head_arg_append word_le_nat_alt
          simp del: head_dec.simps)
  next
    case 4
    then have "unat v < 4294967296" by (simp add: word_le_nat_alt)
    with 4 m show ?thesis
      by (auto simp add: major_def Let_def head_dec_byte head_arg_append word_le_nat_alt
          simp del: head_dec.simps)
  next
    case 5
    with m show ?thesis
      by (auto simp add: major_def Let_def head_dec_byte head_arg_append word_le_nat_alt
          simp del: head_dec.simps)
  qed
qed

lemma major_inj:
  assumes "m < 8" "m' < 8" "major m v @ r = major m' v' @ r'"
  shows "m = m' \<and> v = v' \<and> r = r'"
proof -
  have "Some (m, v, r) = head_dec (major m v @ r)" by (simp only: head_dec_major[OF assms(1)])
  also have "\<dots> = head_dec (major m' v' @ r')" by (simp only: assms(3))
  also have "\<dots> = Some (m', v', r')" by (rule head_dec_major[OF assms(2)])
  finally show ?thesis by simp
qed

lemma major_eq_iff [simp]:
  "m < 8 \<Longrightarrow> m' < 8 \<Longrightarrow> major m v @ r = major m' v' @ r' \<longleftrightarrow> m = m' \<and> v = v' \<and> r = r'"
  using major_inj by blast

lemma major_nonempty [simp]: "major m v \<noteq> []"
  by (simp add: major_def Let_def)

lemma major_length: "length (major m v) \<le> 9"
  by (simp add: major_def Let_def)

section \<open>Prefix-freeness of the encoders\<close>

lemma cbor_uint_inj:
  "cbor_uint a @ r = cbor_uint b @ r' \<longleftrightarrow> a = b \<and> r = r'"
  by (simp add: cbor_uint_def)

lemma cbor_tag_inj:
  "cbor_tag a @ r = cbor_tag b @ r' \<longleftrightarrow> a = b \<and> r = r'"
  by (simp add: cbor_tag_def)

lemma array_header_inj:
  "array_header a @ r = array_header b @ r' \<longleftrightarrow> a = b \<and> r = r'"
  by (simp add: array_header_def)

lemma of_nat_u64_inj:
  "a < 2 ^ 64 \<Longrightarrow> b < 2 ^ 64 \<Longrightarrow> (of_nat a :: u64) = of_nat b \<longleftrightarrow> a = b"
  by (auto dest: arg_cong[where f = unat] simp: unat_of_nat)

lemma cbor_bytes_inj:
  assumes "length a < 2 ^ 64" "length b < 2 ^ 64"
  shows "cbor_bytes a @ r = cbor_bytes b @ r' \<longleftrightarrow> a = b \<and> r = r'"
  using assms by (auto simp add: cbor_bytes_def of_nat_u64_inj append_eq_append_conv)

lemma cbor_text_inj:
  assumes "length a < 2 ^ 64" "length b < 2 ^ 64"
  shows "cbor_text a @ r = cbor_text b @ r' \<longleftrightarrow> a = b \<and> r = r'"
proof -
  have "as_bytes a @ r = as_bytes b @ r' \<and> length a = length b \<longleftrightarrow> a = b \<and> r = r'"
    by (metis append_eq_append_conv as_bytes_inj length_as_bytes)
  with assms show ?thesis by (auto simp add: cbor_text_def of_nat_u64_inj)
qed

lemma cbor_uint_neq_bytes [simp]: "cbor_uint a @ r \<noteq> cbor_bytes b @ r'"
  by (simp add: cbor_uint_def cbor_bytes_def)

end
