(* ===== verification/Core.thy ===== *)
theory Core
  imports Core_Cbor
begin

text \<open>
  Model of \<open>prover/crates/core/src/lib.rs\<close>: the byte-level contract of a bridge return
  (deployment config, lock records, reasons, leaves, lock refs and the public values a
  proof commits to). SHA-256 and Keccak-256 come from the crates \<open>sha2\<close> and
  \<open>tiny-keccak\<close> and are the parameters \<open>sha256\<close> and \<open>keccak\<close>. Fixed-size byte arrays
  are byte lists; the \<open>wf_\<close> predicates state their sizes, which the Rust types enforce.
\<close>

section \<open>Data\<close>

definition BRIDGE_PROTO_VERSION :: u32 where "BRIDGE_PROTO_VERSION = 2"
definition DOMAIN_CONFIG :: string where
  "DOMAIN_CONFIG = ''unicity-bridge-return-config:v1''"
definition DOMAIN_LOCK :: string where "DOMAIN_LOCK = ''unicity-bridge-lock:v1''"
definition DOMAIN_RETURN :: string where "DOMAIN_RETURN = ''unicity-bridge-return:v1''"
definition DOMAIN_BURN_TRANSITION :: string where
  "DOMAIN_BURN_TRANSITION = ''unicity-burn-transition:v1''"
definition DOMAIN_NULLIFIER :: string where
  "DOMAIN_NULLIFIER = ''unicity-bridge-return-nullifier:v1''"

record bridge_config =
  cfg_source_chain_id :: u64
  cfg_vault :: bytes
  cfg_asset :: bytes
  cfg_token_type :: bytes
  cfg_coin_id :: bytes
  cfg_reason_tag :: u64
  cfg_lock_domain :: bytes
  cfg_nullifier_domain :: bytes

record lock_record =
  lock_nonce :: u64
  lock_amount :: bytes
  lock_unicity_token_id :: bytes
  lock_recipient_commitment :: bytes

record bridge_back_reason =
  rsn_version :: u64
  rsn_recipient :: bytes
  rsn_amount :: bytes
  rsn_fee_recipient :: bytes
  rsn_fee_amount :: bytes
  rsn_deadline :: u64

record return_leaf =
  leaf_nullifier :: bytes
  leaf_recipient :: bytes
  leaf_amount :: bytes
  leaf_fee_recipient :: bytes
  leaf_fee_amount :: bytes
  leaf_deadline :: u64

record source_lock_ref =
  ref_nonce :: u64
  ref_digest :: bytes

record public_values =
  pv_domain_tag :: bytes
  pv_config_hash :: bytes
  pv_trust_base_hash :: bytes
  pv_spent_root_old :: bytes
  pv_spent_root_new :: bytes
  pv_return_root :: bytes
  pv_lock_ref_root :: bytes
  pv_batch_size :: u32
  pv_total_amount :: bytes

datatype bridge_core_error =
    DuplicateLockRefNonce
  | LockRefsNotSorted
  | WrongDomainTag
  | WrongConfigHash
  | WrongTrustBaseHash
  | WrongReturnRoot
  | WrongLockRefRoot
  | WrongBatchSize
  | WrongTotalAmount
  | WrongAccumulatorWitness
  | WrongSpentRootNew
  | TokenVerificationFailed
  | WrongLockObligation
  | BurnTransferMissing
  | BurnReasonMissing
  | BurnReasonMalformed
  | BurnReasonMismatch
  | WrongBurnPredicate
  | WrongNullifier
  | WrongBurnAmount
  | WireDecodeFailed

definition wf_config :: "bridge_config \<Rightarrow> bool" where
  [wf_simps]: "wf_config c \<longleftrightarrow> length (cfg_vault c) = 20 \<and> length (cfg_asset c) = 20
     \<and> length (cfg_token_type c) = 32 \<and> length (cfg_coin_id c) = 32
     \<and> length (cfg_lock_domain c) = 32 \<and> length (cfg_nullifier_domain c) = 32"

definition wf_leaf :: "return_leaf \<Rightarrow> bool" where
  [wf_simps]: "wf_leaf l \<longleftrightarrow> length (leaf_nullifier l) = 32 \<and> length (leaf_recipient l) = 20
     \<and> length (leaf_amount l) = 32 \<and> length (leaf_fee_recipient l) = 20
     \<and> length (leaf_fee_amount l) = 32"

definition wf_ref :: "source_lock_ref \<Rightarrow> bool" where
  [wf_simps]: "wf_ref r \<longleftrightarrow> length (ref_digest r) = 32"

definition wf_public_values :: "public_values \<Rightarrow> bool" where
  [wf_simps]: "wf_public_values p \<longleftrightarrow> length (pv_domain_tag p) = 32
     \<and> length (pv_config_hash p) = 32 \<and> length (pv_trust_base_hash p) = 32
     \<and> length (pv_spent_root_old p) = 32 \<and> length (pv_spent_root_new p) = 32
     \<and> length (pv_return_root p) = 32 \<and> length (pv_lock_ref_root p) = 32
     \<and> length (pv_total_amount p) = 32"

definition wf_lock_record :: "lock_record \<Rightarrow> bool" where
  [wf_simps]: "wf_lock_record r \<longleftrightarrow> length (lock_amount r) = 32
     \<and> length (lock_unicity_token_id r) = 32 \<and> length (lock_recipient_commitment r) = 32"

definition wf_reason :: "bridge_back_reason \<Rightarrow> bool" where
  [wf_simps]: "wf_reason r \<longleftrightarrow> length (rsn_recipient r) = 20 \<and> length (rsn_amount r) = 32
     \<and> length (rsn_fee_recipient r) = 20 \<and> length (rsn_fee_amount r) = 32"

section \<open>256-bit amounts\<close>

definition u256_from_u64 :: "u64 \<Rightarrow> bytes" where
  "u256_from_u64 n = replicate 24 0 @ be64 n"

text \<open>
  \<open>add_u256\<close> runs from the last byte to the first with a 16-bit carry; the carry out of
  the first byte is dropped.
\<close>

definition add_step :: "bytes \<Rightarrow> bytes \<times> u16 \<Rightarrow> nat \<Rightarrow> bytes \<times> u16" where
  "add_step right st i =
     (let s = ucast (fst st ! i) + ucast (right ! i) + snd st
      in ((fst st)[i := ucast s], drop_bit 8 s))"

definition add_u256 :: "bytes \<Rightarrow> bytes \<Rightarrow> bytes" where
  "add_u256 left right = fst (foldl (add_step right) (left, 0) (rev [0..<32]))"

definition sum_amounts :: "return_leaf list \<Rightarrow> bytes" where
  "sum_amounts leaves = foldl (\<lambda>acc leaf. add_u256 acc (leaf_amount leaf)) (replicate 32 0) leaves"

text \<open>\<open>Iterator::position\<close>.\<close>

fun position :: "('a \<Rightarrow> bool) \<Rightarrow> 'a list \<Rightarrow> nat option" where
  "position p [] = None"
| "position p (x # xs) = (if p x then Some 0 else map_option Suc (position p xs))"

definition minimal_be :: "bytes \<Rightarrow> bytes" where
  "minimal_be value =
     (let first = (case position (\<lambda>b. b \<noteq> 0) value of Some i \<Rightarrow> i | None \<Rightarrow> 32)
      in drop first value)"

section \<open>Identifiers and commitments\<close>

definition token_type ::
  "(bytes \<Rightarrow> bytes) \<Rightarrow> string \<Rightarrow> string \<Rightarrow> string \<Rightarrow> bytes" where
  "token_type sha256 chain_family chain_id_str asset_evm_hex =
     sha256 (as_bytes ''unicity-bridge:'' @ as_bytes chain_family @ as_bytes '':''
       @ as_bytes chain_id_str @ as_bytes '':'' @ as_bytes asset_evm_hex)"

definition coin_id ::
  "(bytes \<Rightarrow> bytes) \<Rightarrow> string \<Rightarrow> string \<Rightarrow> string \<Rightarrow> bytes" where
  "coin_id sha256 chain_family chain_id_str asset_evm_hex =
     sha256 (as_bytes ''unicity-bridge-coin:'' @ as_bytes chain_family @ as_bytes '':''
       @ as_bytes chain_id_str @ as_bytes '':'' @ as_bytes asset_evm_hex)"

definition recipient_commitment :: "(bytes \<Rightarrow> bytes) \<Rightarrow> bytes \<Rightarrow> bytes" where
  "recipient_commitment sha256 recipient_cbor = sha256 recipient_cbor"

definition config_vals :: "bridge_config \<Rightarrow> val list" where
  "config_vals c =
     [VStr DOMAIN_CONFIG, VU64 (cfg_source_chain_id c), VAddr (cfg_vault c),
      VAddr (cfg_asset c), VB32 (cfg_token_type c), VB32 (cfg_coin_id c),
      VU64 (cfg_reason_tag c), VB32 (cfg_lock_domain c), VB32 (cfg_nullifier_domain c)]"

definition config_hash :: "(bytes \<Rightarrow> bytes) \<Rightarrow> bridge_config \<Rightarrow> bytes" where
  "config_hash keccak c = keccak (the (abi_encode (config_vals c)))"

definition lock_vals :: "bridge_config \<Rightarrow> lock_record \<Rightarrow> val list" where
  "lock_vals c r =
     [VStr DOMAIN_LOCK, VU64 (cfg_source_chain_id c), VAddr (cfg_vault c),
      VU256 (u256_from_u64 (lock_nonce r)), VAddr (cfg_asset c), VB32 (cfg_token_type c),
      VB32 (cfg_coin_id c), VU256 (lock_amount r), VB32 (lock_unicity_token_id r),
      VB32 (lock_recipient_commitment r)]"

definition lock_digest :: "(bytes \<Rightarrow> bytes) \<Rightarrow> bridge_config \<Rightarrow> lock_record \<Rightarrow> bytes" where
  "lock_digest keccak c r = keccak (the (abi_encode (lock_vals c r)))"

definition reason_cbor :: "bridge_config \<Rightarrow> bridge_back_reason \<Rightarrow> bytes" where
  "reason_cbor c r =
     cbor_tag (cfg_reason_tag c) @ array_header 11 @ cbor_uint (rsn_version r)
     @ cbor_uint (cfg_source_chain_id c) @ cbor_bytes (cfg_vault c) @ cbor_bytes (cfg_asset c)
     @ cbor_bytes (cfg_token_type c) @ cbor_bytes (cfg_coin_id c)
     @ cbor_bytes (rsn_recipient r) @ cbor_bytes (minimal_be (rsn_amount r))
     @ cbor_bytes (rsn_fee_recipient r) @ cbor_bytes (minimal_be (rsn_fee_amount r))
     @ cbor_uint (rsn_deadline r)"

definition reason_hash :: "(bytes \<Rightarrow> bytes) \<Rightarrow> bytes \<Rightarrow> bytes" where
  "reason_hash sha256 reason_bytes = sha256 reason_bytes"

definition burn_transition_id :: "(bytes \<Rightarrow> bytes) \<Rightarrow> bytes \<Rightarrow> bytes \<Rightarrow> bytes" where
  "burn_transition_id sha256 state_id tx_hash =
     h_array sha256 [cbor_text DOMAIN_BURN_TRANSITION, cbor_bytes state_id, cbor_bytes tx_hash]"

definition nullifier :: "(bytes \<Rightarrow> bytes) \<Rightarrow> bytes \<Rightarrow> bytes \<Rightarrow> bytes" where
  "nullifier sha256 cfg_hash burn_id =
     h_array sha256 [cbor_text DOMAIN_NULLIFIER, cbor_bytes cfg_hash, cbor_bytes burn_id]"

definition domain_tag :: "(bytes \<Rightarrow> bytes) \<Rightarrow> bytes" where
  "domain_tag keccak = keccak (as_bytes DOMAIN_RETURN)"

definition leaf_vals :: "return_leaf \<Rightarrow> val list" where
  "leaf_vals l =
     [VB32 (leaf_nullifier l), VAddr (leaf_recipient l), VU256 (leaf_amount l),
      VAddr (leaf_fee_recipient l), VU256 (leaf_fee_amount l), VU64 (leaf_deadline l)]"

fun return_root_buf :: "return_leaf list \<Rightarrow> bytes" where
  "return_root_buf [] = []"
| "return_root_buf (l # ls) = the (pack_words (leaf_vals l)) @ return_root_buf ls"

definition return_root :: "(bytes \<Rightarrow> bytes) \<Rightarrow> return_leaf list \<Rightarrow> bytes" where
  "return_root keccak leaves = keccak (return_root_buf leaves)"

definition ref_vals :: "source_lock_ref \<Rightarrow> val list" where
  "ref_vals r = [VU256 (u256_from_u64 (ref_nonce r)), VB32 (ref_digest r)]"

fun lock_ref_loop ::
  "u64 option \<Rightarrow> bytes \<Rightarrow> source_lock_ref list \<Rightarrow> bridge_core_error + bytes" where
  "lock_ref_loop prev buf [] = Ok buf"
| "lock_ref_loop prev buf (r # rs) =
     (case prev of
        Some p \<Rightarrow>
          if ref_nonce r = p then Err DuplicateLockRefNonce
          else if ref_nonce r < p then Err LockRefsNotSorted
          else lock_ref_loop (Some (ref_nonce r)) (buf @ the (pack_words (ref_vals r))) rs
      | None \<Rightarrow> lock_ref_loop (Some (ref_nonce r)) (buf @ the (pack_words (ref_vals r))) rs)"

definition lock_ref_root ::
  "(bytes \<Rightarrow> bytes) \<Rightarrow> source_lock_ref list \<Rightarrow> bridge_core_error + bytes" where
  "lock_ref_root keccak refs =
     and_then (lock_ref_loop None [] refs) (\<lambda>buf. Ok (keccak buf))"

definition sorted_lock_ref_root ::
  "(bytes \<Rightarrow> bytes) \<Rightarrow> source_lock_ref list \<Rightarrow> bridge_core_error + bytes" where
  "sorted_lock_ref_root keccak refs = lock_ref_root keccak (sort_key ref_nonce refs)"

definition public_vals :: "public_values \<Rightarrow> val list" where
  "public_vals p =
     [VB32 (pv_domain_tag p), VB32 (pv_config_hash p), VB32 (pv_trust_base_hash p),
      VB32 (pv_spent_root_old p), VB32 (pv_spent_root_new p), VB32 (pv_return_root p),
      VB32 (pv_lock_ref_root p), VU32 (pv_batch_size p), VU256 (pv_total_amount p)]"

definition public_values_abi :: "public_values \<Rightarrow> bytes" where
  "public_values_abi p = the (abi_encode (public_vals p))"

definition public_values_digest :: "(bytes \<Rightarrow> bytes) \<Rightarrow> public_values \<Rightarrow> bytes" where
  "public_values_digest keccak p = keccak (public_values_abi p)"

definition validate_public_values ::
  "(bytes \<Rightarrow> bytes) \<Rightarrow> bridge_config \<Rightarrow> public_values \<Rightarrow> return_leaf list
   \<Rightarrow> source_lock_ref list \<Rightarrow> bridge_core_error + unit" where
  "validate_public_values keccak config public_values leaves sorted_lock_refs =
     (if pv_domain_tag public_values \<noteq> domain_tag keccak then Err WrongDomainTag
      else if pv_config_hash public_values \<noteq> config_hash keccak config then Err WrongConfigHash
      else if pv_return_root public_values \<noteq> return_root keccak leaves then Err WrongReturnRoot
      else and_then (lock_ref_root keccak sorted_lock_refs) (\<lambda>root.
        if pv_lock_ref_root public_values \<noteq> root then Err WrongLockRefRoot
        else if pv_batch_size public_values \<noteq> of_nat (length leaves) then Err WrongBatchSize
        else if pv_total_amount public_values \<noteq> sum_amounts leaves then Err WrongTotalAmount
        else Ok ()))"

section \<open>Addition of amounts\<close>

lemma length_u256_from_u64 [simp, len_simps]: "length (u256_from_u64 n) = 32"
  by (simp add: u256_from_u64_def)

lemma from_be_u256_from_u64 [simp]: "from_be (u256_from_u64 n) = unat n"
  by (simp add: u256_from_u64_def)

lemma u256_from_u64_inj [simp]: "u256_from_u64 a = u256_from_u64 b \<longleftrightarrow> a = b"
  by (simp add: u256_from_u64_def)

lemma unat_add_step_sum:
  fixes a b :: u8 and c :: u16
  assumes "c \<le> 1"
  shows "unat ((ucast a :: u16) + ucast b + c) = unat a + unat b + unat c"
proof -
  have c: "unat c \<le> 1" using assms by (simp add: word_le_nat_alt)
  have "unat (ucast a :: u16) = unat a" "unat (ucast b :: u16) = unat b"
    using unat_u8_less[of a] unat_u8_less[of b] by (simp_all add: unsigned_ucast_eq take_bit_eq_mod)
  with c show ?thesis using unat_u8_less[of a] unat_u8_less[of b]
    by (simp add: unat_word_ariths)
qed

text \<open>One step of the loop keeps the weighted sum of the suffix it has processed.\<close>

lemma add_step_correct:
  assumes "length l = n" "i < n" "c \<le> 1" "add_step right (l, c) i = (l', c')"
  shows "length l' = n" "c' \<le> 1" "take i l' = take i l" "drop (Suc i) l' = drop (Suc i) l"
    "unat (l' ! i) + 256 * unat c' = unat (l ! i) + unat (right ! i) + unat c"
proof -
  let ?s = "(ucast (l ! i) :: u16) + ucast (right ! i) + c"
  have s: "unat ?s = unat (l ! i) + unat (right ! i) + unat c"
    using assms(3) by (rule unat_add_step_sum)
  have l': "l' = l[i := ucast ?s]" and c': "c' = drop_bit 8 ?s"
    using assms(4) by (auto simp: add_step_def Let_def)
  show "length l' = n" using l' assms(1) by simp
  show "take i l' = take i l" "drop (Suc i) l' = drop (Suc i) l" using l' by simp_all
  have ub: "unat (l' ! i) = unat ?s mod 256"
    using assms(1,2) by (simp add: l' unsigned_ucast_eq take_bit_eq_mod)
  have "unat c \<le> 1" using assms(3) by (simp add: word_le_nat_alt)
  then have "unat ?s < 512"
    using s unat_u8_less[of "l ! i"] unat_u8_less[of "right ! i"] by linarith
  moreover from this have uc: "unat c' = unat ?s div 256"
    by (simp only: c' unsigned_drop_bit_eq) (simp add: drop_bit_eq_div take_bit_eq_mod)
  ultimately show "c' \<le> 1" using uc by (simp add: word_le_nat_alt)
  show "unat (l' ! i) + 256 * unat c' = unat (l ! i) + unat (right ! i) + unat c"
    using s ub uc by (metis mod_mult_div_eq mult.commute)
qed

lemma add_loop_correct:
  assumes "length left = n" "length right = n" "k \<le> n"
    and "foldl (add_step right) (left, 0) (rev [k..<n]) = (l, c)"
  shows "length l = n \<and> c \<le> 1 \<and> take k l = take k left \<and>
    from_be (drop k l) + 256 ^ (n - k) * unat c
      = from_be (drop k left) + from_be (drop k right)"
  using assms(3,4)
proof (induction "n - k" arbitrary: k l c)
  case 0
  then show ?case using assms(1,2) by auto
next
  case (Suc m)
  then have k: "k < n" by simp
  obtain l0 c0 where st: "foldl (add_step right) (left, 0) (rev [Suc k..<n]) = (l0, c0)"
    by fastforce
  have "add_step right (l0, c0) k = (l, c)"
    using Suc.prems(2) k st by (simp add: upt_conv_Cons)
  moreover have IH: "length l0 = n \<and> c0 \<le> 1 \<and> take (Suc k) l0 = take (Suc k) left \<and>
    from_be (drop (Suc k) l0) + 256 ^ (n - Suc k) * unat c0
      = from_be (drop (Suc k) left) + from_be (drop (Suc k) right)"
    using Suc.hyps(1)[of "Suc k"] Suc.hyps(2) st k by simp
  ultimately have step: "length l = n" "c \<le> 1" "take k l = take k l0"
    "drop (Suc k) l = drop (Suc k) l0"
    "unat (l ! k) + 256 * unat c = unat (l0 ! k) + unat (right ! k) + unat c0"
    using add_step_correct[of l0 n k c0 right l c] k by simp_all
  have same: "l0 ! k = left ! k" "take k l0 = take k left"
    using IH k assms(1) by (metis lessI nth_take, metis le_add2 plus_1_eq_Suc take_take min.absorb1)
  let ?w = "256 ^ (n - Suc k) :: nat"
  have d: "drop k xs = xs ! k # drop (Suc k) xs" "length (drop (Suc k) xs) = n - Suc k"
    if "length xs = n" for xs :: bytes
    using that k by (simp_all add: Cons_nth_drop_Suc)
  have w: "256 ^ (n - k) = 256 * ?w"
    using k by (simp add: Suc_diff_Suc[symmetric])
  have "from_be (drop k l) + 256 ^ (n - k) * unat c
      = (unat (l ! k) + 256 * unat c) * ?w + from_be (drop (Suc k) l0)"
    using d[OF step(1)] step(4) by (simp add: from_be_Cons w algebra_simps)
  also have "\<dots> = (unat (left ! k) + unat (right ! k)) * ?w
      + (from_be (drop (Suc k) l0) + ?w * unat c0)"
    by (simp only: step(5) same) (simp add: algebra_simps)
  also have "\<dots> = from_be (drop k left) + from_be (drop k right)"
    using IH d[OF assms(1)] d[OF assms(2)] by (simp add: from_be_Cons algebra_simps)
  finally show ?case using step same by simp
qed

lemma add_u256_sum:
  assumes "length left = 32" "length right = 32"
  shows "length (add_u256 left right) = 32"
    and "from_be (add_u256 left right) = (from_be left + from_be right) mod 2 ^ 256"
proof -
  obtain l c where st: "foldl (add_step right) (left, 0) (rev [0..<32]) = (l, c)"
    by fastforce
  from add_loop_correct[OF assms _ st]
  have len: "length l = 32"
    and sum: "from_be l + 256 ^ 32 * unat c = from_be left + from_be right" by simp_all
  show "length (add_u256 left right) = 32" by (simp only: add_u256_def st fst_conv len)
  have "from_be l < 256 ^ 32" using from_be_less[of l] len by simp
  then have "(from_be left + from_be right) mod 256 ^ 32 = from_be l"
    using sum by (metis mod_less mod_mult_self2)
  then show "from_be (add_u256 left right) = (from_be left + from_be right) mod 2 ^ 256"
    by (simp only: add_u256_def st fst_conv) simp
qed

lemma sum_amounts_snoc:
  "sum_amounts (ls @ [l]) = add_u256 (sum_amounts ls) (leaf_amount l)"
  by (simp add: sum_amounts_def)

lemma sum_amounts_mod:
  assumes "\<forall>l \<in> set ls. wf_leaf l"
  shows "length (sum_amounts ls) = 32 \<and>
    from_be (sum_amounts ls) = (\<Sum>l\<leftarrow>ls. from_be (leaf_amount l)) mod 2 ^ 256"
  using assms
proof (induction ls rule: rev_induct)
  case Nil
  then show ?case by (simp add: sum_amounts_def)
next
  case (snoc l ls)
  then have IH: "length (sum_amounts ls) = 32"
    "from_be (sum_amounts ls) = (\<Sum>l\<leftarrow>ls. from_be (leaf_amount l)) mod 2 ^ 256"
    and l: "length (leaf_amount l) = 32"
    by (simp_all add: wf_simps)
  show ?case
    unfolding sum_amounts_snoc
    using add_u256_sum[OF IH(1) l] IH(2) by (simp add: mod_add_left_eq)
qed

section \<open>Lock refs\<close>

lemma pack_ref_vals: "pack_words (ref_vals r) = Some (u256_from_u64 (ref_nonce r) @ ref_digest r)"
  by (simp add: ref_vals_def)

definition refs_buf :: "source_lock_ref list \<Rightarrow> bytes" where
  "refs_buf refs = concat (map (\<lambda>r. u256_from_u64 (ref_nonce r) @ ref_digest r) refs)"

definition ascending :: "source_lock_ref list \<Rightarrow> bool" where
  "ascending refs \<longleftrightarrow> sorted_wrt (<) (map ref_nonce refs)"

lemma refs_buf_simps [simp]:
  "refs_buf [] = []" "refs_buf (r # rs) = u256_from_u64 (ref_nonce r) @ ref_digest r @ refs_buf rs"
  by (simp_all add: refs_buf_def)

lemma ascending_Cons:
  "ascending (r # rs) \<longleftrightarrow> (\<forall>x \<in> set rs. ref_nonce r < ref_nonce x) \<and> ascending rs"
  by (auto simp: ascending_def)

lemma lock_ref_loop_Some:
  "lock_ref_loop (Some p) buf refs = Ok out \<longleftrightarrow>
   (\<forall>r \<in> set refs. p < ref_nonce r) \<and> ascending refs \<and> out = buf @ refs_buf refs"
proof (induction refs arbitrary: p buf)
  case Nil
  then show ?case by (auto simp: ascending_def)
next
  case (Cons r rs)
  then show ?case by (auto simp: ascending_Cons pack_ref_vals)
qed

lemma lock_ref_loop_None:
  "lock_ref_loop None buf refs = Ok out \<longleftrightarrow> ascending refs \<and> out = buf @ refs_buf refs"
  by (cases refs) (auto simp: lock_ref_loop_Some ascending_Cons pack_ref_vals ascending_def)

lemma lock_ref_root_Ok_iff:
  "lock_ref_root keccak refs = Ok root \<longleftrightarrow> ascending refs \<and> root = keccak (refs_buf refs)"
  by (auto simp: lock_ref_root_def and_then_Ok_iff lock_ref_loop_None)

text \<open>The kind of a refusal: the first adjacent pair that does not ascend decides it.\<close>

fun first_descent :: "u64 list \<Rightarrow> bridge_core_error option" where
  "first_descent (a # b # ns) =
     (if b = a then Some DuplicateLockRefNonce
      else if b < a then Some LockRefsNotSorted
      else first_descent (b # ns))"
| "first_descent _ = None"

lemma lock_ref_loop_Err:
  "lock_ref_loop (Some p) buf refs = Err e \<longleftrightarrow> first_descent (p # map ref_nonce refs) = Some e"
  by (induction refs arbitrary: p buf) (auto simp: not_less)

lemma lock_ref_root_Err_iff:
  "lock_ref_root keccak refs = Err e \<longleftrightarrow> first_descent (map ref_nonce refs) = Some e"
  by (cases refs) (auto simp: lock_ref_root_def lock_ref_loop_Err and_then_Err_iff)

lemma first_descent_sorted:
  "sorted ns \<Longrightarrow> first_descent ns = (if distinct ns then None else Some DuplicateLockRefNonce)"
  by (induction ns rule: first_descent.induct) auto

lemma sorted_lock_ref_root_cases:
  "sorted_lock_ref_root keccak refs =
     (if distinct (map ref_nonce refs) then Ok (keccak (refs_buf (sort_key ref_nonce refs)))
      else Err DuplicateLockRefNonce)"
proof -
  let ?s = "sort_key ref_nonce refs"
  have d: "distinct (map ref_nonce ?s) = distinct (map ref_nonce refs)"
    by (simp add: distinct_map)
  have s: "sorted (map ref_nonce ?s)" by simp
  show ?thesis
  proof (cases "distinct (map ref_nonce refs)")
    case True
    then have "ascending ?s" using d s by (simp add: ascending_def strict_sorted_iff)
    with True show ?thesis by (simp add: sorted_lock_ref_root_def lock_ref_root_Ok_iff)
  next
    case False
    with d s have "first_descent (map ref_nonce ?s) = Some DuplicateLockRefNonce"
      by (simp add: first_descent_sorted)
    with False show ?thesis by (simp add: sorted_lock_ref_root_def lock_ref_root_Err_iff)
  qed
qed

section \<open>Injectivity of the committed encodings\<close>

lemma ref_bufs_inj:
  assumes "\<forall>r \<in> set rs. wf_ref r" "\<forall>r \<in> set ss. wf_ref r" "refs_buf rs = refs_buf ss"
  shows "rs = ss"
  using assms
proof (induction rs arbitrary: ss)
  case Nil
  then show ?case by (cases ss) (auto simp: u256_from_u64_def)
next
  case (Cons r rs)
  then obtain s ss' where ss: "ss = s # ss'" by (cases ss) (auto simp: u256_from_u64_def)
  with Cons.prems have "length (ref_digest r) = length (ref_digest s)"
    by (simp add: wf_simps)
  with Cons ss show ?case by (auto intro: source_lock_ref.equality)
qed

definition leaf_buf :: "return_leaf \<Rightarrow> bytes" where
  "leaf_buf l =
     leaf_nullifier l @ (replicate 12 0 @ leaf_recipient l) @ leaf_amount l
     @ (replicate 12 0 @ leaf_fee_recipient l) @ leaf_fee_amount l
     @ (replicate 24 0 @ be64 (leaf_deadline l))"

lemma return_root_buf_Cons: "return_root_buf (l # ls) = leaf_buf l @ return_root_buf ls"
  by (simp add: leaf_vals_def leaf_buf_def)

lemma length_leaf_buf: "wf_leaf l \<Longrightarrow> length (leaf_buf l) = 192"
  by (simp add: leaf_buf_def wf_simps)

lemma leaf_buf_inj:
  "wf_leaf l \<Longrightarrow> wf_leaf m \<Longrightarrow> leaf_buf l = leaf_buf m \<Longrightarrow> l = m"
  by (rule return_leaf.equality) (simp_all add: leaf_buf_def wf_simps)

lemma length_return_root_buf:
  "\<forall>l \<in> set ls. wf_leaf l \<Longrightarrow> length (return_root_buf ls) = 192 * length ls"
  by (induction ls) (auto simp: return_root_buf_Cons length_leaf_buf simp del: return_root_buf.simps(2))

lemma return_root_buf_inj:
  assumes "\<forall>l \<in> set ls. wf_leaf l" "\<forall>l \<in> set ms. wf_leaf l"
    "return_root_buf ls = return_root_buf ms"
  shows "ls = ms"
  using assms
proof (induction ls arbitrary: ms)
  case Nil
  then show ?case using length_return_root_buf[of ms] by simp
next
  case (Cons l ls)
  obtain m ms' where ms: "ms = m # ms'"
    using Cons.prems length_return_root_buf[of "l # ls"] by (cases ms) auto
  have wf: "wf_leaf l" "wf_leaf m" using Cons.prems ms by simp_all
  have "leaf_buf l = leaf_buf m \<and> return_root_buf ls = return_root_buf ms'"
    using Cons.prems(3) length_leaf_buf[OF wf(1)] length_leaf_buf[OF wf(2)]
    unfolding ms return_root_buf_Cons by (simp add: append_eq_append_conv)
  then show ?case using Cons.IH[of ms'] Cons.prems ms leaf_buf_inj[OF wf] by simp
qed

definition config_body :: "bridge_config \<Rightarrow> bytes" where
  "config_body c =
     (replicate 24 0 @ be64 (cfg_source_chain_id c)) @ (replicate 12 0 @ cfg_vault c)
     @ (replicate 12 0 @ cfg_asset c) @ cfg_token_type c @ cfg_coin_id c
     @ (replicate 24 0 @ be64 (cfg_reason_tag c)) @ cfg_lock_domain c @ cfg_nullifier_domain c"

lemma abi_config_vals:
  "the (abi_encode (config_vals c)) =
     word_u64 288 @ config_body c @ word_u64 (of_nat (length DOMAIN_CONFIG))
     @ pad32 (as_bytes DOMAIN_CONFIG)"
  by (simp add: config_vals_def config_body_def abi_encode_leading_str[where out = "config_body c"])

lemma config_body_inj:
  "wf_config c \<Longrightarrow> wf_config d \<Longrightarrow> config_body c = config_body d \<Longrightarrow> c = d"
  by (auto simp: config_body_def wf_simps intro!: bridge_config.equality)

lemma length_config_body: "wf_config c \<Longrightarrow> length (config_body c) = 256"
  by (simp add: config_body_def wf_simps)

lemma abi_config_inj:
  assumes "wf_config c" "wf_config d"
    "the (abi_encode (config_vals c)) = the (abi_encode (config_vals d))"
  shows "c = d"
  using assms length_config_body[OF assms(1)] length_config_body[OF assms(2)]
  by (auto simp: abi_config_vals intro: config_body_inj)

definition lock_body :: "bridge_config \<Rightarrow> lock_record \<Rightarrow> bytes" where
  "lock_body c r =
     (replicate 24 0 @ be64 (cfg_source_chain_id c)) @ (replicate 12 0 @ cfg_vault c)
     @ u256_from_u64 (lock_nonce r) @ (replicate 12 0 @ cfg_asset c) @ cfg_token_type c
     @ cfg_coin_id c @ lock_amount r @ lock_unicity_token_id r @ lock_recipient_commitment r"

lemma abi_lock_vals:
  "the (abi_encode (lock_vals c r)) =
     word_u64 320 @ lock_body c r @ word_u64 (of_nat (length DOMAIN_LOCK))
     @ pad32 (as_bytes DOMAIN_LOCK)"
  by (simp add: lock_vals_def lock_body_def abi_encode_leading_str[where out = "lock_body c r"])

lemma abi_lock_inj:
  assumes "wf_config c" "wf_config d" "wf_lock_record r" "wf_lock_record s"
    "the (abi_encode (lock_vals c r)) = the (abi_encode (lock_vals d s))"
  shows "r = s \<and> cfg_source_chain_id c = cfg_source_chain_id d \<and> cfg_vault c = cfg_vault d
    \<and> cfg_asset c = cfg_asset d"
  using assms by (auto simp: abi_lock_vals lock_body_def wf_simps intro!: lock_record.equality)

text \<open>A lock digest and a config hash are never taken over the same bytes.\<close>

lemma abi_lock_config_distinct:
  "the (abi_encode (lock_vals c r)) \<noteq> the (abi_encode (config_vals d))"
  by (simp add: abi_lock_vals abi_config_vals)

section \<open>Minimal big-endian amounts\<close>

lemma position_Some:
  "position p xs = Some i \<longleftrightarrow> i < length xs \<and> p (xs ! i) \<and> (\<forall>j < i. \<not> p (xs ! j))"
proof (induction xs arbitrary: i)
  case (Cons x xs)
  then show ?case by (cases i) (auto simp: All_less_Suc2)
qed simp

lemma position_None: "position p xs = None \<longleftrightarrow> (\<forall>x \<in> set xs. \<not> p x)"
  by (induction xs) auto

lemma drop_position:
  "(case position p xs of Some i \<Rightarrow> drop i xs | None \<Rightarrow> []) = dropWhile (\<lambda>x. \<not> p x) xs"
  by (induction xs) (auto split: option.splits)

lemma minimal_be_dropWhile:
  "length v = 32 \<Longrightarrow> minimal_be v = dropWhile (\<lambda>b. b = 0) v"
  using drop_position[where p = "\<lambda>b. b \<noteq> 0" and xs = v]
  by (auto simp: minimal_be_def split: option.splits)

lemma from_be_dropWhile0: "from_be (dropWhile (\<lambda>b. b = 0) v) = from_be v"
  by (induction v) (auto simp: from_be_Cons)

lemma dropWhile0_pad:
  "replicate (length v - length (dropWhile (\<lambda>b. b = 0) v)) 0 @ dropWhile (\<lambda>b. b = 0) v = (v :: bytes)"
proof (induction v)
  case (Cons b v)
  have "length (dropWhile (\<lambda>b. b = 0) v) \<le> length v" by (rule length_dropWhile_le)
  with Cons show ?case by (auto simp: Suc_diff_le)
qed simp

lemma minimal_be_pad:
  "length v = 32 \<Longrightarrow> replicate (32 - length (minimal_be v)) 0 @ minimal_be v = v"
  using dropWhile0_pad[of v] by (simp add: minimal_be_dropWhile)

lemma minimal_be_length: "length v = 32 \<Longrightarrow> length (minimal_be v) \<le> 32"
  using length_dropWhile_le[of _ v] by (simp add: minimal_be_dropWhile)

lemma minimal_be_hd: "length v = 32 \<Longrightarrow> minimal_be v \<noteq> [] \<Longrightarrow> hd (minimal_be v) \<noteq> 0"
  using hd_dropWhile[of "\<lambda>b. b = 0" v] by (simp add: minimal_be_dropWhile)

lemma minimal_be_inj:
  assumes "length v = 32" "length w = 32"
  shows "minimal_be v = minimal_be w \<longleftrightarrow> v = w"
proof
  assume eq: "minimal_be v = minimal_be w"
  have "v = replicate (32 - length (minimal_be v)) 0 @ minimal_be v"
    by (simp only: minimal_be_pad[OF assms(1)])
  also have "\<dots> = w" by (simp only: eq minimal_be_pad[OF assms(2)])
  finally show "v = w" .
qed simp

section \<open>CBOR commitments\<close>

lemma reason_cbor_eq:
  assumes "wf_config c" "wf_reason r" "wf_config d" "wf_reason s"
    and "reason_cbor c r = reason_cbor d s"
  shows "r = s \<and> cfg_reason_tag c = cfg_reason_tag d
    \<and> cfg_source_chain_id c = cfg_source_chain_id d \<and> cfg_vault c = cfg_vault d
    \<and> cfg_asset c = cfg_asset d \<and> cfg_token_type c = cfg_token_type d
    \<and> cfg_coin_id c = cfg_coin_id d"
proof -
  have u: "cbor_uint a = cbor_uint b \<longleftrightarrow> a = b" for a b
    using cbor_uint_inj[of a "[]" b "[]"] by simp
  have m: "length (minimal_be v) < 18446744073709551616" if "length v = 32" for v
    using minimal_be_length[OF that] by simp
  from assms(5) assms(1-4) show ?thesis
    unfolding reason_cbor_def
    by (auto simp add: wf_simps cbor_tag_inj array_header_inj cbor_uint_inj cbor_bytes_inj m u
        minimal_be_inj intro!: bridge_back_reason.equality)
qed

definition burn_preimage :: "bytes \<Rightarrow> bytes \<Rightarrow> bytes" where
  "burn_preimage state_id tx_hash =
     array_header 3 @ cbor_text DOMAIN_BURN_TRANSITION @ cbor_bytes state_id @ cbor_bytes tx_hash"

definition nullifier_preimage :: "bytes \<Rightarrow> bytes \<Rightarrow> bytes" where
  "nullifier_preimage cfg_hash burn_id =
     array_header 3 @ cbor_text DOMAIN_NULLIFIER @ cbor_bytes cfg_hash @ cbor_bytes burn_id"

lemma burn_transition_id_eq:
  "burn_transition_id sha256 s t = sha256 (burn_preimage s t)"
  by (simp add: burn_transition_id_def burn_preimage_def h_array_def)

lemma nullifier_eq: "nullifier sha256 c b = sha256 (nullifier_preimage c b)"
  by (simp add: nullifier_def nullifier_preimage_def h_array_def)

lemma cbor_bytes_tail_inj:
  "length a < 2 ^ 64 \<Longrightarrow> length b < 2 ^ 64 \<Longrightarrow> cbor_bytes a = cbor_bytes b \<longleftrightarrow> a = b"
  using cbor_bytes_inj[of a b "[]" "[]"] by simp

lemma burn_preimage_inj:
  assumes "length s = 32" "length t = 32" "length s' = 32" "length t' = 32"
  shows "burn_preimage s t = burn_preimage s' t' \<longleftrightarrow> s = s' \<and> t = t'"
  using assms by (simp add: burn_preimage_def cbor_bytes_inj cbor_bytes_tail_inj)

lemma nullifier_preimage_inj:
  assumes "length c = 32" "length b = 32" "length c' = 32" "length b' = 32"
  shows "nullifier_preimage c b = nullifier_preimage c' b' \<longleftrightarrow> c = c' \<and> b = b'"
  using assms by (simp add: nullifier_preimage_def cbor_bytes_inj cbor_bytes_tail_inj)

lemma burn_nullifier_distinct: "burn_preimage s t \<noteq> nullifier_preimage c b"
proof -
  have "cbor_text DOMAIN_BURN_TRANSITION @ r \<noteq> cbor_text DOMAIN_NULLIFIER @ r'" for r r'
    by (subst cbor_text_inj) (simp_all add: DOMAIN_BURN_TRANSITION_def DOMAIN_NULLIFIER_def)
  then show ?thesis by (simp add: burn_preimage_def nullifier_preimage_def)
qed

section \<open>Public values\<close>

lemma pack_public_vals:
  "public_values_abi p =
     pv_domain_tag p @ pv_config_hash p @ pv_trust_base_hash p @ pv_spent_root_old p
     @ pv_spent_root_new p @ pv_return_root p @ pv_lock_ref_root p
     @ (replicate 28 0 @ be32 (pv_batch_size p)) @ pv_total_amount p"
  unfolding public_values_abi_def
  by (subst abi_encode_static[where out = "pv_domain_tag p @ pv_config_hash p @
     pv_trust_base_hash p @ pv_spent_root_old p @ pv_spent_root_new p @ pv_return_root p @
     pv_lock_ref_root p @ (replicate 28 0 @ be32 (pv_batch_size p)) @ pv_total_amount p"])
    (simp_all add: public_vals_def)

lemma length_public_values_abi: "wf_public_values p \<Longrightarrow> length (public_values_abi p) = 288"
  by (simp add: pack_public_vals wf_simps)

lemma public_values_abi_eq:
  "wf_public_values p \<Longrightarrow> wf_public_values q \<Longrightarrow> public_values_abi p = public_values_abi q
   \<Longrightarrow> p = q"
  by (rule public_values.equality) (simp_all add: pack_public_vals wf_simps)

lemma validate_public_values_Ok:
  "validate_public_values keccak c p ls rs = Ok () \<longleftrightarrow>
     pv_domain_tag p = domain_tag keccak \<and> pv_config_hash p = config_hash keccak c
     \<and> pv_return_root p = return_root keccak ls \<and> ascending rs
     \<and> pv_lock_ref_root p = keccak (refs_buf rs) \<and> pv_batch_size p = of_nat (length ls)
     \<and> pv_total_amount p = sum_amounts ls"
  by (auto simp: validate_public_values_def and_then_Ok_iff lock_ref_root_Ok_iff)

section \<open>Properties\<close>

text \<open>The batch total is the sum of the leaf amounts as integers modulo 2^256: it is a
  32-byte word, and it is the exact sum whenever that sum fits in 256 bits.\<close>

theorem sum_amounts_correct:
  assumes "\<forall>l \<in> set leaves. wf_leaf l"
  shows "length (sum_amounts leaves) = 32 \<and>
    from_be (sum_amounts leaves) = (\<Sum>l\<leftarrow>leaves. from_be (leaf_amount l)) mod 2 ^ 256"
  using assms by (rule sum_amounts_mod)

definition wit_leaf :: "u8 \<Rightarrow> u64 \<Rightarrow> return_leaf" where
  "wit_leaf n a = \<lparr>leaf_nullifier = replicate 32 n, leaf_recipient = replicate 20 1,
     leaf_amount = u256_from_u64 a, leaf_fee_recipient = replicate 20 0,
     leaf_fee_amount = replicate 32 0, leaf_deadline = 0\<rparr>"

lemma wit_leaf_wf [simp]: "wf_leaf (wit_leaf n a)"
  by (simp add: wit_leaf_def wf_simps)

theorem sum_amounts_correct_witness:
  "from_be (sum_amounts [wit_leaf 1 3, wit_leaf 2 4]) = 7"
  using sum_amounts_correct[of "[wit_leaf 1 3, wit_leaf 2 4]"] by (simp add: wit_leaf_def wf_simps)

text \<open>C12. \<open>lock_ref_root\<close> accepts exactly the lists whose nonces strictly ascend, and then
  commits to the concatenated nonce and digest words; a refusal names the first adjacent
  pair that does not ascend, as a duplicate if the two are equal and as unsorted otherwise.\<close>

theorem lock_ref_root_spec:
  "(lock_ref_root keccak refs = Ok root \<longleftrightarrow>
      sorted_wrt (<) (map ref_nonce refs) \<and> root = keccak (refs_buf refs)) \<and>
   (lock_ref_root keccak refs = Err e \<longleftrightarrow> first_descent (map ref_nonce refs) = Some e)"
  by (simp add: lock_ref_root_Ok_iff lock_ref_root_Err_iff ascending_def)

lemma filter_key_distinct:
  "distinct (map f xs) \<Longrightarrow> k \<in> set xs \<Longrightarrow> filter (\<lambda>x. f k = f x) xs = [k]"
proof (induction xs)
  case (Cons x xs)
  show ?case
  proof (cases "k = x")
    case True
    have "filter (\<lambda>y. f x = f y) xs = []"
      using Cons.prems(1) by (force simp: filter_empty_conv)
    with True show ?thesis by simp
  next
    case False
    with Cons.prems have "k \<in> set xs" "f k \<noteq> f x" by (auto simp: image_iff)
    with Cons show ?thesis by simp
  qed
qed simp

lemma sort_key_perm:
  assumes "mset xs = mset ys" "distinct (map f xs)"
  shows "sort_key f xs = sort_key f ys"
proof (rule properties_for_sort_key)
  have d: "distinct (map f ys)" "distinct (map f (sort_key f ys))"
    using assms by (simp_all add: distinct_map) (metis mset_eq_imp_distinct_iff mset_map distinct_map)+
  have set_eq: "set (sort_key f ys) = set xs" using assms(1) by (metis set_sort mset_eq_setD)
  show "mset (sort_key f ys) = mset xs" using assms(1) by simp
  fix k assume "k \<in> set (sort_key f ys)"
  then show "filter (\<lambda>x. f k = f x) (sort_key f ys) = filter (\<lambda>x. f k = f x) xs"
    using filter_key_distinct[OF d(2)] filter_key_distinct[OF assms(2)] set_eq by simp
qed simp

text \<open>\<open>sorted_lock_ref_root\<close> succeeds exactly when the nonces are distinct, is blind to
  the order of its input, and agrees with \<open>lock_ref_root\<close> on the sorted list.\<close>

theorem sorted_lock_ref_root_spec:
  assumes "mset refs = mset refs'"
  shows "sorted_lock_ref_root keccak refs = sorted_lock_ref_root keccak refs'
    \<and> is_ok (sorted_lock_ref_root keccak refs) = distinct (map ref_nonce refs)"
proof -
  have "distinct (map ref_nonce refs) = distinct (map ref_nonce refs')"
    using assms by (metis mset_eq_imp_distinct_iff mset_map)
  then show ?thesis using sort_key_perm[OF assms, of ref_nonce]
    by (simp add: sorted_lock_ref_root_cases)
qed

definition wit_ref :: "u64 \<Rightarrow> source_lock_ref" where
  "wit_ref n = \<lparr>ref_nonce = n, ref_digest = replicate 32 7\<rparr>"

theorem sorted_lock_ref_root_witness:
  "sorted_lock_ref_root id [wit_ref 9, wit_ref 4] = sorted_lock_ref_root id [wit_ref 4, wit_ref 9]
   \<and> is_ok (sorted_lock_ref_root id [wit_ref 9, wit_ref 4])"
proof -
  have m: "mset [wit_ref 9, wit_ref 4] = mset [wit_ref 4, wit_ref 9]" by simp
  have d: "distinct (map ref_nonce [wit_ref 9, wit_ref 4])" by (simp add: wit_ref_def)
  from sorted_lock_ref_root_spec[OF m, of id] d show ?thesis by blast
qed

text \<open>The byte strings that the three Keccak commitments of the public values are taken over.\<close>

definition commitments :: "bridge_config \<Rightarrow> return_leaf list \<Rightarrow> source_lock_ref list \<Rightarrow> bytes set" where
  "commitments c ls rs =
     {the (abi_encode (config_vals c)), return_root_buf ls, refs_buf rs}"

text \<open>C10. The public values determine the batch: two instances that validate against the same
  public values have the same deployment config, the same leaves in the same order and the
  same lock refs, unless Keccak collides on the byte strings the two instances commit to.\<close>

theorem public_values_binding:
  assumes "validate_public_values keccak c pv ls rs = Ok ()"
    and "validate_public_values keccak d pv ms ss = Ok ()"
    and "wf_config c" "wf_config d" "\<forall>l \<in> set ls. wf_leaf l" "\<forall>l \<in> set ms. wf_leaf l"
    and "\<forall>r \<in> set rs. wf_ref r" "\<forall>r \<in> set ss. wf_ref r"
    and "inj_on keccak (commitments c ls rs \<union> commitments d ms ss)"
  shows "c = d \<and> ls = ms \<and> rs = ss"
proof -
  have eq: "keccak (the (abi_encode (config_vals c))) = keccak (the (abi_encode (config_vals d)))"
    "keccak (return_root_buf ls) = keccak (return_root_buf ms)"
    "keccak (refs_buf rs) = keccak (refs_buf ss)"
    using assms(1,2) unfolding validate_public_values_Ok config_hash_def return_root_def by auto
  from assms(9) have inj: "x = y"
    if "keccak x = keccak y" "x \<in> commitments c ls rs" "y \<in> commitments d ms ss" for x y
    using that by (auto dest: inj_onD)
  have "the (abi_encode (config_vals c)) = the (abi_encode (config_vals d))"
    "return_root_buf ls = return_root_buf ms" "refs_buf rs = refs_buf ss"
    using inj[OF eq(1)] inj[OF eq(2)] inj[OF eq(3)] by (simp_all add: commitments_def)
  with assms(3-8) show ?thesis
    using abi_config_inj return_root_buf_inj ref_bufs_inj by blast
qed

definition wit_config :: bridge_config where
  "wit_config = \<lparr>cfg_source_chain_id = 1, cfg_vault = replicate 20 0x11,
     cfg_asset = replicate 20 0x22, cfg_token_type = replicate 32 0x33,
     cfg_coin_id = replicate 32 0x44, cfg_reason_tag = 39048,
     cfg_lock_domain = replicate 32 0x55, cfg_nullifier_domain = replicate 32 0x66\<rparr>"

lemma wit_config_wf [simp]: "wf_config wit_config"
  by (simp add: wit_config_def wf_simps)

definition wit_public :: "return_leaf list \<Rightarrow> source_lock_ref list \<Rightarrow> public_values" where
  "wit_public ls rs = \<lparr>pv_domain_tag = domain_tag id, pv_config_hash = config_hash id wit_config,
     pv_trust_base_hash = replicate 32 0x88, pv_spent_root_old = replicate 32 0,
     pv_spent_root_new = replicate 32 0x99, pv_return_root = return_root id ls,
     pv_lock_ref_root = refs_buf rs, pv_batch_size = of_nat (length ls),
     pv_total_amount = sum_amounts ls\<rparr>"

lemma wit_public_valid:
  "ascending rs \<Longrightarrow> validate_public_values id wit_config (wit_public ls rs) ls rs = Ok ()"
  by (simp add: validate_public_values_Ok wit_public_def)

theorem public_values_binding_witness:
  "validate_public_values id wit_config (wit_public [wit_leaf 1 3] [wit_ref 4]) [wit_leaf 1 3]
     [wit_ref 4] = Ok () \<and> [wit_leaf 1 3] = [wit_leaf 1 3]"
proof -
  have v: "validate_public_values id wit_config (wit_public [wit_leaf 1 3] [wit_ref 4])
      [wit_leaf 1 3] [wit_ref 4] = Ok ()"
    by (rule wit_public_valid) (simp add: ascending_def)
  have w1: "\<forall>l \<in> set [wit_leaf 1 3]. wf_leaf l" by simp
  have w2: "\<forall>r \<in> set [wit_ref 4]. wf_ref r" by (simp add: wit_ref_def wf_simps)
  show ?thesis
    using public_values_binding[OF v v wit_config_wf wit_config_wf w1 w1 w2 w2] v by simp
qed

text \<open>Nullifiers are unique per burn: two burns of the same deployment that yield the same
  nullifier have the same state id and transaction hash, unless SHA-256 collides on the four
  byte strings involved. A burn id and a nullifier are never hashes of the same bytes.\<close>

theorem nullifier_unique:
  assumes "length cfg = 32" "length s = 32" "length t = 32" "length s' = 32" "length t' = 32"
    and "\<forall>x \<in> {burn_preimage s t, burn_preimage s' t'}. length (sha256 x) = 32"
    and "inj_on sha256 {burn_preimage s t, burn_preimage s' t',
           nullifier_preimage cfg (burn_transition_id sha256 s t),
           nullifier_preimage cfg (burn_transition_id sha256 s' t')}"
    and "nullifier sha256 cfg (burn_transition_id sha256 s t)
         = nullifier sha256 cfg (burn_transition_id sha256 s' t')"
  shows "s = s' \<and> t = t'"
proof -
  have len: "length (burn_transition_id sha256 s t) = 32" "length (burn_transition_id sha256 s' t') = 32"
    using assms(6) by (simp_all add: burn_transition_id_eq)
  have "nullifier_preimage cfg (burn_transition_id sha256 s t)
      = nullifier_preimage cfg (burn_transition_id sha256 s' t')"
    using assms(7,8) unfolding nullifier_eq by (auto dest: inj_onD)
  then have "burn_transition_id sha256 s t = burn_transition_id sha256 s' t'"
    using nullifier_preimage_inj[OF assms(1) len(1) assms(1) len(2)] by blast
  then have "burn_preimage s t = burn_preimage s' t'"
    using assms(7) unfolding burn_transition_id_eq by (auto dest: inj_onD)
  then show ?thesis using burn_preimage_inj[OF assms(2-5)] by blast
qed

text \<open>A concrete function from byte strings to 32 bytes for the witnesses: the length.\<close>

definition len32 :: "bytes \<Rightarrow> bytes" where
  "len32 xs = be_nat 32 (length xs)"

lemma length_len32 [simp]: "length (len32 xs) = 32"
  by (simp add: len32_def)

theorem nullifier_unique_witness:
  "length (nullifier len32 (replicate 32 3) (burn_transition_id len32 (replicate 32 2) (replicate 32 1))) = 32
   \<and> replicate 32 2 = (replicate 32 2 :: bytes)"
proof -
  let ?s = "replicate 32 2 :: bytes" and ?t = "replicate 32 1 :: bytes" and ?c = "replicate 32 3 :: bytes"
  let ?A = "burn_preimage ?s ?t"
  let ?B = "nullifier_preimage ?c (burn_transition_id len32 ?s ?t)"
  have m: "length (major m 26) = 2" "length (major m 34) = 2" "length (major m 32) = 2" for m
    by (simp_all add: major_def Let_def)
  have "length ?A = 1 + 2 + 26 + 34 + 34"
    by (simp add: burn_preimage_def cbor_text_def cbor_bytes_def array_header_def m
        DOMAIN_BURN_TRANSITION_def major_def Let_def)
  moreover have "length ?B = 1 + 2 + 34 + 34 + 34"
    by (simp add: nullifier_preimage_def cbor_text_def cbor_bytes_def array_header_def m
        DOMAIN_NULLIFIER_def burn_transition_id_eq major_def Let_def)
  ultimately have "from_be (len32 ?A) \<noteq> from_be (len32 ?B)"
    by (simp add: len32_def from_be_be_nat)
  then have inj: "inj_on len32 {?A, ?A, ?B, ?B}" by (auto simp: inj_on_def)
  have "?s = ?s \<and> ?t = ?t"
    by (rule nullifier_unique[OF _ _ _ _ _ _ inj refl]) simp_all
  then show ?thesis by (simp add: nullifier_eq)
qed

end
