(* ===== verification/Accumulator.thy ===== *)
theory Accumulator
  imports Core
begin

text \<open>
  Model of \<open>prover/crates/sdk-ext/src/accumulator.rs\<close>: the depth-256 sparse Merkle
  presence accumulator of nullifiers. \<open>sha\<close> is the SHA-256 of the token SDK. A panic of
  the code (an index out of bounds) is the outer \<open>None\<close>. The specification is
  \<open>tree_hash\<close>, the plain hash of the full binary tree of a set of keys; the code's
  shortcuts (tables of empty subtrees, single-key paths, stateless folds) are proved
  equal to it.
\<close>

section \<open>Data\<close>

definition EMPTY_TREE_ROOT :: bytes where "EMPTY_TREE_ROOT = replicate 32 0"
definition LEAF_PREFIX :: u8 where "LEAF_PREFIX = 0"
definition NODE_PREFIX :: u8 where "NODE_PREFIX = 1"
definition PRESENCE_VALUE :: u8 where "PRESENCE_VALUE = 1"
definition DEPTH :: nat where "DEPTH = 256"
definition MAX_STEPS :: nat where "MAX_STEPS = 256"

record smt_proof_step =
  step_depth :: u8
  step_sibling :: bytes

datatype terminal = Empty | Occupied bytes

record witness =
  wit_terminal :: terminal
  wit_steps :: "smt_proof_step list"

definition mk_step :: "u8 \<Rightarrow> bytes \<Rightarrow> smt_proof_step" where
  "mk_step d h = \<lparr>step_depth = d, step_sibling = h\<rparr>"

lemma mk_step_simps [simp]: "step_depth (mk_step d h) = d" "step_sibling (mk_step d h) = h"
  by (simp_all add: mk_step_def)

section \<open>Hashing\<close>

definition bit_at :: "bytes \<Rightarrow> nat \<Rightarrow> bool" where
  "bit_at data index = (drop_bit (index mod 8) (data ! (index div 8)) AND 1 = 1)"

definition leaf_preimage :: "bytes \<Rightarrow> bytes" where
  "leaf_preimage key = LEAF_PREFIX # key @ [PRESENCE_VALUE]"

definition node_preimage :: "u8 \<Rightarrow> bytes \<Rightarrow> bytes \<Rightarrow> bytes" where
  "node_preimage depth left right = [NODE_PREFIX, depth] @ left @ right"

definition leaf_hash :: "(bytes \<Rightarrow> bytes) \<Rightarrow> bytes \<Rightarrow> bytes" where
  "leaf_hash sha key = sha (leaf_preimage key)"

definition node_hash :: "(bytes \<Rightarrow> bytes) \<Rightarrow> u8 \<Rightarrow> bytes \<Rightarrow> bytes \<Rightarrow> bytes" where
  "node_hash sha depth left right = sha (node_preimage depth left right)"

definition empty_hashes :: "(bytes \<Rightarrow> bytes) \<Rightarrow> bytes list" where
  "empty_hashes sha =
     foldl (\<lambda>table depth. table[depth :=
              node_hash sha (of_nat depth) (table ! (depth + 1)) (table ! (depth + 1))])
       ((replicate (DEPTH + 1) (replicate 32 0))[DEPTH := EMPTY_TREE_ROOT])
       (rev [0..<DEPTH])"

definition key_step ::
  "(bytes \<Rightarrow> bytes) \<Rightarrow> bytes list \<Rightarrow> bytes \<Rightarrow> bytes \<Rightarrow> nat \<Rightarrow> bytes" where
  "key_step sha empties key h level =
     (let sibling = empties ! (level + 1)
      in if bit_at key level then node_hash sha (of_nat level) sibling h
         else node_hash sha (of_nat level) h sibling)"

definition single_key_hash ::
  "(bytes \<Rightarrow> bytes) \<Rightarrow> bytes \<Rightarrow> nat \<Rightarrow> bytes list \<Rightarrow> bytes" where
  "single_key_hash sha key depth empties =
     foldl (key_step sha empties key) (leaf_hash sha key) (rev [depth..<DEPTH])"

text \<open>Two equal keys would send the recursion past the last bit, where \<open>bit_at\<close> panics.\<close>

function subtree_hash ::
  "(bytes \<Rightarrow> bytes) \<Rightarrow> bytes list \<Rightarrow> bytes list \<Rightarrow> nat \<Rightarrow> bytes option" where
  "subtree_hash sha empties [] depth = Some (empties ! depth)"
| "subtree_hash sha empties [key] depth = Some (single_key_hash sha key depth empties)"
| "subtree_hash sha empties (k1 # k2 # ks) depth =
     (if DEPTH \<le> depth then None
      else let keys = k1 # k2 # ks;
               right = filter (\<lambda>k. bit_at k depth) keys;
               left = filter (\<lambda>k. \<not> bit_at k depth) keys
           in case subtree_hash sha empties left (depth + 1) of
                None \<Rightarrow> None
              | Some l \<Rightarrow>
                  (case subtree_hash sha empties right (depth + 1) of
                     None \<Rightarrow> None
                   | Some r \<Rightarrow> Some (node_hash sha (of_nat depth) l r)))"
  by pat_completeness auto
termination
  by (relation "measure (\<lambda>(_, _, _, depth). DEPTH - depth)") auto

definition first_differing_bit :: "bytes \<Rightarrow> bytes \<Rightarrow> nat option" where
  "first_differing_bit left right =
     find (\<lambda>depth. bit_at left depth \<noteq> bit_at right depth) [0..<DEPTH]"

section \<open>Stateless verification\<close>

fun fold_loop ::
  "(bytes \<Rightarrow> bytes) \<Rightarrow> bytes \<Rightarrow> u16 \<Rightarrow> bytes \<Rightarrow> smt_proof_step list \<Rightarrow> bytes option" where
  "fold_loop sha key previous_depth h [] = Some h"
| "fold_loop sha key previous_depth h (step # steps) =
     (if previous_depth \<le> ucast (step_depth step) then None
      else fold_loop sha key (ucast (step_depth step))
             (if bit_at key (unat (step_depth step))
              then node_hash sha (step_depth step) (step_sibling step) h
              else node_hash sha (step_depth step) h (step_sibling step)) steps)"

definition fold_steps ::
  "(bytes \<Rightarrow> bytes) \<Rightarrow> bytes \<Rightarrow> bytes \<Rightarrow> smt_proof_step list \<Rightarrow> bytes option" where
  "fold_steps sha key h steps = fold_loop sha key (of_nat DEPTH + 1) h steps"

text \<open>
  The subtraction \<open>top - i\<close> (\<open>top\<close> is \<open>first_depth\<close> here) of the code wraps at 64 bits in a release build, where it then
  differs from every \<open>u8\<close> depth.
\<close>

fun depths_loop :: "u64 \<Rightarrow> u64 \<Rightarrow> smt_proof_step list \<Rightarrow> bool" where
  "depths_loop first_depth i [] = True"
| "depths_loop first_depth i (step # steps) =
     (ucast (step_depth step) = first_depth - i \<and> depths_loop first_depth (i + 1) steps)"

definition terminal_depth :: "smt_proof_step list \<Rightarrow> nat option" where
  "terminal_depth steps =
     (case steps of
        [] \<Rightarrow> None
      | first # _ \<Rightarrow>
          (if \<not> depths_loop (ucast (step_depth first)) 0 steps then None
           else if step_depth (last steps) \<noteq> 0 then None
           else Some (unat (step_depth first) + 1)))"

definition rebuild_absent_root ::
  "(bytes \<Rightarrow> bytes) \<Rightarrow> bytes \<Rightarrow> witness \<Rightarrow> bytes list \<Rightarrow> bytes option" where
  "rebuild_absent_root sha key w empties =
     (if wit_terminal w \<noteq> Empty then None
      else if wit_steps w = [] then Some EMPTY_TREE_ROOT
      else if MAX_STEPS < length (wit_steps w) then None
      else case terminal_depth (wit_steps w) of
             None \<Rightarrow> None
           | Some td \<Rightarrow> fold_steps sha key (empties ! td) (wit_steps w))"

definition verify_non_member ::
  "(bytes \<Rightarrow> bytes) \<Rightarrow> bytes \<Rightarrow> bytes \<Rightarrow> witness \<Rightarrow> bool" where
  "verify_non_member sha root key w =
     (case rebuild_absent_root sha key w (empty_hashes sha) of
        None \<Rightarrow> False
      | Some rebuilt \<Rightarrow> rebuilt = root)"

definition acc_insert ::
  "(bytes \<Rightarrow> bytes) \<Rightarrow> bytes \<Rightarrow> bytes \<Rightarrow> witness \<Rightarrow> bytes option" where
  "acc_insert sha root key w =
     (let empties = empty_hashes sha
      in case rebuild_absent_root sha key w empties of
           None \<Rightarrow> None
         | Some rebuilt \<Rightarrow>
             if rebuilt \<noteq> root then None
             else if wit_steps w = [] then Some (single_key_hash sha key 0 empties)
             else case terminal_depth (wit_steps w) of
                    None \<Rightarrow> None
                  | Some td \<Rightarrow>
                      fold_steps sha key (single_key_hash sha key td empties) (wit_steps w))"

section \<open>The tree\<close>

type_synonym nullifier_tree = "bytes list"

definition tree_root :: "(bytes \<Rightarrow> bytes) \<Rightarrow> nullifier_tree \<Rightarrow> bytes option" where
  "tree_root sha keys =
     (if keys = [] then Some EMPTY_TREE_ROOT else subtree_hash sha (empty_hashes sha) keys 0)"

text \<open>
  The loop of \<open>non_membership_witness\<close>. The outer option is a panic, the inner one the
  value of the \<open>?\<close> on \<open>first_differing_bit\<close>.
\<close>

function witness_loop ::
  "(bytes \<Rightarrow> bytes) \<Rightarrow> bytes list \<Rightarrow> bytes \<Rightarrow> bytes list \<Rightarrow> nat \<Rightarrow> smt_proof_step list
   \<Rightarrow> smt_proof_step list option option" where
  "witness_loop sha empties key [] depth steps = Some (Some steps)"
| "witness_loop sha empties key [other] depth steps =
     (case first_differing_bit key other of
        None \<Rightarrow> Some None
      | Some f \<Rightarrow>
          Some (Some (steps @ map (\<lambda>d. mk_step (of_nat d) (empties ! (d + 1))) [depth..<f]
            @ [mk_step (of_nat f) (single_key_hash sha other (f + 1) empties)])))"
| "witness_loop sha empties key (k1 # k2 # ks) depth steps =
     (if DEPTH \<le> depth then None
      else let current = k1 # k2 # ks;
               go_right = bit_at key depth;
               mine = filter (\<lambda>k. bit_at k depth = go_right) current;
               sibling = filter (\<lambda>k. bit_at k depth \<noteq> go_right) current
           in case subtree_hash sha empties sibling (depth + 1) of
                None \<Rightarrow> None
              | Some h \<Rightarrow>
                  witness_loop sha empties key mine (depth + 1)
                    (steps @ [mk_step (of_nat depth) h]))"
  by pat_completeness auto
termination
  by (relation "measure (\<lambda>(_, _, _, _, depth, _). DEPTH - depth)") auto

definition non_membership_witness ::
  "(bytes \<Rightarrow> bytes) \<Rightarrow> nullifier_tree \<Rightarrow> bytes \<Rightarrow> witness option option" where
  "non_membership_witness sha keys key =
     (if \<exists>existing \<in> set keys. existing = key then Some None
      else case witness_loop sha (empty_hashes sha) key keys 0 [] of
             None \<Rightarrow> None
           | Some None \<Rightarrow> Some None
           | Some (Some steps) \<Rightarrow>
               Some (Some \<lparr>wit_terminal = Empty, wit_steps = rev steps\<rparr>))"

definition DUPLICATE_KEY :: string where "DUPLICATE_KEY = ''duplicate accumulator key''"

definition tree_insert :: "nullifier_tree \<Rightarrow> bytes \<Rightarrow> string + nullifier_tree" where
  "tree_insert keys key =
     (if \<exists>existing \<in> set keys. existing = key then Err DUPLICATE_KEY else Ok (keys @ [key]))"

fun ordered_loop ::
  "(bytes \<Rightarrow> bytes) \<Rightarrow> nullifier_tree \<Rightarrow> witness list \<Rightarrow> bytes list
   \<Rightarrow> (string + witness list \<times> bytes) option" where
  "ordered_loop sha tree witnesses [] =
     (case tree_root sha tree of None \<Rightarrow> None | Some root \<Rightarrow> Some (Ok (witnesses, root)))"
| "ordered_loop sha tree witnesses (key # keys) =
     (case non_membership_witness sha tree key of
        None \<Rightarrow> None
      | Some None \<Rightarrow> Some (Err DUPLICATE_KEY)
      | Some (Some w) \<Rightarrow>
          (case tree_insert tree key of
             Inl e \<Rightarrow> Some (Err e)
           | Inr tree' \<Rightarrow> ordered_loop sha tree' (witnesses @ [w]) keys))"

definition ordered_insert_witnesses ::
  "(bytes \<Rightarrow> bytes) \<Rightarrow> nullifier_tree \<Rightarrow> bytes list
   \<Rightarrow> (string + witness list \<times> bytes) option" where
  "ordered_insert_witnesses sha start keys = ordered_loop sha start [] keys"

end
