(* ===== verification/Accumulator_Tree.thy ===== *)
theory Accumulator_Tree
  imports Accumulator
begin

text \<open>
  The specification of the accumulator and the proof that the code of \<open>Accumulator\<close>
  computes it: \<open>tree_hash\<close> is the hash of the full tree of a set of keys, \<open>up\<close> the fold
  of a path, \<open>same_prefix\<close> the keys under a node. The locale \<open>presence_set\<close> is the
  interface the guest and the host rely on.
\<close>

section \<open>Bits of keys\<close>

lemma bit_at_iff: "bit_at data i = bit (data ! (i div 8)) (i mod 8)"
proof -
  have "drop_bit (i mod 8) (data ! (i div 8)) AND 1 = of_bool (bit (data ! (i div 8)) (i mod 8))"
    by (simp add: and_one_eq mod_2_eq_odd bit_iff_odd_drop_bit)
  then show ?thesis by (simp add: bit_at_def)
qed

lemma bits_eq:
  assumes "length a = 32" "length b = 32" "\<forall>i<256. bit_at a i = bit_at b i"
  shows "a = b"
proof (rule nth_equalityI)
  show "length a = length b" using assms by simp
  fix j assume j: "j < length a"
  show "a ! j = b ! j"
  proof (rule bit_word_eqI)
    fix n assume "n < LENGTH(8)"
    then have n: "n < 8" by simp
    then have i: "8 * j + n < 256" "(8 * j + n) div 8 = j" "(8 * j + n) mod 8 = n"
      using j assms(1) by auto
    with assms(3) have "bit_at a (8 * j + n) = bit_at b (8 * j + n)" by blast
    then show "bit (a ! j) n = bit (b ! j) n" by (simp only: bit_at_iff i(2,3))
  qed
qed

definition key_ok :: "bytes \<Rightarrow> bool" where
  "key_ok key \<longleftrightarrow> length key = 32"

definition same_prefix :: "bytes \<Rightarrow> nat \<Rightarrow> bytes set \<Rightarrow> bytes set" where
  "same_prefix key d S = {x \<in> S. \<forall>i<d. bit_at x i = bit_at key i}"

lemma same_prefix_0 [simp]: "same_prefix key 0 S = S"
  by (simp add: same_prefix_def)

lemma same_prefix_Suc:
  "same_prefix key (Suc d) S = {x \<in> same_prefix key d S. bit_at x d = bit_at key d}"
  by (auto simp: same_prefix_def less_Suc_eq)

lemma same_prefix_insert_self [simp]:
  "same_prefix key d (insert key S) = insert key (same_prefix key d S)"
  by (auto simp: same_prefix_def)

lemma same_prefix_empty [simp]: "same_prefix key d {} = {}"
  by (simp add: same_prefix_def)

lemma same_prefix_256:
  assumes "\<forall>x \<in> S. key_ok x" "key_ok key"
  shows "same_prefix key 256 S = S \<inter> {key}"
  using assms bits_eq by (auto simp: same_prefix_def key_ok_def)

section \<open>The full tree\<close>

function tree_hash :: "(bytes \<Rightarrow> bytes) \<Rightarrow> nat \<Rightarrow> bytes set \<Rightarrow> bytes" where
  "tree_hash sha d S =
     (if 256 \<le> d then (if S = {} then EMPTY_TREE_ROOT else leaf_hash sha (the_elem S))
      else node_hash sha (of_nat d) (tree_hash sha (Suc d) {x \<in> S. \<not> bit_at x d})
             (tree_hash sha (Suc d) {x \<in> S. bit_at x d}))"
  by pat_completeness auto
termination
  by (relation "measure (\<lambda>(_, d, _). 256 - d)") auto

declare tree_hash.simps [simp del]

lemma tree_hash_node:
  "d < 256 \<Longrightarrow> tree_hash sha d S =
     node_hash sha (of_nat d) (tree_hash sha (Suc d) {x \<in> S. \<not> bit_at x d})
       (tree_hash sha (Suc d) {x \<in> S. bit_at x d})"
  by (subst tree_hash.simps) simp

lemma tree_hash_leaf [simp]:
  "tree_hash sha 256 {} = EMPTY_TREE_ROOT" "tree_hash sha 256 {k} = leaf_hash sha k"
  by (subst tree_hash.simps, simp)+

lemma tree_hash_length:
  assumes "\<forall>x. length (sha x) = 32"
  shows "length (tree_hash sha d S) = 32"
  using assms by (subst tree_hash.simps) (simp add: EMPTY_TREE_ROOT_def leaf_hash_def node_hash_def)

section \<open>Empty subtrees and single keys\<close>

lemma empty_loop:
  assumes "k \<le> 256" "length t = 257" "t ! 256 = EMPTY_TREE_ROOT"
  shows "length (foldl (\<lambda>table depth. table[depth :=
              node_hash sha (of_nat depth) (table ! (depth + 1)) (table ! (depth + 1))]) t
            (rev [k..<256])) = 257 \<and>
    (\<forall>d. k \<le> d \<and> d \<le> 256 \<longrightarrow>
       foldl (\<lambda>table depth. table[depth :=
              node_hash sha (of_nat depth) (table ! (depth + 1)) (table ! (depth + 1))]) t
            (rev [k..<256]) ! d = tree_hash sha d {})"
  using assms(1)
proof (induction "256 - k" arbitrary: k)
  case 0
  then show ?case using assms by auto
next
  case (Suc n)
  then have k: "k < 256" "Suc k \<le> 256" by simp_all
  have IH: "length (foldl (\<lambda>table depth. table[depth :=
              node_hash sha (of_nat depth) (table ! (depth + 1)) (table ! (depth + 1))]) t
            (rev [Suc k..<256])) = 257 \<and>
    (\<forall>d. Suc k \<le> d \<and> d \<le> 256 \<longrightarrow>
       foldl (\<lambda>table depth. table[depth :=
              node_hash sha (of_nat depth) (table ! (depth + 1)) (table ! (depth + 1))]) t
            (rev [Suc k..<256]) ! d = tree_hash sha d {})"
    using Suc.hyps(1)[of "Suc k"] Suc.hyps(2) k by simp
  have "[k..<256] = k # [Suc k..<256]" using k by (simp add: upt_conv_Cons)
  with IH k show ?case
    by (auto simp: nth_list_update tree_hash_node[where S = "{}"])
qed

lemma empty_hashes_correct: "d \<le> 256 \<Longrightarrow> empty_hashes sha ! d = tree_hash sha d {}"
  unfolding empty_hashes_def DEPTH_def
  using empty_loop[of 0 "(replicate 257 (replicate 32 0))[256 := EMPTY_TREE_ROOT]" sha] by simp

lemma tree_hash_single:
  assumes "d < 256"
  shows "tree_hash sha d {key} =
    (if bit_at key d
     then node_hash sha (of_nat d) (tree_hash sha (Suc d) {}) (tree_hash sha (Suc d) {key})
     else node_hash sha (of_nat d) (tree_hash sha (Suc d) {key}) (tree_hash sha (Suc d) {}))"
proof -
  have "{x \<in> {key}. \<not> bit_at x d} = (if bit_at key d then {} else {key})"
    "{x \<in> {key}. bit_at x d} = (if bit_at key d then {key} else {})" by auto
  then show ?thesis
    by (cases "bit_at key d") (simp_all only: tree_hash_node[OF assms, of sha "{key}"] if_True if_False)
qed

lemma single_key_loop:
  assumes "d \<le> 256"
  shows "single_key_hash sha key d (empty_hashes sha) = tree_hash sha d {key}"
  using assms
proof (induction "256 - d" arbitrary: d)
  case 0
  then show ?case by (simp add: single_key_hash_def DEPTH_def)
next
  case (Suc n)
  then have d: "d < 256" "Suc d \<le> 256" by simp_all
  have IH: "single_key_hash sha key (Suc d) (empty_hashes sha) = tree_hash sha (Suc d) {key}"
    using Suc.hyps(1)[of "Suc d"] Suc.hyps(2) d by simp
  have "[d..<256] = d # [Suc d..<256]" using d by (simp add: upt_conv_Cons)
  then have "single_key_hash sha key d (empty_hashes sha) =
      key_step sha (empty_hashes sha) key (single_key_hash sha key (Suc d) (empty_hashes sha)) d"
    by (simp add: single_key_hash_def DEPTH_def)
  also have "\<dots> = tree_hash sha d {key}"
    using d by (simp add: IH key_step_def Let_def empty_hashes_correct tree_hash_single)
  finally show ?case .
qed

section \<open>Subtrees\<close>

text \<open>The keys below one node: distinct 32-byte keys that agree on the bits above it.\<close>

definition below :: "nat \<Rightarrow> bytes list \<Rightarrow> bool" where
  "below d keys \<longleftrightarrow> distinct keys \<and> (\<forall>x \<in> set keys. key_ok x)
     \<and> (\<forall>x \<in> set keys. \<forall>y \<in> set keys. \<forall>i<d. bit_at x i = bit_at y i)"

lemma below_0: "below 0 keys \<longleftrightarrow> distinct keys \<and> (\<forall>x \<in> set keys. key_ok x)"
  by (auto simp: below_def)

lemma below_filter:
  assumes "below d keys"
  shows "below (Suc d) (filter (\<lambda>k. bit_at k d = b) keys)"
  unfolding below_def
proof (intro conjI ballI allI impI)
  show "distinct (filter (\<lambda>k. bit_at k d = b) keys)" using assms by (simp add: below_def)
  show "key_ok x" if "x \<in> set (filter (\<lambda>k. bit_at k d = b) keys)" for x
    using that assms by (simp add: below_def)
  fix x y i
  assume x: "x \<in> set (filter (\<lambda>k. bit_at k d = b) keys)"
    and y: "y \<in> set (filter (\<lambda>k. bit_at k d = b) keys)" and "i < Suc d"
  then consider "i = d" | "i < d" by linarith
  then show "bit_at x i = bit_at y i"
    using x y assms by cases (simp_all add: below_def)
qed

lemma below_two:
  assumes "below d (k1 # k2 # ks)"
  shows "d < 256"
proof (rule ccontr)
  assume "\<not> d < 256"
  then have d: "i < d" if "i < 256" for i using that by simp
  have agree: "bit_at x i = bit_at y i" if "x \<in> set (k1 # k2 # ks)" "y \<in> set (k1 # k2 # ks)" "i < d"
    for x y i using assms that unfolding below_def by blast
  have "\<forall>i<256. bit_at k1 i = bit_at k2 i" by (intro allI impI agree d) simp_all
  moreover have "length k1 = 32" "length k2 = 32" "k1 \<noteq> k2"
    using assms by (simp_all add: below_def key_ok_def)
  ultimately show False using bits_eq by blast
qed

lemma subtree_hash_correct:
  "below d keys \<Longrightarrow> d \<le> 256 \<Longrightarrow>
   subtree_hash sha (empty_hashes sha) keys d = Some (tree_hash sha d (set keys))"
proof (induction sha "empty_hashes sha" keys d rule: subtree_hash.induct)
  case (1 sha depth)
  then show ?case by (simp add: empty_hashes_correct)
next
  case (2 sha key depth)
  then show ?case by (simp add: single_key_loop)
next
  case (3 sha k1 k2 ks d)
  let ?keys = "k1 # k2 # ks"
  have d: "d < 256" using 3(3) by (rule below_two)
  then have dd: "\<not> DEPTH \<le> d" "Suc d \<le> 256" by (simp_all add: DEPTH_def)
  have bl: "below (Suc d) (filter (\<lambda>k. \<not> bit_at k d) ?keys)"
    using below_filter[OF 3(3), where b = False] by simp
  have br: "below (Suc d) (filter (\<lambda>k. bit_at k d) ?keys)"
    using below_filter[OF 3(3), where b = True] by simp
  have l: "subtree_hash sha (empty_hashes sha) (filter (\<lambda>k. \<not> bit_at k d) ?keys) (Suc d)
      = Some (tree_hash sha (Suc d) {x \<in> set ?keys. \<not> bit_at x d})"
    using 3(1)[OF dd(1) refl refl refl] bl dd(2) by (simp only: set_filter Suc_eq_plus1)
  have r: "subtree_hash sha (empty_hashes sha) (filter (\<lambda>k. bit_at k d) ?keys) (Suc d)
      = Some (tree_hash sha (Suc d) {x \<in> set ?keys. bit_at x d})"
    using 3(2)[OF dd(1) refl refl refl] br dd(2) l by (simp only: set_filter Suc_eq_plus1)
  show ?case
    by (simp only: subtree_hash.simps dd if_False Let_def l r option.case Suc_eq_plus1[symmetric]
        tree_hash_node[OF d])
qed

lemma tree_root_correct:
  assumes "distinct keys" "\<forall>k \<in> set keys. key_ok k"
  shows "tree_root sha keys =
     Some (if keys = [] then EMPTY_TREE_ROOT else tree_hash sha 0 (set keys))"
  using assms subtree_hash_correct[of 0 keys sha] by (simp add: tree_root_def below_0)

definition commit :: "(bytes \<Rightarrow> bytes) \<Rightarrow> bytes set \<Rightarrow> bytes" where
  "commit sha S = (if S = {} then EMPTY_TREE_ROOT else tree_hash sha 0 S)"

lemma tree_root_commit:
  "distinct keys \<Longrightarrow> \<forall>k \<in> set keys. key_ok k \<Longrightarrow> tree_root sha keys = Some (commit sha (set keys))"
  by (simp add: tree_root_correct commit_def)

section \<open>Paths\<close>

fun up :: "(bytes \<Rightarrow> bytes) \<Rightarrow> bytes \<Rightarrow> nat \<Rightarrow> bytes \<Rightarrow> bytes list \<Rightarrow> bytes" where
  "up sha key d h [] = h"
| "up sha key d h (s # ss) =
     (let c = up sha key (Suc d) h ss
      in if bit_at key d then node_hash sha (of_nat d) s c else node_hash sha (of_nat d) c s)"

definition sib :: "(bytes \<Rightarrow> bytes) \<Rightarrow> bytes \<Rightarrow> bytes set \<Rightarrow> nat \<Rightarrow> bytes" where
  "sib sha key S i = tree_hash sha (Suc i) {x \<in> same_prefix key i S. bit_at x i \<noteq> bit_at key i}"

lemma tree_hash_split:
  assumes "d < 256"
  shows "tree_hash sha d (same_prefix key d S) =
    (let c = tree_hash sha (Suc d) (same_prefix key (Suc d) S); s = sib sha key S d
     in if bit_at key d then node_hash sha (of_nat d) s c else node_hash sha (of_nat d) c s)"
  by (cases "bit_at key d")
    (simp_all add: tree_hash_node[OF assms, of sha "same_prefix key d S"] sib_def same_prefix_Suc)

lemma up_tree:
  "d + n \<le> 256 \<Longrightarrow>
   up sha key d (tree_hash sha (d + n) (same_prefix key (d + n) S)) (map (sib sha key S) [d..<d + n])
   = tree_hash sha d (same_prefix key d S)"
proof (induction n arbitrary: d)
  case (Suc n)
  have "[d..<d + Suc n] = d # [Suc d..<Suc d + n]" by (simp add: upt_conv_Cons)
  then show ?case using Suc.IH[of "Suc d"] Suc.prems by (simp add: tree_hash_split Let_def)
qed simp

lemma sib_insert [simp]: "sib sha key (insert key S) i = sib sha key S i"
proof -
  have "{x \<in> same_prefix key i (insert key S). bit_at x i \<noteq> bit_at key i}
      = {x \<in> same_prefix key i S. bit_at x i \<noteq> bit_at key i}" by auto
  then show ?thesis by (simp only: sib_def)
qed

end
