(* ===== verification/Accumulator_Proofs.thy ===== *)
theory Accumulator_Proofs
  imports Accumulator_Tree
begin

text \<open>
  Correctness of the accumulator's operations over \<open>tree_hash\<close>: the witness a tree emits is
  accepted and moves the root to that of the larger set (for every hash function), and an
  accepted insertion is always one of an absent key (up to collisions among the finitely
  many inputs named by \<open>tree_inputs\<close> and \<open>absent_inputs\<close>).
\<close>

section \<open>Folding contiguous steps\<close>

definition steps_of :: "(nat \<Rightarrow> bytes) \<Rightarrow> nat \<Rightarrow> smt_proof_step list" where
  "steps_of s n = map (\<lambda>i. mk_step (of_nat i) (s i)) (rev [0..<n])"

lemma steps_of_Suc: "steps_of s (Suc n) = mk_step (of_nat n) (s n) # steps_of s n"
  by (simp add: steps_of_def)

lemma length_steps_of [simp]: "length (steps_of s n) = n"
  by (simp add: steps_of_def)

lemma steps_of_0 [simp]: "steps_of s 0 = []"
  by (simp add: steps_of_def)

lemma steps_of_Nil_iff [simp]: "steps_of s n = [] \<longleftrightarrow> n = 0"
  by (cases n) (simp_all add: steps_of_def)

lemma up_snoc:
  "up sha key d h (ss @ [s]) =
     up sha key d (let e = d + length ss in
        if bit_at key e then node_hash sha (of_nat e) s h else node_hash sha (of_nat e) h s) ss"
  by (induction ss arbitrary: d) (auto simp: Let_def)

lemma unat_u8_of_nat: "n < 256 \<Longrightarrow> unat (of_nat n :: u8) = n"
  by (simp add: unat_of_nat)

lemma ucast16_of_nat: "n < 256 \<Longrightarrow> unat (ucast (of_nat n :: u8) :: u16) = n"
  by (simp add: unsigned_ucast_eq take_bit_eq_mod unat_of_nat)

lemma fold_loop_steps_of:
  "n \<le> 256 \<Longrightarrow> n \<le> unat prev \<Longrightarrow>
   fold_loop sha key prev h (steps_of s n) = Some (up sha key 0 h (map s [0..<n]))"
proof (induction n arbitrary: prev h)
  case 0
  then show ?case by (simp add: steps_of_def)
next
  case (Suc n)
  then have n: "n < 256" by simp
  have "\<not> prev \<le> ucast (of_nat n :: u8)"
    using Suc.prems n by (simp add: word_le_nat_alt ucast16_of_nat)
  moreover have "n \<le> unat (ucast (of_nat n :: u8) :: u16)" using n by (simp add: ucast16_of_nat)
  ultimately show ?case using Suc.IH n
    by (simp add: steps_of_Suc unat_u8_of_nat up_snoc Let_def)
qed

lemma fold_steps_of:
  "n \<le> 256 \<Longrightarrow> fold_steps sha key h (steps_of s n) = Some (up sha key 0 h (map s [0..<n]))"
  by (simp add: fold_steps_def fold_loop_steps_of DEPTH_def)

lemma depths_loop_iff:
  "depths_loop f i steps \<longleftrightarrow>
     (\<forall>j < length steps. ucast (step_depth (steps ! j)) = f - (i + of_nat j))"
proof (induction steps arbitrary: i)
  case (Cons s steps)
  have "(\<forall>j < length (s # steps). ucast (step_depth ((s # steps) ! j)) = f - (i + of_nat j)) \<longleftrightarrow>
      ucast (step_depth s) = f - i \<and>
      (\<forall>j < length steps. ucast (step_depth (steps ! j)) = f - (i + of_nat (Suc j)))"
    by (simp add: All_less_Suc2)
  then show ?case using Cons by (simp add: add.assoc)
qed simp

lemma ucast_u64_of_u8: "unat (ucast (b :: u8) :: u64) = unat b"
  by simp

lemma terminal_depth_steps_of:
  assumes "0 < n" "n \<le> 256"
  shows "terminal_depth (steps_of s n) = Some n"
proof -
  obtain m where n: "n = Suc m" using assms(1) by (cases n) auto
  have m: "m < 256" using assms n by simp
  have nth: "steps_of s n ! j = mk_step (of_nat (m - j)) (s (m - j))" if "j < n" for j
    using that by (simp add: steps_of_def rev_nth n del: upt_Suc)
  have "depths_loop (ucast (of_nat m :: u8)) 0 (steps_of s n)"
  proof (unfold depths_loop_iff, intro allI impI)
    fix j assume "j < length (steps_of s n)"
    then have j: "j \<le> m" by (simp add: n)
    have jj: "j < n" using j n by simp
    have ub: "unat (of_nat j :: u64) = j" using j m by (simp add: unat_of_nat)
    have "(of_nat j :: u64) \<le> ucast (of_nat m :: u8)"
      using j m ub by (simp add: word_le_nat_alt unat_u8_of_nat)
    then have "unat (ucast (of_nat m :: u8) - of_nat j :: u64) = m - j"
      using m ub by (simp add: unat_sub unat_u8_of_nat)
    moreover have "unat (ucast (of_nat (m - j) :: u8) :: u64) = m - j"
      using m by (simp add: unat_u8_of_nat)
    ultimately show "ucast (step_depth (steps_of s n ! j)) = (ucast (of_nat m :: u8) :: u64) - (0 + of_nat j)"
      by (simp only: nth[OF jj] mk_step_simps add_0 word_unat_eq_iff)
  qed
  moreover have "step_depth (last (steps_of s n)) = 0"
    using nth[of m] n by (simp add: last_conv_nth)
  ultimately show ?thesis
    by (simp add: terminal_depth_def n steps_of_Suc unat_u8_of_nat[OF m])
qed

text \<open>Conversely, steps that pass \<open>terminal_depth\<close> are contiguous.\<close>

lemma terminal_depth_contiguous:
  assumes "terminal_depth steps = Some td" "length steps \<le> 256"
  shows "td = length steps" "steps = steps_of (\<lambda>i. step_sibling (steps ! (td - 1 - i))) td"
proof -
  obtain f rest where st: "steps = f # rest"
    using assms(1) by (cases steps) (auto simp: terminal_depth_def)
  have dl: "\<forall>j < length steps. ucast (step_depth (steps ! j)) = (ucast (step_depth f) :: u64) - of_nat j"
    and l0: "step_depth (last steps) = 0" and td: "td = unat (step_depth f) + 1"
    using assms(1) unfolding terminal_depth_def depths_loop_iff by (auto simp: st split: if_splits)
  have small: "unat (of_nat j :: u64) = j" if "j < length steps" for j
    using that assms(2) by (simp add: unat_of_nat)
  let ?l = "length steps - 1"
  have "last steps = steps ! ?l" using st by (simp add: last_conv_nth)
  with dl l0 have "(0 :: u64) = ucast (step_depth f) - of_nat ?l"
    using st by (metis diff_less length_greater_0_conv list.distinct(1) ucast_0 zero_less_one)
  then have "unat (ucast (step_depth f) :: u64) = unat (of_nat ?l :: u64)" by simp
  then have "unat (step_depth f) = ?l" using small[of ?l] st by simp
  then show tdl: "td = length steps" using td st by simp
  have dj: "step_depth (steps ! j) = of_nat (td - 1 - j)" if j: "j < length steps" for j
  proof -
    have jd: "j \<le> unat (step_depth f)" using j tdl td by simp
    then have "(of_nat j :: u64) \<le> ucast (step_depth f)"
      using small[OF j] by (simp add: word_le_nat_alt)
    then have "unat (ucast (step_depth (steps ! j)) :: u64) = unat (step_depth f) - j"
      using dl j small[OF j] by (simp add: unat_sub)
    then have "unat (step_depth (steps ! j)) = td - 1 - j" using td by simp
    moreover have "td - 1 - j < 256" using td unat_u8_less[of "step_depth f"] by simp
    ultimately show ?thesis by (simp add: word_unat_eq_iff unat_u8_of_nat)
  qed
  show "steps = steps_of (\<lambda>i. step_sibling (steps ! (td - 1 - i))) td"
  proof (rule nth_equalityI)
    show "length steps = length (steps_of (\<lambda>i. step_sibling (steps ! (td - 1 - i))) td)"
      using tdl by simp
    fix j assume j: "j < length steps"
    then show "steps ! j = steps_of (\<lambda>i. step_sibling (steps ! (td - 1 - i))) td ! j"
      using dj[OF j] tdl by (intro smt_proof_step.equality) (simp_all add: steps_of_def rev_nth)
  qed
qed

section \<open>The witness of a tree\<close>

lemma first_differing_bit_Some:
  assumes "key_ok key" "key_ok other" "key \<noteq> other"
  obtains f where "first_differing_bit key other = Some f" "f < 256"
    "bit_at key f \<noteq> bit_at other f" "\<forall>i<f. bit_at other i = bit_at key i"
proof -
  let ?P = "\<lambda>i. bit_at key i \<noteq> bit_at other i"
  obtain i where "i < 256" "?P i" using bits_eq assms by (auto simp: key_ok_def)
  then have "find ?P [0..<256] \<noteq> None" by (auto simp: find_None_iff)
  then obtain f where f: "find ?P [0..<256] = Some f" by blast
  have "f < 256 \<and> ?P f \<and> (\<forall>i<f. bit_at other i = bit_at key i)"
    using f by (auto simp: find_Some_iff)
  with f that show ?thesis by (simp add: first_differing_bit_def DEPTH_def)
qed

lemma same_prefix_shrink:
  assumes "same_prefix key d S = {other}" "d \<le> e" "\<forall>i<e. bit_at other i = bit_at key i"
  shows "same_prefix key e S = {other}"
  using assms unfolding same_prefix_def by (auto dest: less_le_trans)

lemma sib_single:
  assumes "same_prefix key d S = {other}" "d \<le> e" "\<forall>i<Suc e. bit_at other i = bit_at key i"
  shows "sib sha key S e = tree_hash sha (Suc e) {}"
proof -
  have "same_prefix key e S = {other}" using same_prefix_shrink[OF assms(1,2)] assms(3) by simp
  then have "{x \<in> same_prefix key e S. bit_at x e \<noteq> bit_at key e} = {}" using assms(3) by auto
  then show ?thesis by (simp only: sib_def)
qed

lemma sib_differing:
  assumes "same_prefix key d S = {other}" "d \<le> f" "\<forall>i<f. bit_at other i = bit_at key i"
    "bit_at key f \<noteq> bit_at other f"
  shows "sib sha key S f = tree_hash sha (Suc f) {other}" "same_prefix key (Suc f) S = {}"
proof -
  have p: "same_prefix key f S = {other}" using same_prefix_shrink[OF assms(1-3)] .
  then have "{x \<in> same_prefix key f S. bit_at x f \<noteq> bit_at key f} = {other}" using assms(4) by auto
  then show "sib sha key S f = tree_hash sha (Suc f) {other}" by (simp only: sib_def)
  show "same_prefix key (Suc f) S = {}" using p assms(4) by (auto simp: same_prefix_Suc)
qed

definition prefix_steps :: "(bytes \<Rightarrow> bytes) \<Rightarrow> bytes \<Rightarrow> bytes set \<Rightarrow> nat \<Rightarrow> smt_proof_step list" where
  "prefix_steps sha key S n = map (\<lambda>i. mk_step (of_nat i) (sib sha key S i)) [0..<n]"

lemma prefix_steps_append:
  "n \<le> m \<Longrightarrow> prefix_steps sha key S n @ map (\<lambda>i. mk_step (of_nat i) (sib sha key S i)) [n..<m]
     = prefix_steps sha key S m"
  using upt_add_eq_append[of 0 n "m - n"] by (simp add: prefix_steps_def flip: map_append)

lemma prefix_steps_Suc:
  "prefix_steps sha key S (Suc n) = prefix_steps sha key S n @ [mk_step (of_nat n) (sib sha key S n)]"
  by (simp add: prefix_steps_def)

lemma rev_prefix_steps: "rev (prefix_steps sha key S n) = steps_of (sib sha key S) n"
  by (simp add: prefix_steps_def steps_of_def rev_map)

lemma same_prefix_other:
  assumes "same_prefix key d S = {other}"
  shows "other \<in> S" "\<forall>i<d. bit_at other i = bit_at key i"
  using assms unfolding same_prefix_def by auto

lemma witness_loop_single:
  assumes "same_prefix key d S = {other}" "key_ok key" "key \<notin> S" "\<forall>x \<in> S. key_ok x"
  shows "\<exists>td \<le> 256. same_prefix key td S = {} \<and>
    witness_loop sha (empty_hashes sha) key [other] d (prefix_steps sha key S d)
      = Some (Some (prefix_steps sha key S td))"
proof -
  have o: "other \<in> S" "\<forall>i<d. bit_at other i = bit_at key i"
    using same_prefix_other[OF assms(1)] by blast+
  have ok: "key_ok other" and neq: "key \<noteq> other" using o(1) assms by auto
  obtain f where f: "first_differing_bit key other = Some f" "f < 256"
    "bit_at key f \<noteq> bit_at other f" "\<forall>i<f. bit_at other i = bit_at key i"
    using first_differing_bit_Some[OF assms(2) ok neq] by blast
  have df: "d \<le> f" using o(2) f(3) by (metis not_le)
  have mid: "map (\<lambda>i. mk_step (of_nat i) (empty_hashes sha ! (i + 1))) [d..<f]
      = map (\<lambda>i. mk_step (of_nat i) (sib sha key S i)) [d..<f]"
  proof (rule map_cong[OF refl])
    fix i assume "i \<in> set [d..<f]"
    then have i: "d \<le> i" "\<forall>j<Suc i. bit_at other j = bit_at key j" "Suc i \<le> 256"
      using f(2,4) by auto
    show "mk_step (of_nat i) (empty_hashes sha ! (i + 1)) = mk_step (of_nat i) (sib sha key S i)"
      using sib_single[OF assms(1) i(1,2), of sha] i(3) by (simp add: empty_hashes_correct)
  qed
  have last: "single_key_hash sha other (f + 1) (empty_hashes sha) = sib sha key S f"
    using sib_differing(1)[OF assms(1) df f(4,3), of sha] f(2) by (simp add: single_key_loop)
  have "witness_loop sha (empty_hashes sha) key [other] d (prefix_steps sha key S d)
      = Some (Some (prefix_steps sha key S (Suc f)))"
    by (simp only: witness_loop.simps f(1) option.case mid last prefix_steps_append[OF df]
        prefix_steps_Suc append_assoc[symmetric])
  with sib_differing(2)[OF assms(1) df f(4,3)] f(2) show ?thesis by (intro exI[of _ "Suc f"]) simp
qed

lemma witness_loop_correct:
  "below d current \<Longrightarrow> set current = same_prefix key d S \<Longrightarrow> d \<le> 256 \<Longrightarrow> key_ok key \<Longrightarrow> key \<notin> S \<Longrightarrow>
   \<forall>x \<in> S. key_ok x \<Longrightarrow> steps = prefix_steps sha key S d \<Longrightarrow>
   \<exists>td \<le> 256. same_prefix key td S = {} \<and>
     witness_loop sha (empty_hashes sha) key current d steps = Some (Some (prefix_steps sha key S td))"
proof (induction sha "empty_hashes sha" key current d steps rule: witness_loop.induct)
  case (1 sha key depth steps)
  then show ?case by (intro exI[of _ depth]) auto
next
  case (2 sha key other depth steps)
  then have "same_prefix key depth S = {other}" by auto
  from witness_loop_single[OF this 2(4,5,6)] show ?case by (simp only: 2(7))
next
  case (3 sha key k1 k2 ks d steps)
  let ?cur = "k1 # k2 # ks"
  have d: "d < 256" using 3(2) by (rule below_two)
  then have dd: "\<not> DEPTH \<le> d" "Suc d \<le> 256" by (simp_all add: DEPTH_def)
  have b: "below (Suc d) (filter (\<lambda>k. bit_at k d \<noteq> bit_at key d) ?cur)"
    using below_filter[OF 3(2), where b = "\<not> bit_at key d"]
    by (metis (mono_tags, lifting) filter_cong)
  have bm: "below (Suc d) (filter (\<lambda>k. bit_at k d = bit_at key d) ?cur)"
    by (rule below_filter[OF 3(2)])
  have h: "subtree_hash sha (empty_hashes sha) (filter (\<lambda>k. bit_at k d \<noteq> bit_at key d) ?cur) (d + 1)
      = Some (sib sha key S d)"
    using subtree_hash_correct[OF b dd(2), of sha]
    by (simp only: set_filter 3(3) sib_def Suc_eq_plus1)
  have "\<exists>td\<le>256. same_prefix key td S = {} \<and>
     witness_loop sha (empty_hashes sha) key (filter (\<lambda>k. bit_at k d = bit_at key d) ?cur) (d + 1)
       (steps @ [mk_step (of_nat d) (sib sha key S d)]) = Some (Some (prefix_steps sha key S td))"
  proof (rule 3(1)[OF dd(1) refl refl refl refl h])
    show "below (d + 1) (filter (\<lambda>k. bit_at k d = bit_at key d) ?cur)" using bm by simp
    show "set (filter (\<lambda>k. bit_at k d = bit_at key d) ?cur) = same_prefix key (d + 1) S"
      using 3(3) by (simp only: set_filter same_prefix_Suc Suc_eq_plus1[symmetric])
    show "d + 1 \<le> 256" using dd(2) by simp
    show "steps @ [mk_step (of_nat d) (sib sha key S d)] = prefix_steps sha key S (d + 1)"
      using 3(8) by (simp add: prefix_steps_Suc)
  qed (use 3 in auto)
  then show ?case by (simp only: witness_loop.simps dd if_False Let_def h option.case)
qed

lemma non_membership_witness_absent:
  assumes "distinct keys" "\<forall>k \<in> set keys. key_ok k" "key_ok key" "key \<notin> set keys"
  obtains td where "td \<le> 256" "same_prefix key td (set keys) = {}" "td = 0 \<longleftrightarrow> keys = []"
    "non_membership_witness sha keys key
       = Some (Some \<lparr>wit_terminal = Empty, wit_steps = steps_of (sib sha key (set keys)) td\<rparr>)"
proof -
  have "below 0 keys" using assms by (simp add: below_0)
  from witness_loop_correct[OF this _ _ assms(3,4,2), of "[]" sha]
  obtain td where td: "td \<le> 256" "same_prefix key td (set keys) = {}"
    "witness_loop sha (empty_hashes sha) key keys 0 [] = Some (Some (prefix_steps sha key (set keys) td))"
    by (auto simp: prefix_steps_def)
  have "td = 0 \<longleftrightarrow> keys = []"
  proof
    show "td = 0 \<Longrightarrow> keys = []" using td(2) by simp
    assume "keys = []"
    with td(3) have "prefix_steps sha key (set keys) td = []" by simp
    then show "td = 0" by (simp add: prefix_steps_def)
  qed
  with td that[of td] assms(4) show ?thesis
    by (simp add: non_membership_witness_def rev_prefix_steps)
qed

lemma non_membership_witness_present:
  "key \<in> set keys \<Longrightarrow> non_membership_witness sha keys key = Some None"
  by (auto simp: non_membership_witness_def)

section \<open>Completeness\<close>

lemma terminal_sib:
  assumes "td \<le> 256" "td = 0 \<longleftrightarrow> S = {}" "same_prefix key td S = {}"
  shows "rebuild_absent_root sha key \<lparr>wit_terminal = Empty, wit_steps = steps_of (sib sha key S) td\<rparr>
    (empty_hashes sha) = Some (commit sha S)"
proof (cases "td = 0")
  case True
  with assms(2) show ?thesis by (simp add: rebuild_absent_root_def commit_def)
next
  case False
  have "up sha key 0 (tree_hash sha td {}) (map (sib sha key S) [0..<td]) = tree_hash sha 0 S"
    using up_tree[of 0 td sha key S] assms by simp
  with False assms(1,2) show ?thesis
    by (simp add: rebuild_absent_root_def MAX_STEPS_def terminal_depth_steps_of
        empty_hashes_correct fold_steps_of commit_def)
qed

lemma sib_insert_fun: "sib sha key (insert key S) = sib sha key S"
  by (rule ext) simp

lemma witness_inserts:
  assumes "td \<le> 256" "td = 0 \<longleftrightarrow> S = {}" "same_prefix key td S = {}"
  shows "acc_insert sha (commit sha S) key
     \<lparr>wit_terminal = Empty, wit_steps = steps_of (sib sha key S) td\<rparr> = Some (commit sha (insert key S))"
proof (cases "td = 0")
  case True
  with assms show ?thesis
    using terminal_sib[OF assms, of sha] single_key_loop[of 0 sha key]
    by (simp add: acc_insert_def commit_def Let_def)
next
  case False
  have "up sha key 0 (tree_hash sha td {key}) (map (sib sha key S) [0..<td]) = tree_hash sha 0 (insert key S)"
    using up_tree[of 0 td sha key "insert key S"] assms by (simp add: sib_insert_fun)
  with False assms(1,2) terminal_sib[OF assms, of sha] show ?thesis
    by (simp add: acc_insert_def Let_def terminal_depth_steps_of single_key_loop fold_steps_of commit_def)
qed

lemma witness_accepted:
  assumes "distinct keys" "\<forall>k \<in> set keys. key_ok k" "key_ok key" "key \<notin> set keys"
  shows "\<exists>w. non_membership_witness sha keys key = Some (Some w)
    \<and> verify_non_member sha (commit sha (set keys)) key w
    \<and> acc_insert sha (commit sha (set keys)) key w = Some (commit sha (insert key (set keys)))"
proof -
  obtain td where td: "td \<le> 256" "same_prefix key td (set keys) = {}" "td = 0 \<longleftrightarrow> keys = []"
    "non_membership_witness sha keys key
       = Some (Some \<lparr>wit_terminal = Empty, wit_steps = steps_of (sib sha key (set keys)) td\<rparr>)"
    using non_membership_witness_absent[OF assms] by blast
  then have t: "td = 0 \<longleftrightarrow> set keys = {}" by simp
  from terminal_sib[OF td(1) t td(2)] witness_inserts[OF td(1) t td(2)] td(4)
  show ?thesis by (auto simp: verify_non_member_def)
qed

section \<open>The interface\<close>

text \<open>
  What the prover relies on: a commitment to a set of keys, a witness for every absent key,
  and an insertion that accepts the witness and yields the commitment to the larger set.
\<close>

fun insert_all :: "('r \<Rightarrow> 'k \<Rightarrow> 'w \<Rightarrow> 'r option) \<Rightarrow> 'r \<Rightarrow> ('k \<times> 'w) list \<Rightarrow> 'r option" where
  "insert_all ins root [] = Some root"
| "insert_all ins root ((k, w) # kws) =
     (case ins root k w of None \<Rightarrow> None | Some root' \<Rightarrow> insert_all ins root' kws)"

locale presence_set =
  fixes com :: "'k set \<Rightarrow> 'r"
    and valid :: "'k \<Rightarrow> bool"
    and ins :: "'r \<Rightarrow> 'k \<Rightarrow> 'w \<Rightarrow> 'r option"
    and wit :: "'k list \<Rightarrow> 'k \<Rightarrow> 'w option option"
  assumes wit_present: "k \<in> set keys \<Longrightarrow> wit keys k = Some None"
    and wit_absent: "distinct keys \<Longrightarrow> \<forall>x \<in> set keys. valid x \<Longrightarrow> valid k \<Longrightarrow> k \<notin> set keys \<Longrightarrow>
      \<exists>w. wit keys k = Some (Some w) \<and> ins (com (set keys)) k w = Some (com (insert k (set keys)))"
begin

lemma wit_iff:
  assumes "distinct keys" "\<forall>x \<in> set keys. valid x" "valid k"
  shows "(\<exists>w. wit keys k = Some (Some w)) \<longleftrightarrow> k \<notin> set keys"
  using wit_present[of k keys] wit_absent[OF assms] by (cases "k \<in> set keys") auto

text \<open>A run of insertions with the witnesses of the growing set reaches the final commitment.\<close>

lemma insert_run:
  assumes "distinct (start @ keys)" "\<forall>x \<in> set (start @ keys). valid x"
    and "length ws = length keys"
    and "\<forall>i < length keys. wit (start @ take i keys) (keys ! i) = Some (Some (ws ! i))"
  shows "insert_all ins (com (set start)) (zip keys ws) = Some (com (set start \<union> set keys))"
  using assms
proof (induction keys arbitrary: start ws)
  case (Cons k keys)
  obtain w ws' where ws: "ws = w # ws'" using Cons.prems(3) by (cases ws) auto
  have "wit start k = Some (Some w)" using Cons.prems(4) ws by force
  moreover have "distinct start" "\<forall>x \<in> set start. valid x" "valid k" "k \<notin> set start"
    using Cons.prems by auto
  ultimately have i: "ins (com (set start)) k w = Some (com (set (start @ [k])))"
    using wit_absent by fastforce
  have "wit ((start @ [k]) @ take i keys) (keys ! i) = Some (Some (ws' ! i))" if "i < length keys" for i
    using Cons.prems(4)[rule_format, of "Suc i"] that ws by simp
  then have "insert_all ins (com (set (start @ [k]))) (zip keys ws')
      = Some (com (set (start @ [k]) \<union> set keys))"
    using Cons.IH[of "start @ [k]" ws'] Cons.prems ws by simp
  with i ws show ?case by (simp add: insert_commute)
qed simp

end

interpretation acc: presence_set "commit sha" key_ok "acc_insert sha" "non_membership_witness sha" for sha
  by unfold_locales (use non_membership_witness_present witness_accepted in blast)+

section \<open>Ordered insertion\<close>

lemma ordered_loop_ok:
  assumes "distinct (tree @ keys)" "\<forall>x \<in> set (tree @ keys). key_ok x"
  shows "\<exists>ws. ordered_loop sha tree acc keys = Some (Ok (acc @ ws, commit sha (set tree \<union> set keys)))
    \<and> length ws = length keys
    \<and> (\<forall>i < length keys. non_membership_witness sha (tree @ take i keys) (keys ! i) = Some (Some (ws ! i)))"
  using assms
proof (induction keys arbitrary: tree acc)
  case Nil
  then show ?case by (simp add: tree_root_commit)
next
  case (Cons k keys)
  have pre: "distinct tree" "\<forall>x \<in> set tree. key_ok x" "key_ok k" "k \<notin> set tree"
    using Cons.prems by auto
  obtain w where w: "non_membership_witness sha tree k = Some (Some w)"
    using witness_accepted[OF pre] by blast
  have ins: "tree_insert tree k = Ok (tree @ [k])" using pre(4) by (simp add: tree_insert_def)
  obtain ws where ws: "ordered_loop sha (tree @ [k]) (acc @ [w]) keys
      = Some (Ok ((acc @ [w]) @ ws, commit sha (set (tree @ [k]) \<union> set keys)))"
    "length ws = length keys"
    "\<forall>i < length keys. non_membership_witness sha ((tree @ [k]) @ take i keys) (keys ! i) = Some (Some (ws ! i))"
    using Cons.IH[of "tree @ [k]" "acc @ [w]"] Cons.prems by auto
  show ?case
    using ws w ins by (intro exI[of _ "w # ws"]) (simp add: All_less_Suc2 insert_commute)
qed

lemma ordered_loop_dup:
  assumes "distinct tree" "\<forall>x \<in> set (tree @ keys). key_ok x" "\<not> distinct (tree @ keys)"
  shows "ordered_loop sha tree acc keys = Some (Err DUPLICATE_KEY)"
  using assms
proof (induction keys arbitrary: tree acc)
  case (Cons k keys)
  show ?case
  proof (cases "k \<in> set tree")
    case True
    then show ?thesis by (simp add: non_membership_witness_present)
  next
    case False
    then obtain w where "non_membership_witness sha tree k = Some (Some w)"
      using Cons.prems witness_accepted[of tree k sha] by auto
    moreover have "ordered_loop sha (tree @ [k]) (acc @ [w]) keys = Some (Err DUPLICATE_KEY)" for w
      using Cons.prems False by (intro Cons.IH) auto
    ultimately show ?thesis using False by (simp add: tree_insert_def)
  qed
qed simp

section \<open>Soundness\<close>

text \<open>The inputs hashed on the path of \<open>key\<close> in the tree of \<open>S\<close>, its leaf included.\<close>

definition tree_inputs :: "(bytes \<Rightarrow> bytes) \<Rightarrow> bytes \<Rightarrow> bytes set \<Rightarrow> bytes set" where
  "tree_inputs sha key S = insert (leaf_preimage key)
     ((\<lambda>d. node_preimage (of_nat d)
        (tree_hash sha (Suc d) {x \<in> same_prefix key d S. \<not> bit_at x d})
        (tree_hash sha (Suc d) {x \<in> same_prefix key d S. bit_at x d})) ` {..<256})"

fun up_inputs :: "(bytes \<Rightarrow> bytes) \<Rightarrow> bytes \<Rightarrow> nat \<Rightarrow> bytes \<Rightarrow> bytes list \<Rightarrow> bytes set" where
  "up_inputs sha key d h [] = {}"
| "up_inputs sha key d h (s # ss) =
     (let c = up sha key (Suc d) h ss
      in insert (if bit_at key d then node_preimage (of_nat d) s c else node_preimage (of_nat d) c s)
           (up_inputs sha key (Suc d) h ss))"

text \<open>The siblings of a witness from the root down, and the inputs its verification hashes.\<close>

definition siblings :: "witness \<Rightarrow> bytes list" where
  "siblings w = rev (map step_sibling (wit_steps w))"

definition empty_inputs :: "(bytes \<Rightarrow> bytes) \<Rightarrow> nat \<Rightarrow> bytes set" where
  "empty_inputs sha td =
     (\<lambda>d. node_preimage (of_nat d) (tree_hash sha (Suc d) {}) (tree_hash sha (Suc d) {})) ` {td..<256}"

definition absent_inputs :: "(bytes \<Rightarrow> bytes) \<Rightarrow> bytes \<Rightarrow> witness \<Rightarrow> bytes set" where
  "absent_inputs sha key w =
     (let td = length (wit_steps w)
      in up_inputs sha key 0 (tree_hash sha td {}) (siblings w) \<union> empty_inputs sha td)"

definition wf_witness :: "witness \<Rightarrow> bool" where
  "wf_witness w \<longleftrightarrow> (\<forall>s \<in> set (wit_steps w). length (step_sibling s) = 32)"

lemma node_preimage_inj:
  assumes "length l = 32" "length l' = 32"
  shows "node_preimage d l r = node_preimage d' l' r' \<longleftrightarrow> d = d' \<and> l = l' \<and> r = r'"
  using assms by (simp add: node_preimage_def)

lemma tree_inputs_node:
  "d < 256 \<Longrightarrow> node_preimage (of_nat d)
        (tree_hash sha (Suc d) {x \<in> same_prefix key d S. \<not> bit_at x d})
        (tree_hash sha (Suc d) {x \<in> same_prefix key d S. bit_at x d}) \<in> tree_inputs sha key S"
  by (simp add: tree_inputs_def)

text \<open>A subtree that hashes like the empty one holds no key.\<close>

lemma empty_subtree_sound:
  assumes "\<forall>x. length (sha x) = 32" "\<forall>x \<in> S. key_ok x" "key_ok key" "key \<in> S"
    and "inj_on sha (tree_inputs sha key S \<union> empty_inputs sha td)"
    and "EMPTY_TREE_ROOT \<notin> sha ` tree_inputs sha key S"
    and "td \<le> d" "d \<le> 256" "tree_hash sha d (same_prefix key d S) = tree_hash sha d {}"
  shows False
  using assms(7-9)
proof (induction "256 - d" arbitrary: d)
  case 0
  then have d: "d = 256" by simp
  have p: "same_prefix key 256 S = {key}" using same_prefix_256[OF assms(2,3)] assms(4) by auto
  have "sha (leaf_preimage key) = EMPTY_TREE_ROOT"
    using 0(4) unfolding d p tree_hash_leaf leaf_hash_def .
  moreover have "leaf_preimage key \<in> tree_inputs sha key S" by (simp add: tree_inputs_def)
  ultimately show False using assms(6) by (metis image_eqI)
next
  case (Suc n)
  then have d: "d < 256" by simp
  let ?P = "same_prefix key d S"
  let ?l = "tree_hash sha (Suc d) {x \<in> ?P. \<not> bit_at x d}"
  let ?r = "tree_hash sha (Suc d) {x \<in> ?P. bit_at x d}"
  let ?e = "tree_hash sha (Suc d) {}"
  have "sha (node_preimage (of_nat d) ?l ?r) = sha (node_preimage (of_nat d) ?e ?e)"
    using Suc.prems(3) d tree_hash_node[OF d, of sha ?P] tree_hash_node[OF d, of sha "{}"]
    by (simp add: node_hash_def)
  moreover have "node_preimage (of_nat d) ?l ?r \<in> tree_inputs sha key S" using d by (rule tree_inputs_node)
  moreover have "node_preimage (of_nat d) ?e ?e \<in> empty_inputs sha td"
    using d Suc.prems(1) by (simp add: empty_inputs_def)
  ultimately have "node_preimage (of_nat d) ?l ?r = node_preimage (of_nat d) ?e ?e"
    using assms(5) by (auto dest: inj_onD)
  then have "?l = ?e" "?r = ?e"
    using tree_hash_length[OF assms(1)] by (simp_all add: node_preimage_inj)
  then have "tree_hash sha (Suc d) (same_prefix key (Suc d) S) = ?e"
    by (cases "bit_at key d") (simp_all add: same_prefix_Suc)
  moreover have "n = 256 - Suc d" "td \<le> Suc d" "Suc d \<le> 256"
    using Suc.hyps(2) Suc.prems(1) d by simp_all
  ultimately show False by (intro Suc.hyps(1))
qed

text \<open>A fold that reaches the hash of a node went along the node's own siblings.\<close>

lemma up_length:
  "\<forall>x. length (sha x) = 32 \<Longrightarrow> length h = 32 \<Longrightarrow> length (up sha key d h ss) = 32"
  by (cases ss) (auto simp: Let_def node_hash_def)

lemma up_sound:
  assumes "\<forall>x. length (sha x) = 32" "length h = 32"
    and "inj_on sha (tree_inputs sha key S \<union> up_inputs sha key d h ss)"
    and "\<forall>s \<in> set ss. length s = 32" "d + length ss \<le> 256"
    and "up sha key d h ss = tree_hash sha d (same_prefix key d S)"
  shows "h = tree_hash sha (d + length ss) (same_prefix key (d + length ss) S)
    \<and> ss = map (sib sha key S) [d..<d + length ss]"
  using assms(3-)
proof (induction ss arbitrary: d)
  case (Cons s ss)
  have d: "d < 256" using Cons.prems(3) by simp
  let ?c = "up sha key (Suc d) h ss"
  let ?P = "same_prefix key d S"
  let ?l = "tree_hash sha (Suc d) {x \<in> ?P. \<not> bit_at x d}"
  let ?r = "tree_hash sha (Suc d) {x \<in> ?P. bit_at x d}"
  let ?n = "if bit_at key d then node_preimage (of_nat d) s ?c else node_preimage (of_nat d) ?c s"
  have lens: "length s = 32" "length ?c = 32" "length ?l = 32" "length ?r = 32"
    using Cons.prems(2) up_length[OF assms(1,2)] tree_hash_length[OF assms(1)] by simp_all
  have e: "sha ?n = sha (node_preimage (of_nat d) ?l ?r)"
    using Cons.prems(4) tree_hash_node[OF d, of sha ?P] by (simp add: node_hash_def Let_def split: if_splits)
  have "?n \<in> up_inputs sha key d h (s # ss)" by (simp add: Let_def)
  then have n: "?n = node_preimage (of_nat d) ?l ?r"
    by (rule inj_onD[OF Cons.prems(1) e UnI2 UnI1[OF tree_inputs_node[OF d]]])
  have s: "s = sib sha key S d" and c: "?c = tree_hash sha (Suc d) (same_prefix key (Suc d) S)"
    using n lens by (cases "bit_at key d"; simp add: node_preimage_inj sib_def same_prefix_Suc)+
  have "up_inputs sha key (Suc d) h ss \<subseteq> up_inputs sha key d h (s # ss)" by (auto simp: Let_def)
  then have "inj_on sha (tree_inputs sha key S \<union> up_inputs sha key (Suc d) h ss)"
    by (rule inj_on_subset[OF Cons.prems(1) Un_mono[OF subset_refl]])
  from Cons.IH[OF this _ _ c] Cons.prems(2,3)
  have IH: "h = tree_hash sha (Suc d + length ss) (same_prefix key (Suc d + length ss) S)"
    "ss = map (sib sha key S) [Suc d..<Suc d + length ss]" by simp_all
  have "[d..<d + length (s # ss)] = d # [Suc d..<Suc d + length ss]"
    by (simp add: upt_conv_Cons del: upt_Suc)
  then show ?case using IH s by simp
qed (use assms in simp)

lemma siblings_nth:
  "i < length (wit_steps w) \<Longrightarrow>
   siblings w ! i = step_sibling (wit_steps w ! (length (wit_steps w) - 1 - i))"
  by (simp add: siblings_def rev_nth)

lemma map_siblings:
  "map (\<lambda>i. step_sibling (wit_steps w ! (length (wit_steps w) - 1 - i))) [0..<length (wit_steps w)]
   = siblings w"
  by (rule nth_equalityI) (auto simp: siblings_nth, auto simp: siblings_def)

lemma steps_of_cong: "map s [0..<n] = map t [0..<n] \<Longrightarrow> steps_of s n = steps_of t n"
  by (auto simp: steps_of_def)

text \<open>What an accepted witness looks like.\<close>

lemma rebuild_shape:
  assumes "rebuild_absent_root sha key w (empty_hashes sha) = Some root"
  shows "wit_terminal w = Empty \<and> length (wit_steps w) \<le> 256 \<and>
    (if wit_steps w = [] then root = EMPTY_TREE_ROOT
     else let td = length (wit_steps w) in
       wit_steps w = steps_of (\<lambda>i. siblings w ! i) td
       \<and> root = up sha key 0 (tree_hash sha td {}) (siblings w))"
proof (cases "wit_steps w = []")
  case True
  then show ?thesis using assms by (auto simp: rebuild_absent_root_def split: if_splits)
next
  case False
  let ?n = "length (wit_steps w)"
  obtain td where td: "wit_terminal w = Empty" "?n \<le> 256" "terminal_depth (wit_steps w) = Some td"
    "fold_steps sha key (empty_hashes sha ! td) (wit_steps w) = Some root"
    using assms False by (auto simp: rebuild_absent_root_def MAX_STEPS_def split: if_splits option.splits)
  note cont = terminal_depth_contiguous[OF td(3,2)]
  let ?s = "\<lambda>i. step_sibling (wit_steps w ! (?n - 1 - i))"
  have st: "wit_steps w = steps_of ?s ?n" using cont by simp
  have m: "map ?s [0..<?n] = siblings w" by (rule map_siblings)
  have m': "map ((!) (siblings w)) [0..<?n] = siblings w"
    using map_nth[of "siblings w"] by (simp add: siblings_def)
  have "wit_steps w = steps_of (\<lambda>i. siblings w ! i) ?n"
    using st steps_of_cong[of ?s ?n "(!) (siblings w)"] m m' by simp
  moreover have "root = up sha key 0 (tree_hash sha ?n {}) (siblings w)"
  proof -
    have "fold_steps sha key (empty_hashes sha ! td) (steps_of ?s ?n) = Some root"
      using td(4) st by (simp only: st[symmetric])
    then show ?thesis
      using td(2) cont(1) by (simp only: fold_steps_of m) (simp add: empty_hashes_correct)
  qed
  ultimately show ?thesis using False td(1,2) by (simp add: Let_def)
qed

lemma same_prefix_same:
  "x \<in> same_prefix key d S \<Longrightarrow> same_prefix x d S = same_prefix key d S"
  by (auto simp: same_prefix_def)

text \<open>All inputs an accepted insertion into \<open>S\<close> is compared on.\<close>

definition audit_inputs :: "(bytes \<Rightarrow> bytes) \<Rightarrow> bytes set \<Rightarrow> bytes \<Rightarrow> witness \<Rightarrow> bytes set" where
  "audit_inputs sha S key w =
     (\<Union>x \<in> insert key S. tree_inputs sha x S) \<union> absent_inputs sha key w"

lemma insert_sound:
  assumes len: "\<forall>x. length (sha x) = 32" and S: "\<forall>x \<in> S. key_ok x" and key: "key_ok key"
    and w: "wf_witness w"
    and inj: "inj_on sha (audit_inputs sha S key w)"
    and zero: "EMPTY_TREE_ROOT \<notin> sha ` audit_inputs sha S key w"
    and reb: "rebuild_absent_root sha key w (empty_hashes sha) = Some (commit sha S)"
  shows "key \<notin> S" "acc_insert sha (commit sha S) key w = Some (commit sha (insert key S))"
proof -
  let ?n = "length (wit_steps w)"
  have z: "sha x \<noteq> EMPTY_TREE_ROOT" if "x \<in> audit_inputs sha S key w" for x
    using zero that by (metis image_eqI)
  have ti: "tree_inputs sha x S \<subseteq> audit_inputs sha S key w" if "x \<in> insert key S" for x
    using that by (auto simp: audit_inputs_def)
  note shape = rebuild_shape[OF reb]
  have root0: "tree_hash sha 0 S \<noteq> EMPTY_TREE_ROOT"
    using z[OF subsetD[OF ti tree_inputs_node[of 0 sha key S]]] tree_hash_node[of 0 sha S]
    by (simp add: node_hash_def)
  have n: "?n \<le> 256 \<and> same_prefix key ?n S = {} \<and> (?n = 0 \<longleftrightarrow> S = {})
    \<and> wit_steps w = steps_of (sib sha key S) ?n"
  proof (cases "wit_steps w = []")
    case True
    then have "S = {}" using shape root0 by (simp add: commit_def split: if_splits)
    with True show ?thesis by simp
  next
    case False
    then have st: "wit_steps w = steps_of (\<lambda>i. siblings w ! i) ?n"
      and r: "commit sha S = up sha key 0 (tree_hash sha ?n {}) (siblings w)" and n: "?n \<le> 256"
      using shape by (simp_all add: Let_def)
    have sl: "length (siblings w) = ?n" by (simp add: siblings_def)
    have ui: "up_inputs sha key 0 (tree_hash sha ?n {}) (siblings w) \<subseteq> audit_inputs sha S key w"
      by (auto simp: audit_inputs_def absent_inputs_def Let_def)
    obtain s ss where sib: "siblings w = s # ss"
      using False sl by (cases "siblings w") auto
    have "commit sha S \<noteq> EMPTY_TREE_ROOT"
      using z[OF subsetD[OF ui]] unfolding r sib by (auto simp: Let_def node_hash_def)
    then have ne: "S \<noteq> {}" by (auto simp: commit_def)
    have "inj_on sha (tree_inputs sha key S \<union> up_inputs sha key 0 (tree_hash sha ?n {}) (siblings w))"
      using ti[of key] ui by (intro inj_on_subset[OF inj]) simp
    moreover have "\<forall>s \<in> set (siblings w). length s = 32" using w by (simp add: siblings_def wf_witness_def)
    moreover have "up sha key 0 (tree_hash sha ?n {}) (siblings w) = tree_hash sha 0 (same_prefix key 0 S)"
      using r ne by (simp add: commit_def)
    ultimately have h: "tree_hash sha ?n {} = tree_hash sha ?n (same_prefix key ?n S)"
      and ss: "siblings w = map (sib sha key S) [0..<?n]"
      using up_sound[OF len tree_hash_length[OF len], of key S 0 ?n "{}" "siblings w"] sl n by simp_all
    have "x \<notin> same_prefix key ?n S" for x
    proof
      assume x: "x \<in> same_prefix key ?n S"
      then have xS: "x \<in> S" by (simp add: same_prefix_def)
      have "tree_inputs sha x S \<union> empty_inputs sha ?n \<subseteq> audit_inputs sha S key w"
        using ti[of x] xS by (auto simp: audit_inputs_def absent_inputs_def Let_def)
      then have i: "inj_on sha (tree_inputs sha x S \<union> empty_inputs sha ?n)"
        by (rule inj_on_subset[OF inj])
      have zx: "EMPTY_TREE_ROOT \<notin> sha ` tree_inputs sha x S"
        using zero ti[of x] xS by blast
      show False
        using empty_subtree_sound[OF len S _ xS i zx order_refl n] S xS h same_prefix_same[OF x] by simp
    qed
    then have "same_prefix key ?n S = {}" by blast
    moreover have "steps_of (\<lambda>i. siblings w ! i) ?n = steps_of (sib sha key S) ?n"
      by (rule steps_of_cong) (metis ss map_nth sl)
    ultimately show ?thesis using n ne False st by simp
  qed
  then have p: "same_prefix key ?n S = {}" by simp
  show "key \<notin> S" using p by (auto simp: same_prefix_def)
  have "w = \<lparr>wit_terminal = Empty, wit_steps = steps_of (sib sha key S) ?n\<rparr>"
    using n shape by (intro witness.equality) simp_all
  then show "acc_insert sha (commit sha S) key w = Some (commit sha (insert key S))"
    using witness_inserts[of ?n S key sha] n by metis
qed

lemma acc_insert_sound:
  assumes "\<forall>x. length (sha x) = 32" "\<forall>x \<in> S. key_ok x" "key_ok key" "wf_witness w"
    and "inj_on sha (audit_inputs sha S key w)"
    and "EMPTY_TREE_ROOT \<notin> sha ` audit_inputs sha S key w"
    and "acc_insert sha (commit sha S) key w = Some root"
  shows "key \<notin> S \<and> root = commit sha (insert key S)"
proof -
  have "rebuild_absent_root sha key w (empty_hashes sha) = Some (commit sha S)"
    using assms(7) by (auto simp: acc_insert_def Let_def split: option.splits if_splits)
  from insert_sound[OF assms(1-6) this] assms(7) show ?thesis by simp
qed

section \<open>Properties\<close>

text \<open>C14. A tree of nullifiers proves the absence of every nullifier it lacks: the witness it
  emits is accepted against its root, and inserting with that witness yields the root of the
  tree with the nullifier added, for every hash function.\<close>

theorem accumulator_complete:
  assumes "distinct keys" "\<forall>k \<in> set keys. key_ok k" "key_ok key" "key \<notin> set keys"
  shows "\<exists>root w. tree_root sha keys = Some root
    \<and> non_membership_witness sha keys key = Some (Some w)
    \<and> verify_non_member sha root key w
    \<and> (\<exists>keys'. tree_insert keys key = Ok keys' \<and> tree_root sha keys' = acc_insert sha root key w)"
proof -
  obtain w where w: "non_membership_witness sha keys key = Some (Some w)"
    "verify_non_member sha (commit sha (set keys)) key w"
    "acc_insert sha (commit sha (set keys)) key w = Some (commit sha (insert key (set keys)))"
    using witness_accepted[OF assms] by blast
  have "tree_root sha keys = Some (commit sha (set keys))" using assms by (simp add: tree_root_commit)
  moreover have "tree_root sha (keys @ [key]) = Some (commit sha (insert key (set keys)))"
    using assms by (subst tree_root_commit) auto
  moreover have "tree_insert keys key = Ok (keys @ [key])" using assms(4) by (simp add: tree_insert_def)
  ultimately show ?thesis using w by auto
qed

theorem accumulator_complete_witness:
  "\<exists>root w. tree_root id [replicate 32 1] = Some root
    \<and> non_membership_witness id [replicate 32 1] (replicate 32 2) = Some (Some w)
    \<and> verify_non_member id root (replicate 32 2) w"
proof -
  have "replicate 32 (2 :: u8) \<notin> set [replicate 32 1]"
    by (simp add: numeral_eq_Suc)
  from accumulator_complete[OF _ _ _ this, of id] show ?thesis by (auto simp: key_ok_def)
qed

text \<open>C13. An accepted insertion proves absence: if the code inserts a nullifier into the root of
  a set of nullifiers, then the nullifier was not in the set and the new root is that of the
  larger set, unless SHA-256 collides among the inputs hashed on the paths involved or maps
  one of them to the zero root. This is what excludes spending a burn twice.\<close>

theorem accumulator_sound:
  assumes "\<forall>x. length (sha x) = 32" "\<forall>x \<in> S. key_ok x" "key_ok key" "wf_witness w"
    and "inj_on sha (audit_inputs sha S key w)"
    and "EMPTY_TREE_ROOT \<notin> sha ` audit_inputs sha S key w"
    and "acc_insert sha (commit sha S) key w = Some root"
  shows "key \<notin> S \<and> root = commit sha (insert key S)"
  using assms by (rule acc_insert_sound)

text \<open>The concrete hash of the witness: two head bytes and the byte at index 32 of the input.\<close>

definition sketch :: "bytes \<Rightarrow> bytes" where
  "sketch x = replicate 29 0 @ [x ! 0, x ! 1, x ! 32]"

lemma sketch_node: "sketch (node_preimage d l r) ! 29 = 1" "sketch (node_preimage d l r) ! 30 = d"
  by (simp_all add: sketch_def node_preimage_def NODE_PREFIX_def nth_append)

lemma sketch_leaf:
  "length k = 32 \<Longrightarrow> sketch (leaf_preimage k) ! 29 = 0" 
  "length k = 32 \<Longrightarrow> sketch (leaf_preimage k) ! 31 = k ! 31"
  by (simp_all add: sketch_def leaf_preimage_def LEAF_PREFIX_def nth_append)

lemma notin_image_insert: "f a \<noteq> z \<Longrightarrow> \<forall>d. f (g d) \<noteq> z \<Longrightarrow> z \<notin> f ` insert a (g ` D)"
  by auto

definition no_steps :: witness where
  "no_steps = \<lparr>wit_terminal = Empty, wit_steps = []\<rparr>"

lemma no_steps_insert:
  "acc_insert sha (commit sha {}) k no_steps = Some (commit sha {k})"
  using witness_inserts[of 0 "{}" k sha] by (simp add: no_steps_def)

lemma sketch_no_collision:
  assumes "length k = 32" "k ! 31 \<noteq> 0"
  shows "inj_on sketch (audit_inputs sketch {} k no_steps)"
    and "EMPTY_TREE_ROOT \<notin> sketch ` audit_inputs sketch {} k no_steps"
proof -
  let ?I = "audit_inputs sketch {} k no_steps"
  let ?N = "\<lambda>d. node_preimage (of_nat d) (tree_hash sketch (Suc d) {}) (tree_hash sketch (Suc d) {})"
  have I: "?I = insert (leaf_preimage k) (?N ` {..<256})"
    by (auto simp: audit_inputs_def absent_inputs_def tree_inputs_def empty_inputs_def siblings_def
        no_steps_def Let_def)
  have nodes: "?N d = ?N e" if "sketch (?N d) = sketch (?N e)" "d < 256" "e < 256" for d e
  proof -
    have "(of_nat d :: u8) = of_nat e" using that(1) by (metis sketch_node(2))
    then have "d = e" using that(2,3) by (metis unat_u8_of_nat)
    then show ?thesis by simp
  qed
  have leaf: "sketch (leaf_preimage k) \<noteq> sketch (?N d)" for d
    by (metis sketch_node(1) sketch_leaf(1) assms(1) zero_neq_one)
  have "inj_on sketch (?N ` {..<256})"
    by (rule inj_onI) (use nodes in blast)
  moreover have "sketch (leaf_preimage k) \<notin> sketch ` (?N ` {..<256} - {leaf_preimage k})"
    using leaf by blast
  ultimately show "inj_on sketch ?I" by (simp only: I inj_on_insert simp_thms)
  have z: "EMPTY_TREE_ROOT ! 29 = 0" "EMPTY_TREE_ROOT ! 31 = 0" by (simp_all add: EMPTY_TREE_ROOT_def)
  have zl: "sketch (leaf_preimage k) \<noteq> EMPTY_TREE_ROOT"
    using z(2) sketch_leaf(2)[OF assms(1)] assms(2) by metis
  have zn: "\<forall>d. sketch (?N d) \<noteq> EMPTY_TREE_ROOT" using z(1) sketch_node(1) by (metis zero_neq_one)
  show "EMPTY_TREE_ROOT \<notin> sketch ` ?I" unfolding I by (rule notin_image_insert; fact zl zn)
qed

lemma length_sketch [simp]: "length (sketch x) = 32"
  by (simp add: sketch_def)

theorem accumulator_sound_witness:
  "acc_insert sketch (commit sketch {}) (replicate 32 5) no_steps = Some (commit sketch {replicate 32 5})
   \<and> replicate 32 (5 :: u8) \<notin> {}"
proof -
  let ?k = "replicate 32 5 :: bytes"
  have k: "length ?k = 32" "?k ! 31 \<noteq> 0" by simp_all
  have "?k \<notin> {} \<and> commit sketch {?k} = commit sketch (insert ?k {})"
    by (rule accumulator_sound[OF _ _ _ _ sketch_no_collision[OF k] no_steps_insert])
      (simp_all add: key_ok_def wf_witness_def no_steps_def)
  then show ?thesis using no_steps_insert by blast
qed

text \<open>\<open>ordered_insert_witnesses\<close> never panics: it refuses exactly the batches that repeat a
  nullifier or reuse one of the tree, and otherwise returns one witness per nullifier such
  that inserting them in order leads from the root of the tree to the returned root, which is
  the root of the tree with the whole batch added.\<close>

theorem ordered_insert_witnesses_spec:
  assumes "distinct start" "\<forall>x \<in> set (start @ keys). key_ok x"
  shows "if distinct (start @ keys)
    then \<exists>ws old new. ordered_insert_witnesses sha start keys = Some (Ok (ws, new))
      \<and> length ws = length keys \<and> tree_root sha start = Some old
      \<and> tree_root sha (start @ keys) = Some new
      \<and> insert_all (acc_insert sha) old (zip keys ws) = Some new
    else ordered_insert_witnesses sha start keys = Some (Err DUPLICATE_KEY)"
proof (cases "distinct (start @ keys)")
  case True
  obtain ws where ws: "ordered_loop sha start [] keys = Some (Ok ([] @ ws, commit sha (set start \<union> set keys)))"
    "length ws = length keys"
    "\<forall>i < length keys. non_membership_witness sha (start @ take i keys) (keys ! i) = Some (Some (ws ! i))"
    using ordered_loop_ok[OF True assms(2), of sha "[]"] by blast
  have "insert_all (acc_insert sha) (commit sha (set start)) (zip keys ws)
      = Some (commit sha (set start \<union> set keys))"
    by (rule acc.insert_run[OF True assms(2) ws(2,3)])
  moreover have "tree_root sha start = Some (commit sha (set start))"
    using assms by (simp add: tree_root_commit)
  moreover have "tree_root sha (start @ keys) = Some (commit sha (set start \<union> set keys))"
    using True assms(2) by (simp add: tree_root_commit)
  ultimately show ?thesis using True ws by (auto simp: ordered_insert_witnesses_def)
next
  case False
  with ordered_loop_dup[OF assms] show ?thesis by (simp add: ordered_insert_witnesses_def)
qed

theorem ordered_insert_witnesses_spec_witness:
  "ordered_insert_witnesses id [replicate 32 1] [replicate 32 1] = Some (Err DUPLICATE_KEY)"
  using ordered_insert_witnesses_spec[of "[replicate 32 1]" "[replicate 32 1]" id]
  by (simp add: key_ok_def)

end
