(* ===== verification/Sdk.thy ===== *)
theory Sdk
  imports Accumulator_Proofs
begin

text \<open>
  The boundary to the Unicity token SDK (crate \<open>unicity_token\<close>, not part of the
  repository). The records list the values the code reads off SDK objects through their
  accessors; the record \<open>sdk\<close> collects the SDK functions the code calls, as parameters of
  every definition that uses them. Nothing is assumed of them here. The second half of the
  theory is \<open>prover/crates/sdk-ext/src/error.rs\<close> and \<open>trust.rs\<close>.
\<close>

section \<open>Values read off SDK objects\<close>

record root_node =
  node_id :: string
  node_signing_key :: bytes
  node_stake :: u64

record trust_base =
  tb_version :: u64
  tb_network_id :: u16
  tb_epoch :: u64
  tb_epoch_start_round :: u64
  tb_root_nodes :: "root_node list"
  tb_quorum_threshold :: u64

record shard =
  shard_length :: nat
  shard_bits :: bytes

text \<open>\<open>UnicityCertificate\<close>: the seal's fields, the input record's hash and the shard.\<close>

record certificate =
  seal_network_id :: u16
  seal_hash :: bytes
  seal_signatures :: "(string \<times> bytes) list"
  input_record_hash :: bytes
  cert_shard :: shard
  cert_rest :: bytes

record data_hash =
  dh_algorithm :: nat
  dh_data :: bytes

record certification_data =
  cd_lock_script :: bytes
  cd_source_state_hash :: data_hash
  cd_expires_at :: "u64 option"
  cd_transaction_hash :: data_hash
  cd_unlock_script :: bytes

record inclusion_proof =
  ip_certification_data :: certification_data
  ip_reference_time :: u64
  ip_inclusion_certificate :: bytes
  ip_unicity_certificate :: certificate

text \<open>The trait \<open>Transaction\<close>, shared by mints and transfers.\<close>

record transaction =
  tx_data :: "bytes option"
  tx_lock_script :: bytes
  tx_source_state_hash :: data_hash
  tx_expires_at :: "u64 option"
  tx_calculated_hash :: data_hash

record mint_transaction = transaction +
  mint_network_id :: u16
  mint_token_type :: bytes
  mint_justification :: "bytes option"
  mint_recipient :: bytes
  mint_salt :: bytes
  mint_token_id :: bytes

record transfer =
  tr_transaction :: transaction
  tr_inclusion_proof :: inclusion_proof
  tr_recipient :: bytes

record token =
  tok_mint :: mint_transaction
  tok_mint_proof :: inclusion_proof
  tok_transactions :: "transfer list"

record asset =
  asset_id :: bytes
  asset_value :: nat

record split_manifest =
  mf_roots :: "bytes list"
  mf_reason_hash :: bytes

record split_justification =
  sj_token :: token
  sj_proofs :: "bytes list"

section \<open>SDK functions\<close>

text \<open>
  A \<open>Decoder\<close> is the slice of bytes it reads. \<open>dec_finish\<close> says that the slice is one
  well-formed item, \<open>dec_array n\<close> is \<open>array(Some(n))\<close>.
\<close>

record decoder =
  dec_finish :: "bytes \<Rightarrow> bool"
  dec_expect_tag :: "u64 \<Rightarrow> bytes \<Rightarrow> bytes option"
  dec_array :: "nat \<Rightarrow> bytes \<Rightarrow> bytes list option"
  dec_uint :: "bytes \<Rightarrow> u64 option"
  dec_bytes :: "bytes \<Rightarrow> bytes option"
  dec_is_null :: "bytes \<Rightarrow> bool"

record sdk =
  sdk_sha256 :: "bytes \<Rightarrow> bytes"
  sdk_decoder :: decoder
  sdk_trust_valid :: "trust_base \<Rightarrow> bool"
  sdk_signing_key :: "trust_base \<Rightarrow> string \<Rightarrow> bytes option"
  sdk_computed_seal_hash :: "certificate \<Rightarrow> bytes option"
  sdk_seal_digest :: "certificate \<Rightarrow> bytes"
  sdk_signature_decode :: "bytes \<Rightarrow> bytes option"
  sdk_signature_verify :: "bytes \<Rightarrow> bytes \<Rightarrow> bytes \<Rightarrow> bool"
  sdk_sha256_data_hash :: "bytes \<Rightarrow> data_hash option"
  sdk_state_id :: "bytes \<Rightarrow> data_hash \<Rightarrow> bytes"
  sdk_leaf_value :: "data_hash \<Rightarrow> u64 \<Rightarrow> bytes"
  sdk_inclusion_verify :: "bytes \<Rightarrow> bytes \<Rightarrow> bytes \<Rightarrow> data_hash \<Rightarrow> bool"
  sdk_is_prefix_of :: "shard \<Rightarrow> bytes \<Rightarrow> bool"
  sdk_minter_key :: "bytes \<Rightarrow> bytes option"
  sdk_signature_predicate :: "bytes \<Rightarrow> bytes"
  sdk_predicate_key :: "bytes \<Rightarrow> bytes option"
  sdk_unlock_verify :: "bytes \<Rightarrow> data_hash \<Rightarrow> data_hash \<Rightarrow> bytes \<Rightarrow> bool"
  sdk_burn_predicate :: "bytes \<Rightarrow> bytes"
  sdk_assets_from_cbor :: "bytes \<Rightarrow> asset list option"
  sdk_assets_to_cbor :: "asset list \<Rightarrow> bytes"
  sdk_encode_amount :: "nat \<Rightarrow> bytes"
  sdk_predicate_cbor :: "bytes \<Rightarrow> bytes"
  sdk_split_justification :: "bytes \<Rightarrow> split_justification option"
  sdk_split_manifest :: "bytes \<Rightarrow> split_manifest option"
  sdk_split_commitment ::
    "bytes \<Rightarrow> u16 \<Rightarrow> bytes \<Rightarrow> bytes \<Rightarrow> bytes \<Rightarrow> bytes \<Rightarrow> bytes \<Rightarrow> bytes"
  sdk_allocation_verify :: "bytes \<Rightarrow> bytes \<Rightarrow> bytes \<Rightarrow> nat \<Rightarrow> bytes \<Rightarrow> nat option"
  sdk_token_to_cbor :: "token \<Rightarrow> bytes"
  sdk_token_from_cbor :: "bytes \<Rightarrow> token option"
  sdk_certificate_to_cbor :: "certificate \<Rightarrow> bytes"
  sdk_certificate_from_cbor :: "bytes \<Rightarrow> certificate option"
  sdk_network_id :: "u16 \<Rightarrow> u16 option"
  sdk_public_key :: "bytes \<Rightarrow> bytes option"
  sdk_encode_array :: "bytes list \<Rightarrow> bytes"
  sdk_encode_text :: "string \<Rightarrow> bytes"
  sdk_encode_bytes :: "bytes \<Rightarrow> bytes"
  sdk_encode_uint :: "u64 \<Rightarrow> bytes"
  sdk_encode_tag :: "u64 \<Rightarrow> bytes \<Rightarrow> bytes"
  sdk_encode_null :: bytes

section \<open>Errors\<close>

datatype bridge_ext_error =
    InvalidTrustBase
  | NetworkMismatch
  | InvalidMintLockScript
  | CertificationDataMismatch
  | RequestExpired
  | TransactionHashMismatch
  | PathInvalid
  | ShardMismatch
  | SealNetworkMismatch
  | SealRootMismatch
  | QuorumNotMet
  | NotAuthenticated
  | Genesis
  | Transfer
  | BridgeLockJustificationMalformed
  | BridgeLockAddressLength
  | BridgeLockBytes32Length
  | BridgeLockConfigMismatch
  | BridgeLockTokenTypeMismatch
  | BridgeLockPaymentDataMissing
  | BridgeLockPaymentDataMalformed
  | BridgeLockCoinMissing
  | BridgeLockAmountMismatch
  | SplitMalformed
  | SplitNetworkMismatch
  | SplitBurnTransferMissing
  | SplitManifestMissing
  | SplitManifestMalformed
  | SplitBurnPredicateMismatch
  | SplitTokenTypeMismatch
  | SplitSourcePaymentDataMissing
  | SplitManifestLengthMismatch
  | SplitProofCountMismatch
  | SplitSourceAssetMissing
  | SplitAllocationProofInvalid
  | SplitSourceAmountMismatch

section \<open>Trust base hash\<close>

definition canonical_hash :: "sdk \<Rightarrow> trust_base \<Rightarrow> bytes" where
  "canonical_hash S tb =
     (let nodes = map (\<lambda>node. sdk_encode_array S
                  [sdk_encode_text S (node_id node), sdk_encode_bytes S (node_signing_key node),
                   sdk_encode_uint S (node_stake node)]) (tb_root_nodes tb);
          encoded_nodes = sdk_encode_array S nodes;
          encoded = sdk_encode_array S
            [sdk_encode_uint S (tb_version tb), sdk_encode_uint S (ucast (tb_network_id tb)),
             sdk_encode_uint S (tb_epoch tb), sdk_encode_uint S (tb_epoch_start_round tb),
             encoded_nodes, sdk_encode_uint S (tb_quorum_threshold tb)]
      in sdk_sha256 S encoded)"

end
