(* ===== verification/Sdk_Verify.thy ===== *)
theory Sdk_Verify
  imports Sdk
begin

text \<open>
  Model of \<open>prover/crates/sdk-ext/src/verify.rs\<close>: a token is verified either against one
  anchor root or with the unicity certificate each transition carries. A certificate is
  accepted only on signatures of a quorum of distinct root nodes with distinct keys.
\<close>

section \<open>Certificates\<close>

text \<open>The counting loop: the counted node ids and the keys they were counted with.\<close>

fun count_signatures ::
  "sdk \<Rightarrow> trust_base \<Rightarrow> bytes \<Rightarrow> (string \<times> bytes) list \<Rightarrow> string list \<times> bytes list
   \<Rightarrow> string list \<times> bytes list" where
  "count_signatures S tb digest [] st = st"
| "count_signatures S tb digest ((nid, signature) # sigs) (counted, keys) =
     count_signatures S tb digest sigs
       (if nid \<in> set counted then (counted, keys)
        else case sdk_signing_key S tb nid of
               None \<Rightarrow> (counted, keys)
             | Some key \<Rightarrow>
                 if key \<in> set keys then (counted, keys)
                 else case sdk_signature_decode S signature of
                        None \<Rightarrow> (counted, keys)
                      | Some sig \<Rightarrow>
                          if sdk_signature_verify S sig digest key
                          then (nid # counted, keys @ [key])
                          else (counted, keys))"

definition verify_unicity_certificate ::
  "sdk \<Rightarrow> trust_base \<Rightarrow> certificate \<Rightarrow> bridge_ext_error + bytes" where
  "verify_unicity_certificate S tb cert =
     (if seal_network_id cert \<noteq> tb_network_id tb then Err SealNetworkMismatch
      else and_then (ok_or SealRootMismatch (sdk_computed_seal_hash S cert)) (\<lambda>computed.
        if computed \<noteq> seal_hash cert then Err SealRootMismatch
        else
          let counted = fst (count_signatures S tb (sdk_seal_digest S cert)
                (seal_signatures cert) ([], []))
          in if (of_nat (length counted) :: u64) < tb_quorum_threshold tb then Err QuorumNotMet
             else if length (input_record_hash cert) \<noteq> 32 then Err PathInvalid
             else Ok (input_record_hash cert)))"

definition verify_anchor_certificate ::
  "sdk \<Rightarrow> trust_base \<Rightarrow> certificate \<Rightarrow> bridge_ext_error + bytes" where
  "verify_anchor_certificate S tb cert =
     (if \<not> sdk_trust_valid S tb then Err InvalidTrustBase else verify_unicity_certificate S tb cert)"

section \<open>Inclusion\<close>

definition verify_predicate ::
  "sdk \<Rightarrow> bytes \<Rightarrow> data_hash \<Rightarrow> data_hash \<Rightarrow> bytes \<Rightarrow> bridge_ext_error + unit" where
  "verify_predicate S lock_script source_state_hash transaction_hash unlock_script =
     and_then (ok_or NotAuthenticated (sdk_predicate_key S lock_script)) (\<lambda>key.
       if sdk_unlock_verify S key source_state_hash transaction_hash unlock_script then Ok ()
       else Err NotAuthenticated)"

definition verify_inclusion_against_root ::
  "sdk \<Rightarrow> bytes \<Rightarrow> inclusion_proof \<Rightarrow> 'a transaction_scheme \<Rightarrow> bridge_ext_error + unit" where
  "verify_inclusion_against_root S expected_root proof tx =
     (let cd = ip_certification_data proof in
      if cd_lock_script cd \<noteq> tx_lock_script tx
         \<or> cd_source_state_hash cd \<noteq> tx_source_state_hash tx
         \<or> cd_expires_at cd \<noteq> tx_expires_at tx
      then Err CertificationDataMismatch
      else
        let tx_hash = tx_calculated_hash tx in
        if cd_transaction_hash cd \<noteq> tx_hash then Err TransactionHashMismatch
        else if (case cd_expires_at cd of None \<Rightarrow> False | Some e \<Rightarrow> e \<le> ip_reference_time proof)
        then Err RequestExpired
        else
          let state_id = sdk_state_id S (tx_lock_script tx) (tx_source_state_hash tx) in
          and_then (ok_or PathInvalid (sdk_sha256_data_hash S expected_root)) (\<lambda>root.
            let leaf_value = sdk_leaf_value S tx_hash (ip_reference_time proof) in
            if \<not> sdk_inclusion_verify S (ip_inclusion_certificate proof) state_id leaf_value root
            then Err PathInvalid
            else
              let shard = cert_shard (ip_unicity_certificate proof) in
              if shard_length shard \<noteq> 0 \<and> \<not> sdk_is_prefix_of S shard state_id
              then Err ShardMismatch
              else verify_predicate S (tx_lock_script tx) (tx_source_state_hash tx)
                     (cd_transaction_hash cd) (cd_unlock_script cd)))"

definition verify_inclusion_with_own_certificate ::
  "sdk \<Rightarrow> trust_base \<Rightarrow> inclusion_proof \<Rightarrow> 'a transaction_scheme \<Rightarrow> bridge_ext_error + unit" where
  "verify_inclusion_with_own_certificate S tb proof tx =
     and_then (verify_unicity_certificate S tb (ip_unicity_certificate proof)) (\<lambda>root.
       verify_inclusion_against_root S root proof tx)"

section \<open>Tokens\<close>

definition check_mint_lock_script :: "sdk \<Rightarrow> token \<Rightarrow> bridge_ext_error + unit" where
  "check_mint_lock_script S token =
     and_then (ok_or InvalidMintLockScript (sdk_minter_key S (mint_token_id (tok_mint token)))) (\<lambda>key.
       let expected_lock = sdk_signature_predicate S key;
           certified_lock = cd_lock_script (ip_certification_data (tok_mint_proof token))
       in if certified_lock \<noteq> expected_lock then Err InvalidMintLockScript else Ok ())"

definition verify_genesis_against_root ::
  "sdk \<Rightarrow> token \<Rightarrow> trust_base \<Rightarrow> bytes \<Rightarrow> bridge_ext_error + unit" where
  "verify_genesis_against_root S token tb anchor_root =
     (if mint_network_id (tok_mint token) \<noteq> tb_network_id tb then Err NetworkMismatch
      else and_then (check_mint_lock_script S token) (\<lambda>_.
        map_err (\<lambda>_. Genesis)
          (verify_inclusion_against_root S anchor_root (tok_mint_proof token) (tok_mint token))))"

definition verify_genesis_with_own_certificate ::
  "sdk \<Rightarrow> token \<Rightarrow> trust_base \<Rightarrow> bridge_ext_error + unit" where
  "verify_genesis_with_own_certificate S token tb =
     (if mint_network_id (tok_mint token) \<noteq> tb_network_id tb then Err NetworkMismatch
      else and_then (check_mint_lock_script S token) (\<lambda>_.
        map_err (\<lambda>_. Genesis)
          (verify_inclusion_with_own_certificate S tb (tok_mint_proof token) (tok_mint token))))"

text \<open>A \<open>for\<close> loop whose body may return an error.\<close>

fun for_all :: "('a \<Rightarrow> 'e + unit) \<Rightarrow> 'a list \<Rightarrow> 'e + unit" where
  "for_all f [] = Ok ()"
| "for_all f (x # xs) = and_then (f x) (\<lambda>_. for_all f xs)"

definition verify_token_against_root ::
  "sdk \<Rightarrow> token \<Rightarrow> trust_base \<Rightarrow> bytes \<Rightarrow> bridge_ext_error + unit" where
  "verify_token_against_root S token tb anchor_root =
     (if \<not> sdk_trust_valid S tb then Err InvalidTrustBase
      else and_then (verify_genesis_against_root S token tb anchor_root) (\<lambda>_.
        for_all (\<lambda>t. map_err (\<lambda>_. Transfer)
            (verify_inclusion_against_root S anchor_root (tr_inclusion_proof t) (tr_transaction t)))
          (tok_transactions token)))"

definition verify_token_anchored ::
  "sdk \<Rightarrow> token \<Rightarrow> trust_base \<Rightarrow> certificate \<Rightarrow> bridge_ext_error + unit" where
  "verify_token_anchored S token tb cert =
     and_then (verify_anchor_certificate S tb cert) (\<lambda>root. verify_token_against_root S token tb root)"

definition verify_token_certified ::
  "sdk \<Rightarrow> token \<Rightarrow> trust_base \<Rightarrow> bridge_ext_error + unit" where
  "verify_token_certified S token tb =
     (if \<not> sdk_trust_valid S tb then Err InvalidTrustBase
      else and_then (verify_genesis_with_own_certificate S token tb) (\<lambda>_.
        for_all (\<lambda>t. map_err (\<lambda>_. Transfer)
            (verify_inclusion_with_own_certificate S tb (tr_inclusion_proof t) (tr_transaction t)))
          (tok_transactions token)))"

section \<open>Quorums\<close>

lemma for_all_Ok_iff: "for_all f xs = Ok () \<longleftrightarrow> (\<forall>x \<in> set xs. f x = Ok ())"
  by (induction xs) (auto simp: and_then_Ok_iff)

text \<open>A counted node: it has a key in the trust base and the seal carries its signature.\<close>

definition signed :: "sdk \<Rightarrow> trust_base \<Rightarrow> bytes \<Rightarrow> (string \<times> bytes) list \<Rightarrow> string \<Rightarrow> bool" where
  "signed S tb digest sigs nid \<longleftrightarrow> (\<exists>signature sig key. (nid, signature) \<in> set sigs
     \<and> sdk_signing_key S tb nid = Some key \<and> sdk_signature_decode S signature = Some sig
     \<and> sdk_signature_verify S sig digest key)"

definition counted_ok ::
  "sdk \<Rightarrow> trust_base \<Rightarrow> bytes \<Rightarrow> (string \<times> bytes) list \<Rightarrow> string list \<times> bytes list \<Rightarrow> bool" where
  "counted_ok S tb digest sigs st \<longleftrightarrow> distinct (fst st) \<and> distinct (snd st)
     \<and> (\<forall>nid \<in> set (fst st). signed S tb digest sigs nid)
     \<and> map (sdk_signing_key S tb) (rev (fst st)) = map Some (snd st)"

lemma counted_ok_nil [simp]: "counted_ok S tb digest sigs ([], [])"
  by (simp add: counted_ok_def)

lemma counted_ok_add:
  assumes "counted_ok S tb digest sigs (counted, keys)" "nid \<notin> set counted" "key \<notin> set keys"
    and "(nid, signature) \<in> set sigs" "sdk_signing_key S tb nid = Some key"
    and "sdk_signature_decode S signature = Some sig" "sdk_signature_verify S sig digest key"
  shows "counted_ok S tb digest sigs (nid # counted, keys @ [key])"
  using assms by (auto simp: counted_ok_def signed_def)

lemma count_signatures_ok:
  "counted_ok S tb digest all st \<Longrightarrow> set sigs \<subseteq> set all \<Longrightarrow>
   counted_ok S tb digest all (count_signatures S tb digest sigs st)"
proof (induction S tb digest sigs st rule: count_signatures.induct)
  case (2 S tb digest nid signature sigs counted keys)
  let ?st = "if nid \<in> set counted then (counted, keys)
        else case sdk_signing_key S tb nid of
               None \<Rightarrow> (counted, keys)
             | Some key \<Rightarrow>
                 if key \<in> set keys then (counted, keys)
                 else case sdk_signature_decode S signature of
                        None \<Rightarrow> (counted, keys)
                      | Some sig \<Rightarrow>
                          if sdk_signature_verify S sig digest key
                          then (nid # counted, keys @ [key])
                          else (counted, keys)"
  have "counted_ok S tb digest all ?st"
    using "2.prems" by (auto split: option.splits intro!: counted_ok_add)
  moreover have "set sigs \<subseteq> set all" using "2.prems"(2) by simp
  ultimately show ?case unfolding count_signatures.simps(2) by (rule "2.IH")
qed simp

text \<open>What a quorum is: as many signing nodes as the threshold, with pairwise distinct keys.\<close>

definition quorum :: "sdk \<Rightarrow> trust_base \<Rightarrow> certificate \<Rightarrow> string set \<Rightarrow> bool" where
  "quorum S tb cert N \<longleftrightarrow> finite N \<and> unat (tb_quorum_threshold tb) \<le> card N
     \<and> (\<forall>nid \<in> N. signed S tb (sdk_seal_digest S cert) (seal_signatures cert) nid)
     \<and> inj_on (sdk_signing_key S tb) N"

lemma counted_quorum:
  assumes "counted_ok S tb (sdk_seal_digest S cert) (seal_signatures cert) st"
    and "\<not> (of_nat (length (fst st)) :: u64) < tb_quorum_threshold tb"
  shows "quorum S tb cert (set (fst st))"
proof -
  have d: "distinct (fst st)" "distinct (snd st)"
    and m: "map (sdk_signing_key S tb) (rev (fst st)) = map Some (snd st)"
    and s: "\<forall>nid \<in> set (fst st). signed S tb (sdk_seal_digest S cert) (seal_signatures cert) nid"
    using assms(1) by (auto simp: counted_ok_def)
  have "distinct (map (sdk_signing_key S tb) (rev (fst st)))"
    unfolding m using d(2) by (simp add: distinct_map)
  then have "inj_on (sdk_signing_key S tb) (set (fst st))" by (simp add: distinct_map)
  moreover have "unat (tb_quorum_threshold tb) \<le> unat (of_nat (length (fst st)) :: u64)"
    using assms(2) by (simp add: word_less_nat_alt)
  moreover have "unat (of_nat (length (fst st)) :: u64) \<le> length (fst st)"
    by (simp add: unat_of_nat)
  ultimately show ?thesis using d(1) s by (simp add: quorum_def distinct_card)
qed

lemma verify_unicity_certificate_Ok:
  assumes "verify_unicity_certificate S tb cert = Ok root"
  shows "seal_network_id cert = tb_network_id tb \<and> sdk_computed_seal_hash S cert = Some (seal_hash cert)
    \<and> (\<exists>N. quorum S tb cert N) \<and> root = input_record_hash cert \<and> length root = 32"
proof -
  let ?st = "count_signatures S tb (sdk_seal_digest S cert) (seal_signatures cert) ([], [])"
  have "counted_ok S tb (sdk_seal_digest S cert) (seal_signatures cert) ?st"
    by (rule count_signatures_ok) simp_all
  then have "\<not> (of_nat (length (fst ?st)) :: u64) < tb_quorum_threshold tb
    \<Longrightarrow> quorum S tb cert (set (fst ?st))" by (rule counted_quorum)
  with assms show ?thesis
    by (auto simp: verify_unicity_certificate_def and_then_Ok_iff Let_def split: if_splits)
qed

section \<open>Tokens\<close>

text \<open>What it means that a transition is included under a root and authorised by its owner.\<close>

definition included :: "sdk \<Rightarrow> bytes \<Rightarrow> inclusion_proof \<Rightarrow> 'a transaction_scheme \<Rightarrow> bool" where
  "included S root proof tx \<longleftrightarrow>
     (let cd = ip_certification_data proof;
          state_id = sdk_state_id S (tx_lock_script tx) (tx_source_state_hash tx);
          shard = cert_shard (ip_unicity_certificate proof)
      in cd_lock_script cd = tx_lock_script tx
         \<and> cd_source_state_hash cd = tx_source_state_hash tx
         \<and> cd_expires_at cd = tx_expires_at tx
         \<and> cd_transaction_hash cd = tx_calculated_hash tx
         \<and> (\<forall>e. tx_expires_at tx = Some e \<longrightarrow> ip_reference_time proof < e)
         \<and> (\<exists>r. sdk_sha256_data_hash S root = Some r
              \<and> sdk_inclusion_verify S (ip_inclusion_certificate proof) state_id
                    (sdk_leaf_value S (tx_calculated_hash tx) (ip_reference_time proof)) r)
         \<and> (shard_length shard = 0 \<or> sdk_is_prefix_of S shard state_id)
         \<and> (\<exists>key. sdk_predicate_key S (tx_lock_script tx) = Some key
              \<and> sdk_unlock_verify S key (tx_source_state_hash tx) (tx_calculated_hash tx)
                    (cd_unlock_script cd)))"

lemma verify_inclusion_Ok_iff:
  "verify_inclusion_against_root S root proof tx = Ok () \<longleftrightarrow> included S root proof tx"
  by (auto simp: verify_inclusion_against_root_def verify_predicate_def included_def Let_def
      and_then_Ok_iff not_le split: option.splits if_splits)

lemma check_mint_lock_script_Ok_iff:
  "check_mint_lock_script S token = Ok () \<longleftrightarrow>
     (\<exists>key. sdk_minter_key S (mint_token_id (tok_mint token)) = Some key
        \<and> cd_lock_script (ip_certification_data (tok_mint_proof token)) = sdk_signature_predicate S key)"
  by (auto simp: check_mint_lock_script_def and_then_Ok_iff Let_def split: if_splits)

text \<open>The mint comes from its minter and every transition satisfies \<open>P\<close>.\<close>

definition genuine ::
  "sdk \<Rightarrow> trust_base \<Rightarrow> (inclusion_proof \<Rightarrow> transaction \<Rightarrow> bool) \<Rightarrow> token \<Rightarrow> bool" where
  "genuine S tb P token \<longleftrightarrow> sdk_trust_valid S tb
     \<and> mint_network_id (tok_mint token) = tb_network_id tb
     \<and> (\<exists>key. sdk_minter_key S (mint_token_id (tok_mint token)) = Some key
          \<and> tx_lock_script (tok_mint token) = sdk_signature_predicate S key)
     \<and> P (tok_mint_proof token) (transaction.truncate (tok_mint token))
     \<and> (\<forall>t \<in> set (tok_transactions token). P (tr_inclusion_proof t) (tr_transaction t))"

lemma included_truncate [simp]: "included S root proof (transaction.truncate tx) = included S root proof tx"
  by (simp add: included_def transaction.truncate_def)

lemma verify_token_against_root_Ok_iff:
  "verify_token_against_root S token tb root = Ok () \<longleftrightarrow> genuine S tb (included S root) token"
  by (auto simp: verify_token_against_root_def verify_genesis_against_root_def genuine_def
      and_then_Ok_iff for_all_Ok_iff verify_inclusion_Ok_iff check_mint_lock_script_Ok_iff
      included_def Let_def transaction.truncate_def split: if_splits)

definition certified_inclusion :: "sdk \<Rightarrow> trust_base \<Rightarrow> inclusion_proof \<Rightarrow> 'a transaction_scheme \<Rightarrow> bool" where
  "certified_inclusion S tb proof tx \<longleftrightarrow>
     (\<exists>root. verify_unicity_certificate S tb (ip_unicity_certificate proof) = Ok root
        \<and> included S root proof tx)"

lemma certified_inclusion_truncate [simp]:
  "certified_inclusion S tb proof (transaction.truncate tx) = certified_inclusion S tb proof tx"
  by (simp add: certified_inclusion_def)

lemma own_certificate_Ok_iff:
  "verify_inclusion_with_own_certificate S tb proof tx = Ok () \<longleftrightarrow> certified_inclusion S tb proof tx"
  by (auto simp: verify_inclusion_with_own_certificate_def certified_inclusion_def and_then_Ok_iff
      verify_inclusion_Ok_iff)

lemma certified_lock_script:
  "certified_inclusion S tb proof tx \<Longrightarrow>
   cd_lock_script (ip_certification_data proof) = tx_lock_script tx"
  by (auto simp: certified_inclusion_def included_def Let_def)

lemma verify_token_certified_Ok_iff:
  "verify_token_certified S token tb = Ok () \<longleftrightarrow> genuine S tb (certified_inclusion S tb) token"
  by (auto simp: verify_token_certified_def verify_genesis_with_own_certificate_def genuine_def
      and_then_Ok_iff for_all_Ok_iff own_certificate_Ok_iff check_mint_lock_script_Ok_iff
      certified_lock_script split: if_splits)

section \<open>Properties\<close>

text \<open>C16. A certificate is accepted only on a quorum: the seal is of the trust base's network and
  covers the certificate, and at least as many nodes as the threshold signed it, each with a
  key of the trust base and no two with the same key.\<close>

theorem certificate_quorum:
  assumes "verify_unicity_certificate S tb cert = Ok root"
  shows "seal_network_id cert = tb_network_id tb \<and> sdk_computed_seal_hash S cert = Some (seal_hash cert)
    \<and> root = input_record_hash cert \<and> length root = 32
    \<and> (\<exists>N. finite N \<and> unat (tb_quorum_threshold tb) \<le> card N \<and> inj_on (sdk_signing_key S tb) N
         \<and> (\<forall>nid \<in> N. \<exists>signature sig key. (nid, signature) \<in> set (seal_signatures cert)
              \<and> sdk_signing_key S tb nid = Some key \<and> sdk_signature_decode S signature = Some sig
              \<and> sdk_signature_verify S sig (sdk_seal_digest S cert) key))"
  using verify_unicity_certificate_Ok[OF assms] unfolding quorum_def signed_def by blast

text \<open>C17. A token verifies in certified mode exactly when the trust base is valid, the mint is of
  its network and authorised by the minter key of its token id, and the mint and every
  transfer are included, unexpired and authorised under the root of the certificate each
  carries.\<close>

theorem verify_token_certified_spec:
  "verify_token_certified S token tb = Ok () \<longleftrightarrow>
     sdk_trust_valid S tb \<and> mint_network_id (tok_mint token) = tb_network_id tb
     \<and> (\<exists>key. sdk_minter_key S (mint_token_id (tok_mint token)) = Some key
          \<and> tx_lock_script (tok_mint token) = sdk_signature_predicate S key)
     \<and> (\<exists>root. verify_unicity_certificate S tb (ip_unicity_certificate (tok_mint_proof token)) = Ok root
          \<and> included S root (tok_mint_proof token) (tok_mint token))
     \<and> (\<forall>t \<in> set (tok_transactions token).
          \<exists>root. verify_unicity_certificate S tb (ip_unicity_certificate (tr_inclusion_proof t)) = Ok root
            \<and> included S root (tr_inclusion_proof t) (tr_transaction t))"
  by (auto simp: verify_token_certified_Ok_iff genuine_def certified_inclusion_def)

end
