(* ===== verification/Sdk_Bridge.thy ===== *)
theory Sdk_Bridge
  imports Sdk_Verify
begin

text \<open>
  Model of \<open>prover/crates/sdk-ext/src/bridge.rs\<close>: the lock obligation a genuine bridged
  token carries, read off its mint justification or, for the output of a split, off the
  burned source token. Splits nest, so the recursion takes fuel; out of fuel is \<open>None\<close>.
\<close>

definition BRIDGE_LOCK_JUSTIFICATION_VERSION :: u64 where "BRIDGE_LOCK_JUSTIFICATION_VERSION = 1"
definition WALLET_VALUE_TAG :: u64 where "WALLET_VALUE_TAG = 39050"
definition WALLET_VALUE_VERSION :: u64 where "WALLET_VALUE_VERSION = 1"

section \<open>Payment data\<close>

definition decode_bridged_payment_data :: "sdk \<Rightarrow> bytes \<Rightarrow> asset list option" where
  "decode_bridged_payment_data S bs =
     (let D = sdk_decoder S in
      if \<not> dec_finish D bs then None
      else case dec_expect_tag D WALLET_VALUE_TAG bs of
        None \<Rightarrow> None
      | Some inner \<Rightarrow>
          (case dec_array D 3 inner of
             None \<Rightarrow> None
           | Some items \<Rightarrow>
               if dec_uint D (items ! 0) \<noteq> Some WALLET_VALUE_VERSION then None
               else case sdk_assets_from_cbor S (items ! 1) of
                      None \<Rightarrow> None
                    | Some assets \<Rightarrow>
                        if dec_is_null D (items ! 2) \<or> dec_bytes D (items ! 2) \<noteq> None
                        then Some assets else None))"

definition encode_bridged_payment_data :: "sdk \<Rightarrow> asset list \<Rightarrow> bytes" where
  "encode_bridged_payment_data S assets =
     sdk_encode_tag S WALLET_VALUE_TAG
       (sdk_encode_array S [sdk_encode_uint S WALLET_VALUE_VERSION, sdk_assets_to_cbor S assets,
          sdk_encode_null S])"

section \<open>Lock justifications\<close>

record sdk_config =
  sc_source_chain_id :: u64
  sc_vault :: bytes
  sc_asset :: bytes
  sc_token_type :: bytes
  sc_coin_id :: bytes

record lock_justification =
  lj_source_chain_id :: u64
  lj_vault :: bytes
  lj_asset :: bytes
  lj_txid :: bytes
  lj_log_index :: u64
  lj_amount :: u64
  lj_nonce :: u64

record lock_obligation =
  ob_nonce :: u64
  ob_digest :: bytes

definition ext_uint :: "decoder \<Rightarrow> bytes \<Rightarrow> bridge_ext_error + u64" where
  "ext_uint D item = ok_or BridgeLockJustificationMalformed (dec_uint D item)"

definition ext_bytes_n :: "nat \<Rightarrow> decoder \<Rightarrow> bytes \<Rightarrow> bridge_ext_error + bytes" where
  "ext_bytes_n n D item =
     and_then (ok_or BridgeLockJustificationMalformed (dec_bytes D item)) (\<lambda>bs.
       if length bs = n then Ok bs
       else if n = 20 then Err BridgeLockAddressLength
       else if n = 32 then Err BridgeLockBytes32Length
       else Err BridgeLockJustificationMalformed)"

definition from_cbor_bytes ::
  "decoder \<Rightarrow> bytes \<Rightarrow> u64 \<Rightarrow> bridge_ext_error + lock_justification" where
  "from_cbor_bytes D bs expected_tag =
     (if \<not> dec_finish D bs then Err BridgeLockJustificationMalformed else
      and_then (ok_or BridgeLockJustificationMalformed (dec_expect_tag D expected_tag bs)) (\<lambda>inner.
      and_then (ok_or BridgeLockJustificationMalformed (dec_array D 8 inner)) (\<lambda>items.
      and_then (ext_uint D (items ! 0)) (\<lambda>version.
      if version \<noteq> BRIDGE_LOCK_JUSTIFICATION_VERSION then Err BridgeLockJustificationMalformed else
      and_then (ext_uint D (items ! 1)) (\<lambda>chain.
      and_then (ext_bytes_n 20 D (items ! 2)) (\<lambda>vault.
      and_then (ext_bytes_n 20 D (items ! 3)) (\<lambda>asset.
      and_then (ext_bytes_n 32 D (items ! 4)) (\<lambda>txid.
      and_then (ext_uint D (items ! 5)) (\<lambda>log_index.
      and_then (ext_uint D (items ! 6)) (\<lambda>amount.
      and_then (ext_uint D (items ! 7)) (\<lambda>nonce.
      Ok \<lparr>lj_source_chain_id = chain, lj_vault = vault, lj_asset = asset, lj_txid = txid,
          lj_log_index = log_index, lj_amount = amount, lj_nonce = nonce\<rparr>)))))))))))"

definition u256_from_biguint :: "sdk \<Rightarrow> nat \<Rightarrow> bytes option" where
  "u256_from_biguint S value =
     (let encoded = sdk_encode_amount S value
      in if 32 < length encoded then None
         else Some (replicate (32 - length encoded) 0 @ encoded))"

text \<open>The crate has its own ABI framing and lock digest, modelled here on their own.\<close>

definition SDK_DOMAIN_LOCK :: string where "SDK_DOMAIN_LOCK = ''unicity-bridge-lock:v1''"

definition sdk_u256_from_u64 :: "u64 \<Rightarrow> bytes" where
  "sdk_u256_from_u64 n = replicate 24 0 @ be64 n"

datatype abi_value =
    AStr string
  | AU64 u64
  | AU256 bytes
  | AAddress bytes
  | ABytes32 bytes

fun abi_is_dynamic :: "abi_value \<Rightarrow> bool" where
  "abi_is_dynamic (AStr _) = True"
| "abi_is_dynamic _ = False"

fun abi_word :: "abi_value \<Rightarrow> bytes option" where
  "abi_word (AU64 v) = Some (replicate 24 0 @ be64 v)"
| "abi_word (AU256 v) = Some v"
| "abi_word (ABytes32 v) = Some v"
| "abi_word (AAddress v) = Some (replicate 12 0 @ v)"
| "abi_word (AStr _) = None"

fun sdk_abi_loop :: "nat \<Rightarrow> abi_value list \<Rightarrow> bytes \<Rightarrow> bytes \<Rightarrow> bytes option" where
  "sdk_abi_loop head_size [] head tail = Some (head @ tail)"
| "sdk_abi_loop head_size (v # vs) head tail =
     (if abi_is_dynamic v then
        (case v of
           AStr text \<Rightarrow>
             sdk_abi_loop head_size vs
               (head @ sdk_u256_from_u64 (of_nat (head_size + length tail)))
               (tail @ sdk_u256_from_u64 (of_nat (length text)) @ pad32 (as_bytes text))
         | _ \<Rightarrow> sdk_abi_loop head_size vs
               (head @ sdk_u256_from_u64 (of_nat (head_size + length tail))) tail)
      else case abi_word v of
             None \<Rightarrow> None
           | Some w \<Rightarrow> sdk_abi_loop head_size vs (head @ w) tail)"

definition sdk_abi_encode :: "abi_value list \<Rightarrow> bytes option" where
  "sdk_abi_encode vs = sdk_abi_loop (length vs * 32) vs [] []"

definition sdk_lock_vals :: "sdk_config \<Rightarrow> u64 \<Rightarrow> bytes \<Rightarrow> bytes \<Rightarrow> bytes \<Rightarrow> abi_value list" where
  "sdk_lock_vals c nonce amount token_id commitment =
     [AStr SDK_DOMAIN_LOCK, AU64 (sc_source_chain_id c), AAddress (sc_vault c),
      AU256 (sdk_u256_from_u64 nonce), AAddress (sc_asset c), ABytes32 (sc_token_type c),
      ABytes32 (sc_coin_id c), AU256 amount, ABytes32 token_id, ABytes32 commitment]"

definition sdk_lock_digest ::
  "(bytes \<Rightarrow> bytes) \<Rightarrow> sdk_config \<Rightarrow> u64 \<Rightarrow> bytes \<Rightarrow> bytes \<Rightarrow> bytes \<Rightarrow> bytes" where
  "sdk_lock_digest keccak c nonce amount token_id commitment =
     keccak (the (sdk_abi_encode (sdk_lock_vals c nonce amount token_id commitment)))"

definition find_asset :: "asset list \<Rightarrow> bytes \<Rightarrow> asset option" where
  "find_asset assets aid = find (\<lambda>a. asset_id a = aid) assets"

definition bridge_lock_obligation ::
  "sdk \<Rightarrow> (bytes \<Rightarrow> bytes) \<Rightarrow> mint_transaction \<Rightarrow> u64 \<Rightarrow> sdk_config \<Rightarrow> (bytes \<Rightarrow> asset list option)
   \<Rightarrow> bridge_ext_error + lock_obligation" where
  "bridge_lock_obligation S keccak mint justification_tag config decode_payment_data =
     (if mint_token_type mint \<noteq> sc_token_type config then Err BridgeLockTokenTypeMismatch else
      and_then (ok_or BridgeLockJustificationMalformed (mint_justification mint)) (\<lambda>jbytes.
      and_then (from_cbor_bytes (sdk_decoder S) jbytes justification_tag) (\<lambda>j.
      if lj_source_chain_id j \<noteq> sc_source_chain_id config \<or> lj_vault j \<noteq> sc_vault config
         \<or> lj_asset j \<noteq> sc_asset config
      then Err BridgeLockConfigMismatch else
      and_then (ok_or BridgeLockPaymentDataMissing (tx_data mint)) (\<lambda>data.
      and_then (ok_or BridgeLockPaymentDataMalformed (decode_payment_data data)) (\<lambda>assets.
      and_then (ok_or BridgeLockCoinMissing (find_asset assets (sc_coin_id config))) (\<lambda>asset.
      if asset_value asset \<noteq> unat (lj_amount j) then Err BridgeLockAmountMismatch else
      let commitment = sdk_sha256 S (sdk_predicate_cbor S (mint_recipient mint)) in
      and_then (ok_or BridgeLockAmountMismatch (u256_from_biguint S (asset_value asset))) (\<lambda>amount.
      Ok \<lparr>ob_nonce = lj_nonce j,
          ob_digest = sdk_lock_digest keccak config (lj_nonce j) amount (mint_token_id mint)
            commitment\<rparr>)))))))"

section \<open>Splits\<close>

fun check_allocations ::
  "sdk \<Rightarrow> mint_transaction \<Rightarrow> bytes \<Rightarrow> asset list \<Rightarrow> split_manifest \<Rightarrow> (asset \<times> bytes) list
   \<Rightarrow> bridge_ext_error + unit" where
  "check_allocations S mint commitment source_assets manifest [] = Ok ()"
| "check_allocations S mint commitment source_assets manifest ((asset, proof) # rest) =
     and_then (ok_or SplitSourceAssetMissing
         (position (\<lambda>source_asset. asset_id source_asset = asset_id asset) source_assets)) (\<lambda>index.
     let root = mf_roots manifest ! index in
     and_then (ok_or SplitAllocationProofInvalid
         (sdk_allocation_verify S proof (mint_token_id mint) commitment (asset_value asset) root))
       (\<lambda>root_sum.
     if root_sum \<noteq> asset_value (source_assets ! index) then Err SplitSourceAmountMismatch
     else check_allocations S mint commitment source_assets manifest rest))"

text \<open>
  \<open>verify_split_mint\<close> after the obligations of the burned token are known. Its second
  \<open>mint.data()\<close> is the \<open>output_data\<close> already read, so \<open>SplitMalformed\<close> cannot occur; both
  spellings of a burn predicate's encoding are \<open>sdk_burn_predicate\<close>, and \<open>manifest.len()\<close>
  is the number of its roots.
\<close>

definition check_split ::
  "sdk \<Rightarrow> token \<Rightarrow> split_justification \<Rightarrow> (bytes \<Rightarrow> asset list option) \<Rightarrow> bytes \<Rightarrow> asset list
   \<Rightarrow> bridge_ext_error + unit" where
  "check_split S output justification decode_payment_data output_data output_assets =
     (let mint = tok_mint output; burned = sj_token justification in
      and_then (ok_or SplitBurnTransferMissing
          (if tok_transactions burned = [] then None else Some (last (tok_transactions burned))))
        (\<lambda>burn_transfer.
      and_then (ok_or SplitManifestMissing (tx_data (tr_transaction burn_transfer))) (\<lambda>manifest_bytes.
      and_then (ok_or SplitManifestMalformed (sdk_split_manifest S manifest_bytes)) (\<lambda>manifest.
      if tr_recipient burn_transfer \<noteq> sdk_burn_predicate S (mf_reason_hash manifest)
      then Err SplitBurnPredicateMismatch else
      let source = tok_mint burned in
      if mint_token_type mint \<noteq> mint_token_type source then Err SplitTokenTypeMismatch else
      and_then (ok_or SplitSourcePaymentDataMissing (tx_data source)) (\<lambda>source_bytes.
      and_then (ok_or SplitSourcePaymentDataMissing (decode_payment_data source_bytes))
        (\<lambda>source_assets.
      if length source_assets \<noteq> length (mf_roots manifest) then Err SplitManifestLengthMismatch
      else if length (sj_proofs justification) \<noteq> length output_assets
      then Err SplitProofCountMismatch
      else
        let commitment = sdk_split_commitment S (mint_token_id (tok_mint burned))
              (mint_network_id mint) (mint_recipient mint) (mint_salt mint) (mint_token_id mint)
              (mint_token_type mint) output_data
        in check_allocations S mint commitment source_assets manifest
             (zip output_assets (sj_proofs justification))))))))"

text \<open>
  The three functions recurse through each other; \<open>certified\<close> stands for the recursive
  call on the burned source token of a split.
\<close>

definition verify_split_mint ::
  "sdk \<Rightarrow> (token \<Rightarrow> (bridge_ext_error + lock_obligation list) option) \<Rightarrow> token
   \<Rightarrow> split_justification \<Rightarrow> (bytes \<Rightarrow> asset list option)
   \<Rightarrow> (bridge_ext_error + lock_obligation list) option" where
  "verify_split_mint S certified output justification decode =
     (case tx_data (tok_mint output) of
        None \<Rightarrow> Some (Err BridgeLockPaymentDataMissing)
      | Some output_data \<Rightarrow>
          (case decode output_data of
             None \<Rightarrow> Some (Err BridgeLockPaymentDataMalformed)
           | Some output_assets \<Rightarrow>
               if mint_network_id (tok_mint output) \<noteq> mint_network_id (tok_mint (sj_token justification))
               then Some (Err SplitNetworkMismatch)
               else map_option (\<lambda>r. and_then r (\<lambda>obligations.
                      and_then (check_split S output justification decode output_data output_assets)
                        (\<lambda>_. Ok obligations)))
                    (certified (sj_token justification))))"

definition obligations_step ::
  "sdk \<Rightarrow> (bytes \<Rightarrow> bytes) \<Rightarrow> u64 \<Rightarrow> sdk_config \<Rightarrow> (bytes \<Rightarrow> asset list option)
   \<Rightarrow> (token \<Rightarrow> (bridge_ext_error + lock_obligation list) option) \<Rightarrow> token
   \<Rightarrow> (bridge_ext_error + lock_obligation list) option" where
  "obligations_step S keccak tag config decode certified token =
     (case bridge_lock_obligation S keccak (tok_mint token) tag config decode of
        Inr obligation \<Rightarrow> Some (Ok [obligation])
      | Inl direct_err \<Rightarrow>
          (case mint_justification (tok_mint token) of
             None \<Rightarrow> Some (Err direct_err)
           | Some jbytes \<Rightarrow>
               (case sdk_split_justification S jbytes of
                  None \<Rightarrow> Some (Err direct_err)
                | Some justification \<Rightarrow>
                    verify_split_mint S certified token justification decode)))"

definition certified_then ::
  "sdk \<Rightarrow> trust_base \<Rightarrow> (token \<Rightarrow> (bridge_ext_error + lock_obligation list) option) \<Rightarrow> token
   \<Rightarrow> (bridge_ext_error + lock_obligation list) option" where
  "certified_then S tb verified token =
     (case verify_token_certified S token tb of
        Inl e \<Rightarrow> Some (Err e)
      | Inr _ \<Rightarrow> verified token)"

primrec obligations_for_verified_token ::
  "nat \<Rightarrow> sdk \<Rightarrow> (bytes \<Rightarrow> bytes) \<Rightarrow> trust_base \<Rightarrow> u64 \<Rightarrow> sdk_config
   \<Rightarrow> (bytes \<Rightarrow> asset list option) \<Rightarrow> token \<Rightarrow> (bridge_ext_error + lock_obligation list) option" where
  "obligations_for_verified_token 0 S keccak tb tag config decode token =
     obligations_step S keccak tag config decode (\<lambda>_. None) token"
| "obligations_for_verified_token (Suc fuel) S keccak tb tag config decode token =
     obligations_step S keccak tag config decode
       (certified_then S tb (obligations_for_verified_token fuel S keccak tb tag config decode)) token"

definition obligations_certified ::
  "nat \<Rightarrow> sdk \<Rightarrow> (bytes \<Rightarrow> bytes) \<Rightarrow> token \<Rightarrow> trust_base \<Rightarrow> u64 \<Rightarrow> sdk_config
   \<Rightarrow> (bytes \<Rightarrow> asset list option) \<Rightarrow> (bridge_ext_error + lock_obligation list) option" where
  "obligations_certified fuel S keccak token tb tag config decode =
     certified_then S tb (obligations_for_verified_token fuel S keccak tb tag config decode) token"

definition obligations_anchored ::
  "nat \<Rightarrow> sdk \<Rightarrow> (bytes \<Rightarrow> bytes) \<Rightarrow> token \<Rightarrow> trust_base \<Rightarrow> certificate \<Rightarrow> u64 \<Rightarrow> sdk_config
   \<Rightarrow> (bytes \<Rightarrow> asset list option) \<Rightarrow> (bridge_ext_error + lock_obligation list) option" where
  "obligations_anchored fuel S keccak token tb cert tag config decode =
     (case verify_token_anchored S token tb cert of
        Inl e \<Rightarrow> Some (Err e)
      | Inr _ \<Rightarrow> obligations_for_verified_token fuel S keccak tb tag config decode token)"

definition obligations_against_root ::
  "nat \<Rightarrow> sdk \<Rightarrow> (bytes \<Rightarrow> bytes) \<Rightarrow> token \<Rightarrow> trust_base \<Rightarrow> bytes \<Rightarrow> u64 \<Rightarrow> sdk_config
   \<Rightarrow> (bytes \<Rightarrow> asset list option) \<Rightarrow> (bridge_ext_error + lock_obligation list) option" where
  "obligations_against_root fuel S keccak token tb anchor_root tag config decode =
     (case verify_token_against_root S token tb anchor_root of
        Inl e \<Rightarrow> Some (Err e)
      | Inr _ \<Rightarrow> obligations_for_verified_token fuel S keccak tb tag config decode token)"

section \<open>The digest\<close>

fun abi_val :: "abi_value \<Rightarrow> val" where
  "abi_val (AStr s) = VStr s"
| "abi_val (AU64 v) = VU64 v"
| "abi_val (AU256 v) = VU256 v"
| "abi_val (AAddress v) = VAddr v"
| "abi_val (ABytes32 v) = VB32 v"

lemma sdk_abi_loop_eq: "sdk_abi_loop n vs head tail = encode_loop n (map abi_val vs) head tail"
proof (induction vs arbitrary: head tail)
  case (Cons v vs)
  then show ?case by (cases v) (simp_all add: sdk_u256_from_u64_def word_u64_def)
qed simp

lemma sdk_abi_encode_eq: "sdk_abi_encode vs = abi_encode (map abi_val vs)"
  by (simp add: sdk_abi_encode_def abi_encode_def sdk_abi_loop_eq mult.commute)

definition sdk_bridge_config :: "bridge_config \<Rightarrow> sdk_config" where
  "sdk_bridge_config c = \<lparr>sc_source_chain_id = cfg_source_chain_id c, sc_vault = cfg_vault c,
     sc_asset = cfg_asset c, sc_token_type = cfg_token_type c, sc_coin_id = cfg_coin_id c\<rparr>"

lemma sdk_lock_digest_eq:
  "sdk_lock_digest keccak (sdk_bridge_config c) nonce amount tid commitment =
     lock_digest keccak c \<lparr>lock_nonce = nonce, lock_amount = amount, lock_unicity_token_id = tid,
       lock_recipient_commitment = commitment\<rparr>"
  by (simp add: sdk_lock_digest_def lock_digest_def sdk_abi_encode_eq sdk_lock_vals_def
      lock_vals_def sdk_bridge_config_def SDK_DOMAIN_LOCK_def DOMAIN_LOCK_def
      sdk_u256_from_u64_def u256_from_u64_def)

section \<open>Termination\<close>

text \<open>
  \<open>tsize\<close> measures tokens so that the source token inside a split justification is smaller
  than the token that carries it. The SDK parses the justification from the token's bytes,
  so the number of bytes of the encoded token is such a measure.
\<close>

definition nested_smaller :: "sdk \<Rightarrow> (token \<Rightarrow> nat) \<Rightarrow> bool" where
  "nested_smaller S tsize \<longleftrightarrow> (\<forall>token jbytes j.
     mint_justification (tok_mint token) = Some jbytes \<longrightarrow>
     sdk_split_justification S jbytes = Some j \<longrightarrow> tsize (sj_token j) < tsize token)"

lemma obligations_step_shape:
  "(\<exists>r. \<forall>c. obligations_step S keccak tag config decode c token = Some r) \<or>
   (\<exists>jbytes j h. mint_justification (tok_mint token) = Some jbytes
     \<and> sdk_split_justification S jbytes = Some j
     \<and> (\<forall>c. obligations_step S keccak tag config decode c token = map_option h (c (sj_token j))))"
proof (cases "bridge_lock_obligation S keccak (tok_mint token) tag config decode")
  case (Inl e)
  show ?thesis
  proof (cases "mint_justification (tok_mint token)")
    case (Some jbytes)
    show ?thesis
    proof (cases "sdk_split_justification S jbytes")
      case (Some j)
      with Inl \<open>mint_justification _ = _\<close> show ?thesis
        unfolding obligations_step_def verify_split_mint_def
        by (cases "tx_data (tok_mint token)"; cases "decode (the (tx_data (tok_mint token)))") auto
    qed (use Inl \<open>mint_justification _ = _\<close> in \<open>simp add: obligations_step_def\<close>)
  qed (use Inl in \<open>simp add: obligations_step_def\<close>)
qed (simp add: obligations_step_def)

lemma obligations_step_None:
  assumes "obligations_step S keccak tag config decode certified token = None"
  shows "\<exists>jbytes j. mint_justification (tok_mint token) = Some jbytes
    \<and> sdk_split_justification S jbytes = Some j \<and> certified (sj_token j) = None"
  using assms obligations_step_shape[of S keccak tag config decode token] by fastforce

lemma obligations_enough_fuel:
  assumes "nested_smaller S tsize"
  shows "tsize token \<le> fuel \<Longrightarrow> obligations_for_verified_token fuel S keccak tb tag config decode token \<noteq> None"
proof (induction fuel arbitrary: token)
  case 0
  show ?case
  proof
    assume "obligations_for_verified_token 0 S keccak tb tag config decode token = None"
    then obtain jbytes j where "mint_justification (tok_mint token) = Some jbytes"
      "sdk_split_justification S jbytes = Some j"
      using obligations_step_None[of S keccak tag config decode "\<lambda>_. None" token] by auto
    then show False using assms 0 by (fastforce simp: nested_smaller_def)
  qed
next
  case (Suc fuel)
  show ?case
  proof
    assume "obligations_for_verified_token (Suc fuel) S keccak tb tag config decode token = None"
    then obtain jbytes j where j: "mint_justification (tok_mint token) = Some jbytes"
      "sdk_split_justification S jbytes = Some j"
      "certified_then S tb (obligations_for_verified_token fuel S keccak tb tag config decode) (sj_token j) = None"
      using obligations_step_None[of S keccak tag config decode _ token]
      unfolding obligations_for_verified_token.simps by blast
    then have "tsize (sj_token j) \<le> fuel" using assms Suc.prems by (fastforce simp: nested_smaller_def)
    from Suc.IH[OF this] j(3) show False by (auto simp: certified_then_def split: sum.splits)
  qed
qed

text \<open>More fuel never changes a result.\<close>

lemma obligations_step_mono:
  assumes "obligations_step S keccak tag config decode f token = Some r"
    and "\<And>t x. f t = Some x \<Longrightarrow> g t = Some x"
  shows "obligations_step S keccak tag config decode g token = Some r"
  using assms obligations_step_shape[of S keccak tag config decode token] by fastforce

lemma obligations_fuel_mono:
  "obligations_for_verified_token fuel S keccak tb tag config decode token = Some r \<Longrightarrow>
   obligations_for_verified_token (Suc fuel) S keccak tb tag config decode token = Some r"
proof (induction fuel arbitrary: token r)
  case 0
  then show ?case by (auto elim: obligations_step_mono)
next
  case (Suc fuel)
  let ?f = "\<lambda>n. certified_then S tb (obligations_for_verified_token n S keccak tb tag config decode)"
  have "?f (Suc fuel) t = Some x" if "?f fuel t = Some x" for t x
    using that Suc.IH
    by (auto simp: certified_then_def split: sum.splits simp del: obligations_for_verified_token.simps)
  moreover have "obligations_step S keccak tag config decode (?f fuel) token = Some r"
    using Suc.prems by simp
  ultimately have "obligations_step S keccak tag config decode (?f (Suc fuel)) token = Some r"
    by (rule obligations_step_mono[rotated])
  then show ?case by (simp only: obligations_for_verified_token.simps(2))
qed

section \<open>What an obligation says\<close>

lemma bridge_lock_obligation_Ok:
  assumes "bridge_lock_obligation S keccak mint tag config decode = Ok ob"
  shows "\<exists>jbytes j data assets asset amount.
     mint_token_type mint = sc_token_type config
     \<and> mint_justification mint = Some jbytes \<and> from_cbor_bytes (sdk_decoder S) jbytes tag = Ok j
     \<and> lj_source_chain_id j = sc_source_chain_id config \<and> lj_vault j = sc_vault config
     \<and> lj_asset j = sc_asset config
     \<and> tx_data mint = Some data \<and> decode data = Some assets
     \<and> find_asset assets (sc_coin_id config) = Some asset \<and> asset_value asset = unat (lj_amount j)
     \<and> u256_from_biguint S (asset_value asset) = Some amount
     \<and> ob_nonce ob = lj_nonce j
     \<and> ob_digest ob = sdk_lock_digest keccak config (lj_nonce j) amount (mint_token_id mint)
          (sdk_sha256 S (sdk_predicate_cbor S (mint_recipient mint)))"
  using assms
  by (auto simp: bridge_lock_obligation_def and_then_Ok_iff Let_def split: if_splits)

section \<open>Properties\<close>

text \<open>The guest's own lock digest is the contract's: the ABI framing of the SDK extension and
  that of the core crate give the same Keccak commitment of a lock.\<close>

theorem lock_digests_agree:
  "sdk_lock_digest keccak (sdk_bridge_config c) nonce amount tid commitment =
     lock_digest keccak c \<lparr>lock_nonce = nonce, lock_amount = amount, lock_unicity_token_id = tid,
       lock_recipient_commitment = commitment\<rparr>"
  by (rule sdk_lock_digest_eq)

text \<open>C18. Reading the lock obligations of a token returns: fuel for the depth to which splits nest
  gives a result, and more fuel gives the same one.\<close>

theorem obligations_terminate:
  assumes "nested_smaller S tsize" "tsize token \<le> fuel"
  shows "\<exists>r. obligations_for_verified_token fuel S keccak tb tag config decode token = Some r
    \<and> (\<forall>n. obligations_for_verified_token (fuel + n) S keccak tb tag config decode token = Some r)"
proof -
  obtain r where r: "obligations_for_verified_token fuel S keccak tb tag config decode token = Some r"
    using obligations_enough_fuel[OF assms] by blast
  have "obligations_for_verified_token (fuel + n) S keccak tb tag config decode token = Some r" for n
    by (induction n) (simp_all add: r obligations_fuel_mono del: obligations_for_verified_token.simps)
  with r show ?thesis by blast
qed

end
