(* ===== verification/Guest_Wire.thy ===== *)
theory Guest_Wire
  imports Sdk_Bridge
begin

text \<open>
  The guest's input (data types of \<open>prover/crates/guest/src/lib.rs\<close>) and its wire format
  (\<open>prover/crates/guest/src/wire.rs\<close>). An encoder is \<open>None\<close> where the code panics (a
  length over \<open>u32\<close>); a decoder returns the value and the bytes left in the cursor. Every
  pair of \<open>put_\<close> and \<open>Cursor\<close> functions is an instance of the interface \<open>codec\<close>.
\<close>

section \<open>The guest's input\<close>

datatype burn_verification = Anchored certificate | Certified

record burn_witness =
  bw_token :: token
  bw_trust_base :: trust_base
  bw_verification :: burn_verification
  bw_lock_justification_tag :: u64

record relation_witness =
  rw_accumulator_witnesses :: "witness list"
  rw_bridge_burns :: "burn_witness list"

record guest_input =
  gi_config :: bridge_config
  gi_public_values :: public_values
  gi_return_leaves :: "return_leaf list"
  gi_sorted_lock_refs :: "source_lock_ref list"
  gi_witness :: relation_witness

section \<open>Encoders\<close>

definition WIRE_VERSION :: u32 where "WIRE_VERSION = 2"

fun cat_all :: "bytes option list \<Rightarrow> bytes option" where
  "cat_all [] = Some []"
| "cat_all (x # xs) =
     (case x of None \<Rightarrow> None | Some a \<Rightarrow> map_option (\<lambda>b. a @ b) (cat_all xs))"

definition put_len :: "nat \<Rightarrow> bytes option" where
  "put_len len = (if len < 2 ^ 32 then Some (be32 (of_nat len)) else None)"

definition put_bytes :: "bytes \<Rightarrow> bytes option" where
  "put_bytes bs = cat_all [put_len (length bs), Some bs]"

definition put_all :: "('a \<Rightarrow> bytes option) \<Rightarrow> 'a list \<Rightarrow> bytes option" where
  "put_all put xs = cat_all (put_len (length xs) # map put xs)"

definition put_config :: "bridge_config \<Rightarrow> bytes option" where
  "put_config c = Some (be64 (cfg_source_chain_id c) @ cfg_vault c @ cfg_asset c
     @ cfg_token_type c @ cfg_coin_id c @ be64 (cfg_reason_tag c) @ cfg_lock_domain c
     @ cfg_nullifier_domain c)"

definition put_public_values :: "public_values \<Rightarrow> bytes option" where
  "put_public_values p = Some (pv_domain_tag p @ pv_config_hash p @ pv_trust_base_hash p
     @ pv_spent_root_old p @ pv_spent_root_new p @ pv_return_root p @ pv_lock_ref_root p
     @ be32 (pv_batch_size p) @ pv_total_amount p)"

definition put_return_leaf :: "return_leaf \<Rightarrow> bytes option" where
  "put_return_leaf l = Some (leaf_nullifier l @ leaf_recipient l @ leaf_amount l
     @ leaf_fee_recipient l @ leaf_fee_amount l @ be64 (leaf_deadline l))"

definition put_lock_ref :: "source_lock_ref \<Rightarrow> bytes option" where
  "put_lock_ref r = Some (be64 (ref_nonce r) @ ref_digest r)"

definition put_step :: "smt_proof_step \<Rightarrow> bytes option" where
  "put_step s = Some ([step_depth s] @ step_sibling s)"

definition put_terminal :: "terminal \<Rightarrow> bytes option" where
  "put_terminal t = (case t of Empty \<Rightarrow> Some [0] | Occupied key \<Rightarrow> Some ([1] @ key))"

definition put_accumulator_witness :: "witness \<Rightarrow> bytes option" where
  "put_accumulator_witness w = cat_all [put_terminal (wit_terminal w), put_all put_step (wit_steps w)]"

definition put_node :: "root_node \<Rightarrow> bytes option" where
  "put_node n = cat_all [put_bytes (as_bytes (node_id n)), put_bytes (node_signing_key n),
     Some (be64 (node_stake n))]"

definition put_trust_base :: "trust_base \<Rightarrow> bytes option" where
  "put_trust_base t = cat_all [Some (be64 (tb_version t)), Some (be16 (tb_network_id t)),
     Some (be64 (tb_epoch t)), Some (be64 (tb_epoch_start_round t)),
     put_all put_node (tb_root_nodes t), Some (be64 (tb_quorum_threshold t))]"

definition put_verification :: "sdk \<Rightarrow> burn_verification \<Rightarrow> bytes option" where
  "put_verification S v =
     (case v of
        Anchored anchor \<Rightarrow> cat_all [Some [0], put_bytes (sdk_certificate_to_cbor S anchor)]
      | Certified \<Rightarrow> Some [1])"

definition put_bridge_burn :: "sdk \<Rightarrow> burn_witness \<Rightarrow> bytes option" where
  "put_bridge_burn S b = cat_all [put_bytes (sdk_token_to_cbor S (bw_token b)),
     put_trust_base (bw_trust_base b), put_verification S (bw_verification b),
     Some (be64 (bw_lock_justification_tag b))]"

definition encode_guest_input :: "sdk \<Rightarrow> guest_input \<Rightarrow> bytes option" where
  "encode_guest_input S i = cat_all [Some (be32 WIRE_VERSION), put_config (gi_config i),
     put_public_values (gi_public_values i), put_all put_return_leaf (gi_return_leaves i),
     put_all put_lock_ref (gi_sorted_lock_refs i),
     put_all put_accumulator_witness (rw_accumulator_witnesses (gi_witness i)),
     put_all (put_bridge_burn S) (rw_bridge_burns (gi_witness i))]"

section \<open>The cursor\<close>

type_synonym 'a cursor = "bytes \<Rightarrow> bridge_core_error + 'a \<times> bytes"

definition c_return :: "'a \<Rightarrow> 'a cursor" where
  "c_return a bs = Ok (a, bs)"

definition c_fail :: "'a cursor" where
  "c_fail bs = Err WireDecodeFailed"

definition c_bind :: "'a cursor \<Rightarrow> ('a \<Rightarrow> 'b cursor) \<Rightarrow> 'b cursor" where
  "c_bind p f bs = and_then (p bs) (\<lambda>(a, rest). f a rest)"

definition c_take :: "nat \<Rightarrow> bytes cursor" where
  "c_take len bs = (if length bs < len then Err WireDecodeFailed else Ok (take len bs, drop len bs))"

definition c_array :: "nat \<Rightarrow> bytes cursor" where
  "c_array n = c_take n"

definition c_u16 :: "u16 cursor" where "c_u16 = c_bind (c_array 2) (\<lambda>bs. c_return (of_be16 bs))"
definition c_u32 :: "u32 cursor" where "c_u32 = c_bind (c_array 4) (\<lambda>bs. c_return (of_be32 bs))"
definition c_u64 :: "u64 cursor" where "c_u64 = c_bind (c_array 8) (\<lambda>bs. c_return (of_be64 bs))"

definition c_bytes :: "bytes cursor" where
  "c_bytes = c_bind c_u32 (\<lambda>len. c_take (unat len))"

fun c_times :: "'a cursor \<Rightarrow> nat \<Rightarrow> 'a list cursor" where
  "c_times f 0 = c_return []"
| "c_times f (Suc n) = c_bind f (\<lambda>x. c_bind (c_times f n) (\<lambda>xs. c_return (x # xs)))"

definition c_vec :: "'a cursor \<Rightarrow> 'a list cursor" where
  "c_vec f = c_bind c_u32 (\<lambda>len. c_times f (unat len))"

definition c_config :: "bridge_config cursor" where
  "c_config =
     c_bind c_u64 (\<lambda>chain. c_bind (c_array 20) (\<lambda>vault. c_bind (c_array 20) (\<lambda>asset.
     c_bind (c_array 32) (\<lambda>ttype. c_bind (c_array 32) (\<lambda>coin. c_bind c_u64 (\<lambda>rtag.
     c_bind (c_array 32) (\<lambda>ldom. c_bind (c_array 32) (\<lambda>ndom.
     c_return \<lparr>cfg_source_chain_id = chain, cfg_vault = vault, cfg_asset = asset,
       cfg_token_type = ttype, cfg_coin_id = coin, cfg_reason_tag = rtag,
       cfg_lock_domain = ldom, cfg_nullifier_domain = ndom\<rparr>))))))))"

definition c_public_values :: "public_values cursor" where
  "c_public_values =
     c_bind (c_array 32) (\<lambda>dtag. c_bind (c_array 32) (\<lambda>chash. c_bind (c_array 32) (\<lambda>tbh.
     c_bind (c_array 32) (\<lambda>old. c_bind (c_array 32) (\<lambda>new. c_bind (c_array 32) (\<lambda>rr.
     c_bind (c_array 32) (\<lambda>lr. c_bind c_u32 (\<lambda>size. c_bind (c_array 32) (\<lambda>total.
     c_return \<lparr>pv_domain_tag = dtag, pv_config_hash = chash, pv_trust_base_hash = tbh,
       pv_spent_root_old = old, pv_spent_root_new = new, pv_return_root = rr,
       pv_lock_ref_root = lr, pv_batch_size = size, pv_total_amount = total\<rparr>)))))))))"

definition c_return_leaf :: "return_leaf cursor" where
  "c_return_leaf =
     c_bind (c_array 32) (\<lambda>nul. c_bind (c_array 20) (\<lambda>rcpt. c_bind (c_array 32) (\<lambda>amount.
     c_bind (c_array 20) (\<lambda>fr. c_bind (c_array 32) (\<lambda>fa. c_bind c_u64 (\<lambda>deadline.
     c_return \<lparr>leaf_nullifier = nul, leaf_recipient = rcpt, leaf_amount = amount,
       leaf_fee_recipient = fr, leaf_fee_amount = fa, leaf_deadline = deadline\<rparr>))))))"

definition c_lock_ref :: "source_lock_ref cursor" where
  "c_lock_ref = c_bind c_u64 (\<lambda>nonce. c_bind (c_array 32) (\<lambda>digest.
     c_return \<lparr>ref_nonce = nonce, ref_digest = digest\<rparr>))"

definition c_step :: "smt_proof_step cursor" where
  "c_step = c_bind (c_take 1) (\<lambda>d. c_bind (c_array 32) (\<lambda>sib. c_return (mk_step (d ! 0) sib)))"

definition c_terminal :: "terminal cursor" where
  "c_terminal = c_bind (c_take 1) (\<lambda>t.
     if t ! 0 = 0 then c_return Empty
     else if t ! 0 = 1 then c_bind (c_array 32) (\<lambda>key. c_return (Occupied key))
     else c_fail)"

definition c_accumulator_witness :: "witness cursor" where
  "c_accumulator_witness = c_bind c_terminal (\<lambda>t. c_bind (c_vec c_step) (\<lambda>steps.
     c_return \<lparr>wit_terminal = t, wit_steps = steps\<rparr>))"

text \<open>\<open>String::from_utf8\<close>: the well-formed byte sequences of UTF-8 (RFC 3629).\<close>

definition cont :: "u8 \<Rightarrow> u8 \<Rightarrow> u8 \<Rightarrow> bool" where
  "cont lo hi b \<longleftrightarrow> lo \<le> b \<and> b \<le> hi"

fun utf8_tail :: "bytes \<Rightarrow> (u8 \<times> u8) list \<Rightarrow> bytes option" where
  "utf8_tail bs [] = Some bs"
| "utf8_tail [] (r # rs) = None"
| "utf8_tail (b # bs) ((lo, hi) # rs) = (if cont lo hi b then utf8_tail bs rs else None)"

definition utf8_ranges :: "u8 \<Rightarrow> (u8 \<times> u8) list option" where
  "utf8_ranges b =
     (if b \<le> 0x7f then Some []
      else if cont 0xc2 0xdf b then Some [(0x80, 0xbf)]
      else if b = 0xe0 then Some [(0xa0, 0xbf), (0x80, 0xbf)]
      else if b = 0xed then Some [(0x80, 0x9f), (0x80, 0xbf)]
      else if cont 0xe1 0xef b then Some [(0x80, 0xbf), (0x80, 0xbf)]
      else if b = 0xf0 then Some [(0x90, 0xbf), (0x80, 0xbf), (0x80, 0xbf)]
      else if cont 0xf1 0xf3 b then Some [(0x80, 0xbf), (0x80, 0xbf), (0x80, 0xbf)]
      else if b = 0xf4 then Some [(0x80, 0x8f), (0x80, 0xbf), (0x80, 0xbf)]
      else None)"

lemma utf8_tail_length: "utf8_tail bs rs = Some out \<Longrightarrow> length out \<le> length bs"
  by (induction bs rs rule: utf8_tail.induct) (auto split: if_splits)

function utf8_valid :: "bytes \<Rightarrow> bool" where
  "utf8_valid [] = True"
| "utf8_valid (b # bs) =
     (case utf8_ranges b of
        None \<Rightarrow> False
      | Some rs \<Rightarrow> (case utf8_tail bs rs of None \<Rightarrow> False | Some rest \<Rightarrow> utf8_valid rest))"
  by pat_completeness auto
termination
  by (relation "measure length") (auto dest: utf8_tail_length)

definition from_utf8 :: "bytes \<Rightarrow> string option" where
  "from_utf8 bs = (if utf8_valid bs then Some (map (\<lambda>b. char_of (unat b)) bs) else None)"

definition c_opt :: "'a option \<Rightarrow> 'a cursor" where
  "c_opt x = (case x of None \<Rightarrow> c_fail | Some a \<Rightarrow> c_return a)"

definition c_node :: "sdk \<Rightarrow> root_node cursor" where
  "c_node S = c_bind c_bytes (\<lambda>nid. c_bind (c_opt (from_utf8 nid)) (\<lambda>name.
     c_bind c_bytes (\<lambda>k. c_bind (c_opt (sdk_public_key S k)) (\<lambda>key.
     c_bind c_u64 (\<lambda>stake.
     c_return \<lparr>node_id = name, node_signing_key = key, node_stake = stake\<rparr>)))))"

definition c_trust_base :: "sdk \<Rightarrow> trust_base cursor" where
  "c_trust_base S =
     c_bind c_u64 (\<lambda>version. c_bind c_u16 (\<lambda>n. c_bind (c_opt (sdk_network_id S n)) (\<lambda>network.
     c_bind c_u64 (\<lambda>epoch. c_bind c_u64 (\<lambda>start. c_bind (c_vec (c_node S)) (\<lambda>nodes.
     c_bind c_u64 (\<lambda>threshold.
     let tb = \<lparr>tb_version = version, tb_network_id = network, tb_epoch = epoch,
       tb_epoch_start_round = start, tb_root_nodes = nodes, tb_quorum_threshold = threshold\<rparr>
     in if sdk_trust_valid S tb then c_return tb else c_fail)))))))"

definition c_verification :: "sdk \<Rightarrow> burn_verification cursor" where
  "c_verification S = c_bind (c_take 1) (\<lambda>t.
     if t ! 0 = 0 then
       c_bind c_bytes (\<lambda>anchor_bytes.
         if \<not> dec_finish (sdk_decoder S) anchor_bytes then c_fail
         else c_bind (c_opt (sdk_certificate_from_cbor S anchor_bytes)) (\<lambda>anchor.
           c_return (Anchored anchor)))
     else if t ! 0 = 1 then c_return Certified
     else c_fail)"

definition c_bridge_burn :: "sdk \<Rightarrow> burn_witness cursor" where
  "c_bridge_burn S =
     c_bind c_bytes (\<lambda>tb. c_bind (c_opt (sdk_token_from_cbor S tb)) (\<lambda>token.
     c_bind (c_trust_base S) (\<lambda>trust. c_bind (c_verification S) (\<lambda>v.
     c_bind c_u64 (\<lambda>tag.
     c_return \<lparr>bw_token = token, bw_trust_base = trust, bw_verification = v,
       bw_lock_justification_tag = tag\<rparr>)))))"

definition c_guest_input :: "sdk \<Rightarrow> guest_input cursor" where
  "c_guest_input S =
     c_bind c_u32 (\<lambda>version. if version \<noteq> WIRE_VERSION then c_fail else
     c_bind c_config (\<lambda>config. c_bind c_public_values (\<lambda>pv.
     c_bind (c_vec c_return_leaf) (\<lambda>leaves. c_bind (c_vec c_lock_ref) (\<lambda>refs.
     c_bind (c_vec c_accumulator_witness) (\<lambda>ws. c_bind (c_vec (c_bridge_burn S)) (\<lambda>burns.
     c_return \<lparr>gi_config = config, gi_public_values = pv, gi_return_leaves = leaves,
       gi_sorted_lock_refs = refs,
       gi_witness = \<lparr>rw_accumulator_witnesses = ws, rw_bridge_burns = burns\<rparr>\<rparr>)))))))"

definition decode_guest_input :: "sdk \<Rightarrow> bytes \<Rightarrow> bridge_core_error + guest_input" where
  "decode_guest_input S bs =
     and_then (c_guest_input S bs) (\<lambda>(input, rest).
       if rest \<noteq> [] then Err WireDecodeFailed else Ok input)"

section \<open>Round trips\<close>

text \<open>
  An encoder \<open>enc\<close> and a cursor \<open>dec\<close> that reads back what \<open>enc\<close> wrote and leaves the rest.
\<close>

locale codec =
  fixes enc :: "'a \<Rightarrow> bytes option"
    and dec :: "'a cursor"
    and valid :: "'a \<Rightarrow> bool"
  assumes dec_enc: "enc a = Some bs \<Longrightarrow> valid a \<Longrightarrow> dec (bs @ rest) = Ok (a, rest)"
begin

lemma bind_enc: "enc a = Some bs \<Longrightarrow> valid a \<Longrightarrow> c_bind dec f (bs @ rest) = f a rest"
  by (simp add: c_bind_def dec_enc)

lemma prefix_free:
  assumes "enc a = Some bs" "valid a" "enc b = Some cs" "valid b" "bs @ r = cs @ r'"
  shows "a = b \<and> r = r'"
  using dec_enc[OF assms(1,2), of r] dec_enc[OF assms(3,4), of r'] assms(5) by simp

lemma times_enc:
  "cat_all (map enc xs) = Some bs \<Longrightarrow> \<forall>x \<in> set xs. valid x \<Longrightarrow>
   c_times dec (length xs) (bs @ rest) = Ok (xs, rest)"
proof (induction xs arbitrary: bs)
  case Nil
  then show ?case by (simp add: c_return_def)
next
  case (Cons x xs)
  then obtain a b where ab: "enc x = Some a" "cat_all (map enc xs) = Some b" "bs = a @ b"
    by (auto split: option.splits)
  have "c_bind dec f (a @ b @ rest) = f x (b @ rest)" for f :: "'a \<Rightarrow> 'a list cursor"
    using bind_enc[OF ab(1)] Cons.prems(2) by simp
  with Cons ab show ?case by (simp add: c_bind_def c_return_def)
qed

lemma vec_enc:
  assumes "put_all enc xs = Some bs" "\<forall>x \<in> set xs. valid x"
  shows "c_vec dec (bs @ rest) = Ok (xs, rest)"
proof -
  from assms(1) obtain b where b: "length xs < 2 ^ 32" "cat_all (map enc xs) = Some b"
    "bs = be32 (of_nat (length xs)) @ b"
    by (auto simp: put_all_def put_len_def split: option.splits if_splits)
  have "c_u32 (be32 n @ r) = Ok (n, r)" for n r
    by (simp add: c_u32_def c_bind_def c_array_def c_take_def c_return_def)
  moreover have "unat (of_nat (length xs) :: u32) = length xs" using b(1) by (simp add: unat_of_nat)
  ultimately show ?thesis using times_enc[OF b(2) assms(2)] b(3)
    by (simp add: c_vec_def c_bind_def)
qed

lemma bind_vec:
  "put_all enc xs = Some bs \<Longrightarrow> \<forall>x \<in> set xs. valid x \<Longrightarrow> c_bind (c_vec dec) f (bs @ rest) = f xs rest"
  by (simp add: c_bind_def vec_enc)

end

lemma c_u32_be32 [simp]: "c_bind c_u32 f (be32 n @ r) = f n r"
  by (simp add: c_u32_def c_bind_def c_array_def c_take_def c_return_def)

lemma c_u64_be64 [simp]: "c_bind c_u64 f (be64 n @ r) = f n r"
  by (simp add: c_u64_def c_bind_def c_array_def c_take_def c_return_def)

lemma c_u16_be16 [simp]: "c_bind c_u16 f (be16 n @ r) = f n r"
  by (simp add: c_u16_def c_bind_def c_array_def c_take_def c_return_def)

lemma c_array_append [simp]: "length bs = n \<Longrightarrow> c_bind (c_array n) f (bs @ r) = f bs r"
  by (auto simp: c_bind_def c_array_def c_take_def)

lemma c_take_1 [simp]: "c_bind (c_take (Suc 0)) f (b # r) = f [b] r"
  by (simp add: c_bind_def c_take_def)

lemma c_opt_Some [simp]: "c_bind (c_opt (Some a)) f r = f a r"
  by (simp add: c_bind_def c_opt_def c_return_def)

lemma c_bytes_put: "put_bytes bs = Some out \<Longrightarrow> c_bind c_bytes f (out @ r) = f bs r"
  by (auto simp: put_bytes_def put_len_def c_bytes_def c_bind_def c_take_def c_u32_def c_array_def
      c_return_def unat_of_nat split: if_splits)

lemma cat_all_Cons: "cat_all (x # xs) = Some out \<longleftrightarrow>
    (\<exists>a b. x = Some a \<and> cat_all xs = Some b \<and> out = a @ b)"
  by (auto split: option.splits)

lemma cat_all_Nil: "cat_all [] = Some out \<longleftrightarrow> out = []"
  by auto

lemmas cat_all_iff = cat_all_Cons cat_all_Nil

interpretation config_codec: codec put_config c_config wf_config
  by unfold_locales (auto simp: put_config_def c_config_def wf_config_def c_return_def)

interpretation public_codec: codec put_public_values c_public_values wf_public_values
  by unfold_locales (auto simp: put_public_values_def c_public_values_def wf_public_values_def c_return_def)

interpretation leaf_codec: codec put_return_leaf c_return_leaf wf_leaf
  by unfold_locales (auto simp: put_return_leaf_def c_return_leaf_def wf_leaf_def c_return_def)

interpretation ref_codec: codec put_lock_ref c_lock_ref wf_ref
  by unfold_locales (auto simp: put_lock_ref_def c_lock_ref_def wf_ref_def c_return_def)

interpretation step_codec: codec put_step c_step "\<lambda>s. length (step_sibling s) = 32"
  by unfold_locales (auto simp: put_step_def c_step_def c_return_def mk_step_def)

definition wf_terminal :: "terminal \<Rightarrow> bool" where
  "wf_terminal t \<longleftrightarrow> (case t of Empty \<Rightarrow> True | Occupied key \<Rightarrow> length key = 32)"

interpretation terminal_codec: codec put_terminal c_terminal wf_terminal
  by unfold_locales
    (auto simp: put_terminal_def c_terminal_def wf_terminal_def c_return_def split: terminal.splits)

interpretation witness_codec: codec put_accumulator_witness c_accumulator_witness
  "\<lambda>w. wf_terminal (wit_terminal w) \<and> wf_witness w"
proof
  fix w bs rest
  assume e: "put_accumulator_witness w = Some bs"
    and v: "wf_terminal (wit_terminal w) \<and> wf_witness w"
  from e obtain a b where ab: "put_terminal (wit_terminal w) = Some a"
    "put_all put_step (wit_steps w) = Some b" "bs = a @ b"
    by (auto simp only: put_accumulator_witness_def cat_all_iff append_Nil2)
  have ws: "\<forall>s \<in> set (wit_steps w). length (step_sibling s) = 32" using v by (simp add: wf_witness_def)
  have wt: "wf_terminal (wit_terminal w)" using v by simp
  show "c_accumulator_witness (bs @ rest) = Ok (w, rest)"
    by (simp add: c_accumulator_witness_def ab(3) c_return_def
        terminal_codec.bind_enc[OF ab(1) wt] step_codec.bind_vec[OF ab(2) ws])
qed

lemma char_of_unat_of_char: "char_of (unat (of_char c :: u8)) = c"
proof -
  have "unat (of_char c :: u8) = unat (of_nat (of_char c) :: u8)" by (simp add: of_nat_of_char)
  also have "\<dots> = of_char c" using nat_of_char_less_256[of c] by (simp only: unat_of_nat_u8 mod_less)
  finally show ?thesis by simp
qed

lemma from_utf8_as_bytes: "utf8_valid (as_bytes s) \<Longrightarrow> from_utf8 (as_bytes s) = Some s"
  by (simp add: from_utf8_def as_bytes_def char_of_unat_of_char o_def)

definition wf_node :: "sdk \<Rightarrow> root_node \<Rightarrow> bool" where
  "wf_node S n \<longleftrightarrow> utf8_valid (as_bytes (node_id n))
     \<and> sdk_public_key S (node_signing_key n) = Some (node_signing_key n)"

definition wf_trust_base :: "sdk \<Rightarrow> trust_base \<Rightarrow> bool" where
  "wf_trust_base S t \<longleftrightarrow> sdk_network_id S (tb_network_id t) = Some (tb_network_id t)
     \<and> (\<forall>n \<in> set (tb_root_nodes t). wf_node S n) \<and> sdk_trust_valid S t"

definition wf_verification :: "sdk \<Rightarrow> burn_verification \<Rightarrow> bool" where
  "wf_verification S v \<longleftrightarrow> (\<forall>anchor. v = Anchored anchor \<longrightarrow>
     dec_finish (sdk_decoder S) (sdk_certificate_to_cbor S anchor)
     \<and> sdk_certificate_from_cbor S (sdk_certificate_to_cbor S anchor) = Some anchor)"

definition wf_burn :: "sdk \<Rightarrow> burn_witness \<Rightarrow> bool" where
  "wf_burn S b \<longleftrightarrow> sdk_token_from_cbor S (sdk_token_to_cbor S (bw_token b)) = Some (bw_token b)
     \<and> wf_trust_base S (bw_trust_base b) \<and> wf_verification S (bw_verification b)"

interpretation node_codec: codec put_node "c_node S" "wf_node S" for S
proof
  fix n bs rest
  assume "put_node n = Some bs" and v: "wf_node S n"
  then obtain a b where ab: "put_bytes (as_bytes (node_id n)) = Some a"
    "put_bytes (node_signing_key n) = Some b" "bs = a @ b @ be64 (node_stake n)"
    by (auto simp only: put_node_def cat_all_iff append_Nil2)
  with v show "c_node S (bs @ rest) = Ok (n, rest)"
    by (simp add: c_node_def c_bytes_put[OF ab(1)] c_bytes_put[OF ab(2)] wf_node_def
        from_utf8_as_bytes c_return_def)
qed

interpretation trust_codec: codec put_trust_base "c_trust_base S" "wf_trust_base S" for S
proof
  fix t bs rest
  assume e: "put_trust_base t = Some bs" and v: "wf_trust_base S t"
  then obtain a where a: "put_all put_node (tb_root_nodes t) = Some a"
    "bs = be64 (tb_version t) @ be16 (tb_network_id t) @ be64 (tb_epoch t)
       @ be64 (tb_epoch_start_round t) @ a @ be64 (tb_quorum_threshold t)"
    by (auto simp only: put_trust_base_def cat_all_iff append_Nil2 option.inject)
  have "\<forall>n \<in> set (tb_root_nodes t). wf_node S n" using v by (simp add: wf_trust_base_def)
  note nodes = node_codec.bind_vec[OF a(1) this]
  have eta: "\<lparr>tb_version = tb_version t, tb_network_id = tb_network_id t, tb_epoch = tb_epoch t,
       tb_epoch_start_round = tb_epoch_start_round t, tb_root_nodes = tb_root_nodes t,
       tb_quorum_threshold = tb_quorum_threshold t\<rparr> = t"
    by (rule trust_base.equality) simp_all
  from v show "c_trust_base S (bs @ rest) = Ok (t, rest)"
    by (simp add: eta c_trust_base_def a(2) nodes wf_trust_base_def Let_def c_return_def)
qed

interpretation verification_codec: codec "put_verification S" "c_verification S" "wf_verification S" for S
proof
  fix v bs rest
  assume e: "put_verification S v = Some bs" and w: "wf_verification S v"
  show "c_verification S (bs @ rest) = Ok (v, rest)"
  proof (cases v)
    case (Anchored anchor)
    with e obtain a where a: "put_bytes (sdk_certificate_to_cbor S anchor) = Some a" "bs = [0] @ a"
      by (auto simp only: put_verification_def burn_verification.case cat_all_iff append_Nil2 option.inject)
    from w Anchored show ?thesis
      by (simp add: c_verification_def a(2) c_bytes_put[OF a(1)] wf_verification_def c_return_def)
  next
    case Certified
    with e show ?thesis by (auto simp: put_verification_def c_verification_def c_return_def)
  qed
qed

interpretation burn_codec: codec "put_bridge_burn S" "c_bridge_burn S" "wf_burn S" for S
proof
  fix b bs rest
  assume e: "put_bridge_burn S b = Some bs" and v: "wf_burn S b"
  then obtain t tb ve where p: "put_bytes (sdk_token_to_cbor S (bw_token b)) = Some t"
    "put_trust_base (bw_trust_base b) = Some tb" "put_verification S (bw_verification b) = Some ve"
    "bs = t @ tb @ ve @ be64 (bw_lock_justification_tag b)"
    by (auto simp only: put_bridge_burn_def cat_all_iff append_Nil2 option.inject)
  have w: "wf_trust_base S (bw_trust_base b)" "wf_verification S (bw_verification b)"
    using v by (simp_all add: wf_burn_def)
  show "c_bridge_burn S (bs @ rest) = Ok (b, rest)"
    using v by (simp add: c_bridge_burn_def p(4) c_bytes_put[OF p(1)] wf_burn_def c_return_def
        trust_codec.bind_enc[OF p(2) w(1)] verification_codec.bind_enc[OF p(3) w(2)])
qed

section \<open>The whole input\<close>

definition wf_input :: "sdk \<Rightarrow> guest_input \<Rightarrow> bool" where
  "wf_input S i \<longleftrightarrow> wf_config (gi_config i) \<and> wf_public_values (gi_public_values i)
     \<and> (\<forall>l \<in> set (gi_return_leaves i). wf_leaf l) \<and> (\<forall>r \<in> set (gi_sorted_lock_refs i). wf_ref r)
     \<and> (\<forall>w \<in> set (rw_accumulator_witnesses (gi_witness i)). wf_terminal (wit_terminal w) \<and> wf_witness w)
     \<and> (\<forall>b \<in> set (rw_bridge_burns (gi_witness i)). wf_burn S b)"

interpretation input_codec: codec "encode_guest_input S" "c_guest_input S" "wf_input S" for S
proof
  fix i bs rest
  assume e: "encode_guest_input S i = Some bs" and v: "wf_input S i"
  then obtain c p l r w b where parts: "put_config (gi_config i) = Some c"
    "put_public_values (gi_public_values i) = Some p"
    "put_all put_return_leaf (gi_return_leaves i) = Some l"
    "put_all put_lock_ref (gi_sorted_lock_refs i) = Some r"
    "put_all put_accumulator_witness (rw_accumulator_witnesses (gi_witness i)) = Some w"
    "put_all (put_bridge_burn S) (rw_bridge_burns (gi_witness i)) = Some b"
    "bs = be32 WIRE_VERSION @ c @ p @ l @ r @ w @ b"
    by (auto simp only: encode_guest_input_def cat_all_iff append_Nil2 option.inject)
  note w = v[unfolded wf_input_def]
  show "c_guest_input S (bs @ rest) = Ok (i, rest)"
    using w by (simp add: c_guest_input_def parts(7) c_return_def
        config_codec.bind_enc[OF parts(1)] public_codec.bind_enc[OF parts(2)]
        leaf_codec.bind_vec[OF parts(3)] ref_codec.bind_vec[OF parts(4)]
        witness_codec.bind_vec[OF parts(5)] burn_codec.bind_vec[OF parts(6)])
qed

text \<open>C15. The wire format is faithful: decoding what the encoder wrote gives the guest input back,
  trailing bytes are refused, and no encoding is a prefix of another, for inputs whose fields
  have their sizes and whose tokens, certificates and trust bases the SDK itself round-trips.\<close>

theorem guest_wire_roundtrip:
  assumes "encode_guest_input S i = Some bs" "wf_input S i"
  shows "decode_guest_input S bs = Ok i
    \<and> (\<forall>extra. extra \<noteq> [] \<longrightarrow> decode_guest_input S (bs @ extra) = Err WireDecodeFailed)
    \<and> (\<forall>j cs. encode_guest_input S j = Some cs \<longrightarrow> wf_input S j \<longrightarrow> j \<noteq> i \<longrightarrow> cs \<noteq> bs)"
proof -
  have d: "c_guest_input S (bs @ rest) = Ok (i, rest)" for rest
    by (rule input_codec.dec_enc[OF assms])
  have "decode_guest_input S bs = Ok i" using d[of "[]"] by (simp add: decode_guest_input_def)
  moreover have "cs \<noteq> bs" if "encode_guest_input S j = Some cs" "wf_input S j" "j \<noteq> i" for j cs
    using input_codec.prefix_free[OF that(1,2) assms, of "[]" "[]"] that(3) by auto
  ultimately show ?thesis using d by (simp add: decode_guest_input_def)
qed

end
