(* ===== verification/Cbor_Decoder.thy ===== *)
theory Cbor_Decoder
  imports Sdk
begin

text \<open>
  What the code relies on of the SDK's CBOR decoder, as the predicate \<open>decoder_ok\<close>: it reads
  back tagged arrays of unsigned integers, byte strings and nulls in their deterministic
  encoding. \<open>flat_decoder\<close>, a strict parser of exactly these documents over the head
  decoder of \<open>Core_Cbor\<close>, shows that the predicate can be met.
\<close>

section \<open>Flat documents\<close>

datatype flat = FUint u64 | FBytes bytes | FNull

fun flat_enc :: "flat \<Rightarrow> bytes" where
  "flat_enc (FUint v) = cbor_uint v"
| "flat_enc (FBytes b) = cbor_bytes b"
| "flat_enc FNull = major 7 22"

fun flat_ok :: "flat \<Rightarrow> bool" where
  "flat_ok (FBytes b) = (length b < 2 ^ 64)"
| "flat_ok _ = True"

definition flat_array :: "flat list \<Rightarrow> bytes" where
  "flat_array items = array_header (of_nat (length items)) @ concat (map flat_enc items)"

definition flat_doc :: "u64 \<Rightarrow> flat list \<Rightarrow> bytes" where
  "flat_doc t items = cbor_tag t @ flat_array items"

definition decoder_ok :: "decoder \<Rightarrow> bool" where
  "decoder_ok D \<longleftrightarrow>
     (\<forall>t items. length items < 2 ^ 64 \<longrightarrow> (\<forall>x \<in> set items. flat_ok x) \<longrightarrow>
        dec_finish D (flat_doc t items)
        \<and> dec_expect_tag D t (flat_doc t items) = Some (flat_array items)
        \<and> dec_array D (length items) (flat_array items) = Some (map flat_enc items))
     \<and> (\<forall>v. dec_uint D (cbor_uint v) = Some v)
     \<and> (\<forall>b. length b < 2 ^ 64 \<longrightarrow> dec_bytes D (cbor_bytes b) = Some b)
     \<and> (\<forall>b. \<not> dec_is_null D (cbor_bytes b)) \<and> dec_is_null D (major 7 22)"

section \<open>A strict decoder\<close>

definition head_major :: "u8 \<Rightarrow> bytes \<Rightarrow> (u64 \<times> bytes) option" where
  "head_major m bs =
     (case head_dec bs of
        Some (m', v, rest) \<Rightarrow> if m' = m then Some (v, rest) else None
      | None \<Rightarrow> None)"

definition flat_item :: "bytes \<Rightarrow> (bytes \<times> bytes) option" where
  "flat_item bs =
     (case head_dec bs of
        None \<Rightarrow> None
      | Some (m, v, rest) \<Rightarrow>
          if m = 0 \<or> m = 7 \<and> v = 22 then Some (take (length bs - length rest) bs, rest)
          else if m = 2 \<and> unat v \<le> length rest
          then Some (take (length bs - length rest + unat v) bs, drop (unat v) rest)
          else None)"

fun flat_items :: "nat \<Rightarrow> bytes \<Rightarrow> bytes list option" where
  "flat_items 0 bs = (if bs = [] then Some [] else None)"
| "flat_items (Suc n) bs =
     (case flat_item bs of
        None \<Rightarrow> None
      | Some (item, rest) \<Rightarrow> map_option (\<lambda>items. item # items) (flat_items n rest))"

definition flat_dec_array :: "nat \<Rightarrow> bytes \<Rightarrow> bytes list option" where
  "flat_dec_array n bs =
     (case head_major 4 bs of
        Some (v, rest) \<Rightarrow> if unat v = n then flat_items n rest else None
      | None \<Rightarrow> None)"

definition flat_finish :: "bytes \<Rightarrow> bool" where
  "flat_finish bs =
     (case head_major 6 bs of
        None \<Rightarrow> False
      | Some (_, inner) \<Rightarrow>
          (case head_major 4 inner of
             None \<Rightarrow> False
           | Some (v, rest) \<Rightarrow> flat_items (unat v) rest \<noteq> None))"

definition flat_decoder :: decoder where
  "flat_decoder =
     \<lparr>dec_finish = flat_finish,
      dec_expect_tag = (\<lambda>t bs. case head_major 6 bs of
        Some (v, rest) \<Rightarrow> if v = t then Some rest else None | None \<Rightarrow> None),
      dec_array = flat_dec_array,
      dec_uint = (\<lambda>bs. case head_major 0 bs of
        Some (v, rest) \<Rightarrow> if rest = [] then Some v else None | None \<Rightarrow> None),
      dec_bytes = (\<lambda>bs. case head_major 2 bs of
        Some (v, rest) \<Rightarrow> if length rest = unat v then Some rest else None | None \<Rightarrow> None),
      dec_is_null = (\<lambda>bs. head_major 7 bs = Some (22, []))\<rparr>"

lemma head_major_major: "m < 8 \<Longrightarrow> head_major m (major m v @ rest) = Some (v, rest)"
  by (simp add: head_major_def head_dec_major)

lemma head_major_other: "m < 8 \<Longrightarrow> m \<noteq> k \<Longrightarrow> head_major k (major m v @ rest) = None"
  by (simp add: head_major_def head_dec_major)

lemma unat_of_nat_u64: "n < 2 ^ 64 \<Longrightarrow> unat (of_nat n :: u64) = n"
  by (simp add: unat_of_nat)

lemma flat_item_enc:
  assumes "flat_ok x"
  shows "flat_item (flat_enc x @ rest) = Some (flat_enc x, rest)"
proof (cases x)
  case (FUint v)
  then show ?thesis by (simp add: flat_item_def cbor_uint_def head_dec_major)
next
  case (FBytes b)
  with assms show ?thesis
    by (simp add: flat_item_def cbor_bytes_def head_dec_major unat_of_nat_u64)
next
  case FNull
  then show ?thesis by (simp add: flat_item_def head_dec_major)
qed

lemma flat_items_enc:
  "\<forall>x \<in> set xs. flat_ok x \<Longrightarrow> flat_items (length xs) (concat (map flat_enc xs)) = Some (map flat_enc xs)"
  by (induction xs) (simp_all add: flat_item_enc)

lemma flat_decoder_ok: "decoder_ok flat_decoder"
proof -
  have hm: "head_major m (major m v) = Some (v, [])" if "m < 8" for m v
    using head_major_major[OF that, of v "[]"] by simp
  have ho: "head_major 7 (major 2 v @ b) = None" for v b
    by (rule head_major_other) simp_all
  show ?thesis
    unfolding decoder_ok_def
  proof (intro conjI allI impI)
    fix t and items :: "flat list"
    assume len: "length items < 2 ^ 64" and ok: "\<forall>x \<in> set items. flat_ok x"
    note facts = flat_decoder_def flat_doc_def flat_array_def cbor_tag_def array_header_def
      head_major_major unat_of_nat_u64[OF len] flat_items_enc[OF ok]
    show "dec_finish flat_decoder (flat_doc t items)" by (simp add: facts flat_finish_def)
    show "dec_expect_tag flat_decoder t (flat_doc t items) = Some (flat_array items)"
      by (simp add: facts)
    show "dec_array flat_decoder (length items) (flat_array items) = Some (map flat_enc items)"
      by (simp add: facts flat_dec_array_def)
  next
    fix b :: bytes assume "length b < 2 ^ 64"
    then show "dec_bytes flat_decoder (cbor_bytes b) = Some b"
      by (simp add: flat_decoder_def cbor_bytes_def head_major_major unat_of_nat_u64)
  qed (simp_all add: flat_decoder_def cbor_uint_def cbor_bytes_def hm ho)
qed

section \<open>Rules\<close>

lemma decoder_okD:
  assumes "decoder_ok D"
  shows "length items < 18446744073709551616 \<Longrightarrow> \<forall>x \<in> set items. flat_ok x \<Longrightarrow>
      dec_finish D (flat_doc t items)"
    and "length items < 18446744073709551616 \<Longrightarrow> \<forall>x \<in> set items. flat_ok x \<Longrightarrow>
      dec_expect_tag D t (flat_doc t items) = Some (flat_array items)"
    and "length items < 18446744073709551616 \<Longrightarrow> \<forall>x \<in> set items. flat_ok x \<Longrightarrow> n = length items \<Longrightarrow>
      dec_array D n (flat_array items) = Some (map flat_enc items)"
    and "dec_uint D (cbor_uint v) = Some v"
    and "length b < 18446744073709551616 \<Longrightarrow> dec_bytes D (cbor_bytes b) = Some b"
    and "dec_is_null D (major 7 22)"
  using assms by (auto simp: decoder_ok_def)

end
