(* ===== verification/Guest.thy ===== *)
theory Guest
  imports Guest_Wire Cbor_Decoder
begin

text \<open>
  Model of \<open>prover/crates/guest/src/lib.rs\<close>: the relation the SP1 guest checks before it
  commits to the public values. \<open>sha256\<close> and \<open>keccak\<close> are the hashes of the core crate,
  \<open>S\<close> the SDK; \<open>fuel\<close> bounds the nesting of splits and \<open>None\<close> is running out of it.
\<close>

section \<open>Burn reasons\<close>

record decoded_reason =
  dr_version :: u64
  dr_source_chain_id :: u64
  dr_vault :: bytes
  dr_asset :: bytes
  dr_token_type :: bytes
  dr_coin_id :: bytes
  dr_recipient :: bytes
  dr_amount :: bytes
  dr_fee_recipient :: bytes
  dr_fee_amount :: bytes
  dr_deadline :: u64

definition g_uint :: "decoder \<Rightarrow> bytes \<Rightarrow> bridge_core_error + u64" where
  "g_uint D item = ok_or BurnReasonMalformed (dec_uint D item)"

definition g_bytes_n :: "nat \<Rightarrow> decoder \<Rightarrow> bytes \<Rightarrow> bridge_core_error + bytes" where
  "g_bytes_n n D item =
     and_then (ok_or BurnReasonMalformed (dec_bytes D item)) (\<lambda>bs.
       if length bs = n then Ok bs else Err BurnReasonMalformed)"

definition u256_bstr :: "decoder \<Rightarrow> bytes \<Rightarrow> bridge_core_error + bytes" where
  "u256_bstr D item =
     and_then (ok_or BurnReasonMalformed (dec_bytes D item)) (\<lambda>bs.
       if 32 < length bs \<or> (bs \<noteq> [] \<and> hd bs = 0) then Err BurnReasonMalformed
       else Ok (replicate (32 - length bs) 0 @ bs))"

definition decode_bridge_back_reason ::
  "decoder \<Rightarrow> u64 \<Rightarrow> bytes \<Rightarrow> bridge_core_error + decoded_reason" where
  "decode_bridge_back_reason D expected_tag bs =
     (if \<not> dec_finish D bs then Err BurnReasonMalformed else
      and_then (ok_or BurnReasonMalformed (dec_expect_tag D expected_tag bs)) (\<lambda>inner.
      and_then (ok_or BurnReasonMalformed (dec_array D 11 inner)) (\<lambda>items.
      and_then (g_uint D (items ! 0)) (\<lambda>version.
      and_then (g_uint D (items ! 1)) (\<lambda>chain.
      and_then (g_bytes_n 20 D (items ! 2)) (\<lambda>vault.
      and_then (g_bytes_n 20 D (items ! 3)) (\<lambda>asset.
      and_then (g_bytes_n 32 D (items ! 4)) (\<lambda>ttype.
      and_then (g_bytes_n 32 D (items ! 5)) (\<lambda>coin.
      and_then (g_bytes_n 20 D (items ! 6)) (\<lambda>rcpt.
      and_then (u256_bstr D (items ! 7)) (\<lambda>amount.
      and_then (g_bytes_n 20 D (items ! 8)) (\<lambda>fr.
      and_then (u256_bstr D (items ! 9)) (\<lambda>fa.
      and_then (g_uint D (items ! 10)) (\<lambda>deadline.
      Ok \<lparr>dr_version = version, dr_source_chain_id = chain, dr_vault = vault, dr_asset = asset,
          dr_token_type = ttype, dr_coin_id = coin, dr_recipient = rcpt, dr_amount = amount,
          dr_fee_recipient = fr, dr_fee_amount = fa, dr_deadline = deadline\<rparr>))))))))))))))"

definition greater_than :: "bytes \<Rightarrow> bytes \<Rightarrow> bool" where
  "greater_than left right = slice_less right left"

definition u256_from_amount_bytes :: "bytes \<Rightarrow> bytes option" where
  "u256_from_amount_bytes bs =
     (if 32 < length bs then None else Some (replicate (32 - length bs) 0 @ bs))"

section \<open>One burn\<close>

definition validate_terminal_burn ::
  "(bytes \<Rightarrow> bytes) \<Rightarrow> sdk \<Rightarrow> bridge_config \<Rightarrow> bytes \<Rightarrow> return_leaf \<Rightarrow> token
   \<Rightarrow> bridge_core_error + unit" where
  "validate_terminal_burn sha256 S config cfg_hash leaf token =
     and_then (ok_or BurnTransferMissing
         (if tok_transactions token = [] then None else Some (last (tok_transactions token)))) (\<lambda>burn.
     and_then (ok_or BurnReasonMissing (tx_data (tr_transaction burn))) (\<lambda>reason_bytes.
     let expected_burn = sdk_burn_predicate S (sha256 reason_bytes) in
     if tr_recipient burn \<noteq> expected_burn then Err WrongBurnPredicate else
     and_then (decode_bridge_back_reason (sdk_decoder S) (cfg_reason_tag config) reason_bytes) (\<lambda>reason.
     if dr_version reason \<noteq> 1
        \<or> dr_source_chain_id reason \<noteq> cfg_source_chain_id config
        \<or> dr_vault reason \<noteq> cfg_vault config
        \<or> dr_asset reason \<noteq> cfg_asset config
        \<or> dr_token_type reason \<noteq> cfg_token_type config
        \<or> dr_coin_id reason \<noteq> cfg_coin_id config
        \<or> dr_recipient reason \<noteq> leaf_recipient leaf
        \<or> dr_amount reason \<noteq> leaf_amount leaf
        \<or> dr_fee_recipient reason \<noteq> leaf_fee_recipient leaf
        \<or> dr_fee_amount reason \<noteq> leaf_fee_amount leaf
        \<or> dr_deadline reason \<noteq> leaf_deadline leaf
        \<or> greater_than (dr_fee_amount reason) (dr_amount reason)
     then Err BurnReasonMismatch else
     let state_id = sdk_state_id S (tx_lock_script (tr_transaction burn))
            (tx_source_state_hash (tr_transaction burn));
         tx_hash = dh_data (tx_calculated_hash (tr_transaction burn))
     in if length tx_hash \<noteq> 32 then Err WrongNullifier
        else let burn_id = burn_transition_id sha256 state_id tx_hash in
             if leaf_nullifier leaf \<noteq> nullifier sha256 cfg_hash burn_id then Err WrongNullifier
             else Ok ())))"

definition validate_current_value ::
  "sdk \<Rightarrow> bridge_config \<Rightarrow> return_leaf \<Rightarrow> token \<Rightarrow> bridge_core_error + unit" where
  "validate_current_value S config leaf token =
     and_then (ok_or WrongBurnAmount (tx_data (tok_mint token))) (\<lambda>data.
     and_then (ok_or WrongBurnAmount (decode_bridged_payment_data S data)) (\<lambda>payment.
     and_then (ok_or WrongBurnAmount (find_asset payment (cfg_coin_id config))) (\<lambda>asset.
     and_then (ok_or WrongBurnAmount (u256_from_amount_bytes (sdk_encode_amount S (asset_value asset))))
       (\<lambda>amount. if amount \<noteq> leaf_amount leaf then Err WrongBurnAmount else Ok ()))))"

text \<open>The roots of the anchors verified so far, in the order they were first met.\<close>

type_synonym anchor_roots = "(certificate \<times> bytes) list"

definition anchor_root ::
  "sdk \<Rightarrow> trust_base \<Rightarrow> certificate \<Rightarrow> anchor_roots \<Rightarrow> bridge_core_error + bytes \<times> anchor_roots" where
  "anchor_root S tb anchor roots =
     (case find (\<lambda>(a, _). a = anchor) roots of
        Some (_, root) \<Rightarrow> Ok (root, roots)
      | None \<Rightarrow>
          and_then (map_err (\<lambda>_. TokenVerificationFailed) (verify_anchor_certificate S tb anchor))
            (\<lambda>root. Ok (root, roots @ [(anchor, root)])))"

definition token_failed ::
  "anchor_roots \<Rightarrow> (bridge_ext_error + lock_obligation list) option
   \<Rightarrow> (bridge_core_error + lock_obligation list \<times> anchor_roots) option" where
  "token_failed roots r =
     map_option (\<lambda>x. and_then (map_err (\<lambda>_. TokenVerificationFailed) x) (\<lambda>obs. Ok (obs, roots))) r"

definition burn_obligations ::
  "nat \<Rightarrow> (bytes \<Rightarrow> bytes) \<Rightarrow> sdk \<Rightarrow> sdk_config \<Rightarrow> burn_witness \<Rightarrow> anchor_roots
   \<Rightarrow> (bridge_core_error + lock_obligation list \<times> anchor_roots) option" where
  "burn_obligations fuel keccak S config burn roots =
     (case bw_verification burn of
        Anchored anchor \<Rightarrow>
          (case anchor_root S (bw_trust_base burn) anchor roots of
             Inl e \<Rightarrow> Some (Err e)
           | Inr (root, roots') \<Rightarrow>
               token_failed roots'
                 (obligations_against_root fuel S keccak (bw_token burn) (bw_trust_base burn) root
                   (bw_lock_justification_tag burn) config (decode_bridged_payment_data S)))
      | Certified \<Rightarrow>
          token_failed roots
            (obligations_certified fuel S keccak (bw_token burn) (bw_trust_base burn)
              (bw_lock_justification_tag burn) config (decode_bridged_payment_data S)))"

definition lock_ref_of :: "lock_obligation \<Rightarrow> source_lock_ref" where
  "lock_ref_of ob = \<lparr>ref_nonce = ob_nonce ob, ref_digest = ob_digest ob\<rparr>"

section \<open>The batch\<close>

fun burns_loop ::
  "nat \<Rightarrow> (bytes \<Rightarrow> bytes) \<Rightarrow> (bytes \<Rightarrow> bytes) \<Rightarrow> sdk \<Rightarrow> bridge_config \<Rightarrow> bytes
   \<Rightarrow> anchor_roots \<Rightarrow> source_lock_ref list \<Rightarrow> (burn_witness \<times> return_leaf) list
   \<Rightarrow> (bridge_core_error + source_lock_ref list) option" where
  "burns_loop fuel sha256 keccak S config tbh roots obligations [] = Some (Ok obligations)"
| "burns_loop fuel sha256 keccak S config tbh roots obligations ((burn, leaf) # rest) =
     (if canonical_hash S (bw_trust_base burn) \<noteq> tbh then Some (Err WrongTrustBaseHash)
      else case burn_obligations fuel keccak S (sdk_bridge_config config) burn roots of
        None \<Rightarrow> None
      | Some (Inl e) \<Rightarrow> Some (Err e)
      | Some (Inr (obs, roots')) \<Rightarrow>
          (case and_then (validate_terminal_burn sha256 S config (config_hash keccak config) leaf
                  (bw_token burn)) (\<lambda>_. validate_current_value S config leaf (bw_token burn)) of
             Inl e \<Rightarrow> Some (Err e)
           | Inr _ \<Rightarrow>
               burns_loop fuel sha256 keccak S config tbh roots'
                 (obligations @ map lock_ref_of obs) rest))"

definition validate_bridge_burns ::
  "nat \<Rightarrow> (bytes \<Rightarrow> bytes) \<Rightarrow> (bytes \<Rightarrow> bytes) \<Rightarrow> sdk \<Rightarrow> bridge_config \<Rightarrow> bytes
   \<Rightarrow> return_leaf list \<Rightarrow> source_lock_ref list \<Rightarrow> burn_witness list
   \<Rightarrow> (bridge_core_error + unit) option" where
  "validate_bridge_burns fuel sha256 keccak S config trust_base_hash leaves sorted_lock_refs burns =
     (if burns = [] \<or> length burns \<noteq> length leaves then Some (Err WrongBatchSize)
      else map_option (\<lambda>r. and_then r (\<lambda>obligations.
             if sort_key ref_nonce obligations \<noteq> sorted_lock_refs then Err WrongLockObligation
             else Ok ()))
           (burns_loop fuel sha256 keccak S config trust_base_hash [] [] (zip burns leaves)))"

fun transition_loop ::
  "(bytes \<Rightarrow> bytes) \<Rightarrow> bytes \<Rightarrow> (return_leaf \<times> witness) list \<Rightarrow> bridge_core_error + bytes" where
  "transition_loop sha running [] = Ok running"
| "transition_loop sha running ((leaf, w) # rest) =
     and_then (ok_or WrongAccumulatorWitness (acc_insert sha running (leaf_nullifier leaf) w))
       (\<lambda>running'. transition_loop sha running' rest)"

definition validate_accumulator_transition ::
  "(bytes \<Rightarrow> bytes) \<Rightarrow> bytes \<Rightarrow> bytes \<Rightarrow> return_leaf list \<Rightarrow> witness list
   \<Rightarrow> bridge_core_error + unit" where
  "validate_accumulator_transition sha spent_root_old spent_root_new leaves witnesses =
     (if length leaves \<noteq> length witnesses then Err WrongBatchSize
      else and_then (transition_loop sha spent_root_old (zip leaves witnesses)) (\<lambda>running.
        if running \<noteq> spent_root_new then Err WrongSpentRootNew else Ok ()))"

definition execute ::
  "nat \<Rightarrow> (bytes \<Rightarrow> bytes) \<Rightarrow> (bytes \<Rightarrow> bytes) \<Rightarrow> sdk \<Rightarrow> guest_input
   \<Rightarrow> (bridge_core_error + public_values) option" where
  "execute fuel sha256 keccak S input =
     (let pv = gi_public_values input; leaves = gi_return_leaves input;
          refs = gi_sorted_lock_refs input; w = gi_witness input
      in case and_then (validate_public_values keccak (gi_config input) pv leaves refs) (\<lambda>_.
              validate_accumulator_transition (sdk_sha256 S) (pv_spent_root_old pv)
                (pv_spent_root_new pv) leaves (rw_accumulator_witnesses w)) of
           Inl e \<Rightarrow> Some (Err e)
         | Inr _ \<Rightarrow>
             map_option (\<lambda>r. and_then r (\<lambda>_. Ok pv))
               (validate_bridge_burns fuel sha256 keccak S (gi_config input)
                 (pv_trust_base_hash pv) leaves refs (rw_bridge_burns w)))"

record guest_output =
  go_public_values :: public_values
  go_public_values_abi :: bytes
  go_public_values_digest :: bytes

definition public_output :: "(bytes \<Rightarrow> bytes) \<Rightarrow> public_values \<Rightarrow> guest_output" where
  "public_output keccak pv = \<lparr>go_public_values = pv, go_public_values_abi = public_values_abi pv,
     go_public_values_digest = public_values_digest keccak pv\<rparr>"

definition execute_public_output ::
  "nat \<Rightarrow> (bytes \<Rightarrow> bytes) \<Rightarrow> (bytes \<Rightarrow> bytes) \<Rightarrow> sdk \<Rightarrow> guest_input
   \<Rightarrow> (bridge_core_error + guest_output) option" where
  "execute_public_output fuel sha256 keccak S input =
     map_option (\<lambda>r. and_then r (\<lambda>pv. Ok (public_output keccak pv)))
       (execute fuel sha256 keccak S input)"

definition execute_wire ::
  "nat \<Rightarrow> (bytes \<Rightarrow> bytes) \<Rightarrow> (bytes \<Rightarrow> bytes) \<Rightarrow> sdk \<Rightarrow> bytes
   \<Rightarrow> (bridge_core_error + guest_output) option" where
  "execute_wire fuel sha256 keccak S bs =
     (case decode_guest_input S bs of
        Inl e \<Rightarrow> Some (Err e)
      | Inr input \<Rightarrow> execute_public_output fuel sha256 keccak S input)"

section \<open>The accumulator transition\<close>

lemma transition_loop_insert_all:
  "transition_loop sha running (zip leaves ws) = Ok final \<longleftrightarrow>
   insert_all (acc_insert sha) running (zip (map leaf_nullifier leaves) ws) = Some final"
proof (induction leaves arbitrary: ws running)
  case (Cons l leaves)
  then show ?case by (cases ws) (auto split: option.splits)
qed simp

lemma validate_accumulator_transition_Ok_iff:
  "validate_accumulator_transition sha old new leaves ws = Ok () \<longleftrightarrow>
     length leaves = length ws
     \<and> insert_all (acc_insert sha) old (zip (map leaf_nullifier leaves) ws) = Some new"
  by (auto simp: validate_accumulator_transition_def and_then_Ok_iff transition_loop_insert_all)

text \<open>No collision among the inputs of the insertions of a batch, one after the other.\<close>

fun no_collisions :: "(bytes \<Rightarrow> bytes) \<Rightarrow> bytes set \<Rightarrow> (bytes \<times> witness) list \<Rightarrow> bool" where
  "no_collisions sha A [] = True"
| "no_collisions sha A ((k, w) # kws) =
     (inj_on sha (audit_inputs sha A k w) \<and> EMPTY_TREE_ROOT \<notin> sha ` audit_inputs sha A k w
      \<and> no_collisions sha (insert k A) kws)"

lemma insert_all_sound:
  assumes "\<forall>x. length (sha x) = 32" "\<forall>x \<in> A. key_ok x"
    and "\<forall>(k, w) \<in> set kws. key_ok k \<and> wf_witness w" "no_collisions sha A kws"
    and "insert_all (acc_insert sha) (commit sha A) kws = Some root"
  shows "distinct (map fst kws) \<and> set (map fst kws) \<inter> A = {}
    \<and> root = commit sha (A \<union> set (map fst kws))"
  using assms(2-)
proof (induction kws arbitrary: A)
  case (Cons kw kws)
  obtain k w where kw: "kw = (k, w)" by fastforce
  obtain r where r: "acc_insert sha (commit sha A) k w = Some r"
    "insert_all (acc_insert sha) r kws = Some root"
    using Cons.prems(4) by (auto simp: kw split: option.splits)
  have s: "k \<notin> A" "r = commit sha (insert k A)"
    using acc_insert_sound[OF assms(1) Cons.prems(1) _ _ _ _ r(1)] Cons.prems(2,3) by (auto simp: kw)
  have "distinct (map fst kws) \<and> set (map fst kws) \<inter> insert k A = {}
    \<and> root = commit sha (insert k A \<union> set (map fst kws))"
    using Cons.IH[of "insert k A"] Cons.prems r(2) s by (auto simp: kw)
  with s kw show ?case by (auto simp: Un_commute)
qed simp

section \<open>Burn reasons round-trip\<close>

definition reason_items :: "bridge_config \<Rightarrow> bridge_back_reason \<Rightarrow> flat list" where
  "reason_items c r =
     [FUint (rsn_version r), FUint (cfg_source_chain_id c), FBytes (cfg_vault c),
      FBytes (cfg_asset c), FBytes (cfg_token_type c), FBytes (cfg_coin_id c),
      FBytes (rsn_recipient r), FBytes (minimal_be (rsn_amount r)), FBytes (rsn_fee_recipient r),
      FBytes (minimal_be (rsn_fee_amount r)), FUint (rsn_deadline r)]"

lemma reason_cbor_doc: "reason_cbor c r = flat_doc (cfg_reason_tag c) (reason_items c r)"
  by (simp add: reason_cbor_def flat_doc_def flat_array_def reason_items_def)

definition decoded_of :: "bridge_config \<Rightarrow> bridge_back_reason \<Rightarrow> decoded_reason" where
  "decoded_of c r = \<lparr>dr_version = rsn_version r, dr_source_chain_id = cfg_source_chain_id c,
     dr_vault = cfg_vault c, dr_asset = cfg_asset c, dr_token_type = cfg_token_type c,
     dr_coin_id = cfg_coin_id c, dr_recipient = rsn_recipient r, dr_amount = rsn_amount r,
     dr_fee_recipient = rsn_fee_recipient r, dr_fee_amount = rsn_fee_amount r,
     dr_deadline = rsn_deadline r\<rparr>"

lemma g_bytes_n_enc:
  "decoder_ok D \<Longrightarrow> length b = n \<Longrightarrow> n < 18446744073709551616 \<Longrightarrow> g_bytes_n n D (cbor_bytes b) = Ok b"
  by (simp add: g_bytes_n_def decoder_okD)

lemma u256_bstr_enc:
  assumes "decoder_ok D" "length v = 32"
  shows "u256_bstr D (cbor_bytes (minimal_be v)) = Ok v"
  using minimal_be_length[OF assms(2)] minimal_be_hd[OF assms(2)] minimal_be_pad[OF assms(2)]
  by (auto simp: u256_bstr_def decoder_okD[OF assms(1)])

lemma decode_reason_cbor:
  assumes D: "decoder_ok D" and "wf_config c" "wf_reason r"
  shows "decode_bridge_back_reason D (cfg_reason_tag c) (reason_cbor c r) = Ok (decoded_of c r)"
proof -
  have w: "length (cfg_vault c) = 20" "length (cfg_asset c) = 20" "length (cfg_token_type c) = 32"
    "length (cfg_coin_id c) = 32" "length (rsn_recipient r) = 20" "length (rsn_fee_recipient r) = 20"
    "length (rsn_amount r) = 32" "length (rsn_fee_amount r) = 32"
    using assms by (simp_all add: wf_simps)
  have ok: "length (reason_items c r) < 18446744073709551616" "\<forall>x \<in> set (reason_items c r). flat_ok x"
    "11 = length (reason_items c r)"
    using minimal_be_length[OF w(7)] minimal_be_length[OF w(8)] by (simp_all add: reason_items_def w)
  note doc = decoder_okD(1)[OF D ok(1,2)] decoder_okD(2)[OF D ok(1,2)] decoder_okD(3)[OF D ok]
  show ?thesis
    unfolding reason_cbor_doc decode_bridge_back_reason_def
    by (simp add: doc) (simp add: reason_items_def g_uint_def decoder_okD(4)[OF D]
        g_bytes_n_enc[OF D] w u256_bstr_enc[OF D] decoded_of_def)
qed

section \<open>Batches of burns\<close>

text \<open>
  A burn backs a leaf: the token is genuine under its verification mode, its last transfer
  burns it for exactly this leaf, its mint holds the leaf's amount, and \<open>obs\<close> are the lock
  obligations read off it.
\<close>

definition genuine_burn :: "sdk \<Rightarrow> burn_witness \<Rightarrow> bool" where
  "genuine_burn S b \<longleftrightarrow>
     (case bw_verification b of
        Certified \<Rightarrow> genuine S (bw_trust_base b) (certified_inclusion S (bw_trust_base b)) (bw_token b)
      | Anchored anchor \<Rightarrow>
          (\<exists>N. quorum S (bw_trust_base b) anchor N)
          \<and> genuine S (bw_trust_base b) (included S (input_record_hash anchor)) (bw_token b))"

definition backs ::
  "nat \<Rightarrow> (bytes \<Rightarrow> bytes) \<Rightarrow> (bytes \<Rightarrow> bytes) \<Rightarrow> sdk \<Rightarrow> bridge_config
   \<Rightarrow> burn_witness \<times> return_leaf \<Rightarrow> lock_obligation list \<Rightarrow> bool" where
  "backs fuel sha256 keccak S c bl obs \<longleftrightarrow>
     genuine_burn S (fst bl)
     \<and> obligations_for_verified_token fuel S keccak (bw_trust_base (fst bl))
         (bw_lock_justification_tag (fst bl)) (sdk_bridge_config c) (decode_bridged_payment_data S)
         (bw_token (fst bl)) = Some (Ok obs)
     \<and> validate_terminal_burn sha256 S c (config_hash keccak c) (snd bl) (bw_token (fst bl)) = Ok ()
     \<and> validate_current_value S c (snd bl) (bw_token (fst bl)) = Ok ()"

definition roots_ok :: "sdk \<Rightarrow> bytes \<Rightarrow> trust_base set \<Rightarrow> anchor_roots \<Rightarrow> bool" where
  "roots_ok S tbh T roots \<longleftrightarrow> (\<forall>(a, r) \<in> set roots. \<exists>tb \<in> T. canonical_hash S tb = tbh
     \<and> verify_anchor_certificate S tb a = Ok r)"

lemma find_Some_in: "find P xs = Some x \<Longrightarrow> x \<in> set xs \<and> P x"
  by (induction xs) (auto split: if_splits)

lemma anchor_root_Ok:
  assumes "anchor_root S tb anchor roots = Ok (root, roots')" "roots_ok S tbh T roots"
    and "tb \<in> T" "canonical_hash S tb = tbh" "inj_on (canonical_hash S) T"
  shows "roots_ok S tbh T roots' \<and> verify_anchor_certificate S tb anchor = Ok root"
proof (cases "find (\<lambda>(a, _). a = anchor) roots")
  case None
  with assms(1-4) show ?thesis by (auto simp: anchor_root_def and_then_Ok_iff roots_ok_def)
next
  case (Some ar)
  obtain y where y: "ar = (anchor, y)" "ar \<in> set roots"
    using find_Some_in[OF Some] that by (cases ar) auto
  then have ar: "ar = (anchor, root)" "ar \<in> set roots" "roots' = roots"
    using assms(1) Some by (simp_all add: anchor_root_def)
  then obtain tb' where "tb' \<in> T" "canonical_hash S tb' = tbh" "verify_anchor_certificate S tb' anchor = Ok root"
    using assms(2) by (auto simp: roots_ok_def)
  moreover from this have "tb' = tb" using assms(3-5) by (auto dest: inj_onD)
  ultimately show ?thesis using ar assms(2) by simp
qed

lemma verify_anchor_quorum:
  "verify_anchor_certificate S tb anchor = Ok root \<Longrightarrow>
   (\<exists>N. quorum S tb anchor N) \<and> root = input_record_hash anchor"
  using verify_unicity_certificate_Ok by (fastforce simp: verify_anchor_certificate_def split: if_splits)

lemma token_failed_Ok:
  "token_failed roots r = Some (Ok (obs, roots')) \<longleftrightarrow> r = Some (Ok obs) \<and> roots' = roots"
  by (cases r) (auto simp: token_failed_def and_then_Ok_iff)

lemma burn_obligations_Ok:
  assumes "burn_obligations fuel keccak S config b roots = Some (Ok (obs, roots'))"
    and "roots_ok S tbh T roots" "bw_trust_base b \<in> T" "canonical_hash S (bw_trust_base b) = tbh"
    and "inj_on (canonical_hash S) T"
  shows "roots_ok S tbh T roots' \<and> genuine_burn S b
    \<and> obligations_for_verified_token fuel S keccak (bw_trust_base b) (bw_lock_justification_tag b)
        config (decode_bridged_payment_data S) (bw_token b) = Some (Ok obs)"
proof (cases "bw_verification b")
  case (Anchored anchor)
  then obtain root where r: "anchor_root S (bw_trust_base b) anchor roots = Ok (root, roots')"
    "obligations_against_root fuel S keccak (bw_token b) (bw_trust_base b) root
       (bw_lock_justification_tag b) config (decode_bridged_payment_data S) = Some (Ok obs)"
    using assms(1) by (auto simp: burn_obligations_def token_failed_Ok split: sum.splits)
  note a = anchor_root_Ok[OF r(1) assms(2-5)]
  from r(2) have "verify_token_against_root S (bw_token b) (bw_trust_base b) root = Ok ()"
    by (auto simp: obligations_against_root_def split: sum.splits)
  then have "genuine S (bw_trust_base b) (included S root) (bw_token b)"
    by (simp add: verify_token_against_root_Ok_iff)
  with r(2) a verify_anchor_quorum show ?thesis
    by (auto simp: genuine_burn_def Anchored obligations_against_root_def split: sum.splits)
next
  case Certified
  then have r: "obligations_certified fuel S keccak (bw_token b) (bw_trust_base b)
       (bw_lock_justification_tag b) config (decode_bridged_payment_data S) = Some (Ok obs)" "roots' = roots"
    using assms(1) by (auto simp: burn_obligations_def token_failed_Ok)
  then have "verify_token_certified S (bw_token b) (bw_trust_base b) = Ok ()"
    by (auto simp: obligations_certified_def certified_then_def split: sum.splits)
  with r assms(2) Certified show ?thesis
    by (auto simp: genuine_burn_def obligations_certified_def certified_then_def
        verify_token_certified_Ok_iff split: sum.splits)
qed

lemma burns_loop_Ok:
  assumes "burns_loop fuel sha256 keccak S c tbh roots acc bls = Some (Ok out)"
    and "roots_ok S tbh T roots" "\<forall>bl \<in> set bls. bw_trust_base (fst bl) \<in> T"
    and "inj_on (canonical_hash S) T"
  shows "\<exists>obss. list_all2 (backs fuel sha256 keccak S c) bls obss
    \<and> (\<forall>bl \<in> set bls. canonical_hash S (bw_trust_base (fst bl)) = tbh)
    \<and> out = acc @ map lock_ref_of (concat obss)"
  using assms(1-3)
proof (induction bls arbitrary: roots acc)
  case Nil
  then show ?case by simp
next
  case (Cons bl bls)
  obtain b l where bl: "bl = (b, l)" by fastforce
  obtain obs roots' where step: "canonical_hash S (bw_trust_base b) = tbh"
    "burn_obligations fuel keccak S (sdk_bridge_config c) b roots = Some (Ok (obs, roots'))"
    "validate_terminal_burn sha256 S c (config_hash keccak c) l (bw_token b) = Ok ()"
    "validate_current_value S c l (bw_token b) = Ok ()"
    "burns_loop fuel sha256 keccak S c tbh roots' (acc @ map lock_ref_of obs) bls = Some (Ok out)"
    using Cons.prems(1)
    by (auto simp: bl and_then_Ok_iff split: if_splits option.splits sum.splits)
  have T: "bw_trust_base b \<in> T" using Cons.prems(3) by (simp add: bl)
  note ob = burn_obligations_Ok[OF step(2) Cons.prems(2) T step(1) assms(4)]
  obtain obss where "list_all2 (backs fuel sha256 keccak S c) bls obss"
    "\<forall>bl \<in> set bls. canonical_hash S (bw_trust_base (fst bl)) = tbh"
    "out = (acc @ map lock_ref_of obs) @ map lock_ref_of (concat obss)"
    using Cons.IH[OF step(5)] ob Cons.prems(3) by auto
  moreover have "backs fuel sha256 keccak S c bl obs"
    using ob step by (simp add: backs_def bl)
  ultimately show ?case using step(1) bl by (intro exI[of _ "obs # obss"]) simp
qed

lemma execute_Ok:
  assumes "execute fuel sha256 keccak S input = Some (Ok pv)"
  shows "pv = gi_public_values input
    \<and> validate_public_values keccak (gi_config input) pv (gi_return_leaves input)
        (gi_sorted_lock_refs input) = Ok ()
    \<and> validate_accumulator_transition (sdk_sha256 S) (pv_spent_root_old pv) (pv_spent_root_new pv)
        (gi_return_leaves input) (rw_accumulator_witnesses (gi_witness input)) = Ok ()
    \<and> validate_bridge_burns fuel sha256 keccak S (gi_config input) (pv_trust_base_hash pv)
        (gi_return_leaves input) (gi_sorted_lock_refs input) (rw_bridge_burns (gi_witness input))
      = Some (Ok ())"
  using assms by (auto simp: execute_def Let_def and_then_Ok_iff split: sum.splits)

lemma validate_bridge_burns_Ok:
  assumes "validate_bridge_burns fuel sha256 keccak S c tbh leaves refs burns = Some (Ok ())"
  shows "burns \<noteq> [] \<and> length burns = length leaves \<and>
    (\<exists>out. burns_loop fuel sha256 keccak S c tbh [] [] (zip burns leaves) = Some (Ok out)
       \<and> refs = sort_key ref_nonce out)"
  using assms by (auto simp: validate_bridge_burns_def and_then_Ok_iff split: if_splits)

section \<open>Properties\<close>

text \<open>What a terminal burn commits to.\<close>

definition leaf_reason :: "bridge_config \<Rightarrow> return_leaf \<Rightarrow> decoded_reason" where
  "leaf_reason c leaf =
     \<lparr>dr_version = 1, dr_source_chain_id = cfg_source_chain_id c, dr_vault = cfg_vault c,
      dr_asset = cfg_asset c, dr_token_type = cfg_token_type c, dr_coin_id = cfg_coin_id c,
      dr_recipient = leaf_recipient leaf, dr_amount = leaf_amount leaf,
      dr_fee_recipient = leaf_fee_recipient leaf, dr_fee_amount = leaf_fee_amount leaf,
      dr_deadline = leaf_deadline leaf\<rparr>"

definition burns_for ::
  "(bytes \<Rightarrow> bytes) \<Rightarrow> sdk \<Rightarrow> bridge_config \<Rightarrow> bytes \<Rightarrow> return_leaf \<Rightarrow> token \<Rightarrow> bool" where
  "burns_for sha256 S c cfg_hash leaf token \<longleftrightarrow>
     (\<exists>reason_bytes. tok_transactions token \<noteq> []
        \<and> (let burn = last (tok_transactions token); tx = tr_transaction burn;
               tx_hash = dh_data (tx_calculated_hash tx)
           in tx_data tx = Some reason_bytes
              \<and> tr_recipient burn = sdk_burn_predicate S (sha256 reason_bytes)
              \<and> decode_bridge_back_reason (sdk_decoder S) (cfg_reason_tag c) reason_bytes
                = Ok (leaf_reason c leaf)
              \<and> length tx_hash = 32
              \<and> leaf_nullifier leaf = nullifier sha256 cfg_hash (burn_transition_id sha256
                  (sdk_state_id S (tx_lock_script tx) (tx_source_state_hash tx)) tx_hash)))"

lemma reason_mismatch_iff:
  "(dr_version reason \<noteq> 1
        \<or> dr_source_chain_id reason \<noteq> cfg_source_chain_id config
        \<or> dr_vault reason \<noteq> cfg_vault config
        \<or> dr_asset reason \<noteq> cfg_asset config
        \<or> dr_token_type reason \<noteq> cfg_token_type config
        \<or> dr_coin_id reason \<noteq> cfg_coin_id config
        \<or> dr_recipient reason \<noteq> leaf_recipient leaf
        \<or> dr_amount reason \<noteq> leaf_amount leaf
        \<or> dr_fee_recipient reason \<noteq> leaf_fee_recipient leaf
        \<or> dr_fee_amount reason \<noteq> leaf_fee_amount leaf
        \<or> dr_deadline reason \<noteq> leaf_deadline leaf
        \<or> greater_than (dr_fee_amount reason) (dr_amount reason)) \<longleftrightarrow>
   reason \<noteq> leaf_reason config leaf \<or> greater_than (leaf_fee_amount leaf) (leaf_amount leaf)"
  by (cases reason) (auto simp: leaf_reason_def)

lemma validate_terminal_burn_Ok:
  "validate_terminal_burn sha256 S c cfg_hash leaf token = Ok () \<longleftrightarrow>
     burns_for sha256 S c cfg_hash leaf token
     \<and> \<not> greater_than (leaf_fee_amount leaf) (leaf_amount leaf)"
  unfolding validate_terminal_burn_def burns_for_def reason_mismatch_iff
  by (auto simp: and_then_Ok_iff Let_def split: if_splits)

text \<open>C1. An accepted batch is backed: if the guest accepts, then the public values commit to the
  batch, the batch is not empty and has one burn per leaf, every burned token is genuine
  under a quorum of the committed trust base and burns exactly its leaf's amount and
  recipients (with a fee no larger than the amount), and the lock refs are the sorted lock
  obligations of the burned tokens. The anchors of the batch are verified only once each; that
  is sound as long as the hash of the trust base does not collide among the burns' own.\<close>

theorem execute_sound:
  assumes "execute fuel sha256 keccak S input = Some (Ok pv)"
    and "inj_on (canonical_hash S) (bw_trust_base ` set (rw_bridge_burns (gi_witness input)))"
  shows "pv = gi_public_values input \<and> gi_return_leaves input \<noteq> []
    \<and> pv_return_root pv = return_root keccak (gi_return_leaves input)
    \<and> (\<forall>b \<in> set (rw_bridge_burns (gi_witness input)). canonical_hash S (bw_trust_base b) = pv_trust_base_hash pv)
    \<and> (\<exists>obss. list_all2 (\<lambda>(b, leaf) obs. genuine_burn S b
          \<and> burns_for sha256 S (gi_config input) (config_hash keccak (gi_config input)) leaf (bw_token b)
          \<and> \<not> greater_than (leaf_fee_amount leaf) (leaf_amount leaf)
          \<and> validate_current_value S (gi_config input) leaf (bw_token b) = Ok ()
          \<and> obligations_for_verified_token fuel S keccak (bw_trust_base b) (bw_lock_justification_tag b)
              (sdk_bridge_config (gi_config input)) (decode_bridged_payment_data S) (bw_token b) = Some (Ok obs))
        (zip (rw_bridge_burns (gi_witness input)) (gi_return_leaves input)) obss
      \<and> length (rw_bridge_burns (gi_witness input)) = length (gi_return_leaves input)
      \<and> gi_sorted_lock_refs input = sort_key ref_nonce (map lock_ref_of (concat obss))
      \<and> lock_ref_root keccak (gi_sorted_lock_refs input) = Ok (pv_lock_ref_root pv)
      \<and> distinct (map ob_nonce (concat obss)))"
proof -
  let ?burns = "rw_bridge_burns (gi_witness input)" and ?leaves = "gi_return_leaves input"
  let ?c = "gi_config input" and ?refs = "gi_sorted_lock_refs input"
  note ex = execute_Ok[OF assms(1)]
  then obtain out where b: "?burns \<noteq> []" "length ?burns = length ?leaves"
    "burns_loop fuel sha256 keccak S ?c (pv_trust_base_hash pv) [] [] (zip ?burns ?leaves) = Some (Ok out)"
    "?refs = sort_key ref_nonce out"
    using validate_bridge_burns_Ok by blast
  have T: "\<forall>bl \<in> set (zip ?burns ?leaves). bw_trust_base (fst bl) \<in> bw_trust_base ` set ?burns"
    by (auto dest: set_zip_leftD)
  obtain obss where o: "list_all2 (backs fuel sha256 keccak S ?c) (zip ?burns ?leaves) obss"
    "\<forall>bl \<in> set (zip ?burns ?leaves). canonical_hash S (bw_trust_base (fst bl)) = pv_trust_base_hash pv"
    "out = map lock_ref_of (concat obss)"
    using burns_loop_Ok[OF b(3) _ T assms(2)] by (auto simp: roots_ok_def)
  have tbh: "\<forall>b \<in> set ?burns. canonical_hash S (bw_trust_base b) = pv_trust_base_hash pv"
  proof
    fix b assume "b \<in> set ?burns"
    then obtain l where "(b, l) \<in> set (zip ?burns ?leaves)"
      using b(2) by (metis in_set_impl_in_set_zip1)
    with o(2) show "canonical_hash S (bw_trust_base b) = pv_trust_base_hash pv" by fastforce
  qed
  have v: "validate_public_values keccak ?c pv ?leaves ?refs = Ok ()" using ex by blast
  then have asc: "ascending ?refs" and roots: "pv_return_root pv = return_root keccak ?leaves"
    "lock_ref_root keccak ?refs = Ok (pv_lock_ref_root pv)"
    by (simp_all add: validate_public_values_Ok lock_ref_root_Ok_iff)
  then have "distinct (map ref_nonce (sort_key ref_nonce out))"
    unfolding b(4)[symmetric] by (auto simp: ascending_def strict_sorted_iff)
  then have "distinct (map ref_nonce out)" by (simp add: distinct_map)
  then have dist: "distinct (map ob_nonce (concat obss))"
    by (simp add: o(3) lock_ref_of_def comp_def)
  have "list_all2 (\<lambda>(b, leaf) obs. genuine_burn S b
          \<and> burns_for sha256 S ?c (config_hash keccak ?c) leaf (bw_token b)
          \<and> \<not> greater_than (leaf_fee_amount leaf) (leaf_amount leaf)
          \<and> validate_current_value S ?c leaf (bw_token b) = Ok ()
          \<and> obligations_for_verified_token fuel S keccak (bw_trust_base b) (bw_lock_justification_tag b)
              (sdk_bridge_config ?c) (decode_bridged_payment_data S) (bw_token b) = Some (Ok obs))
        (zip ?burns ?leaves) obss"
    using o(1) by (rule list_all2_mono) (auto simp: backs_def validate_terminal_burn_Ok)
  with ex b tbh roots dist o(3) show ?thesis by auto
qed

text \<open>C2. No double spend: if the guest accepts a batch on top of the root of a set of spent
  nullifiers, then the batch's nullifiers are pairwise distinct and none was spent, and the
  new root is that of the set with the batch added, unless SHA-256 collides on the inputs
  hashed along the way.\<close>

theorem no_double_spend:
  assumes "execute fuel sha256 keccak S input = Some (Ok pv)"
    and "pv_spent_root_old pv = commit (sdk_sha256 S) spent"
    and "\<forall>x. length (sdk_sha256 S x) = 32" "\<forall>x \<in> spent. key_ok x" "wf_input S input"
    and "no_collisions (sdk_sha256 S) spent (zip (map leaf_nullifier (gi_return_leaves input))
           (rw_accumulator_witnesses (gi_witness input)))"
  shows "distinct (map leaf_nullifier (gi_return_leaves input))
    \<and> leaf_nullifier ` set (gi_return_leaves input) \<inter> spent = {}
    \<and> pv_spent_root_new pv = commit (sdk_sha256 S) (spent \<union> leaf_nullifier ` set (gi_return_leaves input))"
proof -
  let ?ns = "map leaf_nullifier (gi_return_leaves input)"
  let ?ws = "rw_accumulator_witnesses (gi_witness input)"
  have t: "length (gi_return_leaves input) = length ?ws"
    "insert_all (acc_insert (sdk_sha256 S)) (pv_spent_root_old pv) (zip ?ns ?ws) = Some (pv_spent_root_new pv)"
    using execute_Ok[OF assms(1)] unfolding validate_accumulator_transition_Ok_iff by blast+
  have len: "map fst (zip ?ns ?ws) = ?ns" using t(1) by simp
  have wf: "\<forall>(k, w) \<in> set (zip ?ns ?ws). key_ok k \<and> wf_witness w"
  proof clarify
    fix k w assume kw: "(k, w) \<in> set (zip ?ns ?ws)"
    have "k \<in> set ?ns" "w \<in> set ?ws" using set_zip_leftD[OF kw] set_zip_rightD[OF kw] .
    then show "key_ok k \<and> wf_witness w"
      using assms(5) by (auto simp: wf_input_def key_ok_def wf_leaf_def)
  qed
  show ?thesis
    using insert_all_sound[OF assms(3,4) wf assms(6), of "pv_spent_root_new pv"] t(2) assms(2)
    unfolding len by auto
qed

text \<open>A burn reason survives its encoding: the guest's decoder reads back from
  \<open>reason_cbor\<close> exactly the fields that were encoded, for every CBOR decoder that reads
  back flat tagged arrays.\<close>

theorem reason_roundtrip:
  assumes "decoder_ok D" "wf_config c" "wf_reason r"
  shows "decode_bridge_back_reason D (cfg_reason_tag c) (reason_cbor c r) = Ok (decoded_of c r)"
  using assms by (rule decode_reason_cbor)

definition wit_reason :: bridge_back_reason where
  "wit_reason = \<lparr>rsn_version = 1, rsn_recipient = replicate 20 1, rsn_amount = u256_from_u64 3,
     rsn_fee_recipient = replicate 20 0, rsn_fee_amount = replicate 32 0, rsn_deadline = 0\<rparr>"

lemma wit_reason_wf [simp]: "wf_reason wit_reason"
  by (simp add: wit_reason_def wf_simps)

theorem reason_roundtrip_witness:
  "decode_bridge_back_reason flat_decoder 39048 (reason_cbor wit_config wit_reason)
     = Ok (decoded_of wit_config wit_reason)"
  using reason_roundtrip[OF flat_decoder_ok wit_config_wf wit_reason_wf] by (simp add: wit_config_def)

end
