(* ===== verification/Guest_Example.thy ===== *)
theory Guest_Example
  imports Guest
begin

text \<open>
  One concrete batch of one burn that the guest accepts, with concrete functions in the
  place of the SDK and of the hashes. It instantiates the properties of the wire format, of
  token verification and of the guest at an input where their hypotheses hold.
\<close>

section \<open>A concrete SDK\<close>

definition ex_cert :: certificate where
  "ex_cert = \<lparr>seal_network_id = 3, seal_hash = replicate 32 5,
     seal_signatures = [(''n'', 9 # replicate 32 5)], input_record_hash = replicate 32 6,
     cert_shard = \<lparr>shard_length = 0, shard_bits = []\<rparr>, cert_rest = []\<rparr>"

definition ex_tb :: trust_base where
  "ex_tb = \<lparr>tb_version = 1, tb_network_id = 3, tb_epoch = 0, tb_epoch_start_round = 0,
     tb_root_nodes = [\<lparr>node_id = ''n'', node_signing_key = [9], node_stake = 1\<rparr>],
     tb_quorum_threshold = 1\<rparr>"

definition ex_hash :: data_hash where
  "ex_hash = \<lparr>dh_algorithm = 0, dh_data = replicate 32 8\<rparr>"

definition ex_proof :: "bytes \<Rightarrow> inclusion_proof" where
  "ex_proof lock = \<lparr>ip_certification_data = \<lparr>cd_lock_script = lock, cd_source_state_hash = ex_hash,
       cd_expires_at = None, cd_transaction_hash = ex_hash, cd_unlock_script = []\<rparr>,
     ip_reference_time = 0, ip_inclusion_certificate = [], ip_unicity_certificate = ex_cert\<rparr>"

definition ex_tag :: u64 where "ex_tag = 1330002"

definition ex_mint :: mint_transaction where
  "ex_mint = \<lparr>tx_data = Some (flat_doc WALLET_VALUE_TAG [FUint 1, FBytes [], FNull]),
     tx_lock_script = replicate 32 1, tx_source_state_hash = ex_hash, tx_expires_at = None,
     tx_calculated_hash = ex_hash, mint_network_id = 3, mint_token_type = cfg_token_type wit_config,
     mint_justification = Some (flat_doc ex_tag
       [FUint 1, FUint (cfg_source_chain_id wit_config), FBytes (cfg_vault wit_config),
        FBytes (cfg_asset wit_config), FBytes (replicate 32 2), FUint 0, FUint 3, FUint 7]),
     mint_recipient = [1], mint_salt = [], mint_token_id = replicate 32 1\<rparr>"

definition ex_reason :: bytes where "ex_reason = reason_cbor wit_config wit_reason"

definition ex_transfer :: transfer where
  "ex_transfer = \<lparr>tr_transaction = \<lparr>tx_data = Some ex_reason, tx_lock_script = [4],
       tx_source_state_hash = ex_hash, tx_expires_at = None, tx_calculated_hash = ex_hash\<rparr>,
     tr_inclusion_proof = ex_proof [4], tr_recipient = 66 # len32 ex_reason\<rparr>"

definition ex_token :: token where
  "ex_token = \<lparr>tok_mint = ex_mint, tok_mint_proof = ex_proof (replicate 32 1),
     tok_transactions = [ex_transfer]\<rparr>"

definition ex_sdk :: sdk where
  "ex_sdk = \<lparr>sdk_sha256 = sketch, sdk_decoder = flat_decoder, sdk_trust_valid = (\<lambda>_. True),
     sdk_signing_key = (\<lambda>tb nid. map_option node_signing_key
        (find (\<lambda>n. node_id n = nid) (tb_root_nodes tb))),
     sdk_computed_seal_hash = (\<lambda>c. Some (seal_hash c)), sdk_seal_digest = seal_hash,
     sdk_signature_decode = Some,
     sdk_signature_verify = (\<lambda>sig digest key. sig = key @ digest),
     sdk_sha256_data_hash = (\<lambda>x. Some \<lparr>dh_algorithm = 0, dh_data = x\<rparr>),
     sdk_state_id = (\<lambda>_ h. dh_data h), sdk_leaf_value = (\<lambda>h _. dh_data h),
     sdk_inclusion_verify = (\<lambda>_ sid leaf root. sid = leaf \<and> length (dh_data root) = 32),
     sdk_is_prefix_of = (\<lambda>_ _. True), sdk_minter_key = Some, sdk_signature_predicate = id,
     sdk_predicate_key = Some, sdk_unlock_verify = (\<lambda>_ _ _ _. True),
     sdk_burn_predicate = (\<lambda>x. 66 # x),
     sdk_assets_from_cbor = (\<lambda>_. Some [\<lparr>asset_id = cfg_coin_id wit_config, asset_value = 3\<rparr>]),
     sdk_assets_to_cbor = (\<lambda>_. []), sdk_encode_amount = be_nat 1, sdk_predicate_cbor = id,
     sdk_split_justification = (\<lambda>_. None), sdk_split_manifest = (\<lambda>_. None),
     sdk_split_commitment = (\<lambda>_ _ _ _ _ _ _. []), sdk_allocation_verify = (\<lambda>_ _ _ _ _. None),
     sdk_token_to_cbor = (\<lambda>_. [1]),
     sdk_token_from_cbor = (\<lambda>bs. if bs = [1] then Some ex_token else None),
     sdk_certificate_to_cbor = (\<lambda>_. [2]), sdk_certificate_from_cbor = (\<lambda>_. None),
     sdk_network_id = Some, sdk_public_key = Some, sdk_encode_array = concat,
     sdk_encode_text = as_bytes, sdk_encode_bytes = id, sdk_encode_uint = be64,
     sdk_encode_tag = (\<lambda>_ b. b), sdk_encode_null = []\<rparr>"

lemma ex_sdk_simps:
  "sdk_sha256 ex_sdk = sketch" "sdk_decoder ex_sdk = flat_decoder" "sdk_trust_valid ex_sdk tb"
  "sdk_computed_seal_hash ex_sdk c = Some (seal_hash c)" "sdk_seal_digest ex_sdk = seal_hash"
  "sdk_sha256_data_hash ex_sdk x = Some \<lparr>dh_algorithm = 0, dh_data = x\<rparr>"
  "sdk_state_id ex_sdk l h = dh_data h" "sdk_leaf_value ex_sdk h t = dh_data h"
  "sdk_inclusion_verify ex_sdk cert sid leaf root \<longleftrightarrow> sid = leaf \<and> length (dh_data root) = 32"
  "sdk_minter_key ex_sdk k = Some k" "sdk_signature_predicate ex_sdk k = k"
  "sdk_predicate_key ex_sdk k = Some k" "sdk_unlock_verify ex_sdk k h g u"
  "sdk_burn_predicate ex_sdk x = 66 # x" "sdk_encode_amount ex_sdk = be_nat 1"
  "sdk_assets_from_cbor ex_sdk b = Some [\<lparr>asset_id = cfg_coin_id wit_config, asset_value = 3\<rparr>]"
  "sdk_predicate_cbor ex_sdk p = p" "sdk_split_justification ex_sdk b = None"
  by (simp_all add: ex_sdk_def)

section \<open>The batch\<close>

definition ex_burn :: burn_witness where
  "ex_burn = \<lparr>bw_token = ex_token, bw_trust_base = ex_tb, bw_verification = Certified,
     bw_lock_justification_tag = ex_tag\<rparr>"

definition ex_leaf :: return_leaf where
  "ex_leaf = \<lparr>leaf_nullifier = nullifier len32 (config_hash len32 wit_config)
       (burn_transition_id len32 (replicate 32 8) (replicate 32 8)),
     leaf_recipient = rsn_recipient wit_reason, leaf_amount = rsn_amount wit_reason,
     leaf_fee_recipient = rsn_fee_recipient wit_reason, leaf_fee_amount = rsn_fee_amount wit_reason,
     leaf_deadline = rsn_deadline wit_reason\<rparr>"

definition ex_ref :: source_lock_ref where
  "ex_ref = \<lparr>ref_nonce = 7, ref_digest = sdk_lock_digest len32 (sdk_bridge_config wit_config) 7
     (replicate 31 0 @ [3]) (replicate 32 1) (sketch [1])\<rparr>"

definition ex_pv :: public_values where
  "ex_pv = \<lparr>pv_domain_tag = domain_tag len32, pv_config_hash = config_hash len32 wit_config,
     pv_trust_base_hash = canonical_hash ex_sdk ex_tb, pv_spent_root_old = commit sketch {},
     pv_spent_root_new = commit sketch {leaf_nullifier ex_leaf},
     pv_return_root = return_root len32 [ex_leaf], pv_lock_ref_root = len32 (refs_buf [ex_ref]),
     pv_batch_size = 1, pv_total_amount = sum_amounts [ex_leaf]\<rparr>"

definition ex_input :: guest_input where
  "ex_input = \<lparr>gi_config = wit_config, gi_public_values = ex_pv, gi_return_leaves = [ex_leaf],
     gi_sorted_lock_refs = [ex_ref],
     gi_witness = \<lparr>rw_accumulator_witnesses = [no_steps], rw_bridge_burns = [ex_burn]\<rparr>\<rparr>"

section \<open>The token verifies\<close>

lemma ex_certificate: "verify_unicity_certificate ex_sdk ex_tb ex_cert = Ok (replicate 32 6)"
  by (simp add: verify_unicity_certificate_def ex_sdk_def ex_tb_def ex_cert_def)

lemma ex_included:
  "tx_lock_script tx = lock \<Longrightarrow> tx_source_state_hash tx = ex_hash \<Longrightarrow> tx_expires_at tx = None \<Longrightarrow>
   tx_calculated_hash tx = ex_hash \<Longrightarrow> certified_inclusion ex_sdk ex_tb (ex_proof lock) tx"
  by (simp add: certified_inclusion_def ex_proof_def ex_certificate included_def Let_def
      ex_sdk_simps) (simp add: ex_cert_def)

lemma ex_genuine: "genuine ex_sdk ex_tb (certified_inclusion ex_sdk ex_tb) ex_token"
proof -
  have "certified_inclusion ex_sdk ex_tb (ex_proof (replicate 32 1)) ex_mint"
    by (rule ex_included) (simp_all add: ex_mint_def)
  moreover have "certified_inclusion ex_sdk ex_tb (ex_proof [4]) (tr_transaction ex_transfer)"
    by (rule ex_included) (simp_all add: ex_transfer_def)
  moreover have "tr_inclusion_proof ex_transfer = ex_proof [4]" by (simp add: ex_transfer_def)
  ultimately show ?thesis
    by (simp add: genuine_def ex_token_def ex_sdk_simps) (simp add: ex_mint_def ex_tb_def)
qed

lemma ex_certified: "verify_token_certified ex_sdk ex_token ex_tb = Ok ()"
  using ex_genuine by (simp add: verify_token_certified_Ok_iff)

section \<open>The burn backs the leaf\<close>

lemma ex_payment: "decode_bridged_payment_data ex_sdk (flat_doc WALLET_VALUE_TAG [FUint 1, FBytes [], FNull])
    = Some [\<lparr>asset_id = cfg_coin_id wit_config, asset_value = 3\<rparr>]"
proof -
  let ?i = "[FUint 1, FBytes [], FNull]"
  have ok: "length ?i < 18446744073709551616" "\<forall>x \<in> set ?i. flat_ok x" "3 = length ?i" by simp_all
  show ?thesis
    unfolding decode_bridged_payment_data_def ex_sdk_simps
    using decoder_okD(1)[OF flat_decoder_ok ok(1,2), of WALLET_VALUE_TAG]
      decoder_okD(2)[OF flat_decoder_ok ok(1,2), of WALLET_VALUE_TAG]
      decoder_okD(3)[OF flat_decoder_ok ok]
    by (simp add: Let_def decoder_okD(4)[OF flat_decoder_ok] decoder_okD(6)[OF flat_decoder_ok] WALLET_VALUE_VERSION_def ex_sdk_simps)
qed

lemma ex_justification:
  "from_cbor_bytes flat_decoder (flat_doc ex_tag
       [FUint 1, FUint c, FBytes v, FBytes a, FBytes t, FUint l, FUint m, FUint n]) ex_tag =
   Ok \<lparr>lj_source_chain_id = c, lj_vault = v, lj_asset = a, lj_txid = t, lj_log_index = l,
      lj_amount = m, lj_nonce = n\<rparr>"
  if "length v = 20" "length a = 20" "length t = 32"
proof -
  let ?i = "[FUint 1, FUint c, FBytes v, FBytes a, FBytes t, FUint l, FUint m, FUint n]"
  have ok: "length ?i < 18446744073709551616" "\<forall>x \<in> set ?i. flat_ok x" "8 = length ?i"
    using that by simp_all
  have b: "ext_bytes_n k flat_decoder (cbor_bytes x) = Ok x" if "length x = k" "k < 100" for k x
    using that by (simp add: ext_bytes_n_def decoder_okD(5)[OF flat_decoder_ok])
  show ?thesis
    unfolding from_cbor_bytes_def
    using decoder_okD(1)[OF flat_decoder_ok ok(1,2), of ex_tag]
      decoder_okD(2)[OF flat_decoder_ok ok(1,2), of ex_tag]
      decoder_okD(3)[OF flat_decoder_ok ok]
    by (simp add: ext_uint_def decoder_okD(4)[OF flat_decoder_ok] b that
        BRIDGE_LOCK_JUSTIFICATION_VERSION_def)
qed

lemma ex_obligation:
  "bridge_lock_obligation ex_sdk len32 ex_mint ex_tag (sdk_bridge_config wit_config)
     (decode_bridged_payment_data ex_sdk) = Ok \<lparr>ob_nonce = 7, ob_digest = ref_digest ex_ref\<rparr>"
proof -
  have j: "mint_justification ex_mint = Some (flat_doc ex_tag
       [FUint 1, FUint (cfg_source_chain_id wit_config), FBytes (cfg_vault wit_config),
        FBytes (cfg_asset wit_config), FBytes (replicate 32 2), FUint 0, FUint 3, FUint 7])"
    and d: "tx_data ex_mint = Some (flat_doc WALLET_VALUE_TAG [FUint 1, FBytes [], FNull])"
    and t: "mint_token_type ex_mint = cfg_token_type wit_config" "mint_recipient ex_mint = [1]"
      "mint_token_id ex_mint = replicate 32 1"
    by (simp_all add: ex_mint_def)
  have l: "length (cfg_vault wit_config) = 20" "length (cfg_asset wit_config) = 20"
    by (simp_all add: wit_config_def)
  have a: "u256_from_biguint ex_sdk 3 = Some (replicate 31 0 @ [3])"
    by (simp add: u256_from_biguint_def ex_sdk_simps Let_def)
  have h: "sdk_sha256 ex_sdk (sdk_predicate_cbor ex_sdk [1]) = sketch [1]" by (simp add: ex_sdk_simps)
  have u: "unat (3 :: u64) = 3" by simp
  show ?thesis
    by (simp add: bridge_lock_obligation_def j d t ex_sdk_simps ex_justification[OF l] ex_payment
        sdk_bridge_config_def find_asset_def u a h ex_ref_def Let_def)
qed

lemma ex_obligations:
  "obligations_for_verified_token fuel ex_sdk len32 ex_tb ex_tag (sdk_bridge_config wit_config)
     (decode_bridged_payment_data ex_sdk) ex_token = Some (Ok [\<lparr>ob_nonce = 7, ob_digest = ref_digest ex_ref\<rparr>])"
proof -
  have "tok_mint ex_token = ex_mint" by (simp add: ex_token_def)
  then have "obligations_step ex_sdk len32 ex_tag (sdk_bridge_config wit_config)
      (decode_bridged_payment_data ex_sdk) f ex_token = Some (Ok [\<lparr>ob_nonce = 7, ob_digest = ref_digest ex_ref\<rparr>])" for f
    by (simp add: obligations_step_def ex_obligation)
  then show ?thesis by (cases fuel) simp_all
qed

lemma ex_terminal:
  "validate_terminal_burn len32 ex_sdk wit_config (config_hash len32 wit_config) ex_leaf ex_token = Ok ()"
proof -
  have tx: "tok_transactions ex_token = [ex_transfer]" by (simp add: ex_token_def)
  have r: "tx_data (tr_transaction ex_transfer) = Some ex_reason"
    "tr_recipient ex_transfer = 66 # len32 ex_reason"
    "tx_calculated_hash (tr_transaction ex_transfer) = ex_hash"
    "tx_source_state_hash (tr_transaction ex_transfer) = ex_hash"
    by (simp_all add: ex_transfer_def)
  have h: "dh_data ex_hash = replicate 32 8" by (simp add: ex_hash_def)
  have d: "decode_bridge_back_reason flat_decoder (cfg_reason_tag wit_config) ex_reason
      = Ok (decoded_of wit_config wit_reason)"
    unfolding ex_reason_def by (rule decode_reason_cbor[OF flat_decoder_ok wit_config_wf wit_reason_wf])
  have l: "decoded_of wit_config wit_reason = leaf_reason wit_config ex_leaf"
    by (simp add: decoded_of_def leaf_reason_def ex_leaf_def wit_reason_def)
  have n: "leaf_nullifier ex_leaf = nullifier len32 (config_hash len32 wit_config)
       (burn_transition_id len32 (replicate 32 8) (replicate 32 8))" by (simp add: ex_leaf_def)
  have g: "\<not> greater_than (leaf_fee_amount ex_leaf) (leaf_amount ex_leaf)"
    by (simp add: greater_than_def ex_leaf_def wit_reason_def slice_less_iff_from_be)
  have "burns_for len32 ex_sdk wit_config (config_hash len32 wit_config) ex_leaf ex_token"
    unfolding burns_for_def Let_def by (simp add: tx r h d l n ex_sdk_simps)
  with g show ?thesis by (simp add: validate_terminal_burn_Ok)
qed

lemma ex_value: "validate_current_value ex_sdk wit_config ex_leaf ex_token = Ok ()"
proof -
  have d: "tx_data (tok_mint ex_token) = Some (flat_doc WALLET_VALUE_TAG [FUint 1, FBytes [], FNull])"
    by (simp add: ex_token_def ex_mint_def)
  have a: "leaf_amount ex_leaf = replicate 31 0 @ [3]"
    by (rule from_be_inj) (simp_all add: ex_leaf_def wit_reason_def from_be_Cons)
  show ?thesis
    by (simp add: validate_current_value_def d ex_payment find_asset_def ex_sdk_simps
        u256_from_amount_bytes_def a)
qed

lemma ex_pv_simps:
  "pv_domain_tag ex_pv = domain_tag len32" "pv_config_hash ex_pv = config_hash len32 wit_config"
  "pv_trust_base_hash ex_pv = canonical_hash ex_sdk ex_tb" "pv_spent_root_old ex_pv = commit sketch {}"
  "pv_spent_root_new ex_pv = commit sketch {leaf_nullifier ex_leaf}"
  "pv_return_root ex_pv = return_root len32 [ex_leaf]" "pv_lock_ref_root ex_pv = len32 (refs_buf [ex_ref])"
  "pv_batch_size ex_pv = 1" "pv_total_amount ex_pv = sum_amounts [ex_leaf]"
  by (simp_all add: ex_pv_def)

lemma ex_input_simps:
  "gi_config ex_input = wit_config" "gi_public_values ex_input = ex_pv"
  "gi_return_leaves ex_input = [ex_leaf]" "gi_sorted_lock_refs ex_input = [ex_ref]"
  "rw_accumulator_witnesses (gi_witness ex_input) = [no_steps]"
  "rw_bridge_burns (gi_witness ex_input) = [ex_burn]"
  by (simp_all add: ex_input_def)

lemma ex_execute: "execute 0 len32 len32 ex_sdk ex_input = Some (Ok ex_pv)"
proof -
  have v: "validate_public_values len32 wit_config ex_pv [ex_leaf] [ex_ref] = Ok ()"
    by (simp add: validate_public_values_Ok ex_pv_simps ascending_def)
  have a: "validate_accumulator_transition sketch (commit sketch {}) (commit sketch {leaf_nullifier ex_leaf})
      [ex_leaf] [no_steps] = Ok ()"
    by (simp add: validate_accumulator_transition_Ok_iff no_steps_insert)
  have b: "bw_trust_base ex_burn = ex_tb" "bw_token ex_burn = ex_token"
    "bw_verification ex_burn = Certified" "bw_lock_justification_tag ex_burn = ex_tag"
    by (simp_all add: ex_burn_def)
  have o: "burn_obligations 0 len32 ex_sdk (sdk_bridge_config wit_config) ex_burn []
      = Some (Ok ([\<lparr>ob_nonce = 7, ob_digest = ref_digest ex_ref\<rparr>], []))"
    by (simp only: burn_obligations_def b burn_verification.case obligations_certified_def
        certified_then_def ex_certified ex_obligations sum.case token_failed_def option.map
        map_err_simps and_then_simps)
  have r: "lock_ref_of \<lparr>ob_nonce = 7, ob_digest = ref_digest ex_ref\<rparr> = ex_ref"
    by (simp add: lock_ref_of_def ex_ref_def)
  have "burns_loop 0 len32 len32 ex_sdk wit_config (canonical_hash ex_sdk ex_tb) [] [] [(ex_burn, ex_leaf)]
      = Some (Ok [ex_ref])"
    by (simp add: b o ex_terminal ex_value r)
  then have "validate_bridge_burns 0 len32 len32 ex_sdk wit_config (pv_trust_base_hash ex_pv) [ex_leaf]
      [ex_ref] [ex_burn] = Some (Ok ())"
    by (simp add: validate_bridge_burns_def ex_pv_simps)
  then show ?thesis
    by (simp add: execute_def ex_input_simps v a ex_sdk_simps ex_pv_simps(4,5))
qed

lemma ex_leaf_wf: "wf_leaf ex_leaf"
  by (simp add: ex_leaf_def wf_leaf_def nullifier_eq wit_reason_def)

lemma ex_pv_wf: "wf_public_values ex_pv"
proof -
  have "length (sum_amounts [ex_leaf]) = 32" using sum_amounts_mod[of "[ex_leaf]"] ex_leaf_wf by simp
  moreover have "length (commit sketch A) = 32" for A
    by (simp add: commit_def EMPTY_TREE_ROOT_def tree_hash_length)
  ultimately show ?thesis
    by (simp add: wf_public_values_def ex_pv_simps domain_tag_def config_hash_def return_root_def
        canonical_hash_def Let_def ex_sdk_simps)
qed

lemma ex_burn_wf: "wf_burn ex_sdk ex_burn"
proof -
  have "as_bytes ''n'' = [0x6e]" by (simp add: as_bytes_def of_char_def)
  then have "utf8_valid (as_bytes ''n'')" by (simp add: utf8_ranges_def)
  then have "wf_trust_base ex_sdk ex_tb"
    by (simp add: wf_trust_base_def wf_node_def ex_tb_def ex_sdk_simps) (simp add: ex_sdk_def)
  then show ?thesis
    by (simp add: wf_burn_def ex_burn_def wf_verification_def) (simp add: ex_sdk_def)
qed

lemma ex_wf: "wf_input ex_sdk ex_input"
  by (simp add: wf_input_def ex_input_simps ex_pv_wf ex_leaf_wf ex_burn_wf wf_ref_def ex_ref_def
      sdk_lock_digest_def no_steps_def wf_terminal_def wf_witness_def)

section \<open>Witnesses\<close>

lemma ex_encodes: "\<exists>bs. encode_guest_input ex_sdk ex_input = Some bs"
proof -
  have b: "\<exists>b. put_bytes x = Some b" if "length x < 2 ^ 32" for x
    using that by (simp add: put_bytes_def put_len_def)
  have "\<exists>t. put_trust_base ex_tb = Some t"
    by (simp add: put_trust_base_def ex_tb_def put_all_def put_len_def put_node_def put_bytes_def)
  then have "\<exists>x. put_bridge_burn ex_sdk ex_burn = Some x"
    by (auto simp: put_bridge_burn_def ex_burn_def put_verification_def put_bytes_def put_len_def ex_sdk_def)
  then show ?thesis
    by (auto simp: encode_guest_input_def put_config_def put_public_values_def put_all_def put_len_def
        put_return_leaf_def put_lock_ref_def put_accumulator_witness_def ex_input_simps no_steps_def
        put_terminal_def)
qed

theorem guest_wire_roundtrip_witness:
  "\<exists>bs. encode_guest_input ex_sdk ex_input = Some bs \<and> decode_guest_input ex_sdk bs = Ok ex_input"
  using ex_encodes guest_wire_roundtrip[OF _ ex_wf] by blast

theorem execute_sound_witness:
  "ex_pv = gi_public_values ex_input \<and> gi_return_leaves ex_input \<noteq> []"
  using execute_sound[OF ex_execute] by (simp add: ex_input_simps)

lemma len32_last: "len32 xs ! 31 = of_nat (length xs)"
proof -
  have "be_nat (Suc 31) (length xs) ! 31 = of_nat (length xs)" by (simp only: be_nat.simps) (simp add: nth_append)
  then show ?thesis by (simp add: len32_def)
qed

lemma nullifier_preimage_length:
  "length c = 32 \<Longrightarrow> length b = 32 \<Longrightarrow> length (nullifier_preimage c b) = 105"
  by (simp add: nullifier_preimage_def cbor_text_def cbor_bytes_def array_header_def major_def Let_def
      DOMAIN_NULLIFIER_def)

lemma ex_nullifier_last: "leaf_nullifier ex_leaf ! 31 \<noteq> 0"
proof -
  let ?b = "burn_transition_id len32 (replicate 32 8) (replicate 32 8)"
  have "length (nullifier_preimage (config_hash len32 wit_config) ?b) = 105"
    by (rule nullifier_preimage_length) (simp_all add: config_hash_def burn_transition_id_eq)
  then show ?thesis by (simp add: ex_leaf_def nullifier_eq len32_last)
qed

theorem no_double_spend_witness:
  "pv_spent_root_new ex_pv = commit sketch {leaf_nullifier ex_leaf}"
proof -
  have k: "length (leaf_nullifier ex_leaf) = 32" using ex_leaf_wf by (simp add: wf_leaf_def)
  have nc: "no_collisions (sdk_sha256 ex_sdk) {} (zip (map leaf_nullifier (gi_return_leaves ex_input))
      (rw_accumulator_witnesses (gi_witness ex_input)))"
    using sketch_no_collision[OF k ex_nullifier_last] by (simp add: ex_input_simps ex_sdk_simps)
  show ?thesis
    using no_double_spend[OF ex_execute _ _ _ ex_wf nc] by (simp add: ex_sdk_simps ex_pv_simps ex_input_simps)
qed

theorem certificate_quorum_witness:
  "\<exists>N. finite N \<and> unat (tb_quorum_threshold ex_tb) \<le> card N \<and> inj_on (sdk_signing_key ex_sdk ex_tb) N"
  using certificate_quorum[OF ex_certificate] by blast

theorem verify_token_certified_spec_witness:
  "\<exists>root. verify_unicity_certificate ex_sdk ex_tb (ip_unicity_certificate (tok_mint_proof ex_token)) = Ok root
     \<and> included ex_sdk root (tok_mint_proof ex_token) (tok_mint ex_token)"
  using verify_token_certified_spec[of ex_sdk ex_token ex_tb] ex_certified by blast

text \<open>A token whose mint justification is a split of the example's token.\<close>

definition ex_split_sdk :: sdk where
  "ex_split_sdk = ex_sdk\<lparr>sdk_split_justification :=
     (\<lambda>bs. if bs = [7] then Some \<lparr>sj_token = ex_token, sj_proofs = []\<rparr> else None)\<rparr>"

definition ex_split_token :: token where
  "ex_split_token = ex_token\<lparr>tok_mint := ex_mint\<lparr>mint_justification := Some [7]\<rparr>\<rparr>"

definition ex_tsize :: "token \<Rightarrow> nat" where
  "ex_tsize t = (if mint_justification (tok_mint t) = Some [7] then 1 else 0)"

theorem obligations_terminate_witness:
  "\<exists>r. obligations_for_verified_token 1 ex_split_sdk len32 ex_tb ex_tag (sdk_bridge_config wit_config)
      (decode_bridged_payment_data ex_split_sdk) ex_split_token = Some r"
proof -
  have "mint_justification (tok_mint ex_token) \<noteq> Some [7]"
    by (simp add: ex_token_def ex_mint_def flat_doc_def cbor_tag_def ex_tag_def major_def Let_def)
  then have n: "nested_smaller ex_split_sdk ex_tsize"
    by (simp add: nested_smaller_def ex_split_sdk_def ex_tsize_def)
  have "ex_tsize ex_split_token \<le> 1" by (simp add: ex_tsize_def)
  from obligations_terminate[OF n this] show ?thesis by blast
qed

end
