(* ===== verification/Text_Lib.thy ===== *)
theory Text_Lib
  imports Core
begin

text \<open>
  What the host and the service use of the standard library on text and time, and the two
  external crates they share: \<open>hex\<close> and \<open>serde_json\<close>, each a record of the functions the
  code calls. A string is the list of its UTF-8 bytes; \<open>to_lowercase\<close> is modelled on the
  ASCII letters, the only ones that occur in the hexadecimal text it is applied to.
\<close>

section \<open>Numbers as text\<close>

definition digit_char :: "nat \<Rightarrow> char" where
  "digit_char d = (if d < 10 then char_of (48 + d) else char_of (87 + d))"

fun radix_text :: "nat \<Rightarrow> nat \<Rightarrow> string" where
  "radix_text b n = (if b < 2 \<or> n < b then [digit_char n] else radix_text b (n div b) @ [digit_char (n mod b)])"

declare radix_text.simps [simp del]

text \<open>\<open>{}\<close> and \<open>{:x}\<close> of an unsigned integer.\<close>

definition dec_text :: "nat \<Rightarrow> string" where "dec_text n = radix_text 10 n"
definition hex_text :: "nat \<Rightarrow> string" where "hex_text n = radix_text 16 n"

text \<open>\<open>char::to_digit\<close> and \<open>u64::from_str_radix\<close>: an optional plus, at least one digit, no overflow.\<close>

definition digit_value :: "nat \<Rightarrow> char \<Rightarrow> nat option" where
  "digit_value b c =
     (let n = of_char c :: nat;
          d = (if 48 \<le> n \<and> n \<le> 57 then Some (n - 48)
               else if 97 \<le> n \<and> n \<le> 122 then Some (n - 87)
               else if 65 \<le> n \<and> n \<le> 90 then Some (n - 55) else None)
      in case d of None \<Rightarrow> None | Some v \<Rightarrow> if v < b then Some v else None)"

fun radix_value :: "nat \<Rightarrow> nat \<Rightarrow> string \<Rightarrow> nat option" where
  "radix_value b acc [] = Some acc"
| "radix_value b acc (c # cs) =
     (case digit_value b c of None \<Rightarrow> None | Some d \<Rightarrow> radix_value b (acc * b + d) cs)"

definition u64_from_radix :: "nat \<Rightarrow> string \<Rightarrow> u64 option" where
  "u64_from_radix b s =
     (let digits = (if s \<noteq> [] \<and> hd s = CHR ''+'' then tl s else s) in
      if digits = [] then None
      else case radix_value b 0 digits of
        None \<Rightarrow> None
      | Some n \<Rightarrow> if n < 2 ^ 64 then Some (of_nat n) else None)"

section \<open>Case folding and prefixes\<close>

definition ascii_lower :: "char \<Rightarrow> char" where
  "ascii_lower c = (let n = of_char c :: nat in if 65 \<le> n \<and> n \<le> 90 then char_of (n + 32) else c)"

definition to_lowercase :: "string \<Rightarrow> string" where
  "to_lowercase s = map ascii_lower s"

definition eq_ignore_ascii_case :: "string \<Rightarrow> string \<Rightarrow> bool" where
  "eq_ignore_ascii_case s t \<longleftrightarrow> to_lowercase s = to_lowercase t"

text \<open>\<open>str::trim\<close>, on the ASCII white space.\<close>

definition is_space :: "char \<Rightarrow> bool" where
  "is_space c \<longleftrightarrow> (of_char c :: nat) \<in> {9, 10, 11, 12, 13, 32}"

definition trim :: "string \<Rightarrow> string" where
  "trim s = rev (dropWhile is_space (rev (dropWhile is_space s)))"

definition strip_0x :: "string \<Rightarrow> string" where
  "strip_0x s = (if take 2 s = ''0x'' then drop 2 s else s)"

lemma strip_0x_prefix [simp]: "strip_0x (CHR ''0'' # CHR ''x'' # s) = s"
  by (simp add: strip_0x_def)

lemma of_char_of_nat: "n < 256 \<Longrightarrow> (of_char (char_of n) :: nat) = n"
  by simp

lemma ascii_lower_idem [simp]: "ascii_lower (ascii_lower c) = ascii_lower c"
  by (auto simp: ascii_lower_def Let_def)

lemma to_lowercase_idem [simp]: "to_lowercase (to_lowercase s) = to_lowercase s"
  by (simp add: to_lowercase_def)

lemma eq_ignore_ascii_case_refl [simp]: "eq_ignore_ascii_case s s"
  by (simp add: eq_ignore_ascii_case_def)

section \<open>Durations\<close>

text \<open>\<open>std::time::Duration\<close>: whole seconds and the nanoseconds of the last one.\<close>

record duration =
  d_secs :: u64
  d_nanos :: u32

definition as_millis :: "duration \<Rightarrow> u128" where
  "as_millis d = ucast (d_secs d) * 1000 + ucast (d_nanos d) div 1000000"

definition sat_add64 :: "u64 \<Rightarrow> u64 \<Rightarrow> u64" where
  "sat_add64 a b = (if unat a + unat b < 2 ^ 64 then a + b else - 1)"

definition sat_sub32 :: "u32 \<Rightarrow> u32 \<Rightarrow> u32" where
  "sat_sub32 a b = (if b \<le> a then a - b else 0)"

definition sat_sub128 :: "u128 \<Rightarrow> u128 \<Rightarrow> u128" where
  "sat_sub128 a b = (if b \<le> a then a - b else 0)"

lemma unat_sat_add64: "unat (sat_add64 a b) = min (unat a + unat b) (2 ^ 64 - 1)"
proof (cases "unat a + unat b < 2 ^ 64")
  case True
  then have "unat (a + b) = unat a + unat b" by (simp add: unat_word_ariths)
  with True show ?thesis by (simp add: sat_add64_def)
next
  case False
  then show ?thesis by (simp add: sat_add64_def unsigned_minus_1_eq_mask mask_eq_exp_minus_1)
qed

section \<open>The crates \<open>hex\<close> and \<open>serde_json\<close>\<close>

record hexlib =
  hex_encode :: "bytes \<Rightarrow> string"
  hex_decode :: "string \<Rightarrow> bytes option"

text \<open>What the documentation of \<open>hex\<close> promises: decoding inverts encoding, which is lower case.\<close>

definition hex_ok :: "hexlib \<Rightarrow> bool" where
  "hex_ok H \<longleftrightarrow> (\<forall>bs. hex_decode H (hex_encode H bs) = Some bs
     \<and> to_lowercase (hex_encode H bs) = hex_encode H bs)"

text \<open>
  A JSON value is of the type \<open>'v\<close>; \<open>js_index\<close> is \<open>value[key]\<close>, \<open>js_get\<close> is \<open>get(key)\<close> and
  \<open>js_pointer\<close> is \<open>pointer(path)\<close>.
\<close>

record 'v jsonlib =
  js_parse :: "string \<Rightarrow> 'v option"
  js_index :: "'v \<Rightarrow> string \<Rightarrow> 'v"
  js_get :: "'v \<Rightarrow> string \<Rightarrow> 'v option"
  js_pointer :: "'v \<Rightarrow> string \<Rightarrow> 'v option"
  js_as_str :: "'v \<Rightarrow> string option"
  js_as_array :: "'v \<Rightarrow> 'v list option"
  js_as_u64 :: "'v \<Rightarrow> u64 option"
  js_is_null :: "'v \<Rightarrow> bool"

definition hex32 :: "hexlib \<Rightarrow> bytes \<Rightarrow> string" where
  "hex32 H value = ''0x'' @ hex_encode H value"

definition hex_bytes :: "hexlib \<Rightarrow> string \<Rightarrow> bytes option" where
  "hex_bytes H s = hex_decode H (strip_0x s)"

definition parse_hex32 :: "hexlib \<Rightarrow> string \<Rightarrow> bytes option" where
  "parse_hex32 H s =
     (case hex_decode H (strip_0x s) of
        None \<Rightarrow> None
      | Some bs \<Rightarrow> if length bs = 32 then Some bs else None)"

lemma parse_hex32_hex32 [simp]: "hex_ok H \<Longrightarrow> length bs = 32 \<Longrightarrow> parse_hex32 H (hex32 H bs) = Some bs"
  by (simp add: parse_hex32_def hex32_def hex_ok_def)

lemma hex_bytes_hex32 [simp]: "hex_ok H \<Longrightarrow> hex_bytes H (hex32 H bs) = Some bs"
  by (simp add: hex_bytes_def hex32_def hex_ok_def)

lemma parse_hex32_length: "parse_hex32 H s = Some bs \<Longrightarrow> length bs = 32"
  by (auto simp: parse_hex32_def split: option.splits if_splits)

lemma hex32_inj: "hex_ok H \<Longrightarrow> hex32 H a = hex32 H b \<longleftrightarrow> a = b"
  by (metis hex_bytes_hex32 option.inject)

lemma to_lowercase_hex32 [simp]: "hex_ok H \<Longrightarrow> to_lowercase (hex32 H bs) = hex32 H bs"
  by (simp add: hex32_def hex_ok_def to_lowercase_def ascii_lower_def)

section \<open>Numbers read back\<close>

lemma digit_value_digit_char: "d < b \<Longrightarrow> b \<le> 36 \<Longrightarrow> digit_value b (digit_char d) = Some d"
  by (auto simp: digit_value_def digit_char_def Let_def)

lemma radix_value_snoc:
  "radix_value b acc (xs @ [c]) =
     (case radix_value b acc xs of None \<Rightarrow> None
      | Some v \<Rightarrow> (case digit_value b c of None \<Rightarrow> None | Some d \<Rightarrow> Some (v * b + d)))"
  by (induction b acc xs rule: radix_value.induct) (auto split: option.splits)

lemma radix_value_text: "2 \<le> b \<Longrightarrow> b \<le> 36 \<Longrightarrow> radix_value b 0 (radix_text b n) = Some n"
proof (induction b n rule: radix_text.induct)
  case (1 b n)
  then show ?case
    by (subst radix_text.simps) (auto simp: digit_value_digit_char radix_value_snoc)
qed

lemma radix_text_not_plus: "2 \<le> b \<Longrightarrow> b \<le> 16 \<Longrightarrow> radix_text b n \<noteq> [] \<and> hd (radix_text b n) \<noteq> CHR ''+''"
proof (induction b n rule: radix_text.induct)
  case (1 b n)
  have "digit_char d \<noteq> CHR ''+''" if "d < 16" for d
  proof
    assume "digit_char d = CHR ''+''"
    then have "digit_value 16 (digit_char d) = digit_value 16 (CHR ''+'')" by simp
    with that show False by (simp add: digit_value_digit_char) (simp add: digit_value_def)
  qed
  with 1 show ?case by (subst (1 2) radix_text.simps) auto
qed

lemma u64_from_hex_text: "u64_from_radix 16 (hex_text (unat w)) = Some (w :: u64)"
  using radix_text_not_plus[of 16 "unat w"] radix_value_text[of 16 "unat w"]
    unsigned_less[of w, where 'a=nat]
  by (simp add: u64_from_radix_def hex_text_def Let_def)

section \<open>One concrete \<open>hex\<close>\<close>

text \<open>Lower-case hexadecimal, two digits a byte: an instance on which the witnesses run.\<close>

definition std_encode :: "bytes \<Rightarrow> string" where
  "std_encode bs = concat (map (\<lambda>b. [digit_char (unat b div 16), digit_char (unat b mod 16)]) bs)"

fun std_decode :: "string \<Rightarrow> bytes option" where
  "std_decode [] = Some []"
| "std_decode [c] = None"
| "std_decode (c # d # rest) =
     (case digit_value 16 c of None \<Rightarrow> None
      | Some h \<Rightarrow> (case digit_value 16 d of None \<Rightarrow> None
         | Some l \<Rightarrow> map_option (Cons (of_nat (16 * h + l))) (std_decode rest)))"

definition std_hex :: hexlib where
  "std_hex = \<lparr>hex_encode = std_encode, hex_decode = std_decode\<rparr>"

lemma std_roundtrip: "std_decode (std_encode bs) = Some bs"
proof (induction bs)
  case (Cons b bs)
  have "unat b div 16 < 16" "unat b mod 16 < 16" using unat_u8_less[of b] by simp_all
  moreover have "(of_nat (16 * (unat b div 16) + unat b mod 16) :: u8) = b" by (simp only: mult_div_mod_eq) simp
  ultimately show ?case using Cons by (simp add: std_encode_def digit_value_digit_char del: of_nat_add of_nat_mult)
qed (simp add: std_encode_def)

lemma ascii_lower_digit: "d < 16 \<Longrightarrow> ascii_lower (digit_char d) = digit_char d"
  by (auto simp: ascii_lower_def digit_char_def Let_def)

lemma std_lower: "to_lowercase (std_encode bs) = std_encode bs"
proof (induction bs)
  case (Cons b bs)
  have "unat b div 16 < 16" "unat b mod 16 < 16" using unat_u8_less[of b] by simp_all
  with Cons show ?case by (simp add: std_encode_def to_lowercase_def ascii_lower_digit)
qed (simp add: std_encode_def to_lowercase_def)

lemma std_hex_ok: "hex_ok std_hex"
  by (simp add: hex_ok_def std_hex_def std_roundtrip std_lower)

end
