(* ===== verification/S1.thy ===== *)
theory S1
  imports Guest Text_Lib
begin

text \<open>
  Model of \<open>prover/crates/host/src/s1.rs\<close> and \<open>public_values.rs\<close>: the witness package of a
  batch, the precheck that runs the guest relation natively, the assembly of a batch from
  certified tokens, the intake of a wallet envelope, and the decoder of ABI public values.
  An error message is the constructor of \<open>s1_error\<close> for the check that failed; \<open>None\<close> is
  running out of fuel, or a panic of the wire encoder on a list of 2^32 entries.
\<close>

section \<open>Data\<close>

datatype s1_error =
    CertifiedBurnFailed bridge_ext_error
  | CertifiedBatchEmpty
  | MixedTrustBases
  | AccumulatorBuildFailed string
  | LockRefRootFailed bridge_core_error
  | CertifiedBatchTooLarge
  | NoTerminalBurn
  | TxHashLength
  | ReasonDecodeFailed bridge_core_error
  | RelationRejected bridge_core_error
  | PublicValuesDiffer
  | WireRejected bridge_core_error
  | WireDiverged
  | WireUndecodable bridge_core_error
  | TokenUndecodable
  | BadDeployment string
  | BadTrustBase
  | TrustBaseNotPinned

record certified_burn_input =
  cb_token :: token
  cb_trust_base :: trust_base
  cb_lock_justification_tag :: u64
  cb_leaf :: return_leaf

record precheck_report =
  pr_public_values :: public_values
  pr_public_values_abi :: bytes
  pr_public_values_digest :: bytes
  pr_wire_input :: bytes
  pr_batch_size :: u32
  pr_total_amount :: bytes

section \<open>One certified burn\<close>

definition verify_certified_burn ::
  "nat \<Rightarrow> (bytes \<Rightarrow> bytes) \<Rightarrow> sdk \<Rightarrow> token \<Rightarrow> trust_base \<Rightarrow> bridge_config \<Rightarrow> u64
   \<Rightarrow> (s1_error + source_lock_ref list) option" where
  "verify_certified_burn fuel keccak S token tb config tag =
     map_option (\<lambda>r. and_then (map_err CertifiedBurnFailed r) (\<lambda>obligations.
         Ok (map (\<lambda>ob. \<lparr>ref_nonce = ob_nonce ob, ref_digest = ob_digest ob\<rparr>) obligations)))
       (obligations_certified fuel S keccak token tb tag (sdk_bridge_config config)
          (decode_bridged_payment_data S))"

section \<open>The precheck\<close>

definition report_for :: "guest_output \<Rightarrow> bytes \<Rightarrow> precheck_report" where
  "report_for output wire_input =
     \<lparr>pr_public_values = go_public_values output,
      pr_public_values_abi = go_public_values_abi output,
      pr_public_values_digest = go_public_values_digest output,
      pr_wire_input = wire_input,
      pr_batch_size = pv_batch_size (go_public_values output),
      pr_total_amount = pv_total_amount (go_public_values output)\<rparr>"

definition precheck ::
  "nat \<Rightarrow> (bytes \<Rightarrow> bytes) \<Rightarrow> (bytes \<Rightarrow> bytes) \<Rightarrow> sdk \<Rightarrow> guest_input
   \<Rightarrow> (s1_error + precheck_report) option" where
  "precheck fuel sha256 keccak S input =
     run_then (map_option (map_err RelationRejected) (execute_public_output fuel sha256 keccak S input))
       (\<lambda>output.
     if go_public_values output \<noteq> gi_public_values input then Some (Err PublicValuesDiffer) else
     (case encode_guest_input S input of
        None \<Rightarrow> None
      | Some wire_input \<Rightarrow>
          run_then (map_option (map_err WireRejected) (execute_wire fuel sha256 keccak S wire_input))
            (\<lambda>wire_output.
          if wire_output \<noteq> output then Some (Err WireDiverged) else
          Some (Ok (report_for output wire_input)))))"

definition precheck_wire ::
  "nat \<Rightarrow> (bytes \<Rightarrow> bytes) \<Rightarrow> (bytes \<Rightarrow> bytes) \<Rightarrow> sdk \<Rightarrow> bytes
   \<Rightarrow> (s1_error + precheck_report) option" where
  "precheck_wire fuel sha256 keccak S wire_input =
     (case map_err WireUndecodable (decode_guest_input S wire_input) of
        Inl e \<Rightarrow> Some (Err e)
      | Inr input \<Rightarrow> precheck fuel sha256 keccak S input)"

section \<open>Assembling certified burns\<close>

fun certified_loop ::
  "nat \<Rightarrow> (bytes \<Rightarrow> bytes) \<Rightarrow> sdk \<Rightarrow> bridge_config \<Rightarrow> bytes \<Rightarrow> source_lock_ref list
   \<Rightarrow> certified_burn_input list \<Rightarrow> (s1_error + source_lock_ref list) option" where
  "certified_loop fuel keccak S config tbh refs [] = Some (Ok refs)"
| "certified_loop fuel keccak S config tbh refs (b # bs) =
     (if canonical_hash S (cb_trust_base b) \<noteq> tbh then Some (Err MixedTrustBases)
      else run_then (verify_certified_burn fuel keccak S (cb_token b) (cb_trust_base b) config
               (cb_lock_justification_tag b))
             (\<lambda>more. certified_loop fuel keccak S config tbh (refs @ more) bs))"

definition burn_of :: "certified_burn_input \<Rightarrow> burn_witness" where
  "burn_of b = \<lparr>bw_token = cb_token b, bw_trust_base = cb_trust_base b, bw_verification = Certified,
     bw_lock_justification_tag = cb_lock_justification_tag b\<rparr>"

definition build_certified_guest_input_batch ::
  "nat \<Rightarrow> (bytes \<Rightarrow> bytes) \<Rightarrow> sdk \<Rightarrow> bridge_config \<Rightarrow> certified_burn_input list
   \<Rightarrow> (s1_error + guest_input) option" where
  "build_certified_guest_input_batch fuel keccak S config burns =
     (if burns = [] then Some (Err CertifiedBatchEmpty) else
      let tbh = canonical_hash S (cb_trust_base (hd burns)); leaves = map cb_leaf burns in
      run_then (certified_loop fuel keccak S config tbh [] burns) (\<lambda>refs.
      let sorted_refs = sort_key ref_nonce refs in
      run_then (map_option (map_err AccumulatorBuildFailed)
          (ordered_insert_witnesses (sdk_sha256 S) [] (map leaf_nullifier leaves)))
        (\<lambda>(witnesses, new_root).
      case tree_root (sdk_sha256 S) [] of None \<Rightarrow> None | Some old_root \<Rightarrow>
      Some (and_then (map_err LockRefRootFailed (lock_ref_root keccak sorted_refs)) (\<lambda>lroot.
        if 2 ^ 32 \<le> length leaves then Err CertifiedBatchTooLarge else
        Ok \<lparr>gi_config = config,
            gi_public_values =
              \<lparr>pv_domain_tag = domain_tag keccak, pv_config_hash = config_hash keccak config,
               pv_trust_base_hash = tbh, pv_spent_root_old = old_root, pv_spent_root_new = new_root,
               pv_return_root = return_root keccak leaves, pv_lock_ref_root = lroot,
               pv_batch_size = of_nat (length leaves), pv_total_amount = sum_amounts leaves\<rparr>,
            gi_return_leaves = leaves, gi_sorted_lock_refs = sorted_refs,
            gi_witness = \<lparr>rw_accumulator_witnesses = witnesses,
                          rw_bridge_burns = map burn_of burns\<rparr>\<rparr>)))))"

definition build_certified_guest_input ::
  "nat \<Rightarrow> (bytes \<Rightarrow> bytes) \<Rightarrow> sdk \<Rightarrow> bridge_config \<Rightarrow> token \<Rightarrow> trust_base \<Rightarrow> u64 \<Rightarrow> return_leaf
   \<Rightarrow> (s1_error + guest_input) option" where
  "build_certified_guest_input fuel keccak S config token tb tag leaf =
     build_certified_guest_input_batch fuel keccak S config
       [\<lparr>cb_token = token, cb_trust_base = tb, cb_lock_justification_tag = tag, cb_leaf = leaf\<rparr>]"

definition envelope_leaf ::
  "(bytes \<Rightarrow> bytes) \<Rightarrow> (bytes \<Rightarrow> bytes) \<Rightarrow> sdk \<Rightarrow> bridge_config \<Rightarrow> token \<Rightarrow> bytes
   \<Rightarrow> s1_error + return_leaf" where
  "envelope_leaf sha256 keccak S config token reason_bytes =
     (if tok_transactions token = [] then Err NoTerminalBurn else
      let burn = tr_transaction (last (tok_transactions token));
          state_id = sdk_state_id S (tx_lock_script burn) (tx_source_state_hash burn);
          tx_hash = dh_data (tx_calculated_hash burn)
      in if length tx_hash \<noteq> 32 then Err TxHashLength else
         let null = nullifier sha256 (config_hash keccak config)
                      (burn_transition_id sha256 state_id tx_hash)
         in and_then (map_err ReasonDecodeFailed
                (decode_bridge_back_reason (sdk_decoder S) (cfg_reason_tag config) reason_bytes)) (\<lambda>r.
            Ok \<lparr>leaf_nullifier = null, leaf_recipient = dr_recipient r, leaf_amount = dr_amount r,
                leaf_fee_recipient = dr_fee_recipient r, leaf_fee_amount = dr_fee_amount r,
                leaf_deadline = dr_deadline r\<rparr>))"

definition build_certified_guest_input_from_envelope ::
  "nat \<Rightarrow> (bytes \<Rightarrow> bytes) \<Rightarrow> (bytes \<Rightarrow> bytes) \<Rightarrow> sdk \<Rightarrow> bridge_config \<Rightarrow> trust_base \<Rightarrow> u64 \<Rightarrow> token
   \<Rightarrow> bytes \<Rightarrow> (s1_error + guest_input) option" where
  "build_certified_guest_input_from_envelope fuel sha256 keccak S config tb tag token reason_bytes =
     run_then (Some (envelope_leaf sha256 keccak S config token reason_bytes)) (\<lambda>leaf.
       build_certified_guest_input fuel keccak S config token tb tag leaf)"

section \<open>Envelope intake\<close>

record envelope_intake =
  ei_config :: bridge_config
  ei_trust_base :: trust_base
  ei_lock_justification_tag :: u64

definition json_u64 :: "'v jsonlib \<Rightarrow> 'v \<Rightarrow> string \<Rightarrow> s1_error + u64" where
  "json_u64 J c key = ok_or (BadDeployment key) (js_as_u64 J (js_index J c key))"

definition json_hex :: "'v jsonlib \<Rightarrow> hexlib \<Rightarrow> nat \<Rightarrow> 'v \<Rightarrow> string \<Rightarrow> s1_error + bytes" where
  "json_hex J H n c key =
     and_then (ok_or (BadDeployment key) (js_as_str J (js_index J c key))) (\<lambda>s.
     and_then (ok_or (BadDeployment key) (hex_decode H (strip_0x s))) (\<lambda>bs.
     if length bs = n then Ok bs else Err (BadDeployment key)))"

definition bridge_config_from_json ::
  "'v jsonlib \<Rightarrow> hexlib \<Rightarrow> 'v \<Rightarrow> s1_error + bridge_config" where
  "bridge_config_from_json J H c =
     and_then (json_u64 J c ''source_chain_id'') (\<lambda>chain.
     and_then (json_hex J H 20 c ''vault'') (\<lambda>vault.
     and_then (json_hex J H 20 c ''asset'') (\<lambda>asset.
     and_then (json_hex J H 32 c ''token_type'') (\<lambda>ttype.
     and_then (json_hex J H 32 c ''coin_id'') (\<lambda>coin.
     and_then (json_u64 J c ''reason_tag'') (\<lambda>tag.
     and_then (json_hex J H 32 c ''lock_domain'') (\<lambda>ldom.
     and_then (json_hex J H 32 c ''nullifier_domain'') (\<lambda>ndom.
     Ok \<lparr>cfg_source_chain_id = chain, cfg_vault = vault, cfg_asset = asset, cfg_token_type = ttype,
         cfg_coin_id = coin, cfg_reason_tag = tag, cfg_lock_domain = ldom,
         cfg_nullifier_domain = ndom\<rparr>))))))))"

text \<open>\<open>trust_base_from_json\<close> is the SDK's \<open>RootTrustBase::from_json\<close>.\<close>

definition intake_from_json ::
  "'v jsonlib \<Rightarrow> hexlib \<Rightarrow> sdk \<Rightarrow> (string \<Rightarrow> trust_base option) \<Rightarrow> string \<Rightarrow> string \<Rightarrow> u64
   \<Rightarrow> s1_error + envelope_intake" where
  "intake_from_json J H S trust_base_from_json deployment_json trust_base_json tag =
     and_then (ok_or (BadDeployment ''json'') (js_parse J deployment_json)) (\<lambda>doc.
     let c = (case js_get J doc ''config'' of Some c \<Rightarrow> c | None \<Rightarrow> doc) in
     and_then (bridge_config_from_json J H c) (\<lambda>config.
     and_then (ok_or BadTrustBase (trust_base_from_json trust_base_json)) (\<lambda>tb.
     let intake = \<lparr>ei_config = config, ei_trust_base = tb, ei_lock_justification_tag = tag\<rparr> in
     case js_get J doc ''trust_base'' of
       None \<Rightarrow> Ok intake
     | Some pinned \<Rightarrow>
         if js_get J pinned ''canonical_hash'' = None then Ok intake
         else and_then (json_hex J H 32 pinned ''canonical_hash'') (\<lambda>h.
           if h \<noteq> canonical_hash S tb then Err TrustBaseNotPinned else Ok intake))))"

definition intake_config_hash :: "(bytes \<Rightarrow> bytes) \<Rightarrow> envelope_intake \<Rightarrow> bytes" where
  "intake_config_hash keccak i = config_hash keccak (ei_config i)"

definition intake_trust_base_hash :: "sdk \<Rightarrow> envelope_intake \<Rightarrow> bytes" where
  "intake_trust_base_hash S i = canonical_hash S (ei_trust_base i)"

definition intake_build_wire_input ::
  "nat \<Rightarrow> (bytes \<Rightarrow> bytes) \<Rightarrow> (bytes \<Rightarrow> bytes) \<Rightarrow> sdk \<Rightarrow> envelope_intake \<Rightarrow> bytes \<Rightarrow> bytes
   \<Rightarrow> (s1_error + bytes) option" where
  "intake_build_wire_input fuel sha256 keccak S i token_cbor reason_bytes =
     run_then (Some (ok_or TokenUndecodable (sdk_token_from_cbor S token_cbor))) (\<lambda>token.
     run_then (build_certified_guest_input_from_envelope fuel sha256 keccak S (ei_config i)
         (ei_trust_base i) (ei_lock_justification_tag i) token reason_bytes) (\<lambda>input.
     map_option Ok (encode_guest_input S input)))"

section \<open>ABI public values\<close>

definition abi_slot :: "bytes \<Rightarrow> nat \<Rightarrow> bytes" where
  "abi_slot bs i = take 32 (drop (i * 32) bs)"

definition public_values_from_abi :: "bytes \<Rightarrow> public_values option" where
  "public_values_from_abi bs =
     (if length bs < 9 * 32 then None
      else let size = abi_slot bs 7 in
        if \<exists>b \<in> set (take 28 size). b \<noteq> 0 then None
        else Some \<lparr>pv_domain_tag = abi_slot bs 0, pv_config_hash = abi_slot bs 1,
               pv_trust_base_hash = abi_slot bs 2, pv_spent_root_old = abi_slot bs 3,
               pv_spent_root_new = abi_slot bs 4, pv_return_root = abi_slot bs 5,
               pv_lock_ref_root = abi_slot bs 6, pv_batch_size = of_be32 (drop 28 size),
               pv_total_amount = abi_slot bs 8\<rparr>)"

end
