(* ===== verification/S1_Proofs.thy ===== *)
theory S1_Proofs
  imports S1 Guest_Example
begin

text \<open>
  The precheck decides exactly what the guest decides, an assembled certified batch fails
  the guest only through its own burns, and ABI public values decode to what was encoded.
\<close>

section \<open>The precheck\<close>

lemma decode_encoded:
  "encode_guest_input S i = Some bs \<Longrightarrow> wf_input S i \<Longrightarrow> decode_guest_input S bs = Ok i"
  using input_codec.dec_enc[of S i bs "[]"] by (simp add: decode_guest_input_def)

abbreviation report_of :: "(bytes \<Rightarrow> bytes) \<Rightarrow> public_values \<Rightarrow> bytes \<Rightarrow> precheck_report" where
  "report_of keccak pv wire_input \<equiv> report_for (public_output keccak pv) wire_input"

lemma unit_not_Ok: "r \<noteq> Ok () \<Longrightarrow> \<exists>e. r = Err e"
  by (cases r) auto

lemma execute_public_output_Ok:
  "execute_public_output fuel sha256 keccak S input = Some (Ok out) \<longleftrightarrow>
     (\<exists>pv. execute fuel sha256 keccak S input = Some (Ok pv) \<and> out = public_output keccak pv)"
  by (auto simp: execute_public_output_def and_then_Ok_iff)

lemma precheck_eq:
  assumes "encode_guest_input S input = Some wire_input" "wf_input S input"
  shows "precheck fuel sha256 keccak S input =
    map_option (\<lambda>r. and_then (map_err RelationRejected r) (\<lambda>pv. Ok (report_of keccak pv wire_input)))
      (execute fuel sha256 keccak S input)"
proof (cases "execute fuel sha256 keccak S input")
  case None
  then show ?thesis by (simp add: precheck_def execute_public_output_def)
next
  case (Some r)
  show ?thesis
  proof (cases r)
    case (Inl e)
    with Some show ?thesis by (simp add: precheck_def execute_public_output_def)
  next
    case (Inr pv)
    with Some have x: "execute fuel sha256 keccak S input = Some (Ok pv)" by simp
    then have o: "execute_public_output fuel sha256 keccak S input = Some (Ok (public_output keccak pv))"
      by (simp add: execute_public_output_def)
    have w: "execute_wire fuel sha256 keccak S wire_input = Some (Ok (public_output keccak pv))"
      using o by (simp add: execute_wire_def decode_encoded[OF assms])
    have "pv = gi_public_values input" using execute_Ok[OF x] by blast
    then show ?thesis
      by (simp add: precheck_def o w x assms(1) public_output_def)
  qed
qed

lemma precheck_wire_Ok:
  assumes "precheck_wire fuel sha256 keccak S bs = Some (Ok r)"
  shows "\<exists>input. decode_guest_input S bs = Ok input
    \<and> execute fuel sha256 keccak S input = Some (Ok (pr_public_values r))
    \<and> execute_wire fuel sha256 keccak S (pr_wire_input r) = Some (Ok (public_output keccak (pr_public_values r)))
    \<and> pr_public_values r = gi_public_values input
    \<and> encode_guest_input S input = Some (pr_wire_input r)
    \<and> r = report_of keccak (pr_public_values r) (pr_wire_input r)"
proof -
  obtain input where i: "decode_guest_input S bs = Ok input" "precheck fuel sha256 keccak S input = Some (Ok r)"
    using assms by (auto simp: precheck_wire_def split: sum.splits)
  obtain out where out: "execute_public_output fuel sha256 keccak S input = Some (Ok out)"
      "go_public_values out = gi_public_values input"
      "(case encode_guest_input S input of None \<Rightarrow> None
        | Some wire_input \<Rightarrow>
          run_then (map_option (map_err WireRejected) (execute_wire fuel sha256 keccak S wire_input))
            (\<lambda>wire_output.
          if wire_output \<noteq> out then Some (Err WireDiverged)
          else Some (Ok (report_for out wire_input)))) = Some (Ok r)"
    using i(2) unfolding precheck_def run_then_Ok_iff by (auto split: if_splits)
  obtain w where w: "encode_guest_input S input = Some w"
      "execute_wire fuel sha256 keccak S w = Some (Ok out)" "r = report_for out w"
    using out(3) by (auto simp: run_then_Ok_iff split: option.splits if_splits)
  obtain pv where pv: "execute fuel sha256 keccak S input = Some (Ok pv)" "out = public_output keccak pv"
    using out(1) execute_public_output_Ok by blast
  with i(1) out(2) w show ?thesis by (auto simp: report_for_def public_output_def)
qed

section \<open>Assembled certified batches\<close>

text \<open>The two checks of the guest that the assembly does not make itself.\<close>

definition burn_checks ::
  "(bytes \<Rightarrow> bytes) \<Rightarrow> (bytes \<Rightarrow> bytes) \<Rightarrow> sdk \<Rightarrow> bridge_config \<Rightarrow> certified_burn_input \<Rightarrow> bool" where
  "burn_checks sha256 keccak S c b \<longleftrightarrow>
     validate_terminal_burn sha256 S c (config_hash keccak c) (cb_leaf b) (cb_token b) = Ok ()
     \<and> validate_current_value S c (cb_leaf b) (cb_token b) = Ok ()"

lemma certified_loop_burns:
  assumes "certified_loop fuel keccak S c tbh refs bs = Some (Ok out)"
  shows "if \<forall>b \<in> set bs. burn_checks sha256 keccak S c b
    then burns_loop fuel sha256 keccak S c tbh roots refs (zip (map burn_of bs) (map cb_leaf bs)) = Some (Ok out)
    else \<exists>e. burns_loop fuel sha256 keccak S c tbh roots refs (zip (map burn_of bs) (map cb_leaf bs)) = Some (Err e)"
  using assms
proof (induction bs arbitrary: refs)
  case (Cons b bs)
  let ?rest = "\<lambda>refs'. burns_loop fuel sha256 keccak S c tbh roots refs' (zip (map burn_of bs) (map cb_leaf bs))"
  obtain more where m: "canonical_hash S (cb_trust_base b) = tbh"
      "verify_certified_burn fuel keccak S (cb_token b) (cb_trust_base b) c (cb_lock_justification_tag b) = Some (Ok more)"
      "certified_loop fuel keccak S c tbh (refs @ more) bs = Some (Ok out)"
    using Cons.prems by (auto simp: run_then_Ok_iff split: if_splits)
  obtain obs where o: "obligations_certified fuel S keccak (cb_token b) (cb_trust_base b)
        (cb_lock_justification_tag b) (sdk_bridge_config c) (decode_bridged_payment_data S) = Some (Ok obs)"
      "more = map lock_ref_of obs"
    using m(2) by (auto simp: verify_certified_burn_def and_then_Ok_iff lock_ref_of_def[abs_def])
  have f: "bw_verification (burn_of b) = Certified" "bw_token (burn_of b) = cb_token b"
    "bw_trust_base (burn_of b) = cb_trust_base b"
    "bw_lock_justification_tag (burn_of b) = cb_lock_justification_tag b"
    by (simp_all add: burn_of_def)
  have bo: "burn_obligations fuel keccak S (sdk_bridge_config c) (burn_of b) roots = Some (Ok (obs, roots))"
    by (simp add: burn_obligations_def f o(1) token_failed_def)
  note IH = Cons.IH[OF m(3)]
  show ?case
  proof (cases "burn_checks sha256 keccak S c b")
    case True
    then have "burns_loop fuel sha256 keccak S c tbh roots refs
        (zip (map burn_of (b # bs)) (map cb_leaf (b # bs))) = ?rest (refs @ more)"
      by (simp add: f m(1) bo o(2) burn_checks_def)
    with IH True show ?thesis by (simp only: list.set ball_simps simp_thms)
  next
    case False
    then have "\<exists>e. and_then (validate_terminal_burn sha256 S c (config_hash keccak c) (cb_leaf b) (cb_token b))
        (\<lambda>_. validate_current_value S c (cb_leaf b) (cb_token b)) = Err e"
      unfolding burn_checks_def using unit_not_Ok by (auto simp: and_then_def split: sum.splits)
    with False show ?thesis by (auto simp: f m(1) bo o(2))
  qed
qed simp

lemma build_batch_Ok:
  assumes "build_certified_guest_input_batch fuel keccak S c burns = Some (Ok input)"
    and "\<forall>b \<in> set burns. key_ok (leaf_nullifier (cb_leaf b))"
  shows "gi_config input = c \<and> gi_return_leaves input = map cb_leaf burns
    \<and> rw_bridge_burns (gi_witness input) = map burn_of burns \<and> burns \<noteq> []
    \<and> validate_public_values keccak c (gi_public_values input) (map cb_leaf burns) (gi_sorted_lock_refs input) = Ok ()
    \<and> validate_accumulator_transition (sdk_sha256 S) (pv_spent_root_old (gi_public_values input))
        (pv_spent_root_new (gi_public_values input)) (map cb_leaf burns)
        (rw_accumulator_witnesses (gi_witness input)) = Ok ()
    \<and> (\<exists>out. certified_loop fuel keccak S c (pv_trust_base_hash (gi_public_values input)) [] burns = Some (Ok out)
         \<and> gi_sorted_lock_refs input = sort_key ref_nonce out)"
proof -
  let ?leaves = "map cb_leaf burns" and ?sha = "sdk_sha256 S"
  let ?ns = "map leaf_nullifier ?leaves"
  obtain refs ws new lroot where b: "burns \<noteq> []"
      "certified_loop fuel keccak S c (canonical_hash S (cb_trust_base (hd burns))) [] burns = Some (Ok refs)"
      "ordered_insert_witnesses ?sha [] ?ns = Some (Ok (ws, new))"
      "lock_ref_root keccak (sort_key ref_nonce refs) = Ok lroot"
      "input = \<lparr>gi_config = c, gi_public_values =
          \<lparr>pv_domain_tag = domain_tag keccak, pv_config_hash = config_hash keccak c,
           pv_trust_base_hash = canonical_hash S (cb_trust_base (hd burns)), pv_spent_root_old = EMPTY_TREE_ROOT,
           pv_spent_root_new = new, pv_return_root = return_root keccak ?leaves, pv_lock_ref_root = lroot,
           pv_batch_size = of_nat (length ?leaves), pv_total_amount = sum_amounts ?leaves\<rparr>,
         gi_return_leaves = ?leaves, gi_sorted_lock_refs = sort_key ref_nonce refs,
         gi_witness = \<lparr>rw_accumulator_witnesses = ws, rw_bridge_burns = map burn_of burns\<rparr>\<rparr>"
    using assms(1) unfolding build_certified_guest_input_batch_def Let_def
    by (auto simp: run_then_Ok_iff and_then_Ok_iff tree_root_def split: if_splits)
  have k: "\<forall>x \<in> set ([] @ ?ns). key_ok x" using assms(2) by auto
  have d: "distinct ([] @ ?ns)"
    using ordered_loop_dup[of "[]" ?ns ?sha "[]"] k b(3) by (auto simp: ordered_insert_witnesses_def)
  obtain ws' where ws': "ordered_loop ?sha [] [] ?ns = Some (Ok ([] @ ws', commit ?sha (set [] \<union> set ?ns)))"
    "length ws' = length ?ns"
    "\<forall>i < length ?ns. non_membership_witness ?sha ([] @ take i ?ns) (?ns ! i) = Some (Some (ws' ! i))"
    using ordered_loop_ok[OF d k, of ?sha "[]"] by blast
  have w: "ws' = ws" "new = commit ?sha (set ?ns)"
    using ws'(1) b(3) by (simp_all add: ordered_insert_witnesses_def)
  have "insert_all (acc_insert ?sha) (commit ?sha (set [])) (zip ?ns ws') = Some (commit ?sha (set [] \<union> set ?ns))"
    by (rule acc.insert_run[OF d k ws'(2,3)])
  then have a: "validate_accumulator_transition ?sha EMPTY_TREE_ROOT new ?leaves ws = Ok ()"
    using ws'(2) w by (simp add: validate_accumulator_transition_Ok_iff commit_def)
  show ?thesis
    using b(1,2,4) a by (auto simp: b(5) validate_public_values_Ok lock_ref_root_Ok_iff)
qed

lemma built_batch_executes:
  assumes "build_certified_guest_input_batch fuel keccak S c burns = Some (Ok input)"
    and "\<forall>b \<in> set burns. key_ok (leaf_nullifier (cb_leaf b))"
  shows "if \<forall>b \<in> set burns. burn_checks sha256 keccak S c b
    then execute fuel sha256 keccak S input = Some (Ok (gi_public_values input))
    else \<exists>e. execute fuel sha256 keccak S input = Some (Err e)"
proof -
  note b = build_batch_Ok[OF assms]
  obtain out where out: "certified_loop fuel keccak S c (pv_trust_base_hash (gi_public_values input)) [] burns = Some (Ok out)"
    "gi_sorted_lock_refs input = sort_key ref_nonce out" using b by blast
  have e: "execute fuel sha256 keccak S input =
    map_option (\<lambda>r. and_then r (\<lambda>_. Ok (gi_public_values input)))
      (map_option (\<lambda>r. and_then r (\<lambda>obligations.
             if sort_key ref_nonce obligations \<noteq> gi_sorted_lock_refs input then Err WrongLockObligation
             else Ok ()))
        (burns_loop fuel sha256 keccak S c (pv_trust_base_hash (gi_public_values input)) [] []
          (zip (map burn_of burns) (map cb_leaf burns))))"
    using b by (simp add: execute_def validate_bridge_burns_def Let_def)
  show ?thesis
    using certified_loop_burns[OF out(1), of sha256 "[]"] unfolding e
    by (cases "\<forall>b \<in> set burns. burn_checks sha256 keccak S c b") (auto simp: out(2))
qed

section \<open>Envelopes\<close>

lemma envelope_leaf_Ok:
  assumes "envelope_leaf sha256 keccak S c token reason_bytes = Ok leaf"
  shows "\<exists>reason. decode_bridge_back_reason (sdk_decoder S) (cfg_reason_tag c) reason_bytes = Ok reason
    \<and> tok_transactions token \<noteq> []
    \<and> (let tx = tr_transaction (last (tok_transactions token)); tx_hash = dh_data (tx_calculated_hash tx)
       in length tx_hash = 32 \<and> leaf_nullifier leaf = nullifier sha256 (config_hash keccak c)
            (burn_transition_id sha256 (sdk_state_id S (tx_lock_script tx) (tx_source_state_hash tx)) tx_hash))
    \<and> leaf = \<lparr>leaf_nullifier = leaf_nullifier leaf, leaf_recipient = dr_recipient reason,
        leaf_amount = dr_amount reason, leaf_fee_recipient = dr_fee_recipient reason,
        leaf_fee_amount = dr_fee_amount reason, leaf_deadline = dr_deadline reason\<rparr>"
  using assms by (auto simp: envelope_leaf_def Let_def and_then_Ok_iff split: if_splits)

text \<open>What a wallet's reason has to say for its own leaf to be payable.\<close>

definition reason_for :: "bridge_config \<Rightarrow> decoded_reason \<Rightarrow> bool" where
  "reason_for c r \<longleftrightarrow> dr_version r = 1 \<and> dr_source_chain_id r = cfg_source_chain_id c
     \<and> dr_vault r = cfg_vault c \<and> dr_asset r = cfg_asset c \<and> dr_token_type r = cfg_token_type c
     \<and> dr_coin_id r = cfg_coin_id c \<and> from_be (dr_fee_amount r) \<le> from_be (dr_amount r)"

lemma leaf_reason_eq:
  "leaf_recipient l = dr_recipient r \<Longrightarrow> leaf_amount l = dr_amount r \<Longrightarrow> leaf_fee_recipient l = dr_fee_recipient r
   \<Longrightarrow> leaf_fee_amount l = dr_fee_amount r \<Longrightarrow> leaf_deadline l = dr_deadline r \<Longrightarrow>
   r = leaf_reason c l \<longleftrightarrow> dr_version r = 1 \<and> dr_source_chain_id r = cfg_source_chain_id c
     \<and> dr_vault r = cfg_vault c \<and> dr_asset r = cfg_asset c \<and> dr_token_type r = cfg_token_type c
     \<and> dr_coin_id r = cfg_coin_id c"
  by (cases r) (auto simp: leaf_reason_def)

lemma u256_bstr_length: "u256_bstr D item = Ok v \<Longrightarrow> length v = 32"
  by (auto simp: u256_bstr_def and_then_Ok_iff split: if_splits)

lemma decoded_amount_lengths:
  assumes "decode_bridge_back_reason D tag bs = Ok r"
  shows "length (dr_amount r) = 32" "length (dr_fee_amount r) = 32"
  using assms unfolding decode_bridge_back_reason_def
  by (auto simp: and_then_Ok_iff u256_bstr_length split: if_splits)

lemma h_array_length: "\<forall>x. length (sha x) = 32 \<Longrightarrow> length (h_array sha xs) = 32"
  by (simp add: h_array_def)

lemma envelope_executes:
  assumes build: "build_certified_guest_input_from_envelope fuel sha256 keccak S c tb tag token reason_bytes = Some (Ok input)"
    and "\<forall>x. length (sha256 x) = 32"
    and reason: "decode_bridge_back_reason (sdk_decoder S) (cfg_reason_tag c) reason_bytes = Ok reason"
    and data: "tx_data (tr_transaction (last (tok_transactions token))) = Some reason_bytes"
  shows "if tr_recipient (last (tok_transactions token)) = sdk_burn_predicate S (sha256 reason_bytes)
      \<and> reason_for c reason \<and> (\<exists>leaf. gi_return_leaves input = [leaf] \<and> validate_current_value S c leaf token = Ok ())
    then execute fuel sha256 keccak S input = Some (Ok (gi_public_values input))
    else \<exists>e. execute fuel sha256 keccak S input = Some (Err e)"
proof -
  obtain leaf where l: "envelope_leaf sha256 keccak S c token reason_bytes = Ok leaf"
    "build_certified_guest_input_batch fuel keccak S c
       [\<lparr>cb_token = token, cb_trust_base = tb, cb_lock_justification_tag = tag, cb_leaf = leaf\<rparr>] = Some (Ok input)"
    using build by (auto simp: build_certified_guest_input_from_envelope_def run_then_Ok_iff
        build_certified_guest_input_def)
  let ?b = "\<lparr>cb_token = token, cb_trust_base = tb, cb_lock_justification_tag = tag, cb_leaf = leaf\<rparr>"
  let ?burn = "last (tok_transactions token)"
  obtain r where "decode_bridge_back_reason (sdk_decoder S) (cfg_reason_tag c) reason_bytes = Ok r"
    and ne: "tok_transactions token \<noteq> []"
    and hash: "length (dh_data (tx_calculated_hash (tr_transaction ?burn))) = 32"
    and null: "leaf_nullifier leaf = nullifier sha256 (config_hash keccak c)
            (burn_transition_id sha256 (sdk_state_id S (tx_lock_script (tr_transaction ?burn))
              (tx_source_state_hash (tr_transaction ?burn))) (dh_data (tx_calculated_hash (tr_transaction ?burn))))"
    and leaf: "leaf = \<lparr>leaf_nullifier = leaf_nullifier leaf, leaf_recipient = dr_recipient r,
        leaf_amount = dr_amount r, leaf_fee_recipient = dr_fee_recipient r,
        leaf_fee_amount = dr_fee_amount r, leaf_deadline = dr_deadline r\<rparr>"
    using envelope_leaf_Ok[OF l(1)] by (auto simp: Let_def)
  then have r: "r = reason" using reason by simp
  have f: "leaf_recipient leaf = dr_recipient reason" "leaf_amount leaf = dr_amount reason"
    "leaf_fee_recipient leaf = dr_fee_recipient reason" "leaf_fee_amount leaf = dr_fee_amount reason"
    "leaf_deadline leaf = dr_deadline reason"
    using leaf r by (metis return_leaf.select_convs)+
  have key: "key_ok (leaf_nullifier leaf)"
    by (simp add: null nullifier_def h_array_length[OF assms(2)] key_ok_def)
  have g: "greater_than (leaf_fee_amount leaf) (leaf_amount leaf)
      \<longleftrightarrow> \<not> from_be (dr_fee_amount reason) \<le> from_be (dr_amount reason)"
    using decoded_amount_lengths[OF reason] by (simp add: greater_than_def f slice_less_iff_from_be not_le)
  have t: "validate_terminal_burn sha256 S c (config_hash keccak c) leaf token = Ok () \<longleftrightarrow>
      tr_recipient ?burn = sdk_burn_predicate S (sha256 reason_bytes) \<and> reason_for c reason"
    unfolding validate_terminal_burn_Ok burns_for_def g
    using ne hash null data leaf_reason_eq[OF f, of c] by (auto simp: Let_def reason reason_for_def)
  have leaves: "gi_return_leaves input = [leaf]"
    using build_batch_Ok[OF l(2)] key by simp
  show ?thesis
    using built_batch_executes[OF l(2), of sha256] key leaves t
    by (simp add: burn_checks_def)
qed

section \<open>ABI public values\<close>

lemma from_abi_encoded:
  assumes "wf_public_values p"
  shows "public_values_from_abi (public_values_abi p @ extra) = Some p"
  using assms by (simp add: public_values_from_abi_def pack_public_vals abi_slot_def wf_simps)

lemma take_append_take: "take n xs @ take m (drop n xs) = take (n + m) xs"
  by (simp add: take_add)

lemma from_abi_Some:
  assumes "public_values_from_abi bs = Some p"
  shows "wf_public_values p \<and> public_values_abi p = take 288 bs"
proof -
  let ?w = "\<lambda>i. abi_slot bs i"
  have len: "288 \<le> length bs" and z: "\<forall>b \<in> set (take 28 (?w 7)). b = 0"
    and p: "p = \<lparr>pv_domain_tag = ?w 0, pv_config_hash = ?w 1, pv_trust_base_hash = ?w 2,
      pv_spent_root_old = ?w 3, pv_spent_root_new = ?w 4, pv_return_root = ?w 5,
      pv_lock_ref_root = ?w 6, pv_batch_size = of_be32 (drop 28 (?w 7)), pv_total_amount = ?w 8\<rparr>"
    using assms by (auto simp: public_values_from_abi_def Let_def split: if_splits)
  have l: "length (?w i) = 32" if "i < 9" for i using len that by (simp add: abi_slot_def)
  have "take 28 (?w 7) = replicate 28 0"
    using z l[of 7] by (intro replicate_eqI) auto
  then have size: "replicate 28 0 @ be32 (of_be32 (drop 28 (?w 7))) = ?w 7"
    using l[of 7] by (simp add: be_of_be32) (metis append_take_drop_id)
  have "concat (map ?w [0..<n]) = take (n * 32) bs" for n
    by (induction n) (simp_all add: abi_slot_def take_append_take add.commute)
  moreover have nine: "[0..<9] = [0, 1, 2, 3, 4, 5, 6, 7, 8 :: nat]" by code_simp
  ultimately have "concat (map ?w [0, 1, 2, 3, 4, 5, 6, 7, 8]) = take (9 * 32) bs" by metis
  then have "?w 0 @ ?w 1 @ ?w 2 @ ?w 3 @ ?w 4 @ ?w 5 @ ?w 6 @ ?w 7 @ ?w 8 = take 288 bs"
    by simp
  with size have "public_values_abi p = take 288 bs" by (simp add: pack_public_vals p)
  with l show ?thesis by (simp add: p wf_simps)
qed

section \<open>Properties\<close>

text \<open>C7. The precheck decides exactly what the guest decides on the same batch: on an input the wire
  format can carry it accepts if and only if the guest relation does, reporting the guest's own
  output and the wire bytes, and refuses with the relation's error otherwise; the comparison with
  the committed values and the wire round trip never fail. Checking the wire bytes is the same.\<close>

theorem precheck_exact:
  assumes "encode_guest_input S input = Some wire_input" "wf_input S input"
  shows "precheck_wire fuel sha256 keccak S wire_input = precheck fuel sha256 keccak S input
    \<and> precheck fuel sha256 keccak S input =
      map_option (\<lambda>r. and_then (map_err RelationRejected r)
          (\<lambda>pv. Ok (report_for (public_output keccak pv) wire_input)))
        (execute fuel sha256 keccak S input)
    \<and> execute_wire fuel sha256 keccak S wire_input = execute_public_output fuel sha256 keccak S input"
  using precheck_eq[OF assms] by (simp add: precheck_wire_def execute_wire_def decode_encoded[OF assms])

theorem precheck_exact_witness:
  "\<exists>bs. encode_guest_input ex_sdk ex_input = Some bs
     \<and> precheck_wire 0 len32 len32 ex_sdk bs = Some (Ok (report_for (public_output len32 ex_pv) bs))"
proof -
  obtain bs where bs: "encode_guest_input ex_sdk ex_input = Some bs" using ex_encodes by blast
  from precheck_exact[OF bs ex_wf, of 0 len32 len32] bs show ?thesis by (simp add: ex_execute)
qed

text \<open>C6. The assembly of certified burns is complete: the guest input it builds carries the given
  leaves, and the guest accepts it, for these public values, exactly when each burn's terminal
  transfer and amount back its leaf; everything else the guest checks (the commitments, the
  accumulator transition, the trust base, the token verification and the lock refs) holds by
  construction.\<close>

theorem certified_batch_complete:
  assumes "build_certified_guest_input_batch fuel keccak S c burns = Some (Ok input)"
    and "\<forall>b \<in> set burns. length (leaf_nullifier (cb_leaf b)) = 32"
  shows "gi_return_leaves input = map cb_leaf burns
    \<and> (if \<forall>b \<in> set burns.
          validate_terminal_burn sha256 S c (config_hash keccak c) (cb_leaf b) (cb_token b) = Ok ()
          \<and> validate_current_value S c (cb_leaf b) (cb_token b) = Ok ()
       then execute fuel sha256 keccak S input = Some (Ok (gi_public_values input))
       else \<exists>e. execute fuel sha256 keccak S input = Some (Err e))"
proof -
  have k: "\<forall>b \<in> set burns. key_ok (leaf_nullifier (cb_leaf b))" using assms(2) by (simp add: key_ok_def)
  show ?thesis
    using build_batch_Ok[OF assms(1) k] built_batch_executes[OF assms(1) k, of sha256]
    unfolding burn_checks_def by blast
qed

text \<open>C8. Envelope intake: when the data of the terminal transfer are the reason bytes of the envelope and an
  input is built from it, the guest accepts that input exactly when three things hold: the terminal
  transfer burns to the predicate of the reason bytes, the reason is version 1 of this deployment with a
  fee no larger than the amount, and the value check of the guest passes, that is the token holds the
  amount of the derived leaf. Otherwise the guest refuses it.\<close>

theorem envelope_accepted:
  assumes "build_certified_guest_input_from_envelope fuel sha256 keccak S c tb tag token reason_bytes
      = Some (Ok input)"
    and "\<forall>x. length (sha256 x) = 32"
    and "decode_bridge_back_reason (sdk_decoder S) (cfg_reason_tag c) reason_bytes = Ok reason"
    and "tx_data (tr_transaction (last (tok_transactions token))) = Some reason_bytes"
  shows "if tr_recipient (last (tok_transactions token)) = sdk_burn_predicate S (sha256 reason_bytes)
      \<and> reason_for c reason \<and> (\<exists>leaf. gi_return_leaves input = [leaf] \<and> validate_current_value S c leaf token = Ok ())
    then execute fuel sha256 keccak S input = Some (Ok (gi_public_values input))
    else \<exists>e. execute fuel sha256 keccak S input = Some (Err e)"
  by (rule envelope_executes[OF assms])

text \<open>C11. ABI public values: the decoder inverts the encoder whatever follows the nine words, and what
  it accepts is exactly the encoding of the values it returns, which have their sizes.\<close>

theorem public_values_abi_roundtrip:
  "(wf_public_values p \<longrightarrow> public_values_from_abi (public_values_abi p @ extra) = Some p)
   \<and> (public_values_from_abi bs = Some q \<longrightarrow> wf_public_values q \<and> public_values_abi q = take 288 bs)"
  using from_abi_encoded from_abi_Some by blast

theorem public_values_abi_roundtrip_witness:
  "public_values_from_abi (public_values_abi ex_pv @ [1]) = Some ex_pv"
  using public_values_abi_roundtrip[of ex_pv "[1]"] ex_pv_wf by blast

section \<open>A certified burn taken through intake\<close>

lemma ex_certified_burn:
  "verify_certified_burn 0 len32 ex_sdk ex_token ex_tb wit_config ex_tag = Some (Ok [ex_ref])"
  by (simp add: verify_certified_burn_def obligations_certified_def certified_then_def ex_certified
      ex_obligations ex_ref_def)

definition ex_cb :: certified_burn_input where
  "ex_cb = \<lparr>cb_token = ex_token, cb_trust_base = ex_tb, cb_lock_justification_tag = ex_tag, cb_leaf = ex_leaf\<rparr>"

lemma ex_built: "\<exists>input. build_certified_guest_input_batch 0 len32 ex_sdk wit_config [ex_cb] = Some (Ok input)"
proof -
  have k: "\<forall>x \<in> set ([] @ [leaf_nullifier ex_leaf]). key_ok x" using ex_leaf_wf by (simp add: wf_leaf_def key_ok_def)
  obtain ws where "ordered_insert_witnesses sketch [] [leaf_nullifier ex_leaf]
      = Some (Ok (ws, commit sketch (set [leaf_nullifier ex_leaf])))"
    using ordered_loop_ok[of "[]" "[leaf_nullifier ex_leaf]" sketch "[]"] k
    by (auto simp: ordered_insert_witnesses_def)
  then show ?thesis
    using lock_ref_root_Ok_iff[of len32 "[ex_ref]" "len32 (refs_buf [ex_ref])"]
    by (simp add: build_certified_guest_input_batch_def ex_cb_def ex_certified_burn ex_sdk_simps(1)
        tree_root_def ascending_def Let_def)
qed

theorem certified_batch_complete_witness:
  "\<exists>input. build_certified_guest_input_batch 0 len32 ex_sdk wit_config [ex_cb] = Some (Ok input)
     \<and> execute 0 len32 len32 ex_sdk input = Some (Ok (gi_public_values input))"
proof -
  obtain input where i: "build_certified_guest_input_batch 0 len32 ex_sdk wit_config [ex_cb] = Some (Ok input)"
    using ex_built by blast
  have l: "length (leaf_nullifier ex_leaf) = 32" using ex_leaf_wf by (simp add: wf_leaf_def)
  from certified_batch_complete[OF i, of len32] show ?thesis
    using i by (simp add: ex_cb_def l ex_terminal ex_value)
qed

lemma ex_envelope_leaf:
  "envelope_leaf len32 len32 ex_sdk wit_config ex_token ex_reason = Ok ex_leaf"
proof -
  have d: "decode_bridge_back_reason flat_decoder (cfg_reason_tag wit_config) ex_reason
      = Ok (decoded_of wit_config wit_reason)"
    unfolding ex_reason_def by (rule decode_reason_cbor[OF flat_decoder_ok wit_config_wf wit_reason_wf])
  have t: "tok_transactions ex_token = [ex_transfer]" by (simp add: ex_token_def)
  have h: "dh_data (tx_calculated_hash (tr_transaction ex_transfer)) = replicate 32 8"
    "dh_data (tx_source_state_hash (tr_transaction ex_transfer)) = replicate 32 8"
    by (simp_all add: ex_transfer_def ex_hash_def)
  show ?thesis
    by (simp add: envelope_leaf_def t h ex_sdk_simps d) (simp add: decoded_of_def ex_leaf_def Let_def)
qed

theorem envelope_accepted_witness:
  "\<exists>input. build_certified_guest_input_from_envelope 0 len32 len32 ex_sdk wit_config ex_tb ex_tag ex_token ex_reason
        = Some (Ok input)
     \<and> execute 0 len32 len32 ex_sdk input = Some (Ok (gi_public_values input))"
proof -
  obtain input where i: "build_certified_guest_input_from_envelope 0 len32 len32 ex_sdk wit_config ex_tb ex_tag ex_token ex_reason
      = Some (Ok input)"
    using ex_built by (auto simp: build_certified_guest_input_from_envelope_def ex_envelope_leaf
        build_certified_guest_input_def ex_cb_def)
  have d: "decode_bridge_back_reason (sdk_decoder ex_sdk) (cfg_reason_tag wit_config) ex_reason
      = Ok (decoded_of wit_config wit_reason)"
    unfolding ex_reason_def ex_sdk_simps
    by (rule decode_reason_cbor[OF flat_decoder_ok wit_config_wf wit_reason_wf])
  have t: "tx_data (tr_transaction (last (tok_transactions ex_token))) = Some ex_reason"
    by (simp add: ex_token_def ex_transfer_def)
  have b: "build_certified_guest_input_batch 0 len32 ex_sdk wit_config [ex_cb] = Some (Ok input)"
    using i by (simp add: build_certified_guest_input_from_envelope_def ex_envelope_leaf
        build_certified_guest_input_def ex_cb_def)
  have "gi_return_leaves input = [ex_leaf]"
    using build_batch_Ok[OF b] ex_leaf_wf by (simp add: ex_cb_def wf_leaf_def key_ok_def)
  moreover have "reason_for wit_config (decoded_of wit_config wit_reason)"
    by (simp add: reason_for_def decoded_of_def wit_reason_def)
  moreover have "tr_recipient (last (tok_transactions ex_token)) = sdk_burn_predicate ex_sdk (len32 ex_reason)"
    by (simp add: ex_token_def ex_transfer_def ex_sdk_simps)
  ultimately show ?thesis using envelope_accepted[OF i _ d t] i ex_value by simp
qed

end
