(* ===== verification/S2.thy ===== *)
theory S2
  imports Guest Text_Lib
begin

text \<open>
  Model of \<open>prover/crates/host/src/s2.rs\<close>: the accumulator is rebuilt from the vault's
  settlement events by following root links from the empty tree, and extended by the next
  batch. An error message is the constructor of \<open>s2_error\<close> for the check that failed, with
  the batch indexes the message names; a panic of the accumulator would be \<open>None\<close>.
\<close>

section \<open>Data\<close>

record settled_batch =
  sb_nullifiers :: "bytes list"
  sb_spent_root_old :: bytes
  sb_spent_root_new :: bytes
  sb_txid :: "string option"

record settled_log =
  sl_batches :: "settled_batch list"
  sl_on_chain_spent_root :: "bytes option"

record rebuilt_accumulator =
  ra_tree :: nullifier_tree
  ra_spent_root :: bytes
  ra_spent_count :: nat
  ra_txids :: "bytes \<rightharpoonup> string"

record next_batch_inputs =
  nb_spent_root_old :: bytes
  nb_witnesses :: "witness list"
  nb_spent_root_new :: bytes

datatype s2_error =
    EmptyBatch nat
  | InsertFailed nat string
  | RootMismatch nat
  | DuplicateReplayed nat string
  | Fork nat nat
  | Unchained nat
  | Diverged
  | NextEmpty
  | NextInsert string
  | NextWitness
  | NextRoot
  | BadSettlementLog

definition same_transition :: "settled_batch \<Rightarrow> settled_batch \<Rightarrow> bool" where
  "same_transition a b \<longleftrightarrow> sb_nullifiers a = sb_nullifiers b
     \<and> sb_spent_root_old a = sb_spent_root_old b \<and> sb_spent_root_new a = sb_spent_root_new b"

section \<open>The settlement log\<close>

text \<open>\<open>collect\<close> of an iterator of results: the first error ends it.\<close>

fun collect_results :: "('a \<Rightarrow> 'e + 'b) \<Rightarrow> 'a list \<Rightarrow> 'e + 'b list" where
  "collect_results f [] = Ok []"
| "collect_results f (x # xs) =
     and_then (f x) (\<lambda>y. and_then (collect_results f xs) (\<lambda>ys. Ok (y # ys)))"

definition log_b32 :: "'v jsonlib \<Rightarrow> hexlib \<Rightarrow> 'v \<Rightarrow> s2_error + bytes" where
  "log_b32 J H v =
     and_then (ok_or BadSettlementLog (js_as_str J v)) (\<lambda>s.
     and_then (ok_or BadSettlementLog (hex_decode H (strip_0x s))) (\<lambda>bs.
     if length bs = 32 then Ok bs else Err BadSettlementLog))"

definition log_b32_arr :: "'v jsonlib \<Rightarrow> hexlib \<Rightarrow> 'v \<Rightarrow> s2_error + bytes list" where
  "log_b32_arr J H v =
     and_then (ok_or BadSettlementLog (js_as_array J v)) (\<lambda>vs. collect_results (log_b32 J H) vs)"

definition log_txid :: "'v jsonlib \<Rightarrow> 'v \<Rightarrow> s2_error + string option" where
  "log_txid J b =
     (case js_get J b ''txid'' of
        None \<Rightarrow> Ok None
      | Some v \<Rightarrow>
          if js_is_null J v then Ok None
          else (case js_as_str J v of
                  Some t \<Rightarrow> if t = [] then Ok None else Ok (Some t)
                | None \<Rightarrow> Err BadSettlementLog))"

definition log_batch :: "'v jsonlib \<Rightarrow> hexlib \<Rightarrow> 'v \<Rightarrow> s2_error + settled_batch" where
  "log_batch J H b =
     and_then (log_txid J b) (\<lambda>txid.
     and_then (log_b32_arr J H (js_index J b ''nullifiers'')) (\<lambda>ns.
     and_then (log_b32 J H (js_index J b ''spent_root_old'')) (\<lambda>old.
     and_then (log_b32 J H (js_index J b ''spent_root_new'')) (\<lambda>new.
     Ok \<lparr>sb_nullifiers = ns, sb_spent_root_old = old, sb_spent_root_new = new, sb_txid = txid\<rparr>))))"

definition parse_settled_log :: "'v jsonlib \<Rightarrow> hexlib \<Rightarrow> 'v \<Rightarrow> s2_error + settled_log" where
  "parse_settled_log J H json =
     and_then (ok_or BadSettlementLog (js_as_array J (js_index J json ''batches''))) (\<lambda>bs.
     and_then (collect_results (log_batch J H) bs) (\<lambda>batches.
     and_then (case js_get J json ''spent_root'' of
                 Some v \<Rightarrow> if js_is_null J v then Ok None
                           else and_then (log_b32 J H v) (\<lambda>r. Ok (Some r))
               | None \<Rightarrow> Ok None) (\<lambda>on_chain.
     Ok \<lparr>sl_batches = batches, sl_on_chain_spent_root = on_chain\<rparr>)))"

section \<open>Rebuilding\<close>

fun next_link_loop ::
  "settled_batch list \<Rightarrow> bytes \<Rightarrow> (nat \<times> bool \<times> settled_batch) list \<Rightarrow> nat option
   \<Rightarrow> s2_error + nat option" where
  "next_link_loop batches root [] found = Ok found"
| "next_link_loop batches root ((i, used, batch) # rest) found =
     (if used \<or> sb_spent_root_old batch \<noteq> root then next_link_loop batches root rest found
      else case found of
             None \<Rightarrow> next_link_loop batches root rest (Some i)
           | Some f \<Rightarrow>
               if same_transition (batches ! f) batch then next_link_loop batches root rest found
               else Err (Fork f i))"

definition next_link ::
  "settled_batch list \<Rightarrow> bool list \<Rightarrow> bytes \<Rightarrow> s2_error + nat option" where
  "next_link batches used root =
     next_link_loop batches root (zip [0..<length batches] (zip used batches)) None"

fun tree_insert_all :: "nullifier_tree \<Rightarrow> bytes list \<Rightarrow> string + nullifier_tree" where
  "tree_insert_all tree [] = Ok tree"
| "tree_insert_all tree (n # ns) = and_then (tree_insert tree n) (\<lambda>tree'. tree_insert_all tree' ns)"

text \<open>The loop that marks the copies of a transition and takes the first txid one of them names.\<close>

definition mark_used :: "settled_batch \<Rightarrow> settled_batch list \<Rightarrow> bool list \<Rightarrow> bool list" where
  "mark_used batch batches used =
     map (\<lambda>(u, other). if same_transition other batch then True else u) (zip used batches)"

fun first_txid :: "settled_batch \<Rightarrow> settled_batch list \<Rightarrow> string option" where
  "first_txid batch [] = None"
| "first_txid batch (other # rest) =
     (if same_transition other batch
      then (case sb_txid other of Some t \<Rightarrow> Some t | None \<Rightarrow> first_txid batch rest)
      else first_txid batch rest)"

definition add_txids ::
  "string option \<Rightarrow> bytes list \<Rightarrow> (bytes \<rightharpoonup> string) \<Rightarrow> (bytes \<rightharpoonup> string)" where
  "add_txids txid ns m =
     (case txid of None \<Rightarrow> m | Some t \<Rightarrow> foldl (\<lambda>m n. m(n \<mapsto> t)) m ns)"

lemma next_link_loop_Some:
  assumes "next_link_loop batches root xs found = Ok (Some i)"
    and "\<forall>f. found = Some f \<longrightarrow> P f"
    and "\<forall>(j, u, b) \<in> set xs. \<not> u \<longrightarrow> sb_spent_root_old b = root \<longrightarrow> P j"
  shows "P i"
  using assms
  by (induction batches root xs found rule: next_link_loop.induct)
    (auto split: if_splits option.splits)

lemma next_link_unused:
  assumes "next_link batches used root = Ok (Some i)"
  shows "i < length batches \<and> i < length used \<and> \<not> used ! i \<and> sb_spent_root_old (batches ! i) = root"
  using assms unfolding next_link_def
  by (rule next_link_loop_Some) (auto simp: set_zip)

lemma same_transition_refl [simp]: "same_transition b b"
  by (simp add: same_transition_def)

lemma mark_used_fewer:
  assumes "i < length batches" "i < length used" "\<not> used ! i"
  shows "length (filter Not (mark_used (batches ! i) batches used)) < length (filter Not used)"
  using assms
proof (induction used arbitrary: i batches)
  case (Cons u used)
  obtain b bs where bs: "batches = b # bs" using Cons.prems(1) by (cases batches) auto
  have le: "length (filter Not (mark_used x bs used)) \<le> length (filter Not used)" for x
  proof (induction used arbitrary: bs)
    case (Cons v used)
    then show ?case by (cases bs) (auto simp: mark_used_def le_SucI)
  qed (simp add: mark_used_def)
  show ?case
  proof (cases i)
    case 0
    with Cons.prems bs le[of b] show ?thesis by (simp add: mark_used_def less_Suc_eq_le)
  next
    case (Suc j)
    with Cons.IH[of j bs] Cons.prems bs show ?thesis by (auto simp: mark_used_def less_SucI)
  qed
qed simp

function rebuild_loop ::
  "(bytes \<Rightarrow> bytes) \<Rightarrow> settled_batch list \<Rightarrow> bool list \<Rightarrow> rebuilt_accumulator
   \<Rightarrow> (s2_error + rebuilt_accumulator \<times> bool list) option" where
  "rebuild_loop sha batches used acc =
     (case next_link batches used (ra_spent_root acc) of
        Inl e \<Rightarrow> Some (Err e)
      | Inr None \<Rightarrow> Some (Ok (acc, used))
      | Inr (Some i) \<Rightarrow>
          (let batch = batches ! i; ns = sb_nullifiers batch in
           if ns = [] then Some (Err (EmptyBatch i))
           else case ordered_insert_witnesses sha (ra_tree acc) ns of
             None \<Rightarrow> None
           | Some (Inl e) \<Rightarrow> Some (Err (InsertFailed i e))
           | Some (Inr (_, new_root)) \<Rightarrow>
               if new_root \<noteq> sb_spent_root_new batch then Some (Err (RootMismatch i))
               else case tree_insert_all (ra_tree acc) ns of
                 Inl e \<Rightarrow> Some (Err (DuplicateReplayed i e))
               | Inr tree' \<Rightarrow>
                   rebuild_loop sha batches (mark_used batch batches used)
                     \<lparr>ra_tree = tree', ra_spent_root = new_root,
                      ra_spent_count = ra_spent_count acc + length ns,
                      ra_txids = add_txids (first_txid batch batches) ns (ra_txids acc)\<rparr>))"
  by pat_completeness auto
termination
  by (relation "measure (\<lambda>(_, _, used, _). length (filter Not used))")
    (auto intro!: mark_used_fewer dest: next_link_unused)

declare rebuild_loop.simps [simp del]

definition rebuild ::
  "(bytes \<Rightarrow> bytes) \<Rightarrow> settled_batch list \<Rightarrow> (s2_error + rebuilt_accumulator) option" where
  "rebuild sha batches =
     map_option (\<lambda>r. and_then r (\<lambda>(acc, used).
        case position Not used of Some i \<Rightarrow> Err (Unchained i) | None \<Rightarrow> Ok acc))
       (rebuild_loop sha batches (replicate (length batches) False)
          \<lparr>ra_tree = [], ra_spent_root = EMPTY_TREE_ROOT, ra_spent_count = 0, ra_txids = Map.empty\<rparr>)"

definition rebuild_verified ::
  "(bytes \<Rightarrow> bytes) \<Rightarrow> settled_log \<Rightarrow> (s2_error + rebuilt_accumulator) option" where
  "rebuild_verified sha log =
     map_option (\<lambda>r. and_then r (\<lambda>acc.
        case sl_on_chain_spent_root log of
          None \<Rightarrow> Ok acc
        | Some on_chain \<Rightarrow> if ra_spent_root acc \<noteq> on_chain then Err Diverged else Ok acc))
       (rebuild sha (sl_batches log))"

section \<open>The next batch\<close>

fun replay_transition ::
  "(bytes \<Rightarrow> bytes) \<Rightarrow> bytes \<Rightarrow> (witness \<times> bytes) list \<Rightarrow> s2_error + bytes" where
  "replay_transition sha running [] = Ok running"
| "replay_transition sha running ((w, n) # rest) =
     and_then (ok_or NextWitness (acc_insert sha running n w)) (\<lambda>r. replay_transition sha r rest)"

definition next_batch ::
  "(bytes \<Rightarrow> bytes) \<Rightarrow> rebuilt_accumulator \<Rightarrow> bytes list \<Rightarrow> (s2_error + next_batch_inputs) option" where
  "next_batch sha acc new_nullifiers =
     (if new_nullifiers = [] then Some (Err NextEmpty)
      else case tree_root sha (ra_tree acc) of
        None \<Rightarrow> None
      | Some old \<Rightarrow>
          (case ordered_insert_witnesses sha (ra_tree acc) new_nullifiers of
             None \<Rightarrow> None
           | Some (Inl e) \<Rightarrow> Some (Err (NextInsert e))
           | Some (Inr (witnesses, new)) \<Rightarrow>
               Some (and_then (replay_transition sha old (zip witnesses new_nullifiers)) (\<lambda>running.
                 if running \<noteq> new then Err NextRoot
                 else Ok \<lparr>nb_spent_root_old = old, nb_witnesses = witnesses,
                          nb_spent_root_new = new\<rparr>))))"

end
