(* ===== verification/S2_Proofs.thy ===== *)
theory S2_Proofs
  imports S2
begin

text \<open>
  Correctness of the rebuilt accumulator: it is the tree of a chain of settled batches from
  the empty root, it does not depend on the order or multiplicity of the events, and the
  next batch built on it passes the guest's accumulator check.
\<close>

section \<open>Ordered insertion\<close>

lemma ordered_insert_if:
  assumes "distinct tree" "\<forall>x \<in> set (tree @ ns). key_ok x"
  shows "if distinct (tree @ ns)
    then \<exists>ws. ordered_insert_witnesses sha tree ns = Some (Ok (ws, commit sha (set (tree @ ns))))
      \<and> length ws = length ns
      \<and> insert_all (acc_insert sha) (commit sha (set tree)) (zip ns ws) = Some (commit sha (set (tree @ ns)))
    else ordered_insert_witnesses sha tree ns = Some (Err DUPLICATE_KEY)"
proof (cases "distinct (tree @ ns)")
  case True
  obtain ws where ws: "ordered_loop sha tree [] ns = Some (Ok ([] @ ws, commit sha (set tree \<union> set ns)))"
    "length ws = length ns"
    "\<forall>i < length ns. non_membership_witness sha (tree @ take i ns) (ns ! i) = Some (Some (ws ! i))"
    using ordered_loop_ok[OF True assms(2), of sha "[]"] by blast
  from acc.insert_run[OF True assms(2) ws(2,3)] ws True show ?thesis
    by (auto simp: ordered_insert_witnesses_def)
next
  case False
  with ordered_loop_dup[OF assms] show ?thesis by (simp add: ordered_insert_witnesses_def)
qed

lemma tree_insert_all_distinct:
  "distinct (tree @ ns) \<Longrightarrow> tree_insert_all tree ns = Ok (tree @ ns)"
  by (induction ns arbitrary: tree) (auto simp: tree_insert_def)

section \<open>Links\<close>

definition cand :: "settled_batch list \<Rightarrow> bool list \<Rightarrow> bytes \<Rightarrow> nat \<Rightarrow> bool" where
  "cand batches used root i \<longleftrightarrow>
     i < length batches \<and> \<not> used ! i \<and> sb_spent_root_old (batches ! i) = root"

lemma same_transition_sym: "same_transition a b = same_transition b a"
  by (auto simp: same_transition_def)

lemma same_transition_trans: "same_transition a b \<Longrightarrow> same_transition b c \<Longrightarrow> same_transition a c"
  by (auto simp: same_transition_def)

definition picks :: "bytes \<Rightarrow> (nat \<times> bool \<times> settled_batch) list \<Rightarrow> (nat \<times> settled_batch) list" where
  "picks root xs = map (\<lambda>(i, u, b). (i, b)) (filter (\<lambda>(i, u, b). \<not> u \<and> sb_spent_root_old b = root) xs)"

lemma next_link_loop_found:
  "next_link_loop batches root xs (Some f) = Ok r \<longleftrightarrow>
     r = Some f \<and> (\<forall>(i, b) \<in> set (picks root xs). same_transition (batches ! f) b)"
proof (induction xs)
  case (Cons x xs)
  obtain i u b where "x = (i, u, b)" by (cases x)
  with Cons show ?case by (auto simp: picks_def)
qed (auto simp: picks_def)

lemma next_link_loop_none:
  "next_link_loop batches root xs None = Ok r \<longleftrightarrow>
     (case picks root xs of
        [] \<Rightarrow> r = None
      | (f, _) # rest \<Rightarrow> r = Some f \<and> (\<forall>(i, b) \<in> set rest. same_transition (batches ! f) b))"
proof (induction xs)
  case (Cons x xs)
  obtain i u b where "x = (i, u, b)" by (cases x)
  with Cons next_link_loop_found[of batches root xs i r] show ?case by (auto simp: picks_def)
qed (auto simp: picks_def)

lemma picks_cand:
  assumes "length used = length batches"
  shows "(i, b) \<in> set (picks root (zip [0..<length batches] (zip used batches)))
     \<longleftrightarrow> cand batches used root i \<and> b = batches ! i"
proof -
  have "(i, b) \<in> set (picks root xs) \<longleftrightarrow> (\<exists>u. (i, u, b) \<in> set xs \<and> \<not> u \<and> sb_spent_root_old b = root)" for xs
    by (force simp: picks_def)
  moreover have "(i, u, b) \<in> set (zip [0..<length batches] (zip used batches))
      \<longleftrightarrow> i < length batches \<and> u = used ! i \<and> b = batches ! i" for u
    using assms by (auto simp: set_zip intro!: exI[of _ i])
  ultimately show ?thesis by (auto simp: cand_def)
qed

lemma next_link_Ok_Some:
  assumes "next_link batches used root = Ok (Some i)" "length used = length batches"
  shows "cand batches used root i"
    and "cand batches used root j \<Longrightarrow> same_transition (batches ! i) (batches ! j)"
proof -
  let ?p = "picks root (zip [0..<length batches] (zip used batches))"
  obtain b rest where p: "?p = (i, b) # rest" "\<forall>(j, b) \<in> set rest. same_transition (batches ! i) b"
    using assms(1) unfolding next_link_def next_link_loop_none by (auto split: list.splits)
  have "(i, b) \<in> set ?p" by (simp add: p(1))
  then show c: "cand batches used root i" using picks_cand[OF assms(2)] by blast
  assume "cand batches used root j"
  then have "(j, batches ! j) \<in> set ?p" using picks_cand[OF assms(2)] by blast
  then show "same_transition (batches ! i) (batches ! j)"
    using p(2) unfolding p(1) by auto
qed

lemma next_link_Ok_None:
  assumes "next_link batches used root = Ok None" "length used = length batches"
  shows "\<not> cand batches used root j"
proof
  let ?p = "picks root (zip [0..<length batches] (zip used batches))"
  assume "cand batches used root j"
  then have "(j, batches ! j) \<in> set ?p" using picks_cand[OF assms(2)] by blast
  moreover have "?p = []"
    using assms(1) unfolding next_link_def next_link_loop_none by (auto split: list.splits)
  ultimately show False by simp
qed

lemma next_link_total:
  assumes "length used = length batches"
    and "\<forall>i j. cand batches used root i \<longrightarrow> cand batches used root j \<longrightarrow> same_transition (batches ! i) (batches ! j)"
  shows "\<exists>r. next_link batches used root = Ok r"
proof (cases "picks root (zip [0..<length batches] (zip used batches))")
  case Nil
  then show ?thesis by (intro exI[of _ None]) (simp add: next_link_def next_link_loop_none)
next
  case (Cons fb rest)
  obtain f b where fb: "fb = (f, b)" by fastforce
  have "cand batches used root f" using picks_cand[OF assms(1), of f b root] Cons fb by simp
  moreover have "cand batches used root i \<and> c = batches ! i" if "(i, c) \<in> set rest" for i c
    using picks_cand[OF assms(1), of i c root] Cons that by simp
  ultimately have "\<forall>(i, b) \<in> set rest. same_transition (batches ! f) b" using assms(2) by blast
  with Cons fb show ?thesis by (intro exI[of _ "Some f"]) (simp add: next_link_def next_link_loop_none)
qed

section \<open>The rebuilt accumulator\<close>

definition good :: "(bytes \<Rightarrow> bytes) \<Rightarrow> rebuilt_accumulator \<Rightarrow> bool" where
  "good sha acc \<longleftrightarrow> distinct (ra_tree acc) \<and> (\<forall>k \<in> set (ra_tree acc). key_ok k)
     \<and> ra_spent_root acc = commit sha (set (ra_tree acc)) \<and> ra_spent_count acc = length (ra_tree acc)"

definition keys_ok :: "settled_batch list \<Rightarrow> bool" where
  "keys_ok batches \<longleftrightarrow> (\<forall>b \<in> set batches. \<forall>n \<in> set (sb_nullifiers b). key_ok n)"

lemma keys_ok_nth:
  "keys_ok batches \<Longrightarrow> i < length batches \<Longrightarrow> \<forall>n \<in> set (sb_nullifiers (batches ! i)). key_ok n"
  unfolding keys_ok_def using nth_mem by blast

text \<open>One iteration of the loop, when it succeeds.\<close>

definition advance :: "(bytes \<Rightarrow> bytes) \<Rightarrow> settled_batch list \<Rightarrow> settled_batch \<Rightarrow> rebuilt_accumulator
   \<Rightarrow> rebuilt_accumulator" where
  "advance sha batches b acc =
     \<lparr>ra_tree = ra_tree acc @ sb_nullifiers b, ra_spent_root = sb_spent_root_new b,
      ra_spent_count = ra_spent_count acc + length (sb_nullifiers b),
      ra_txids = add_txids (first_txid b batches) (sb_nullifiers b) (ra_txids acc)\<rparr>"

definition applies :: "(bytes \<Rightarrow> bytes) \<Rightarrow> nullifier_tree \<Rightarrow> settled_batch \<Rightarrow> bool" where
  "applies sha tree b \<longleftrightarrow> sb_nullifiers b \<noteq> [] \<and> distinct (tree @ sb_nullifiers b)
     \<and> sb_spent_root_new b = commit sha (set (tree @ sb_nullifiers b))"

lemma rebuild_loop_step:
  assumes "good sha acc" "keys_ok batches" "length used = length batches"
    and "next_link batches used (ra_spent_root acc) = Ok (Some i)"
  shows "applies sha (ra_tree acc) (batches ! i) \<Longrightarrow> rebuild_loop sha batches used acc =
      rebuild_loop sha batches (mark_used (batches ! i) batches used) (advance sha batches (batches ! i) acc)"
    and "\<not> applies sha (ra_tree acc) (batches ! i) \<Longrightarrow> \<exists>e. rebuild_loop sha batches used acc = Some (Err e)"
proof -
  let ?b = "batches ! i" and ?t = "ra_tree acc"
  have "i < length batches" using next_link_unused[OF assms(4)] by simp
  then have k: "\<forall>x \<in> set (?t @ sb_nullifiers ?b). key_ok x"
    using assms(1,2) by (auto simp: good_def keys_ok_def)
  have d: "distinct ?t" using assms(1) by (simp add: good_def)
  note oi = ordered_insert_if[OF d k, of sha]
  {
    assume a: "applies sha ?t ?b"
    then have dd: "distinct (?t @ sb_nullifiers ?b)" by (simp only: applies_def)
    then obtain ws where "ordered_insert_witnesses sha ?t (sb_nullifiers ?b)
        = Some (Ok (ws, commit sha (set (?t @ sb_nullifiers ?b))))" using oi by auto
    then show "rebuild_loop sha batches used acc =
        rebuild_loop sha batches (mark_used ?b batches used) (advance sha batches ?b acc)"
      using tree_insert_all_distinct[OF dd] assms(4) a
      by (subst rebuild_loop.simps) (simp add: Let_def applies_def advance_def)
  next
    assume a: "\<not> applies sha ?t ?b"
    show "\<exists>e. rebuild_loop sha batches used acc = Some (Err e)"
    proof (cases "distinct (?t @ sb_nullifiers ?b)")
      case True
      then obtain ws where "ordered_insert_witnesses sha ?t (sb_nullifiers ?b)
          = Some (Ok (ws, commit sha (set (?t @ sb_nullifiers ?b))))" using oi by auto
      with a True assms(4) show ?thesis
        by (subst rebuild_loop.simps) (auto simp: Let_def applies_def)
    next
      case False
      then have "ordered_insert_witnesses sha ?t (sb_nullifiers ?b) = Some (Err DUPLICATE_KEY)"
        using oi by (simp only: if_False)
      with assms(4) show ?thesis by (subst rebuild_loop.simps) (simp add: Let_def)
    qed
  }
qed

lemma rebuild_loop_stop:
  "next_link batches used (ra_spent_root acc) = Ok None \<Longrightarrow> rebuild_loop sha batches used acc = Some (Ok (acc, used))"
  "next_link batches used (ra_spent_root acc) = Err e \<Longrightarrow> rebuild_loop sha batches used acc = Some (Err e)"
  by (subst rebuild_loop.simps, simp)+

lemma advance_good:
  assumes "good sha acc" "applies sha (ra_tree acc) b" "\<forall>n \<in> set (sb_nullifiers b). key_ok n"
  shows "good sha (advance sha batches b acc)"
  using assms by (auto simp: good_def advance_def applies_def)

lemma length_mark_used [simp]: "length used = length batches \<Longrightarrow> length (mark_used b batches used) = length used"
  by (simp add: mark_used_def)

lemma nth_mark_used:
  "length used = length batches \<Longrightarrow> i < length batches \<Longrightarrow>
   mark_used b batches used ! i \<longleftrightarrow> same_transition (batches ! i) b \<or> used ! i"
  by (simp add: mark_used_def)

text \<open>A run of the loop, as the list of batches it applies.\<close>

inductive run :: "(bytes \<Rightarrow> bytes) \<Rightarrow> settled_batch list \<Rightarrow> bool list \<Rightarrow> rebuilt_accumulator
   \<Rightarrow> settled_batch list \<Rightarrow> rebuilt_accumulator \<Rightarrow> bool list \<Rightarrow> bool"
  for sha batches where
  stop: "next_link batches used (ra_spent_root acc) = Ok None \<Longrightarrow> run sha batches used acc [] acc used"
| step: "next_link batches used (ra_spent_root acc) = Ok (Some i) \<Longrightarrow>
    applies sha (ra_tree acc) (batches ! i) \<Longrightarrow>
    run sha batches (mark_used (batches ! i) batches used) (advance sha batches (batches ! i) acc) bs acc' used' \<Longrightarrow>
    run sha batches used acc (batches ! i # bs) acc' used'"

lemma rebuild_loop_run:
  assumes "keys_ok batches"
  shows "good sha acc \<Longrightarrow> length used = length batches \<Longrightarrow>
    (\<exists>bs acc' used'. run sha batches used acc bs acc' used' \<and> rebuild_loop sha batches used acc = Some (Ok (acc', used')))
    \<or> (\<exists>e. rebuild_loop sha batches used acc = Some (Err e))"
proof (induction "length (filter Not used)" arbitrary: used acc rule: less_induct)
  case less
  show ?case
  proof (cases "next_link batches used (ra_spent_root acc)")
    case (Inl e)
    then show ?thesis using rebuild_loop_stop(2) by blast
  next
    case (Inr r)
    show ?thesis
    proof (cases r)
      case None
      with Inr show ?thesis using rebuild_loop_stop(1) run.stop by blast
    next
      case (Some i)
      with Inr have l: "next_link batches used (ra_spent_root acc) = Ok (Some i)" by simp
      note u = next_link_unused[OF l]
      show ?thesis
      proof (cases "applies sha (ra_tree acc) (batches ! i)")
        case False
        with rebuild_loop_step(2)[OF less.prems(1) assms less.prems(2) l] show ?thesis by blast
      next
        case True
        have "good sha (advance sha batches (batches ! i) acc)"
          using advance_good[OF less.prems(1) True keys_ok_nth[OF assms]] u by blast
        moreover have "length (filter Not (mark_used (batches ! i) batches used)) < length (filter Not used)"
          using mark_used_fewer u by blast
        ultimately show ?thesis
          using less.hyps[of "mark_used (batches ! i) batches used" "advance sha batches (batches ! i) acc"]
            rebuild_loop_step(1)[OF less.prems(1) assms less.prems(2) l True] run.step[OF l True] less.prems(2)
          by (metis length_mark_used)
      qed
    qed
  qed
qed

lemma run_determines:
  "run sha batches used acc bs acc' used' \<Longrightarrow> keys_ok batches \<Longrightarrow> good sha acc \<Longrightarrow> length used = length batches \<Longrightarrow>
   rebuild_loop sha batches used acc = Some (Ok (acc', used'))"
proof (induction rule: run.induct)
  case (stop used acc)
  then show ?case by (simp add: rebuild_loop_stop)
next
  case (step used acc i bs acc' used')
  have "\<forall>n \<in> set (sb_nullifiers (batches ! i)). key_ok n"
    using next_link_unused[OF step(1)] step.prems(1) by (auto simp: keys_ok_def)
  with step advance_good[OF step.prems(2) step(2)] rebuild_loop_step(1)[OF step.prems(2,1,3) step(1,2)]
  show ?case by simp
qed

fun chain :: "bytes \<Rightarrow> settled_batch list \<Rightarrow> bytes \<Rightarrow> bool" where
  "chain root [] final \<longleftrightarrow> root = final"
| "chain root (b # bs) final \<longleftrightarrow>
     sb_spent_root_old b = root \<and> sb_nullifiers b \<noteq> [] \<and> chain (sb_spent_root_new b) bs final"

lemma run_facts:
  "run sha batches used acc bs acc' used' \<Longrightarrow> keys_ok batches \<Longrightarrow> good sha acc \<Longrightarrow> length used = length batches \<Longrightarrow>
   good sha acc' \<and> length used' = length batches \<and> set bs \<subseteq> set batches
   \<and> chain (ra_spent_root acc) bs (ra_spent_root acc')
   \<and> ra_tree acc' = ra_tree acc @ concat (map sb_nullifiers bs)
   \<and> (\<forall>i < length batches. used' ! i \<longleftrightarrow> used ! i \<or> (\<exists>b \<in> set bs. same_transition (batches ! i) b))"
proof (induction rule: run.induct)
  case (step used acc i bs acc' used')
  note u = next_link_unused[OF step(1)]
  have "good sha (advance sha batches (batches ! i) acc)"
    using advance_good[OF step.prems(2) step(2) keys_ok_nth[OF step.prems(1)]] u by blast
  with step.IH step.prems have IH: "good sha acc' \<and> length used' = length batches \<and> set bs \<subseteq> set batches
    \<and> chain (sb_spent_root_new (batches ! i)) bs (ra_spent_root acc')
    \<and> ra_tree acc' = (ra_tree acc @ sb_nullifiers (batches ! i)) @ concat (map sb_nullifiers bs)
    \<and> (\<forall>j < length batches. used' ! j \<longleftrightarrow> mark_used (batches ! i) batches used ! j
        \<or> (\<exists>b \<in> set bs. same_transition (batches ! j) b))"
    by (simp add: advance_def)
  then show ?case
    using u step(2) step.prems(3) by (auto simp: applies_def nth_mark_used)
qed auto


section \<open>The rebuild as a whole\<close>

definition rebuild_start :: rebuilt_accumulator where
  "rebuild_start =
     \<lparr>ra_tree = [], ra_spent_root = EMPTY_TREE_ROOT, ra_spent_count = 0, ra_txids = Map.empty\<rparr>"

lemma good_start: "good sha rebuild_start"
  by (simp add: good_def rebuild_start_def commit_def)

lemma rebuild_Ok_run:
  assumes "keys_ok batches"
  shows "rebuild sha batches = Some (Ok acc) \<longleftrightarrow>
    (\<exists>bs used. run sha batches (replicate (length batches) False) rebuild_start bs acc used \<and> (\<forall>u \<in> set used. u))"
proof -
  let ?u = "replicate (length batches) False"
  have loop: "rebuild_loop sha batches ?u rebuild_start = Some (Ok (acc', used'))
      \<longleftrightarrow> (\<exists>bs. run sha batches ?u rebuild_start bs acc' used')" for acc' used'
    using rebuild_loop_run[OF assms good_start, of ?u sha] run_determines[OF _ assms good_start]
    by fastforce
  have "rebuild sha batches = Some (Ok acc) \<longleftrightarrow>
      (\<exists>used. rebuild_loop sha batches ?u rebuild_start = Some (Ok (acc, used)) \<and> position Not used = None)"
    unfolding rebuild_def rebuild_start_def[symmetric]
    by (auto simp: and_then_Ok_iff split: option.splits)
  then show ?thesis unfolding loop by (auto simp: position_None)
qed

lemma rebuild_total:
  assumes "keys_ok batches"
  shows "rebuild sha batches \<noteq> None"
  using rebuild_loop_run[OF assms good_start, of "replicate (length batches) False" sha]
  by (auto simp: rebuild_def rebuild_start_def)

lemma rebuild_facts:
  assumes "keys_ok batches" "rebuild sha batches = Some (Ok acc)"
  shows "good sha acc \<and> (\<exists>bs. set bs \<subseteq> set batches \<and> chain EMPTY_TREE_ROOT bs (ra_spent_root acc)
    \<and> ra_tree acc = concat (map sb_nullifiers bs)
    \<and> (\<forall>b \<in> set batches. \<exists>c \<in> set bs. same_transition b c))"
proof -
  obtain bs used where r: "run sha batches (replicate (length batches) False) rebuild_start bs acc used"
    and u: "\<forall>u \<in> set used. u"
    using assms rebuild_Ok_run by blast
  note f = run_facts[OF r assms(1) good_start]
  have "\<exists>c \<in> set bs. same_transition b c" if b: "b \<in> set batches" for b
  proof -
    obtain i where "i < length batches" "b = batches ! i" using b by (auto simp: in_set_conv_nth)
    with f u show ?thesis by (auto simp: all_set_conv_all_nth)
  qed
  with f show ?thesis by (intro conjI exI[of _ bs]) (auto simp: rebuild_start_def)
qed

section \<open>Order and multiplicity of the events\<close>

definition same_log :: "settled_batch list \<Rightarrow> settled_batch list \<Rightarrow> bool" where
  "same_log A B \<longleftrightarrow> (\<forall>a \<in> set A. \<exists>b \<in> set B. same_transition a b)
     \<and> (\<forall>b \<in> set B. \<exists>a \<in> set A. same_transition a b)"

definition agree :: "settled_batch list \<Rightarrow> settled_batch list \<Rightarrow> bool list \<Rightarrow> bool list \<Rightarrow> bool" where
  "agree A B u v \<longleftrightarrow> length u = length A \<and> length v = length B
     \<and> (\<forall>i < length A. \<forall>j < length B. same_transition (A ! i) (B ! j) \<longrightarrow> u ! i = v ! j)"

definition same_acc :: "rebuilt_accumulator \<Rightarrow> rebuilt_accumulator \<Rightarrow> bool" where
  "same_acc a b \<longleftrightarrow> ra_tree a = ra_tree b \<and> ra_spent_root a = ra_spent_root b
     \<and> ra_spent_count a = ra_spent_count b"

lemma cand_transfer:
  assumes "agree A B u v" "cand A u root i" "same_transition (A ! i) (B ! j)" "j < length B"
  shows "cand B v root j"
  using assms by (auto simp: cand_def agree_def same_transition_def)

lemma cand_transfer':
  assumes "agree A B u v" "cand B v root j" "same_transition (A ! i) (B ! j)" "i < length A"
  shows "cand A u root i"
  using assms by (auto simp: cand_def agree_def same_transition_def)

lemma same_log_nth:
  assumes "same_log A B"
  shows "i < length A \<Longrightarrow> \<exists>j < length B. same_transition (A ! i) (B ! j)"
    and "j < length B \<Longrightarrow> \<exists>i < length A. same_transition (A ! i) (B ! j)"
  using assms unfolding same_log_def by (metis in_set_conv_nth nth_mem)+

lemma next_link_transfer_None:
  assumes "same_log A B" "agree A B u v" "next_link A u root = Ok None"
  shows "next_link B v root = Ok None"
proof -
  have u: "length u = length A" and v: "length v = length B" using assms(2) by (simp_all add: agree_def)
  have n: "\<not> cand B v root j" for j
  proof
    assume c: "cand B v root j"
    then have "j < length B" by (simp add: cand_def)
    then obtain i where "i < length A" "same_transition (A ! i) (B ! j)" using same_log_nth[OF assms(1)] by blast
    then show False using cand_transfer'[OF assms(2) c] next_link_Ok_None[OF assms(3) u] by blast
  qed
  obtain r where r: "next_link B v root = Ok r" using next_link_total[OF v, of root] n by blast
  then show ?thesis using n next_link_Ok_Some(1)[OF _ v] by (cases r) blast+
qed

lemma next_link_transfer_Some:
  assumes "same_log A B" "agree A B u v" "next_link A u root = Ok (Some i)"
  shows "\<exists>j. next_link B v root = Ok (Some j) \<and> j < length B \<and> same_transition (A ! i) (B ! j)"
proof -
  have u: "length u = length A" and v: "length v = length B" using assms(2) by (simp_all add: agree_def)
  note ci = next_link_Ok_Some[OF assms(3) u]
  have all: "same_transition (A ! i) (B ! j)" if c: "cand B v root j" for j
  proof -
    have "j < length B" using c by (simp add: cand_def)
    then obtain k where k: "k < length A" "same_transition (A ! k) (B ! j)" using same_log_nth[OF assms(1)] by blast
    then have "same_transition (A ! i) (A ! k)" using cand_transfer'[OF assms(2) c k(2,1)] ci(2) by blast
    then show ?thesis using k(2) same_transition_trans by blast
  qed
  have "same_transition (B ! j) (B ! k)" if "cand B v root j" "cand B v root k" for j k
    using all[OF that(1)] all[OF that(2)] same_transition_sym same_transition_trans by blast
  then obtain r where r: "next_link B v root = Ok r" using next_link_total[OF v, of root] by blast
  have "i < length A" using ci(1) by (simp add: cand_def)
  then obtain j0 where "j0 < length B" "same_transition (A ! i) (B ! j0)" using same_log_nth[OF assms(1)] by blast
  then have "cand B v root j0" using cand_transfer[OF assms(2) ci(1)] by blast
  then have "r \<noteq> None" using next_link_Ok_None[OF _ v, of root j0] r by auto
  then obtain j where "r = Some j" by blast
  with r have j: "next_link B v root = Ok (Some j)" by simp
  with next_link_Ok_Some(1)[OF j v] all show ?thesis by (auto simp: cand_def)
qed

lemma agree_mark:
  assumes "agree A B u v" "same_transition a b"
  shows "agree A B (mark_used a A u) (mark_used b B v)"
  using assms by (auto simp: agree_def nth_mark_used same_transition_def)

lemma applies_cong: "same_transition a b \<Longrightarrow> applies sha t a = applies sha t b"
  by (simp add: applies_def same_transition_def)

lemma advance_same:
  "same_acc x y \<Longrightarrow> same_transition a b \<Longrightarrow> same_acc (advance sha A a x) (advance sha B b y)"
  by (simp add: same_acc_def advance_def same_transition_def)

lemma run_transfer:
  assumes "run sha A u x bs x' u'" "same_log A B" "agree A B u v" "same_acc x y"
  shows "\<exists>cs y' v'. run sha B v y cs y' v' \<and> agree A B u' v' \<and> same_acc x' y'"
  using assms
proof (induction arbitrary: v y rule: run.induct)
  case (stop u x)
  then have "next_link B v (ra_spent_root y) = Ok None"
    using next_link_transfer_None[of A B u v] by (simp add: same_acc_def)
  with stop show ?case using run.stop by blast
next
  case (step u x i bs x' u')
  have e: "ra_spent_root x = ra_spent_root y" "ra_tree x = ra_tree y" using step.prems(3) by (simp_all add: same_acc_def)
  obtain j where j: "next_link B v (ra_spent_root y) = Ok (Some j)" "same_transition (A ! i) (B ! j)"
    using next_link_transfer_Some[OF step.prems(1,2) step(1)] e by auto
  have a: "applies sha (ra_tree y) (B ! j)" using step(2) e applies_cong[OF j(2)] by simp
  from step.IH[OF step.prems(1) agree_mark[OF step.prems(2) j(2)] advance_same[OF step.prems(3) j(2)]]
  show ?case using run.step[OF j(1) a] by blast
qed

lemma rebuild_transfer:
  assumes "keys_ok A" "keys_ok B" "same_log A B" "rebuild sha A = Some (Ok x)"
  shows "\<exists>y. rebuild sha B = Some (Ok y) \<and> same_acc x y"
proof -
  let ?u = "replicate (length A) False" and ?v = "replicate (length B) False"
  obtain bs u where r: "run sha A ?u rebuild_start bs x u" "\<forall>a \<in> set u. a"
    using assms(1,4) rebuild_Ok_run by blast
  have "agree A B ?u ?v" "same_acc rebuild_start rebuild_start" by (auto simp: agree_def same_acc_def)
  then obtain cs y v where s: "run sha B ?v rebuild_start cs y v" "agree A B u v" "same_acc x y"
    using run_transfer[OF r(1) assms(3)] by blast
  have "v ! j" if j: "j < length B" for j
  proof -
    obtain i where "i < length A" "same_transition (A ! i) (B ! j)" using same_log_nth(2)[OF assms(3) j] by blast
    then show ?thesis using s(2) r(2) j by (auto simp: agree_def all_set_conv_all_nth)
  qed
  then have "\<forall>a \<in> set v. a" using s(2) by (simp add: agree_def all_set_conv_all_nth)
  then show ?thesis using s rebuild_Ok_run[OF assms(2)] by blast
qed

section \<open>The next batch\<close>

lemma replay_transition_insert_all:
  "length ws = length ns \<Longrightarrow>
   replay_transition sha root (zip ws ns) = ok_or NextWitness (insert_all (acc_insert sha) root (zip ns ws))"
proof (induction ns arbitrary: ws root)
  case (Cons n ns)
  then obtain w ws' where "ws = w # ws'" by (cases ws) auto
  with Cons show ?case by (cases "acc_insert sha root n w") auto
qed simp

lemma next_batch_if:
  assumes "good sha acc" "\<forall>n \<in> set ns. key_ok n"
  shows "if ns \<noteq> [] \<and> distinct (ra_tree acc @ ns)
    then \<exists>ws. next_batch sha acc ns = Some (Ok \<lparr>nb_spent_root_old = ra_spent_root acc, nb_witnesses = ws,
        nb_spent_root_new = commit sha (set (ra_tree acc @ ns))\<rparr>)
      \<and> length ws = length ns
      \<and> insert_all (acc_insert sha) (ra_spent_root acc) (zip ns ws) = Some (commit sha (set (ra_tree acc @ ns)))
    else next_batch sha acc ns = Some (Err (if ns = [] then NextEmpty else NextInsert DUPLICATE_KEY))"
proof -
  have d: "distinct (ra_tree acc)" and k: "\<forall>x \<in> set (ra_tree acc @ ns). key_ok x"
    and r: "ra_spent_root acc = commit sha (set (ra_tree acc))"
    and t: "tree_root sha (ra_tree acc) = Some (ra_spent_root acc)"
    using assms by (auto simp: good_def tree_root_commit)
  note oi = ordered_insert_if[OF d k, of sha]
  show ?thesis
  proof (cases "distinct (ra_tree acc @ ns)")
    case True
    then obtain ws where ws: "ordered_insert_witnesses sha (ra_tree acc) ns
          = Some (Ok (ws, commit sha (set (ra_tree acc @ ns))))"
        "length ws = length ns"
        "insert_all (acc_insert sha) (ra_spent_root acc) (zip ns ws) = Some (commit sha (set (ra_tree acc @ ns)))"
      using oi r by auto
    with True t show ?thesis
      by (auto simp: next_batch_def replay_transition_insert_all)
  next
    case False
    then have "ordered_insert_witnesses sha (ra_tree acc) ns = Some (Err DUPLICATE_KEY)"
      using oi by (simp only: if_False)
    with False t show ?thesis by (auto simp: next_batch_def)
  qed
qed

section \<open>Properties\<close>

text \<open>C3. A rebuild that succeeds is the state of the vault after a chain of settled batches: the
  applied batches continue one another from the empty root, every event of the log is a copy of an
  applied batch, the tree holds their nullifiers without a repetition, in leaf order, and the
  reported root and count are those of the tree. The rebuild always returns.\<close>

theorem rebuild_sound:
  assumes "\<forall>b \<in> set batches. \<forall>n \<in> set (sb_nullifiers b). length n = 32"
  shows "\<exists>r. rebuild sha batches = Some r \<and> (case r of Inl _ \<Rightarrow> True | Inr acc \<Rightarrow>
      tree_root sha (ra_tree acc) = Some (ra_spent_root acc)
      \<and> distinct (ra_tree acc) \<and> ra_spent_count acc = length (ra_tree acc)
      \<and> (\<exists>bs. set bs \<subseteq> set batches \<and> chain EMPTY_TREE_ROOT bs (ra_spent_root acc)
          \<and> ra_tree acc = concat (map sb_nullifiers bs)
          \<and> (\<forall>b \<in> set batches. \<exists>c \<in> set bs. same_transition b c)))"
proof -
  have k: "keys_ok batches" using assms by (simp add: keys_ok_def key_ok_def)
  obtain r where r: "rebuild sha batches = Some r" using rebuild_total[OF k] by blast
  show ?thesis
  proof (cases r)
    case (Inr acc)
    with r rebuild_facts[OF k] obtain bs where b: "good sha acc" "set bs \<subseteq> set batches"
        "chain EMPTY_TREE_ROOT bs (ra_spent_root acc)" "ra_tree acc = concat (map sb_nullifiers bs)"
        "\<forall>b \<in> set batches. \<exists>c \<in> set bs. same_transition b c" by blast
    then have "tree_root sha (ra_tree acc) = Some (ra_spent_root acc)" "distinct (ra_tree acc)"
      "ra_spent_count acc = length (ra_tree acc)"
      by (simp_all add: good_def tree_root_commit)
    with b(2-) r Inr show ?thesis by (intro exI[of _ r]) (simp only: sum.case, blast)
  qed (use r in simp)
qed

text \<open>C4. The rebuild depends only on which transitions the log holds: two logs with the same
  transitions, in any order, with any number of copies of each and whatever transactions they
  name, are both refused or give the same tree, root and count.\<close>

theorem rebuild_order_insensitive:
  assumes "\<forall>b \<in> set (A @ B). \<forall>n \<in> set (sb_nullifiers b). length n = 32"
    and "\<forall>a \<in> set A. \<exists>b \<in> set B. same_transition a b"
    and "\<forall>b \<in> set B. \<exists>a \<in> set A. same_transition a b"
  shows "(\<exists>x y. rebuild sha A = Some (Ok x) \<and> rebuild sha B = Some (Ok y)
        \<and> ra_tree x = ra_tree y \<and> ra_spent_root x = ra_spent_root y \<and> ra_spent_count x = ra_spent_count y)
     \<or> (\<exists>e f. rebuild sha A = Some (Err e) \<and> rebuild sha B = Some (Err f))"
proof -
  have k: "keys_ok A" "keys_ok B" using assms(1) by (auto simp: keys_ok_def key_ok_def)
  have l: "same_log A B" using assms(2,3) by (simp add: same_log_def)
  have l': "same_log B A" using assms(2,3) unfolding same_log_def by (metis same_transition_sym)
  obtain r s where rs: "rebuild sha A = Some r" "rebuild sha B = Some s" using rebuild_total k by blast
  show ?thesis
    using rebuild_transfer[OF k l, of sha] rebuild_transfer[OF k(2,1) l', of sha] rs
    by (cases r; cases s) (auto simp: same_acc_def)
qed

text \<open>C5. The next batch on a rebuilt accumulator is produced exactly when it is not empty and
  none of its nullifiers is repeated or already spent; what is produced starts at the rebuilt root,
  is the transition to the root of the extended tree and passes the guest's accumulator check for
  leaves carrying these nullifiers. The defensive replay of the witnesses never fails.\<close>

theorem next_batch_valid:
  assumes "rebuild sha batches = Some (Ok acc)"
    and "\<forall>b \<in> set batches. \<forall>n \<in> set (sb_nullifiers b). length n = 32"
    and "\<forall>l \<in> set leaves. length (leaf_nullifier l) = 32"
  shows "if leaves \<noteq> [] \<and> distinct (ra_tree acc @ map leaf_nullifier leaves)
    then \<exists>b. next_batch sha acc (map leaf_nullifier leaves) = Some (Ok b)
      \<and> nb_spent_root_old b = ra_spent_root acc
      \<and> tree_root sha (ra_tree acc @ map leaf_nullifier leaves) = Some (nb_spent_root_new b)
      \<and> validate_accumulator_transition sha (nb_spent_root_old b) (nb_spent_root_new b) leaves (nb_witnesses b) = Ok ()
    else next_batch sha acc (map leaf_nullifier leaves)
      = Some (Err (if leaves = [] then NextEmpty else NextInsert DUPLICATE_KEY))"
proof -
  let ?ns = "map leaf_nullifier leaves"
  have k: "keys_ok batches" "\<forall>n \<in> set ?ns. key_ok n" using assms(2,3) by (auto simp: keys_ok_def key_ok_def)
  have g: "good sha acc" using rebuild_facts[OF k(1) assms(1)] by blast
  note n = next_batch_if[OF g k(2)]
  have t: "tree_root sha (ra_tree acc @ ?ns) = Some (commit sha (set (ra_tree acc @ ?ns)))"
    if "distinct (ra_tree acc @ ?ns)"
    using that g k(2) by (intro tree_root_commit) (auto simp: good_def)
  show ?thesis
  proof (cases "leaves \<noteq> [] \<and> distinct (ra_tree acc @ ?ns)")
    case True
    with n obtain ws where ws: "next_batch sha acc ?ns = Some (Ok \<lparr>nb_spent_root_old = ra_spent_root acc,
          nb_witnesses = ws, nb_spent_root_new = commit sha (set (ra_tree acc @ ?ns))\<rparr>)"
        "length ws = length ?ns"
        "insert_all (acc_insert sha) (ra_spent_root acc) (zip ?ns ws) = Some (commit sha (set (ra_tree acc @ ?ns)))"
      by auto
    with True t show ?thesis by (simp add: validate_accumulator_transition_Ok_iff)
  next
    case False
    with n show ?thesis by auto
  qed
qed

section \<open>Witnesses\<close>

definition ex_key :: bytes where "ex_key = replicate 32 5"

definition ex_settled :: settled_batch where
  "ex_settled = \<lparr>sb_nullifiers = [ex_key], sb_spent_root_old = EMPTY_TREE_ROOT,
     sb_spent_root_new = commit sketch {ex_key}, sb_txid = Some ''0x01''\<rparr>"

lemma ex_settled_simps [simp]:
  "sb_nullifiers ex_settled = [ex_key]" "sb_spent_root_old ex_settled = EMPTY_TREE_ROOT"
  "sb_spent_root_new ex_settled = commit sketch {ex_key}" "length ex_key = 32"
  by (simp_all add: ex_settled_def ex_key_def)

lemma ex_rebuild:
  "rebuild sketch [ex_settled] = Some (Ok (advance sketch [ex_settled] ex_settled rebuild_start))"
proof -
  have k: "keys_ok [ex_settled]" by (simp add: keys_ok_def key_ok_def)
  have "run sketch [ex_settled] [True] (advance sketch [ex_settled] ex_settled rebuild_start) []
      (advance sketch [ex_settled] ex_settled rebuild_start) [True]"
    by (rule run.stop) (simp add: next_link_def)
  then have "run sketch [ex_settled] [False] rebuild_start [[ex_settled] ! 0]
      (advance sketch [ex_settled] ex_settled rebuild_start) [True]"
    by (intro run.step[where i = 0])
      (simp_all add: next_link_def rebuild_start_def applies_def mark_used_def)
  moreover have "\<forall>u \<in> set [True]. u" by simp
  ultimately show ?thesis unfolding rebuild_Ok_run[OF k] by (simp del: set_simps) blast
qed

theorem rebuild_sound_witness:
  "tree_root sketch [ex_key] = Some (commit sketch {ex_key})"
  using rebuild_sound[of "[ex_settled]" sketch] ex_rebuild by (simp add: advance_def rebuild_start_def)

theorem rebuild_order_insensitive_witness:
  "\<exists>x. rebuild sketch [ex_settled, ex_settled\<lparr>sb_txid := None\<rparr>] = Some (Ok x) \<and> ra_tree x = [ex_key]"
  using rebuild_order_insensitive[of "[ex_settled]" "[ex_settled, ex_settled\<lparr>sb_txid := None\<rparr>]" sketch]
    ex_rebuild by (auto simp: advance_def rebuild_start_def same_transition_def)

definition ex_next_leaf :: "nat \<Rightarrow> return_leaf" where
  "ex_next_leaf n = \<lparr>leaf_nullifier = replicate 32 (of_nat n), leaf_recipient = replicate 20 1,
     leaf_amount = replicate 32 1, leaf_fee_recipient = replicate 20 2, leaf_fee_amount = replicate 32 0,
     leaf_deadline = 7\<rparr>"

theorem next_batch_valid_witness:
  "\<exists>b. next_batch sketch (advance sketch [ex_settled] ex_settled rebuild_start) [replicate 32 6] = Some (Ok b)
     \<and> validate_accumulator_transition sketch (nb_spent_root_old b) (nb_spent_root_new b)
         [ex_next_leaf 6] (nb_witnesses b) = Ok ()"
  using next_batch_valid[OF ex_rebuild, of "[ex_next_leaf 6]"]
  by (auto simp: ex_next_leaf_def advance_def rebuild_start_def ex_key_def)

end
