(* ===== verification/Service_Records.thy ===== *)
theory Service_Records
  imports S1
begin

text \<open>
  The data of the service: model of the types of \<open>prover/crates/service/src/store.rs\<close> with
  the transitions of a return record, \<open>ProofBundle\<close> of \<open>prover.rs\<close>, and
  \<open>domain/burn.rs\<close>. Times are milliseconds as \<open>u128\<close>, counters keep their width; \<open>H\<close> is
  the hex crate.
\<close>

section \<open>Data\<close>

datatype return_status = Queued | Proving | Proven | Submitted | Settled | Failed

datatype error_kind =
  PrecheckRejected | ProvingFailed | SubmissionFailed | ChainRejected | ServiceUnavailable

record return_failure =
  rf_kind :: error_kind
  rf_message :: string
  rf_recoverable :: bool

record return_event =
  re_at_ms :: u128
  re_status :: return_status
  re_code :: string
  re_message :: string

record leaf_hex =
  lh_nullifier :: string
  lh_recipient :: string
  lh_amount :: string
  lh_fee_recipient :: string
  lh_fee_amount :: string
  lh_deadline :: string

record lock_ref_hex =
  lr_nonce :: string
  lr_digest :: string

record batch_bundle =
  bb_batch_id :: string
  bb_mode :: string
  bb_vkey :: "string option"
  bb_public_values :: string
  bb_proof_bytes :: string
  bb_settle_txid :: "string option"
  bb_leaves :: "leaf_hex list"
  bb_lock_refs :: "lock_ref_hex list"

record public_values_hex =
  ph_domain_tag :: string
  ph_config_hash :: string
  ph_trust_base_hash :: string
  ph_spent_root_old :: string
  ph_spent_root_new :: string
  ph_return_root :: string
  ph_lock_ref_root :: string
  ph_batch_size :: u32
  ph_total_amount :: string

record return_record =
  rr_return_id :: string
  rr_nullifier :: string
  rr_status :: return_status
  rr_terminal :: bool
  rr_success :: "bool option"
  rr_progress :: u8
  rr_message :: string
  rr_next_poll_ms :: u64
  rr_batch_id :: "string option"
  rr_settle_txid :: "string option"
  rr_failure :: "return_failure option"
  rr_events :: "return_event list"
  rr_batch_size :: u32
  rr_total_amount :: string
  rr_public_values_digest :: string
  rr_public_values :: public_values_hex
  rr_attempts :: u32
  rr_not_before_ms :: "u128 option"
  rr_queue_position :: "nat option"
  rr_created_at_ms :: u128
  rr_updated_at_ms :: u128

record proof_bundle =
  pb_mode :: string
  pb_public_values :: bytes
  pb_proof_bytes :: bytes
  pb_vkey_hash :: "string option"

section \<open>Hexadecimal views\<close>

definition leaf_hex_of :: "hexlib \<Rightarrow> return_leaf \<Rightarrow> leaf_hex" where
  "leaf_hex_of H l =
     \<lparr>lh_nullifier = hex32 H (leaf_nullifier l),
      lh_recipient = ''0x'' @ hex_encode H (leaf_recipient l),
      lh_amount = hex32 H (leaf_amount l),
      lh_fee_recipient = ''0x'' @ hex_encode H (leaf_fee_recipient l),
      lh_fee_amount = hex32 H (leaf_fee_amount l),
      lh_deadline = ''0x'' @ hex_text (unat (leaf_deadline l))\<rparr>"

definition lock_ref_hex_of :: "hexlib \<Rightarrow> source_lock_ref \<Rightarrow> lock_ref_hex" where
  "lock_ref_hex_of H r =
     \<lparr>lr_nonce = ''0x'' @ hex_text (unat (ref_nonce r)), lr_digest = hex32 H (ref_digest r)\<rparr>"

definition public_values_hex_of :: "hexlib \<Rightarrow> public_values \<Rightarrow> public_values_hex" where
  "public_values_hex_of H p =
     \<lparr>ph_domain_tag = hex32 H (pv_domain_tag p), ph_config_hash = hex32 H (pv_config_hash p),
      ph_trust_base_hash = hex32 H (pv_trust_base_hash p),
      ph_spent_root_old = hex32 H (pv_spent_root_old p),
      ph_spent_root_new = hex32 H (pv_spent_root_new p),
      ph_return_root = hex32 H (pv_return_root p),
      ph_lock_ref_root = hex32 H (pv_lock_ref_root p),
      ph_batch_size = pv_batch_size p, ph_total_amount = hex32 H (pv_total_amount p)\<rparr>"

section \<open>Bundles\<close>

definition has_proof :: "batch_bundle \<Rightarrow> bool" where
  "has_proof b \<longleftrightarrow> bb_proof_bytes b \<noteq> ''0x''"

fun latest_deadline :: "u64 \<Rightarrow> leaf_hex list \<Rightarrow> u64 option" where
  "latest_deadline latest [] = Some latest"
| "latest_deadline latest (leaf # rest) =
     (case u64_from_radix 16 (strip_0x (lh_deadline leaf)) of
        None \<Rightarrow> None
      | Some d \<Rightarrow> latest_deadline (max latest d) rest)"

definition self_settle_from_secs :: "batch_bundle \<Rightarrow> u64 option" where
  "self_settle_from_secs b = latest_deadline 0 (bb_leaves b)"

definition bundle_proven ::
  "hexlib \<Rightarrow> string \<Rightarrow> proof_bundle \<Rightarrow> return_leaf list \<Rightarrow> source_lock_ref list \<Rightarrow> batch_bundle" where
  "bundle_proven H batch_id proof leaves lock_refs =
     \<lparr>bb_batch_id = batch_id, bb_mode = pb_mode proof, bb_vkey = pb_vkey_hash proof,
      bb_public_values = ''0x'' @ hex_encode H (pb_public_values proof),
      bb_proof_bytes = ''0x'' @ hex_encode H (pb_proof_bytes proof),
      bb_settle_txid = None, bb_leaves = map (leaf_hex_of H) leaves,
      bb_lock_refs = map (lock_ref_hex_of H) lock_refs\<rparr>"

section \<open>Records\<close>

definition failed_recoverably :: "return_record \<Rightarrow> bool" where
  "failed_recoverably r \<longleftrightarrow> rr_status r = Failed
     \<and> (case rr_failure r of Some f \<Rightarrow> rf_recoverable f | None \<Rightarrow> False)"

definition recoverable :: "error_kind \<Rightarrow> string \<Rightarrow> return_failure" where
  "recoverable kind message = \<lparr>rf_kind = kind, rf_message = message, rf_recoverable = True\<rparr>"

definition terminal_failure :: "error_kind \<Rightarrow> string \<Rightarrow> return_failure" where
  "terminal_failure kind message = \<lparr>rf_kind = kind, rf_message = message, rf_recoverable = False\<rparr>"

fun event_code :: "return_status \<Rightarrow> string" where
  "event_code Queued = ''queued''"
| "event_code Proving = ''proving_started''"
| "event_code Proven = ''proof_ready''"
| "event_code Submitted = ''tx_submitted''"
| "event_code Settled = ''settled''"
| "event_code Failed = ''failed''"

definition apply_status_defaults :: "return_record \<Rightarrow> return_record" where
  "apply_status_defaults r =
     (case rr_status r of
        Queued \<Rightarrow> r\<lparr>rr_terminal := False, rr_success := None, rr_progress := 20,
          rr_message := ''Return is waiting for batch formation'', rr_next_poll_ms := 5000\<rparr>
      | Proving \<Rightarrow> r\<lparr>rr_terminal := False, rr_success := None, rr_progress := 45,
          rr_message := ''Batch is being proven'', rr_next_poll_ms := 15000\<rparr>
      | Proven \<Rightarrow> r\<lparr>rr_terminal := False, rr_success := None, rr_progress := 70,
          rr_message := ''Proof is ready and waiting for chain submission'', rr_next_poll_ms := 10000\<rparr>
      | Submitted \<Rightarrow> r\<lparr>rr_terminal := False, rr_success := None, rr_progress := 85,
          rr_message := ''fulfillBatch transaction submitted; waiting for chain finality'',
          rr_next_poll_ms := 10000\<rparr>
      | Settled \<Rightarrow> r\<lparr>rr_terminal := True, rr_success := Some True, rr_progress := 100,
          rr_message := ''Return settled on the source chain'', rr_next_poll_ms := 0\<rparr>
      | Failed \<Rightarrow> (let retrying = failed_recoverably r in
          r\<lparr>rr_terminal := \<not> retrying, rr_success := (if retrying then None else Some False),
            rr_progress := 100,
            rr_message := (case rr_failure r of Some f \<Rightarrow> rf_message f | None \<Rightarrow> ''Return failed''),
            rr_next_poll_ms := (if retrying then 15000 else 0)\<rparr>))"

definition transition :: "return_status \<Rightarrow> u128 \<Rightarrow> return_record \<Rightarrow> return_record" where
  "transition status at_ms r =
     (let r1 = apply_status_defaults (r\<lparr>rr_status := status\<rparr>)
      in r1\<lparr>rr_updated_at_ms := at_ms,
            rr_events := rr_events r1 @ [\<lparr>re_at_ms = at_ms, re_status = rr_status r1,
              re_code = event_code (rr_status r1), re_message = rr_message r1\<rparr>]\<rparr>)"

text \<open>The last event of the trail takes the message of the record.\<close>

definition transition_with ::
  "return_status \<Rightarrow> u128 \<Rightarrow> string \<Rightarrow> return_record \<Rightarrow> return_record" where
  "transition_with status at_ms message r =
     (let r1 = (transition status at_ms r)\<lparr>rr_message := message\<rparr>
      in if rr_events r1 = [] then r1
         else r1\<lparr>rr_events := butlast (rr_events r1)
                    @ [(last (rr_events r1))\<lparr>re_message := message\<rparr>]\<rparr>)"

definition queued ::
  "hexlib \<Rightarrow> string \<Rightarrow> bytes \<Rightarrow> bytes \<Rightarrow> public_values \<Rightarrow> u128 \<Rightarrow> return_record" where
  "queued H return_id nl digest pv now =
     \<lparr>rr_return_id = return_id, rr_nullifier = hex32 H nl, rr_status = Queued,
      rr_terminal = False, rr_success = None, rr_progress = 20,
      rr_message = ''Burn prechecked and queued for the next proving batch'',
      rr_next_poll_ms = 5000, rr_batch_id = None, rr_settle_txid = None, rr_failure = None,
      rr_events =
        [\<lparr>re_at_ms = now, re_status = Queued, re_code = ''prechecked'',
          re_message = ''Burn passed S1 precheck''\<rparr>,
         \<lparr>re_at_ms = now, re_status = Queued, re_code = ''queued'',
          re_message = ''Return is waiting for batch formation''\<rparr>],
      rr_batch_size = pv_batch_size pv, rr_total_amount = hex32 H (pv_total_amount pv),
      rr_public_values_digest = hex32 H digest, rr_public_values = public_values_hex_of H pv,
      rr_attempts = 0, rr_not_before_ms = None, rr_queue_position = None,
      rr_created_at_ms = now, rr_updated_at_ms = now\<rparr>"

section \<open>Burns and returns\<close>

record service_burn =
  bn_id :: string
  bn_trust_base_hash :: string
  bn_lock_nonces :: "u64 list"
  bn_leaf :: leaf_hex
  bn_wire_input :: bytes

text \<open>A burn is read off an input with at least one leaf; indexing an empty list is the panic \<open>None\<close>.\<close>

definition burn_from_input :: "hexlib \<Rightarrow> string \<Rightarrow> guest_input \<Rightarrow> bytes \<Rightarrow> service_burn option" where
  "burn_from_input H bid input wire_input =
     (case gi_return_leaves input of
        [] \<Rightarrow> None
      | leaf # _ \<Rightarrow>
          Some \<lparr>bn_id = bid,
                bn_trust_base_hash = hex32 H (pv_trust_base_hash (gi_public_values input)),
                bn_lock_nonces = map ref_nonce (gi_sorted_lock_refs input),
                bn_leaf = leaf_hex_of H leaf, bn_wire_input = wire_input\<rparr>)"

definition burn_nullifier :: "service_burn \<Rightarrow> string" where
  "burn_nullifier b = lh_nullifier (bn_leaf b)"

definition burn_size :: "service_burn \<Rightarrow> nat" where
  "burn_size b = length (bn_wire_input b)"

definition shares_trust_base :: "service_burn \<Rightarrow> service_burn \<Rightarrow> bool" where
  "shares_trust_base b other \<longleftrightarrow> bn_trust_base_hash b = bn_trust_base_hash other"

definition nonces_disjoint :: "service_burn \<Rightarrow> u64 list \<Rightarrow> bool" where
  "nonces_disjoint b taken \<longleftrightarrow> (\<forall>n \<in> set (bn_lock_nonces b). n \<notin> set taken)"

record leaf_to_settle =
  ls_leaf :: leaf_hex
  ls_lock_refs :: "lock_ref_hex list"

definition burn_leaf_to_settle :: "hexlib \<Rightarrow> sdk \<Rightarrow> service_burn \<Rightarrow> leaf_to_settle option" where
  "burn_leaf_to_settle H S b =
     (case decode_guest_input S (bn_wire_input b) of
        Inl _ \<Rightarrow> None
      | Inr input \<Rightarrow> Some \<lparr>ls_leaf = bn_leaf b,
          ls_lock_refs = map (lock_ref_hex_of H) (gi_sorted_lock_refs input)\<rparr>)"

record bridge_return =
  rt_seq :: u64
  rt_burn :: service_burn
  rt_record :: return_record

definition is_pending :: "bridge_return \<Rightarrow> bool" where
  "is_pending r \<longleftrightarrow> rr_status (rt_record r) = Queued \<or> failed_recoverably (rt_record r)"

definition is_due :: "u128 \<Rightarrow> bridge_return \<Rightarrow> bool" where
  "is_due now_ms r = (case rr_not_before_ms (rt_record r) of None \<Rightarrow> True | Some t \<Rightarrow> t \<le> now_ms)"

definition in_batch :: "string \<Rightarrow> bridge_return \<Rightarrow> bool" where
  "in_batch batch_id r \<longleftrightarrow> rr_batch_id (rt_record r) = Some batch_id
     \<and> rr_status (rt_record r) \<in> {Proving, Proven}"

definition awaits_confirmation :: "bridge_return \<Rightarrow> bool" where
  "awaits_confirmation r \<longleftrightarrow> rr_status (rt_record r) = Submitted"

definition is_done :: "bridge_return \<Rightarrow> bool" where
  "is_done r \<longleftrightarrow> rr_status (rt_record r) = Settled
     \<or> (rr_status (rt_record r) = Failed \<and> \<not> failed_recoverably (rt_record r))"

section \<open>What a transition keeps\<close>

lemma transition_simps [simp]:
  "rr_status (transition s t r) = s" "rr_attempts (transition s t r) = rr_attempts r"
  "rr_not_before_ms (transition s t r) = rr_not_before_ms r"
  "rr_batch_id (transition s t r) = rr_batch_id r" "rr_failure (transition s t r) = rr_failure r"
  "rr_settle_txid (transition s t r) = rr_settle_txid r" "rr_nullifier (transition s t r) = rr_nullifier r"
  "rr_return_id (transition s t r) = rr_return_id r" "rr_created_at_ms (transition s t r) = rr_created_at_ms r"
  "rr_updated_at_ms (transition s t r) = t" "rr_queue_position (transition s t r) = rr_queue_position r"
  by (cases s; simp add: transition_def apply_status_defaults_def Let_def failed_recoverably_def)+

lemma transition_with_simps [simp]:
  "rr_status (transition_with s t m r) = s" "rr_attempts (transition_with s t m r) = rr_attempts r"
  "rr_not_before_ms (transition_with s t m r) = rr_not_before_ms r"
  "rr_batch_id (transition_with s t m r) = rr_batch_id r" "rr_failure (transition_with s t m r) = rr_failure r"
  "rr_settle_txid (transition_with s t m r) = rr_settle_txid r"
  "rr_nullifier (transition_with s t m r) = rr_nullifier r"
  "rr_return_id (transition_with s t m r) = rr_return_id r"
  "rr_created_at_ms (transition_with s t m r) = rr_created_at_ms r"
  "rr_message (transition_with s t m r) = m"
  by (simp_all add: transition_with_def Let_def)

lemma transition_flags [simp]:
  "s \<noteq> Failed \<Longrightarrow> rr_terminal (transition s t r) \<longleftrightarrow> s = Settled"
  "s \<noteq> Failed \<Longrightarrow> rr_success (transition s t r) = (if s = Settled then Some True else None)"
  by (cases s; simp add: transition_def apply_status_defaults_def Let_def)+

lemma transition_failed_flags [simp]:
  "rr_terminal (transition Failed t r) \<longleftrightarrow> \<not> (case rr_failure r of Some f \<Rightarrow> rf_recoverable f | None \<Rightarrow> False)"
  "rr_success (transition Failed t r)
    = (if (case rr_failure r of Some f \<Rightarrow> rf_recoverable f | None \<Rightarrow> False) then None else Some False)"
  by (simp_all add: transition_def apply_status_defaults_def Let_def failed_recoverably_def)

lemma transition_with_flags [simp]:
  "rr_terminal (transition_with s t m r) = rr_terminal (transition s t r)"
  "rr_success (transition_with s t m r) = rr_success (transition s t r)"
  by (simp_all add: transition_with_def Let_def)

text \<open>Both leave the trail extended by exactly one event, with the record's status and message.\<close>

lemma transition_events:
  "rr_events (transition s t r) = rr_events r @ [\<lparr>re_at_ms = t, re_status = s, re_code = event_code s,
     re_message = rr_message (transition s t r)\<rparr>]"
  by (cases s) (simp_all add: transition_def apply_status_defaults_def Let_def)

lemma transition_with_events:
  "rr_events (transition_with s t m r) = rr_events r @ [\<lparr>re_at_ms = t, re_status = s,
     re_code = event_code s, re_message = m\<rparr>]"
  by (simp add: transition_with_def transition_events Let_def)

end
