(* ===== verification/Service_Policy.thy ===== *)
theory Service_Policy
  imports Service_Records
begin

text \<open>
  The policies of the service: model of \<open>domain/retry.rs\<close>, \<open>domain/fee.rs\<close> and
  \<open>domain/policy.rs\<close> with their correctness. Time arithmetic is on \<open>u128\<close> words, which
  wrap like the code's release build.
\<close>

section \<open>Retries\<close>

record retry_policy =
  rp_base :: duration
  rp_max_attempts :: u32
  rp_max_rebases :: u32

definition retry_default :: retry_policy where
  "retry_default = \<lparr>rp_base = \<lparr>d_secs = 60, d_nanos = 0\<rparr>, rp_max_attempts = 5, rp_max_rebases = 3\<rparr>"

definition not_before :: "retry_policy \<Rightarrow> u32 \<Rightarrow> u128 \<Rightarrow> u128" where
  "not_before p attempts at_ms =
     (let doublings = min (sat_sub32 attempts 1) 20
      in at_ms + as_millis (rp_base p) * push_bit (unat doublings) 1)"

definition parked :: "retry_policy \<Rightarrow> u32 \<Rightarrow> bool" where
  "parked p attempts \<longleftrightarrow> rp_max_attempts p \<le> attempts"

lemma unat_as_millis:
  "unat (as_millis d) = unat (d_secs d) * 1000 + unat (d_nanos d) div 1000000"
proof -
  have s: "unat (d_secs d) < 2 ^ 64" and n: "unat (d_nanos d) < 2 ^ 32"
    using unsigned_less[of "d_secs d", where 'a=nat] unsigned_less[of "d_nanos d", where 'a=nat] by simp_all
  have us: "unat (ucast (d_secs d) :: u128) = unat (d_secs d)"
    and un: "unat (ucast (d_nanos d) :: u128) = unat (d_nanos d)"
    using s n by (simp_all add: unsigned_ucast_eq take_bit_eq_mod)
  have m: "unat (ucast (d_secs d) * 1000 :: u128) = unat (d_secs d) * 1000"
    using s us by (simp add: unat_word_ariths)
  have q: "unat (ucast (d_nanos d) div 1000000 :: u128) = unat (d_nanos d) div 1000000"
    using un by (simp add: unat_div)
  have le: "unat (d_nanos d) div 1000000 \<le> unat (d_nanos d)" by simp
  have "unat (d_secs d) * 1000 + unat (d_nanos d) div 1000000 < 2 ^ 128"
    using s n le by simp
  then show ?thesis using m q by (simp add: as_millis_def unat_word_ariths)
qed

lemma unat_doublings: "unat (min (sat_sub32 a 1) 20) = min (unat a - 1) 20"
proof -
  have "unat (sat_sub32 a 1) = unat a - 1"
    by (auto simp: sat_sub32_def word_le_nat_alt unat_sub)
  then show ?thesis by (simp add: min_def word_le_nat_alt)
qed

lemma not_before_value:
  assumes "unat at_ms + unat (as_millis (rp_base p)) * 2 ^ 20 < 2 ^ 128"
  shows "unat (not_before p a at_ms) = unat at_ms + unat (as_millis (rp_base p)) * 2 ^ min (unat a - 1) 20"
proof -
  define k where "k = min (unat a - 1) 20"
  have k: "(2::nat) ^ k \<le> 2 ^ 20" unfolding k_def by (intro power_increasing) auto
  have "(2 ^ k :: u128) = of_nat (2 ^ k)" by simp
  then have b: "unat (2 ^ k :: u128) = 2 ^ k" using k by (simp only: unat_of_nat) simp
  have m: "unat (as_millis (rp_base p)) * 2 ^ k \<le> unat (as_millis (rp_base p)) * 2 ^ 20"
    using k by (rule mult_left_mono) simp
  then have "unat (as_millis (rp_base p)) * 2 ^ k < 2 ^ 128" using assms by linarith
  then have "unat (as_millis (rp_base p) * 2 ^ k) = unat (as_millis (rp_base p)) * 2 ^ k"
    by (simp add: unat_word_ariths b)
  moreover have "unat at_ms + unat (as_millis (rp_base p)) * 2 ^ k < 2 ^ 128" using m assms by linarith
  ultimately have "unat (at_ms + as_millis (rp_base p) * 2 ^ k) = unat at_ms + unat (as_millis (rp_base p)) * 2 ^ k"
    by (subst unat_word_ariths(1)) simp
  then show ?thesis
    by (simp only: not_before_def Let_def unat_doublings k_def[symmetric] push_bit_eq_mult mult_1_left)
qed

section \<open>Fees\<close>

record fee_policy =
  fp_recipient :: bytes
  fp_amount :: u128
  fp_floor :: u128
  fp_settle_window :: duration

record fee_quote =
  fq_fee_recipient :: string
  fq_fee_amount :: string
  fq_deadline :: u64

datatype fee_refusal = Unpaid string | Late string

definition SUBMIT_ALLOWANCE :: duration where
  "SUBMIT_ALLOWANCE = \<lparr>d_secs = 7 * 24 * 3600, d_nanos = 0\<rparr>"

definition fee_default :: fee_policy where
  "fee_default = \<lparr>fp_recipient = replicate 20 0, fp_amount = 0, fp_floor = 0,
     fp_settle_window = \<lparr>d_secs = 24 * 3600, d_nanos = 0\<rparr>\<rparr>"

definition is_enforced :: "fee_policy \<Rightarrow> bool" where
  "is_enforced p \<longleftrightarrow> 0 < fp_floor p"

definition is_collectable :: "fee_policy \<Rightarrow> bool" where
  "is_collectable p \<longleftrightarrow> fp_amount p = 0 \<or> fp_recipient p \<noteq> replicate 20 0"

definition floor_within_amount :: "fee_policy \<Rightarrow> bool" where
  "floor_within_amount p \<longleftrightarrow> fp_floor p \<le> fp_amount p"

definition amount_word :: "u128 \<Rightarrow> bytes" where
  "amount_word amount = replicate 16 0 @ be128 amount"

definition earliest_deadline :: "fee_policy \<Rightarrow> u64 \<Rightarrow> u64" where
  "earliest_deadline p now_secs = sat_add64 now_secs (d_secs (fp_settle_window p))"

definition recipient_hex :: "hexlib \<Rightarrow> fee_policy \<Rightarrow> string" where
  "recipient_hex H p = ''0x'' @ hex_encode H (fp_recipient p)"

definition demand :: "hexlib \<Rightarrow> fee_policy \<Rightarrow> u64 \<Rightarrow> string" where
  "demand H p now_secs =
     ''this service settles a burn that pays at least '' @ dec_text (unat (fp_floor p)) @ '' to ''
     @ recipient_hex H p @ '' with a deadline of '' @ dec_text (unat (earliest_deadline p now_secs))
     @ '' or later''"

definition refusal :: "hexlib \<Rightarrow> fee_policy \<Rightarrow> return_leaf \<Rightarrow> u64 \<Rightarrow> fee_refusal option" where
  "refusal H p leaf now_secs =
     (if \<not> is_enforced p then None
      else if leaf_fee_recipient leaf \<noteq> fp_recipient p
              \<or> slice_less (leaf_fee_amount leaf) (amount_word (fp_floor p))
      then Some (Unpaid (demand H p now_secs))
      else if leaf_deadline leaf < earliest_deadline p now_secs
      then Some (Late (''the burn's fee deadline '' @ dec_text (unat (leaf_deadline leaf))
             @ '' leaves less than the '' @ dec_text (unat (d_secs (fp_settle_window p)))
             @ '' seconds this service wants to settle; an operator can take it by lowering the floor''))
      else None)"

definition is_paid_by :: "hexlib \<Rightarrow> fee_policy \<Rightarrow> return_leaf \<Rightarrow> u64 \<Rightarrow> bool" where
  "is_paid_by H p leaf now_secs \<longleftrightarrow> refusal H p leaf now_secs = None"

definition quote :: "hexlib \<Rightarrow> fee_policy \<Rightarrow> u64 \<Rightarrow> fee_quote" where
  "quote H p now_secs =
     \<lparr>fq_fee_recipient = recipient_hex H p, fq_fee_amount = dec_text (unat (fp_amount p)),
      fq_deadline = sat_add64 (earliest_deadline p now_secs) (d_secs SUBMIT_ALLOWANCE)\<rparr>"

lemma from_be_amount_word [simp]: "from_be (amount_word a) = unat a"
  by (simp add: amount_word_def)

lemma length_amount_word [simp]: "length (amount_word a) = 32"
  by (simp add: amount_word_def)

lemma refusal_None_iff:
  assumes "length (leaf_fee_amount leaf) = 32"
  shows "refusal H p leaf now = None \<longleftrightarrow> fp_floor p = 0 \<or>
    leaf_fee_recipient leaf = fp_recipient p \<and> unat (fp_floor p) \<le> from_be (leaf_fee_amount leaf)
    \<and> min (unat now + unat (d_secs (fp_settle_window p))) (2 ^ 64 - 1) \<le> unat (leaf_deadline leaf)"
  using assms
  by (auto simp: refusal_def is_enforced_def slice_less_iff_from_be word_less_nat_alt earliest_deadline_def
      unat_sat_add64 not_less word_gt_0 word_unat_eq_iff)

section \<open>Batch selection\<close>

record limits =
  lim_max_size :: nat
  lim_max_bytes :: nat
  lim_idle_wait :: duration

datatype decision = Batch "string list" | WaitUntil u128 | Idle

fun select_loop ::
  "limits \<Rightarrow> bridge_return \<Rightarrow> u64 list \<Rightarrow> nat \<Rightarrow> string list \<Rightarrow> bridge_return list \<Rightarrow> string list" where
  "select_loop lim seed taken bytes chosen [] = chosen"
| "select_loop lim seed taken bytes chosen (candidate # rest) =
     (if lim_max_size lim \<le> length chosen then chosen
      else let burn = rt_burn candidate in
        if shares_trust_base burn (rt_burn seed) \<and> nonces_disjoint burn taken
           \<and> bytes + burn_size burn \<le> lim_max_bytes lim
        then select_loop lim seed (taken @ bn_lock_nonces burn) (bytes + burn_size burn)
               (chosen @ [bn_id burn]) rest
        else select_loop lim seed taken bytes chosen rest)"

text \<open>\<open>select\<close> indexes the first due return; the caller has checked that there is one.\<close>

definition select :: "limits \<Rightarrow> bridge_return list \<Rightarrow> string list" where
  "select lim due =
     (let seed = hd due
      in select_loop lim seed (bn_lock_nonces (rt_burn seed)) (burn_size (rt_burn seed))
           [bn_id (rt_burn seed)] (tl due))"

fun min_of :: "u128 list \<Rightarrow> u128 option" where
  "min_of [] = None"
| "min_of (x # xs) = (case min_of xs of None \<Rightarrow> Some x | Some m \<Rightarrow> Some (min x m))"

fun filter_map :: "('a \<Rightarrow> 'b option) \<Rightarrow> 'a list \<Rightarrow> 'b list" where
  "filter_map f [] = []"
| "filter_map f (x # xs) = (case f x of None \<Rightarrow> filter_map f xs | Some y \<Rightarrow> y # filter_map f xs)"

definition unwrap_or :: "'a option \<Rightarrow> 'a \<Rightarrow> 'a" where
  "unwrap_or x d = (case x of None \<Rightarrow> d | Some y \<Rightarrow> y)"

definition policy_next :: "limits \<Rightarrow> bridge_return list \<Rightarrow> u128 \<Rightarrow> bool \<Rightarrow> decision" where
  "policy_next lim pending now_ms collect =
     (if pending = [] then Idle
      else let due = filter (is_due now_ms) pending in
        if due = [] then
          WaitUntil (unwrap_or (min_of (filter_map (\<lambda>r. rr_not_before_ms (rt_record r)) pending)) now_ms)
        else let window_closes =
               unwrap_or (min_of (map (\<lambda>r. rr_created_at_ms (rt_record r)) due)) now_ms
               + as_millis (lim_idle_wait lim)
        in if collect \<and> length due < lim_max_size lim \<and> now_ms < window_closes
           then WaitUntil window_closes
           else Batch (select lim due))"

lemma set_filter_map: "set (filter_map f xs) = {y. \<exists>x \<in> set xs. f x = Some y}"
  by (induction xs) (auto split: option.splits)

lemma min_of_in: "min_of xs = Some m \<Longrightarrow> m \<in> set xs"
  by (induction xs arbitrary: m) (auto split: option.splits simp: min_def)

lemma min_of_None: "min_of xs = None \<longleftrightarrow> xs = []"
  by (cases xs) (auto split: option.splits)

text \<open>What a selection is: a sublist of the due returns that starts with the first one.\<close>

fun picked :: "limits \<Rightarrow> bridge_return \<Rightarrow> u64 list \<Rightarrow> nat \<Rightarrow> nat \<Rightarrow> bridge_return list \<Rightarrow> bridge_return list" where
  "picked lim seed taken bytes n [] = []"
| "picked lim seed taken bytes n (c # rest) =
     (if lim_max_size lim \<le> n then []
      else if shares_trust_base (rt_burn c) (rt_burn seed) \<and> nonces_disjoint (rt_burn c) taken
           \<and> bytes + burn_size (rt_burn c) \<le> lim_max_bytes lim
      then c # picked lim seed (taken @ bn_lock_nonces (rt_burn c)) (bytes + burn_size (rt_burn c)) (Suc n) rest
      else picked lim seed taken bytes n rest)"

lemma select_loop_picked:
  "select_loop lim seed taken bytes chosen xs =
     chosen @ map (\<lambda>c. bn_id (rt_burn c)) (picked lim seed taken bytes (length chosen) xs)"
  by (induction lim seed taken bytes chosen xs rule: select_loop.induct) (auto simp: Let_def)

fun nonce_disjoint :: "u64 list \<Rightarrow> bridge_return list \<Rightarrow> bool" where
  "nonce_disjoint taken [] = True"
| "nonce_disjoint taken (c # cs) =
     (set (bn_lock_nonces (rt_burn c)) \<inter> set taken = {}
      \<and> nonce_disjoint (taken @ bn_lock_nonces (rt_burn c)) cs)"

lemma picked_spec:
  "set (picked lim seed taken bytes n xs) \<subseteq> set xs
   \<and> (\<forall>c \<in> set (picked lim seed taken bytes n xs). shares_trust_base (rt_burn c) (rt_burn seed))
   \<and> nonce_disjoint taken (picked lim seed taken bytes n xs)
   \<and> (n \<le> lim_max_size lim \<longrightarrow> n + length (picked lim seed taken bytes n xs) \<le> lim_max_size lim)
   \<and> (lim_max_size lim \<le> n \<longrightarrow> picked lim seed taken bytes n xs = [])
   \<and> (picked lim seed taken bytes n xs \<noteq> [] \<longrightarrow>
        bytes + sum_list (map (\<lambda>c. burn_size (rt_burn c)) (picked lim seed taken bytes n xs)) \<le> lim_max_bytes lim)"
proof (induction lim seed taken bytes n xs rule: picked.induct)
  case (2 lim seed taken bytes n c rest)
  show ?case
  proof (cases "lim_max_size lim \<le> n")
    case False
    let ?p = "picked lim seed (taken @ bn_lock_nonces (rt_burn c)) (bytes + burn_size (rt_burn c)) (Suc n) rest"
    show ?thesis
    proof (cases "shares_trust_base (rt_burn c) (rt_burn seed) \<and> nonces_disjoint (rt_burn c) taken
           \<and> bytes + burn_size (rt_burn c) \<le> lim_max_bytes lim")
      case True
      with False 2(1) show ?thesis
        by (cases "?p = []") (auto simp: nonces_disjoint_def)
    next
      case F: False
      with False 2(2) show ?thesis by (simp only: picked.simps if_False) auto
    qed
  qed simp
qed simp


section \<open>Properties\<close>

text \<open>Retry back-off: the next attempt is exactly base * 2^(attempts - 1) milliseconds after the
  failure, with the doubling capped at 2^20, and so never earlier than the failure itself, as long
  as the clock is within 2^127 and the base within 2^64 seconds, which every clock is.\<close>

theorem backoff_doubles:
  assumes "unat at_ms < 2 ^ 127"
  shows "unat (not_before p attempts at_ms) =
      unat at_ms + (unat (d_secs (rp_base p)) * 1000 + unat (d_nanos (rp_base p)) div 1000000)
        * 2 ^ min (unat attempts - 1) 20
    \<and> at_ms \<le> not_before p attempts at_ms"
proof -
  have s: "unat (d_secs (rp_base p)) < 2 ^ 64" and n: "unat (d_nanos (rp_base p)) < 2 ^ 32"
    using unsigned_less[of "d_secs (rp_base p)", where 'a=nat]
      unsigned_less[of "d_nanos (rp_base p)", where 'a=nat] by simp_all
  have "unat (d_nanos (rp_base p)) div 1000000 \<le> unat (d_nanos (rp_base p))" by simp
  then have "unat (as_millis (rp_base p)) * 2 ^ 20 < 2 ^ 127"
    using s n unfolding unat_as_millis by simp
  then have "unat at_ms + unat (as_millis (rp_base p)) * 2 ^ 20 < 2 ^ 128" using assms by simp
  from not_before_value[OF this] show ?thesis by (simp add: unat_as_millis word_le_nat_alt)
qed

theorem backoff_doubles_witness:
  "unat (not_before retry_default 3 1000) = 241000"
  using backoff_doubles[of 1000 retry_default 3] by (simp add: retry_default_def)

text \<open>The fee policy enforces what it says: a burn is taken when no floor is set, or when it pays
  at least the floor, as a number, to the policy's recipient and its deadline leaves the whole
  settle window (saturating at the end of time); a burn built from a quote is taken at any later
  moment within the seven-day submission allowance, when the floor is within the quoted amount.\<close>

theorem fee_policy_spec:
  assumes "length (leaf_fee_amount leaf) = 32"
  shows "(is_paid_by H p leaf now \<longleftrightarrow> fp_floor p = 0 \<or>
      leaf_fee_recipient leaf = fp_recipient p \<and> unat (fp_floor p) \<le> from_be (leaf_fee_amount leaf)
      \<and> min (unat now + unat (d_secs (fp_settle_window p))) (2 ^ 64 - 1) \<le> unat (leaf_deadline leaf))
    \<and> (floor_within_amount p \<and> leaf_fee_recipient leaf = fp_recipient p
       \<and> leaf_fee_amount leaf = amount_word (fp_amount p)
       \<and> leaf_deadline leaf = fq_deadline (quote H p now) \<and> unat later \<le> unat now + 604800
       \<longrightarrow> is_paid_by H p leaf later)"
proof -
  have d: "unat (d_secs SUBMIT_ALLOWANCE) = 604800" by (simp add: SUBMIT_ALLOWANCE_def)
  show ?thesis
    unfolding is_paid_by_def refusal_None_iff[OF assms]
    by (auto simp: quote_def unat_sat_add64 earliest_deadline_def floor_within_amount_def
        word_le_nat_alt d)
qed

definition ex_fee_leaf :: "u64 \<Rightarrow> return_leaf" where
  "ex_fee_leaf deadline = \<lparr>leaf_nullifier = replicate 32 0x11, leaf_recipient = replicate 20 0xB2,
     leaf_amount = u256_from_u64 1000000, leaf_fee_recipient = replicate 20 0xC3,
     leaf_fee_amount = amount_word 1000, leaf_deadline = deadline\<rparr>"

definition ex_fee_policy :: fee_policy where
  "ex_fee_policy = \<lparr>fp_recipient = replicate 20 0xC3, fp_amount = 1000, fp_floor = 1000,
     fp_settle_window = \<lparr>d_secs = 86400, d_nanos = 0\<rparr>\<rparr>"

theorem fee_policy_spec_witness:
  "is_paid_by std_hex ex_fee_policy (ex_fee_leaf 1800086400) 1800000000
   \<and> \<not> is_paid_by std_hex ex_fee_policy (ex_fee_leaf 1800086399) 1800000000"
  using fee_policy_spec[of "ex_fee_leaf 1800086400" std_hex ex_fee_policy 1800000000 0]
    fee_policy_spec[of "ex_fee_leaf 1800086399" std_hex ex_fee_policy 1800000000 0]
  by (simp add: ex_fee_leaf_def ex_fee_policy_def)

text \<open>C19. Batch selection: nothing pending is idle; a wait is always for a moment still to come (so the
  loop never spins); and a batch is the oldest due return followed by due returns of the same trust
  base, no two members sharing a lock nonce, within the member cap, and within the byte cap unless
  the first return alone already exceeds it.\<close>

theorem policy_next_spec:
  "case policy_next lim pending now_ms collect of
     Idle \<Rightarrow> pending = []
   | WaitUntil t \<Rightarrow> pending \<noteq> [] \<and> now_ms < t
   | Batch ids \<Rightarrow> (\<exists>seed rest others. filter (is_due now_ms) pending = seed # rest
       \<and> ids = map (\<lambda>r. bn_id (rt_burn r)) (seed # others)
       \<and> set others \<subseteq> set rest
       \<and> (\<forall>r \<in> set others. bn_trust_base_hash (rt_burn r) = bn_trust_base_hash (rt_burn seed))
       \<and> nonce_disjoint [] (seed # others)
       \<and> length ids \<le> max 1 (lim_max_size lim)
       \<and> (others \<noteq> [] \<longrightarrow>
            sum_list (map (\<lambda>r. burn_size (rt_burn r)) (seed # others)) \<le> lim_max_bytes lim))"
proof -
  consider (idle) "pending = []"
    | (wait) "pending \<noteq> []" "filter (is_due now_ms) pending = []"
    | (due) seed rest where "pending \<noteq> []" "filter (is_due now_ms) pending = seed # rest"
    by (cases "pending = []"; cases "filter (is_due now_ms) pending") auto
  then show ?thesis
  proof cases
    case idle
    then show ?thesis by (simp add: policy_next_def)
  next
    case wait
    let ?ts = "filter_map (\<lambda>r. rr_not_before_ms (rt_record r)) pending"
    have nd: "\<forall>r \<in> set pending. \<exists>t. rr_not_before_ms (rt_record r) = Some t \<and> now_ms < t"
      using wait(2) by (auto simp: filter_empty_conv is_due_def not_le split: option.splits)
    then have "?ts \<noteq> []" using wait(1) by (cases pending) auto
    then obtain m where m: "min_of ?ts = Some m" by (cases "min_of ?ts") (auto simp: min_of_None)
    then have "now_ms < m" using min_of_in[OF m] nd by (fastforce simp: set_filter_map)
    with wait m show ?thesis by (simp add: policy_next_def unwrap_or_def)
  next
    case due
    let ?b = "rt_burn seed"
    let ?others = "picked lim seed (bn_lock_nonces ?b) (burn_size ?b) 1 rest"
    have sel: "select lim (seed # rest) = map (\<lambda>r. bn_id (rt_burn r)) (seed # ?others)"
      by (simp add: select_def select_loop_picked)
    note p = picked_spec[of lim seed "bn_lock_nonces ?b" "burn_size ?b" 1 rest]
    have len: "Suc (length ?others) \<le> max 1 (lim_max_size lim)"
      using p by (cases "1 \<le> lim_max_size lim") auto
    have "\<exists>seed' rest' others. filter (is_due now_ms) pending = seed' # rest'
       \<and> select lim (seed # rest) = map (\<lambda>r. bn_id (rt_burn r)) (seed' # others)
       \<and> set others \<subseteq> set rest'
       \<and> (\<forall>r \<in> set others. bn_trust_base_hash (rt_burn r) = bn_trust_base_hash (rt_burn seed'))
       \<and> nonce_disjoint [] (seed' # others)
       \<and> length (select lim (seed # rest)) \<le> max 1 (lim_max_size lim)
       \<and> (others \<noteq> [] \<longrightarrow>
            sum_list (map (\<lambda>r. burn_size (rt_burn r)) (seed' # others)) \<le> lim_max_bytes lim)"
      using p len due(2) unfolding sel
      by (intro exI[of _ seed] exI[of _ rest] exI[of _ ?others]) (auto simp: shares_trust_base_def)
    with due show ?thesis by (simp add: policy_next_def Let_def)
  qed
qed

text \<open>A run of the policy: two due returns of one trust base are batched, a third that draws on the
  same lock is left for the next batch.\<close>

definition ex_return :: "string \<Rightarrow> u64 \<Rightarrow> bridge_return" where
  "ex_return i nonce =
     \<lparr>rt_seq = 1, rt_burn = \<lparr>bn_id = i, bn_trust_base_hash = ''t'', bn_lock_nonces = [nonce],
        bn_leaf = leaf_hex_of std_hex (ex_fee_leaf 0),
        bn_wire_input = [1, 2]\<rparr>,
      rt_record = queued std_hex i [] []
        \<lparr>pv_domain_tag = [], pv_config_hash = [], pv_trust_base_hash = [], pv_spent_root_old = [],
         pv_spent_root_new = [], pv_return_root = [], pv_lock_ref_root = [], pv_batch_size = 1,
         pv_total_amount = []\<rparr> 1000\<rparr>"

theorem policy_next_spec_witness:
  "policy_next \<lparr>lim_max_size = 8, lim_max_bytes = 100, lim_idle_wait = \<lparr>d_secs = 0, d_nanos = 0\<rparr>\<rparr>
     [ex_return ''a'' 1, ex_return ''b'' 2, ex_return ''c'' 1] 2000 True = Batch [''a'', ''b'']"
proof -
  let ?l = "\<lparr>lim_max_size = 8, lim_max_bytes = 100, lim_idle_wait = \<lparr>d_secs = 0, d_nanos = 0\<rparr>\<rparr>"
  let ?rs = "[ex_return ''a'' 1, ex_return ''b'' 2, ex_return ''c'' 1]"
  have "policy_next ?l ?rs 2000 True = Batch [''a'', ''b'']"
    by (simp add: policy_next_def ex_return_def is_due_def queued_def select_def Let_def
        shares_trust_base_def nonces_disjoint_def burn_size_def unwrap_or_def as_millis_def)
  then show ?thesis using policy_next_spec[where lim = ?l and pending = ?rs and now_ms = 2000 and collect = True] by simp
qed

end
