(* ===== verification/Ledger.thy ===== *)
theory Ledger
  imports Service_Policy S2 "HOL-Library.AList" "HOL-Library.Option_ord"
begin

text \<open>
  The ledger of the service: model of \<open>domain/batch.rs\<close>, \<open>domain/event.rs\<close>, the
  exclusions of \<open>domain/assembler.rs\<close> and \<open>domain/ledger.rs\<close>. A \<open>HashMap\<close> is an
  association list; its iteration order, arbitrary in the code, is the order of the list.
  \<open>H\<close> is the hex crate and \<open>sha256\<close> the hash of batch ids.
\<close>

section \<open>Batches\<close>

datatype batch_status =
  Batch_Proving | Batch_Proven | Batch_Settled | Batch_Failed | Batch_Interrupted

record batch =
  ba_id :: string
  ba_members :: "string list"
  ba_status :: batch_status
  ba_rebases :: u32
  ba_bundle :: "batch_bundle option"
  ba_spent_root_old :: "string option"
  ba_formed_at_ms :: u128
  ba_proven_at_ms :: "u128 option"

definition batch_id_of :: "hexlib \<Rightarrow> (bytes \<Rightarrow> bytes) \<Rightarrow> u64 \<Rightarrow> string list \<Rightarrow> string" where
  "batch_id_of H sha256 seq members =
     ''0x'' @ hex_encode H (sha256 (as_bytes ''bridge-return-service:batch-id:v1'' @ be64 seq
       @ concat (map as_bytes members)))"

definition batch_formed ::
  "hexlib \<Rightarrow> (bytes \<Rightarrow> bytes) \<Rightarrow> u64 \<Rightarrow> string list \<Rightarrow> u128 \<Rightarrow> batch" where
  "batch_formed H sha256 seq members at_ms =
     \<lparr>ba_id = batch_id_of H sha256 seq members, ba_members = members, ba_status = Batch_Proving,
      ba_rebases = 0, ba_bundle = None, ba_spent_root_old = None, ba_formed_at_ms = at_ms,
      ba_proven_at_ms = None\<rparr>"

definition can_rebase :: "u32 \<Rightarrow> batch \<Rightarrow> bool" where
  "can_rebase max_rebases b \<longleftrightarrow> ba_rebases b < max_rebases"

definition chains_onto :: "hexlib \<Rightarrow> batch \<Rightarrow> bytes \<Rightarrow> bool" where
  "chains_onto H b root \<longleftrightarrow> ba_spent_root_old b = Some (hex32 H root)"

definition batch_nullifiers :: "hexlib \<Rightarrow> batch \<Rightarrow> bytes list" where
  "batch_nullifiers H b =
     (case ba_bundle b of
        None \<Rightarrow> []
      | Some bundle \<Rightarrow> filter_map (\<lambda>l. parse_hex32 H (lh_nullifier l)) (bb_leaves bundle))"

definition batch_settled_batch :: "hexlib \<Rightarrow> batch \<Rightarrow> settled_batch option" where
  "batch_settled_batch H b =
     (case ba_bundle b of
        None \<Rightarrow> None
      | Some bundle \<Rightarrow>
          (case hex_bytes H (bb_public_values bundle) of
             None \<Rightarrow> None
           | Some bs \<Rightarrow>
               (case public_values_from_abi bs of
                  None \<Rightarrow> None
                | Some pv \<Rightarrow>
                    Some \<lparr>sb_nullifiers = batch_nullifiers H b,
                          sb_spent_root_old = pv_spent_root_old pv,
                          sb_spent_root_new = pv_spent_root_new pv,
                          sb_txid = bb_settle_txid bundle\<rparr>)))"

definition is_unsettled_proof :: "batch \<Rightarrow> bool" where
  "is_unsettled_proof b \<longleftrightarrow> ba_status b = Batch_Proven
     \<and> (case ba_bundle b of None \<Rightarrow> False | Some bundle \<Rightarrow> bb_settle_txid bundle = None)"

definition proof_duration_ms :: "batch \<Rightarrow> u128 option" where
  "proof_duration_ms b = map_option (\<lambda>t. sat_sub128 t (ba_formed_at_ms b)) (ba_proven_at_ms b)"

section \<open>Exclusions and events\<close>

datatype exclusion =
    AlreadySettled (ex_txid: "string option") (ex_unconfirmed: "string option")
  | Rejected string
  | Invalid string

definition exclusion_released :: "string option \<Rightarrow> exclusion" where
  "exclusion_released txid = AlreadySettled txid (Some ''not yet checked against a second source'')"

record ledger =
  lg_returns :: "(string \<times> bridge_return) list"
  lg_by_nullifier :: "(string \<times> string) list"
  lg_batches :: "(string \<times> batch) list"
  lg_accepted :: u64
  lg_formed :: u64

datatype event =
    Snapshot ledger
  | Accepted service_burn return_record
  | Requeued string u128
  | BatchFormed "string list" u128
  | BatchProven string batch_bundle string u128
  | BatchSettled string "string option" u128
  | BatchFailed string error_kind string u128
  | BatchRebased string u128
  | BatchInterrupted string u128 bool
  | ReturnExcluded string exclusion u128

definition ledger_default :: ledger where
  "ledger_default = \<lparr>lg_returns = [], lg_by_nullifier = [], lg_batches = [], lg_accepted = 0, lg_formed = 0\<rparr>"

definition RELEASE_RECHECK_MS :: u128 where "RELEASE_RECHECK_MS = 5 * 60000"

section \<open>Queries\<close>

definition ledger_get :: "ledger \<Rightarrow> string \<Rightarrow> bridge_return option" where
  "ledger_get l rid = map_of (lg_returns l) rid"

definition ledger_by_nullifier :: "ledger \<Rightarrow> string \<Rightarrow> bridge_return option" where
  "ledger_by_nullifier l nl =
     (case map_of (lg_by_nullifier l) (to_lowercase nl) of
        None \<Rightarrow> None
      | Some rid \<Rightarrow> map_of (lg_returns l) rid)"

definition return_values :: "ledger \<Rightarrow> bridge_return list" where
  "return_values l = map snd (lg_returns l)"

definition batch_values :: "ledger \<Rightarrow> batch list" where
  "batch_values l = map snd (lg_batches l)"

definition ledger_pending :: "ledger \<Rightarrow> bridge_return list" where
  "ledger_pending l = sort_key rt_seq (filter is_pending (return_values l))"

definition ledger_record :: "ledger \<Rightarrow> string \<Rightarrow> return_record option" where
  "ledger_record l rid =
     (case ledger_get l rid of
        None \<Rightarrow> None
      | Some r \<Rightarrow>
          Some ((rt_record r)\<lparr>rr_queue_position :=
            map_option (\<lambda>p. p + 1) (position (\<lambda>q. bn_id (rt_burn q) = rid) (ledger_pending l))\<rparr>))"

definition unfinished :: "ledger \<Rightarrow> nat" where
  "unfinished l = length (filter (\<lambda>r. \<not> is_done r) (return_values l))"

definition releases_due :: "ledger \<Rightarrow> u128 \<Rightarrow> (string \<times> string) list" where
  "releases_due l now_ms =
     map (\<lambda>r. (bn_id (rt_burn r), rr_nullifier (rt_record r)))
       (sort_key rt_seq (filter (\<lambda>r. awaits_confirmation r \<and> is_due now_ms r) (return_values l)))"

definition next_release_check :: "ledger \<Rightarrow> u128 option" where
  "next_release_check l =
     min_of (map (\<lambda>r. unwrap_or (rr_not_before_ms (rt_record r)) 0)
       (filter awaits_confirmation (return_values l)))"

definition ledger_burns :: "ledger \<Rightarrow> string list \<Rightarrow> service_burn list" where
  "ledger_burns l ids = filter_map (\<lambda>i. map_option rt_burn (ledger_get l i)) ids"

definition ledger_batch :: "ledger \<Rightarrow> string \<Rightarrow> batch option" where
  "ledger_batch l bid = map_of (lg_batches l) bid"

definition active_batch :: "ledger \<Rightarrow> batch option" where
  "active_batch l = find (\<lambda>b. ba_status b = Batch_Proving) (batch_values l)"

definition settled_batches :: "hexlib \<Rightarrow> ledger \<Rightarrow> settled_batch list" where
  "settled_batches H l =
     filter_map (batch_settled_batch H) (filter (\<lambda>b. ba_status b = Batch_Settled) (batch_values l))"

definition unsettled_proofs :: "ledger \<Rightarrow> batch list" where
  "unsettled_proofs l = sort_key ba_formed_at_ms (filter is_unsettled_proof (batch_values l))"

text \<open>\<open>Iterator::max_by_key\<close>: the last of the greatest.\<close>

fun max_by_key :: "('a \<Rightarrow> 'k :: linorder) \<Rightarrow> 'a list \<Rightarrow> 'a option" where
  "max_by_key f [] = None"
| "max_by_key f (x # xs) =
     Some (foldl (\<lambda>best y. if f best \<le> f y then y else best) x xs)"

definition proof_for :: "ledger \<Rightarrow> string list \<Rightarrow> string \<Rightarrow> batch_bundle option" where
  "proof_for l nullifiers spent_root_old =
     (let wanted = map to_lowercase nullifiers in
      case max_by_key ba_proven_at_ms
        (filter (\<lambda>b. ba_status b \<noteq> Batch_Settled \<and> ba_spent_root_old b = Some spent_root_old
           \<and> (case ba_bundle b of
                None \<Rightarrow> False
              | Some bundle \<Rightarrow> has_proof bundle
                  \<and> map (\<lambda>x. to_lowercase (lh_nullifier x)) (bb_leaves bundle) = wanted))
          (batch_values l)) of
        None \<Rightarrow> None
      | Some b \<Rightarrow> ba_bundle b)"

definition interruptions :: "ledger \<Rightarrow> u128 \<Rightarrow> bool \<Rightarrow> event list" where
  "interruptions l at_ms orderly =
     map (\<lambda>b. BatchInterrupted (ba_id b) at_ms orderly)
       (sort_key ba_formed_at_ms (filter (\<lambda>b. ba_status b = Batch_Proving) (batch_values l)))"

definition ledger_recover :: "ledger \<Rightarrow> u128 \<Rightarrow> event list" where
  "ledger_recover l at_ms = interruptions l at_ms False"

definition ledger_stop :: "ledger \<Rightarrow> u128 \<Rightarrow> event list" where
  "ledger_stop l at_ms = interruptions l at_ms True"

record health =
  he_queue_depth :: nat
  he_active_batch :: "string option"
  he_active_batch_size :: nat
  he_proving_since_ms :: "u128 option"
  he_last_proof_ms :: "u128 option"
  he_average_proof_ms :: "u128 option"
  he_unconfirmed_releases :: nat

definition ledger_health :: "ledger \<Rightarrow> health" where
  "ledger_health l =
     (let active = active_batch l; durations = filter_map proof_duration_ms (batch_values l) in
      \<lparr>he_queue_depth = length (ledger_pending l),
       he_active_batch = map_option ba_id active,
       he_active_batch_size = (case active of None \<Rightarrow> 0 | Some b \<Rightarrow> length (ba_members b)),
       he_proving_since_ms = map_option ba_formed_at_ms active,
       he_last_proof_ms =
         (case max_by_key ba_proven_at_ms (filter (\<lambda>b. ba_proven_at_ms b \<noteq> None) (batch_values l)) of
            None \<Rightarrow> None | Some b \<Rightarrow> proof_duration_ms b),
       he_average_proof_ms =
         (if durations = [] then None
          else Some (sum_list durations div of_nat (length durations))),
       he_unconfirmed_releases = length (filter awaits_confirmation (return_values l))\<rparr>)"

section \<open>Record updates\<close>

definition requeue_after_stop :: "u128 \<Rightarrow> return_record \<Rightarrow> return_record" where
  "requeue_after_stop at_ms r =
     transition_with Queued at_ms
       ''Proof stopped with the service; the return is proven again when it starts''
       (r\<lparr>rr_not_before_ms := None, rr_failure := None\<rparr>)"

definition schedule_after_interruption ::
  "retry_policy \<Rightarrow> u128 \<Rightarrow> return_record \<Rightarrow> return_record" where
  "schedule_after_interruption retry at_ms r =
     (let attempts = rr_attempts r + 1 in
      if parked retry attempts then
        transition Failed at_ms
          (r\<lparr>rr_attempts := attempts, rr_not_before_ms := None,
             rr_failure := Some (terminal_failure ProvingFailed
               (''proof interrupted by a service restart; parked after '' @ dec_text (unat attempts)
                @ '' attempts, needs operator attention''))\<rparr>)
      else
        transition_with Queued at_ms
          (''Proof interrupted by a service restart; retry '' @ dec_text (unat (attempts + 1))
           @ '' of '' @ dec_text (unat (rp_max_attempts retry)) @ '' scheduled'')
          (r\<lparr>rr_attempts := attempts, rr_not_before_ms := Some (not_before retry attempts at_ms),
             rr_failure := None\<rparr>))"

definition schedule_retry ::
  "error_kind \<Rightarrow> string \<Rightarrow> retry_policy \<Rightarrow> u128 \<Rightarrow> return_record \<Rightarrow> return_record" where
  "schedule_retry kind message retry at_ms r =
     (let attempts = rr_attempts r + 1 in
      transition Failed at_ms
        (if parked retry attempts then
           r\<lparr>rr_attempts := attempts, rr_not_before_ms := None,
             rr_failure := Some (terminal_failure kind
               (message @ ''; parked after '' @ dec_text (unat attempts)
                @ '' attempts, needs operator attention''))\<rparr>
         else
           r\<lparr>rr_attempts := attempts, rr_not_before_ms := Some (not_before retry attempts at_ms),
             rr_failure := Some (recoverable kind
               (message @ '' (attempt '' @ dec_text (unat attempts) @ '' of ''
                @ dec_text (unat (rp_max_attempts retry)) @ '', retry scheduled)''))\<rparr>))"

section \<open>Handlers\<close>

definition update_return :: "string \<Rightarrow> (bridge_return \<Rightarrow> bridge_return) \<Rightarrow> ledger \<Rightarrow> ledger" where
  "update_return rid f l =
     l\<lparr>lg_returns := map (\<lambda>(k, r). (k, if k = rid then f r else r)) (lg_returns l)\<rparr>"

definition update_batch :: "string \<Rightarrow> (batch \<Rightarrow> batch) \<Rightarrow> ledger \<Rightarrow> ledger" where
  "update_batch bid f l =
     l\<lparr>lg_batches := map (\<lambda>(k, b). (k, if k = bid then f b else b)) (lg_batches l)\<rparr>"

definition on_record :: "(return_record \<Rightarrow> return_record) \<Rightarrow> bridge_return \<Rightarrow> bridge_return" where
  "on_record f r = r\<lparr>rt_record := f (rt_record r)\<rparr>"

text \<open>The members of a batch that are still in it, each changed by \<open>f\<close>.\<close>

definition for_members :: "string \<Rightarrow> (return_record \<Rightarrow> return_record) \<Rightarrow> ledger \<Rightarrow> ledger" where
  "for_members bid f l =
     (let ids = (case map_of (lg_batches l) bid of None \<Rightarrow> [] | Some b \<Rightarrow> ba_members b) in
      l\<lparr>lg_returns := map (\<lambda>(k, r). (k, if bn_id (rt_burn r) \<in> set ids \<and> in_batch bid r
                                        then on_record f r else r)) (lg_returns l)\<rparr>)"

definition ledger_accept :: "service_burn \<Rightarrow> return_record \<Rightarrow> ledger \<Rightarrow> ledger" where
  "ledger_accept burn record l =
     (let nl = to_lowercase (rr_nullifier record) in
      if map_of (lg_by_nullifier l) nl \<noteq> None then l
      else l\<lparr>lg_accepted := lg_accepted l + 1,
             lg_by_nullifier := AList.update nl (bn_id burn) (lg_by_nullifier l),
             lg_returns := AList.update (bn_id burn)
               \<lparr>rt_seq = lg_accepted l + 1, rt_burn = burn, rt_record = record\<rparr> (lg_returns l)\<rparr>)"

definition requeue_record :: "u128 \<Rightarrow> retry_policy \<Rightarrow> return_record \<Rightarrow> return_record" where
  "requeue_record at_ms retry r =
     (if rr_status r = Submitted then
        transition_with Queued at_ms
          ''The vault log no longer shows this return released; it is proven again''
          (r\<lparr>rr_not_before_ms := None, rr_failure := None\<rparr>)
      else if \<not> failed_recoverably r then r
      else
        let message =
          (case rr_not_before_ms r of
             Some t \<Rightarrow>
               if at_ms < t then
                 ''Return re-queued; retry '' @ dec_text (unat (rr_attempts r + 1)) @ '' of ''
                 @ dec_text (unat (rp_max_attempts retry)) @ '' scheduled at '' @ dec_text (unat t)
               else ''Return re-queued for the next proving batch''
           | None \<Rightarrow> ''Return re-queued for the next proving batch'')
        in transition_with Queued at_ms message (r\<lparr>rr_failure := None\<rparr>))"

definition ledger_requeue :: "string \<Rightarrow> u128 \<Rightarrow> retry_policy \<Rightarrow> ledger \<Rightarrow> ledger" where
  "ledger_requeue rid at_ms retry l = update_return rid (on_record (requeue_record at_ms retry)) l"

definition enter_batch :: "string \<Rightarrow> u128 \<Rightarrow> bridge_return \<Rightarrow> bridge_return" where
  "enter_batch bid at_ms r =
     (if is_pending r
      then on_record (\<lambda>rec. transition Proving at_ms (rec\<lparr>rr_batch_id := Some bid, rr_failure := None\<rparr>)) r
      else r)"

definition ledger_form ::
  "hexlib \<Rightarrow> (bytes \<Rightarrow> bytes) \<Rightarrow> string list \<Rightarrow> u128 \<Rightarrow> ledger \<Rightarrow> ledger" where
  "ledger_form H sha256 members at_ms l =
     (let formed = lg_formed l + 1;
          batch = batch_formed H sha256 formed members at_ms;
          l1 = foldl (\<lambda>l i. update_return i (enter_batch (ba_id batch) at_ms) l)
                 (l\<lparr>lg_formed := formed\<rparr>) members
      in l1\<lparr>lg_batches := AList.update (ba_id batch) batch (lg_batches l1)\<rparr>)"

definition when_batch :: "string \<Rightarrow> (ledger \<Rightarrow> ledger) \<Rightarrow> ledger \<Rightarrow> ledger" where
  "when_batch bid f l = (case map_of (lg_batches l) bid of None \<Rightarrow> l | Some _ \<Rightarrow> f l)"

definition ledger_prove :: "string \<Rightarrow> batch_bundle \<Rightarrow> string \<Rightarrow> u128 \<Rightarrow> ledger \<Rightarrow> ledger" where
  "ledger_prove bid bundle spent_root_old at_ms =
     when_batch bid (\<lambda>l. for_members bid (transition Proven at_ms)
       (update_batch bid (\<lambda>b. b\<lparr>ba_status := Batch_Proven, ba_bundle := Some bundle,
          ba_spent_root_old := Some spent_root_old, ba_proven_at_ms := Some at_ms\<rparr>) l))"

definition settle_record :: "string option \<Rightarrow> u128 \<Rightarrow> return_record \<Rightarrow> return_record" where
  "settle_record txid at_ms r =
     (let r1 = r\<lparr>rr_settle_txid := txid\<rparr> in
      case txid of
        Some _ \<Rightarrow> transition Settled at_ms r1
      | None \<Rightarrow> transition_with Settled at_ms
          ''Return settled on the source chain (txid not recorded)'' r1)"

definition ledger_settle :: "string \<Rightarrow> string option \<Rightarrow> u128 \<Rightarrow> ledger \<Rightarrow> ledger" where
  "ledger_settle bid txid at_ms =
     when_batch bid (\<lambda>l. for_members bid (settle_record txid at_ms)
       (update_batch bid (\<lambda>b. b\<lparr>ba_status := Batch_Settled,
          ba_bundle := map_option (\<lambda>bundle. bundle\<lparr>bb_settle_txid := txid\<rparr>) (ba_bundle b)\<rparr>) l))"

definition ledger_fail ::
  "string \<Rightarrow> error_kind \<Rightarrow> string \<Rightarrow> u128 \<Rightarrow> retry_policy \<Rightarrow> ledger \<Rightarrow> ledger" where
  "ledger_fail bid kind message at_ms retry =
     when_batch bid (\<lambda>l. for_members bid (schedule_retry kind message retry at_ms)
       (update_batch bid (\<lambda>b. b\<lparr>ba_status := Batch_Failed\<rparr>) l))"

definition ledger_rebase :: "string \<Rightarrow> u128 \<Rightarrow> ledger \<Rightarrow> ledger" where
  "ledger_rebase bid at_ms =
     when_batch bid (\<lambda>l. for_members bid
         (transition_with Proving at_ms ''Vault root moved; re-proving the batch on the new root'')
       (update_batch bid (\<lambda>b. b\<lparr>ba_rebases := ba_rebases b + 1, ba_bundle := None,
          ba_spent_root_old := None, ba_proven_at_ms := None, ba_status := Batch_Proving\<rparr>) l))"

definition interrupt_record :: "bool \<Rightarrow> u128 \<Rightarrow> retry_policy \<Rightarrow> return_record \<Rightarrow> return_record" where
  "interrupt_record orderly at_ms retry r =
     (if rr_status r \<noteq> Proving then r
      else if orderly then requeue_after_stop at_ms r
      else schedule_after_interruption retry at_ms r)"

definition ledger_interrupt :: "string \<Rightarrow> u128 \<Rightarrow> bool \<Rightarrow> retry_policy \<Rightarrow> ledger \<Rightarrow> ledger" where
  "ledger_interrupt bid at_ms orderly retry =
     when_batch bid (\<lambda>l. for_members bid (interrupt_record orderly at_ms retry)
       (update_batch bid (\<lambda>b. b\<lparr>ba_status := Batch_Interrupted\<rparr>) l))"

definition waiting_message :: "string option \<Rightarrow> string \<Rightarrow> string" where
  "waiting_message txid why =
     ''The vault log shows this return ''
     @ (case txid of Some t \<Rightarrow> ''released in '' @ t | None \<Rightarrow> ''released'')
     @ ''; it settles once a second source confirms that ('' @ why @ '')''"

fun exclude_record ::
  "exclusion \<Rightarrow> u128 \<Rightarrow> retry_policy \<Rightarrow> return_record \<Rightarrow> return_record" where
  "exclude_record (AlreadySettled txid None) at_ms retry r =
     transition_with Settled at_ms
       (case txid of Some t \<Rightarrow> ''Nullifier already released on chain in '' @ t
        | None \<Rightarrow> ''Nullifier already released on chain'')
       (r\<lparr>rr_settle_txid := txid, rr_not_before_ms := None, rr_failure := None\<rparr>)"
| "exclude_record (AlreadySettled txid (Some why)) at_ms retry r =
     (let message = waiting_message txid why;
          r1 = r\<lparr>rr_not_before_ms := Some (at_ms + RELEASE_RECHECK_MS)\<rparr>
      in if rr_status r1 = Submitted \<and> rr_message r1 = message then r1
         else transition_with Submitted at_ms message
                (r1\<lparr>rr_settle_txid := None, rr_failure := None\<rparr>))"
| "exclude_record (Rejected message) at_ms retry r =
     schedule_retry SubmissionFailed (''rejected by the settlement simulation: '' @ message) retry at_ms r"
| "exclude_record (Invalid message) at_ms retry r =
     transition Failed at_ms (r\<lparr>rr_failure := Some (terminal_failure ChainRejected message)\<rparr>)"

definition ledger_exclude :: "string \<Rightarrow> exclusion \<Rightarrow> u128 \<Rightarrow> retry_policy \<Rightarrow> ledger \<Rightarrow> ledger" where
  "ledger_exclude rid reason at_ms retry l =
     update_return rid (on_record (exclude_record reason at_ms retry)) l"

fun apply_event ::
  "hexlib \<Rightarrow> (bytes \<Rightarrow> bytes) \<Rightarrow> retry_policy \<Rightarrow> ledger \<Rightarrow> event \<Rightarrow> ledger" where
  "apply_event H sha256 retry l (Snapshot snapshot) = snapshot"
| "apply_event H sha256 retry l (Accepted burn record) = ledger_accept burn record l"
| "apply_event H sha256 retry l (Requeued rid at_ms) = ledger_requeue rid at_ms retry l"
| "apply_event H sha256 retry l (BatchFormed members at_ms) = ledger_form H sha256 members at_ms l"
| "apply_event H sha256 retry l (BatchProven bid bundle spent_root_old at_ms) =
     ledger_prove bid bundle spent_root_old at_ms l"
| "apply_event H sha256 retry l (BatchSettled bid txid at_ms) = ledger_settle bid txid at_ms l"
| "apply_event H sha256 retry l (BatchFailed bid kind message at_ms) =
     ledger_fail bid kind message at_ms retry l"
| "apply_event H sha256 retry l (BatchRebased bid at_ms) = ledger_rebase bid at_ms l"
| "apply_event H sha256 retry l (BatchInterrupted bid at_ms orderly) =
     ledger_interrupt bid at_ms orderly retry l"
| "apply_event H sha256 retry l (ReturnExcluded rid reason at_ms) =
     ledger_exclude rid reason at_ms retry l"

end
