(* ===== verification/Ledger_Proofs.thy ===== *)
theory Ledger_Proofs
  imports Ledger
begin

text \<open>
  The invariant of the ledger and its preservation by every event the service commits; the
  runs of the ledger as a step relation, and what holds in every reachable state.
\<close>

section \<open>Association lists\<close>

lemma map_of_map_values [simp]:
  "map_of (map (\<lambda>(k, v). (k, g k v)) xs) k = map_option (g k) (map_of xs k)"
  by (induction xs) auto

lemma fst_map_values [simp]: "map fst (map (\<lambda>(k, v). (k, g k v)) xs) = map fst xs"
  by (induction xs) auto

section \<open>The invariant\<close>

definition rec_done :: "return_record \<Rightarrow> bool" where
  "rec_done r \<longleftrightarrow> rr_status r = Settled \<or> rr_status r = Failed \<and> \<not> failed_recoverably r"

lemma is_done_rec: "is_done r = rec_done (rt_record r)"
  by (simp add: is_done_def rec_done_def)

text \<open>What the wallet polls agrees with the status, a failure is recoverable only while attempts are
  left, and the count of the attempts of a return that can make another one is not at its last value.\<close>

definition flags_ok :: "return_record \<Rightarrow> bool" where
  "flags_ok r \<longleftrightarrow> (rr_terminal r \<longleftrightarrow> rec_done r)
     \<and> rr_success r = (if rr_status r = Settled then Some True
                       else if rec_done r then Some False else None)"

definition rec_ok :: "retry_policy \<Rightarrow> return_record \<Rightarrow> bool" where
  "rec_ok retry r \<longleftrightarrow> flags_ok r \<and> (failed_recoverably r \<longrightarrow> rr_attempts r < rp_max_attempts retry)
     \<and> (\<not> rec_done r \<longrightarrow> rr_attempts r < rr_attempts r + 1)"

text \<open>A return being proven is a member of its batch, which is at the same stage.\<close>

definition link_ok :: "(string \<times> batch) list \<Rightarrow> string \<Rightarrow> return_record \<Rightarrow> bool" where
  "link_ok bs k r \<longleftrightarrow>
     (rr_status r = Proving \<longrightarrow> (\<exists>b B. rr_batch_id r = Some b \<and> map_of bs b = Some B
        \<and> k \<in> set (ba_members B) \<and> ba_status B = Batch_Proving))
     \<and> (rr_status r = Proven \<longrightarrow> (\<exists>b B. rr_batch_id r = Some b \<and> map_of bs b = Some B
        \<and> k \<in> set (ba_members B) \<and> ba_status B = Batch_Proven))"

definition batch_ok :: "batch \<Rightarrow> bool" where
  "batch_ok b \<longleftrightarrow> (ba_status b = Batch_Proving \<longrightarrow> ba_bundle b = None)
     \<and> (ba_status b = Batch_Proven \<longrightarrow>
          ba_bundle b \<noteq> None \<and> ba_spent_root_old b \<noteq> None \<and> ba_proven_at_ms b \<noteq> None)"

definition batches_ok :: "(string \<times> batch) list \<Rightarrow> bool" where
  "batches_ok bs \<longleftrightarrow> distinct (map fst bs)
     \<and> (\<forall>k b. map_of bs k = Some b \<longrightarrow> ba_id b = k \<and> batch_ok b)
     \<and> (\<forall>k b j c. map_of bs k = Some b \<longrightarrow> map_of bs j = Some c \<longrightarrow>
          ba_status b = Batch_Proving \<longrightarrow> ba_status c = Batch_Proving \<longrightarrow> k = j)"

definition index_ok :: "ledger \<Rightarrow> bool" where
  "index_ok l \<longleftrightarrow> distinct (map fst (lg_returns l))
     \<and> (\<forall>k r. ledger_get l k = Some r \<longrightarrow> bn_id (rt_burn r) = k
          \<and> map_of (lg_by_nullifier l) (to_lowercase (rr_nullifier (rt_record r))) = Some k)
     \<and> (\<forall>n k. map_of (lg_by_nullifier l) n = Some k \<longrightarrow>
          (\<exists>r. ledger_get l k = Some r \<and> to_lowercase (rr_nullifier (rt_record r)) = n))"

definition seq_ok :: "ledger \<Rightarrow> bool" where
  "seq_ok l \<longleftrightarrow> (\<forall>k r. ledger_get l k = Some r \<longrightarrow> rt_seq r \<le> lg_accepted l)
     \<and> (\<forall>k r j s. ledger_get l k = Some r \<longrightarrow> ledger_get l j = Some s \<longrightarrow> rt_seq r = rt_seq s \<longrightarrow> k = j)"

definition ledger_ok :: "retry_policy \<Rightarrow> ledger \<Rightarrow> bool" where
  "ledger_ok retry l \<longleftrightarrow> index_ok l \<and> seq_ok l \<and> batches_ok (lg_batches l)
     \<and> (\<forall>k r. ledger_get l k = Some r \<longrightarrow>
          rec_ok retry (rt_record r) \<and> link_ok (lg_batches l) k (rt_record r))"

lemma flags_ok_transition [simp]: "flags_ok (transition s t r)"
  by (cases "s = Failed") (auto simp: flags_ok_def rec_done_def failed_recoverably_def)

lemma flags_ok_transition_with [simp]: "flags_ok (transition_with s t m r)"
  by (cases "s = Failed") (auto simp: flags_ok_def rec_done_def failed_recoverably_def)

lemma flags_ok_cong:
  "rr_status a = rr_status b \<Longrightarrow> rr_failure a = rr_failure b \<Longrightarrow> rr_terminal a = rr_terminal b
   \<Longrightarrow> rr_success a = rr_success b \<Longrightarrow> flags_ok a = flags_ok b"
  by (simp add: flags_ok_def rec_done_def failed_recoverably_def)

lemma not_done_cases:
  "\<not> rec_done r \<longleftrightarrow> rr_status r \<in> {Queued, Proving, Proven, Submitted} \<or> failed_recoverably r"
  by (cases "rr_status r") (auto simp: rec_done_def failed_recoverably_def)

lemma index_ok_known:
  "index_ok l \<Longrightarrow> map_of (lg_by_nullifier l) n = Some k \<Longrightarrow>
   \<exists>r. ledger_get l k = Some r \<and> to_lowercase (rr_nullifier (rt_record r)) = n"
  unfolding index_ok_def by blast

lemma index_okD:
  assumes "index_ok l" "ledger_get l k = Some r"
  shows "bn_id (rt_burn r) = k"
    "map_of (lg_by_nullifier l) (to_lowercase (rr_nullifier (rt_record r))) = Some k"
  using assms unfolding index_ok_def by blast+

lemma batches_okD:
  assumes "batches_ok bs" "map_of bs k = Some b"
  shows "ba_id b = k" "batch_ok b"
  using assms unfolding batches_ok_def by blast+

lemma batches_ok_unique:
  assumes "batches_ok bs" "map_of bs k = Some b" "map_of bs j = Some c"
    "ba_status b = Batch_Proving" "ba_status c = Batch_Proving"
  shows "k = j"
  using assms unfolding batches_ok_def by blast

lemma link_ok_mono:
  assumes "link_ok bs k r" "\<And>j B. map_of bs j = Some B \<Longrightarrow> map_of bs' j = Some B"
  shows "link_ok bs' k r"
  using assms unfolding link_ok_def by blast

section \<open>Updates of the returns\<close>

lemma ledger_ok_mapped:
  assumes ok: "ledger_ok retry l"
    and l': "lg_returns l' = map (\<lambda>(k, r). (k, g k r)) (lg_returns l)"
      "lg_by_nullifier l' = lg_by_nullifier l" "lg_accepted l' = lg_accepted l"
    and frame: "\<forall>k r. rt_burn (g k r) = rt_burn r \<and> rt_seq (g k r) = rt_seq r
      \<and> rr_nullifier (rt_record (g k r)) = rr_nullifier (rt_record r)"
    and bs: "batches_ok (lg_batches l')"
    and recs: "\<And>k r. ledger_get l k = Some r \<Longrightarrow> rec_ok retry (rt_record (g k r))
      \<and> link_ok (lg_batches l') k (rt_record (g k r))"
  shows "ledger_ok retry l'"
proof -
  have get: "ledger_get l' k = map_option (g k) (ledger_get l k)" for k
    by (simp add: ledger_get_def l'(1))
  have io: "index_ok l" and so: "seq_ok l" using ok by (simp_all add: ledger_ok_def)
  have d: "distinct (map fst (lg_returns l'))"
    unfolding l'(1) fst_map_values using io by (simp add: index_ok_def)
  have "index_ok l'"
    unfolding index_ok_def
  proof (intro conjI allI impI)
    fix k r assume "ledger_get l' k = Some r"
    then obtain s where "ledger_get l k = Some s" "r = g k s" by (auto simp: get)
    then show "bn_id (rt_burn r) = k"
      "map_of (lg_by_nullifier l') (to_lowercase (rr_nullifier (rt_record r))) = Some k"
      using io frame by (simp_all add: index_ok_def l'(2))
  next
    fix n k assume "map_of (lg_by_nullifier l') n = Some k"
    then obtain s where "ledger_get l k = Some s" "to_lowercase (rr_nullifier (rt_record s)) = n"
      using index_ok_known[OF io] unfolding l'(2) by blast
    then show "\<exists>r. ledger_get l' k = Some r \<and> to_lowercase (rr_nullifier (rt_record r)) = n"
      using frame by (auto simp: get)
  qed (rule d)
  moreover have "seq_ok l'"
    using so frame unfolding seq_ok_def by (auto simp: get l'(3))
  moreover have "rec_ok retry (rt_record r) \<and> link_ok (lg_batches l') k (rt_record r)"
    if "ledger_get l' k = Some r" for k r
    using that recs by (auto simp: get)
  ultimately show ?thesis using bs by (simp add: ledger_ok_def)
qed

lemma ledger_okD:
  assumes "ledger_ok retry l" "ledger_get l k = Some r"
  shows "bn_id (rt_burn r) = k" "rec_ok retry (rt_record r)" "link_ok (lg_batches l) k (rt_record r)"
  using assms by (simp_all add: ledger_ok_def index_ok_def)

text \<open>An update of one return, by a change of its record that leaves it out of every batch or
  leaves its stage alone.\<close>

lemma update_return_ok:
  assumes ok: "ledger_ok retry l"
    and keep: "\<forall>x. rr_nullifier (f x) = rr_nullifier x"
    and recs: "\<And>r. ledger_get l rid = Some r \<Longrightarrow> rec_ok retry (f (rt_record r))
      \<and> (f (rt_record r) = rt_record r \<or> rr_status (f (rt_record r)) \<notin> {Proving, Proven})"
  shows "ledger_ok retry (update_return rid (on_record f) l)"
proof (rule ledger_ok_mapped[OF ok, where g = "\<lambda>k r. if k = rid then on_record f r else r"])
  show "batches_ok (lg_batches (update_return rid (on_record f) l))"
    using ok by (simp add: ledger_ok_def update_return_def)
  fix k r assume g: "ledger_get l k = Some r"
  show "rec_ok retry (rt_record (if k = rid then on_record f r else r))
      \<and> link_ok (lg_batches (update_return rid (on_record f) l)) k (rt_record (if k = rid then on_record f r else r))"
    using ledger_okD[OF ok g] recs[of r] g
    by (cases "k = rid") (auto simp: update_return_def on_record_def link_ok_def)
qed (use keep in \<open>simp_all add: update_return_def on_record_def\<close>)

section \<open>Updates of a batch and its members\<close>

lemma map_of_update_batch:
  "map_of (lg_batches (update_batch bid h l)) k
     = map_option (\<lambda>b. if k = bid then h b else b) (map_of (lg_batches l) k)"
  by (simp add: update_batch_def)

lemma for_members_mapped:
  assumes ok: "ledger_ok retry l" and B: "map_of (lg_batches l) bid = Some B"
    and h: "ba_members (h B) = ba_members B"
  shows "lg_returns (for_members bid f (update_batch bid h l))
    = map (\<lambda>(k, r). (k, if in_batch bid r then on_record f r else r)) (lg_returns l)"
proof -
  have m: "bn_id (rt_burn r) \<in> set (ba_members B)" if "(k, r) \<in> set (lg_returns l)" "in_batch bid r" for k r
  proof -
    have "ledger_get l k = Some r"
      using that(1) ok by (simp add: ledger_get_def ledger_ok_def index_ok_def map_of_is_SomeI)
    note ledger_okD[OF ok this]
    with that(2) B show ?thesis by (auto simp: link_ok_def in_batch_def)
  qed
  have "map_of (lg_batches (update_batch bid h l)) bid = Some (h B)"
    by (simp add: map_of_update_batch B)
  then show ?thesis
    using m h by (auto simp: for_members_def update_batch_def)
qed

lemma batch_event_ok:
  assumes ok: "ledger_ok retry l" and B: "map_of (lg_batches l) bid = Some B"
    and h: "ba_id (h B) = ba_id B" "ba_members (h B) = ba_members B" "batch_ok (h B)"
    and uniq: "ba_status (h B) = Batch_Proving \<Longrightarrow>
      \<forall>k b. map_of (lg_batches l) k = Some b \<longrightarrow> ba_status b = Batch_Proving \<longrightarrow> k = bid"
    and keep: "\<forall>x. rr_nullifier (f x) = rr_nullifier x \<and> rr_batch_id (f x) = rr_batch_id x"
    and recs: "\<And>x. rr_status x \<in> {Proving, Proven} \<Longrightarrow> rec_ok retry x \<Longrightarrow>
        (rr_status x = Proving \<longleftrightarrow> ba_status B = Batch_Proving) \<Longrightarrow> rec_ok retry (f x)
        \<and> (rr_status (f x) = Proving \<longrightarrow> ba_status (h B) = Batch_Proving)
        \<and> (rr_status (f x) = Proven \<longrightarrow> ba_status (h B) = Batch_Proven)"
  shows "ledger_ok retry (for_members bid f (update_batch bid h l))"
proof (rule ledger_ok_mapped[OF ok for_members_mapped[where h = h and f = f, OF ok B h(2)]])
  let ?l' = "for_members bid f (update_batch bid h l)"
  have bs: "map_of (lg_batches ?l') k = map_option (\<lambda>b. if k = bid then h b else b) (map_of (lg_batches l) k)" for k
    by (simp add: for_members_def map_of_update_batch)
  have bo: "batches_ok (lg_batches l)" using ok by (simp add: ledger_ok_def)
  have d: "distinct (map fst (lg_batches ?l'))"
    using bo unfolding batches_ok_def for_members_def update_batch_def
    by (simp del: map_map add: Let_def)
  show "batches_ok (lg_batches ?l')"
    unfolding batches_ok_def
  proof (intro conjI allI impI)
    fix k b assume b: "map_of (lg_batches ?l') k = Some b"
    then obtain b1 where b1: "map_of (lg_batches l) k = Some b1" "b = (if k = bid then h b1 else b1)"
      by (auto simp: bs)
    show "ba_id b = k" "batch_ok b"
      using b1 batches_okD[OF bo b1(1)] h B by (cases "k = bid"; simp)+
    fix j c assume c: "map_of (lg_batches ?l') j = Some c"
      and p: "ba_status b = Batch_Proving" "ba_status c = Batch_Proving"
    obtain b0 c0 where bc: "map_of (lg_batches l) k = Some b0" "map_of (lg_batches l) j = Some c0"
      "b = (if k = bid then h b0 else b0)" "c = (if j = bid then h c0 else c0)"
      using b c by (auto simp: bs)
    show "k = j"
    proof (cases "k = bid \<or> j = bid")
      case True
      then have "ba_status (h B) = Batch_Proving" using bc p B by (auto split: if_splits)
      from uniq[OF this] bc p True show ?thesis by (auto split: if_splits)
    next
      case False
      then have "ba_status b0 = Batch_Proving" "ba_status c0 = Batch_Proving" using bc p by simp_all
      with batches_ok_unique[OF bo bc(1,2)] show ?thesis by blast
    qed
  qed (rule d)
  fix k r assume g: "ledger_get l k = Some r"
  note r = ledger_okD[OF ok g]
  show "rec_ok retry (rt_record (if in_batch bid r then on_record f r else r))
      \<and> link_ok (lg_batches ?l') k (rt_record (if in_batch bid r then on_record f r else r))"
  proof (cases "in_batch bid r")
    case True
    then have s: "rr_status (rt_record r) \<in> {Proving, Proven}" "rr_batch_id (rt_record r) = Some bid"
      by (simp_all add: in_batch_def)
    then have m: "k \<in> set (ba_members B)" "(rr_status (rt_record r) = Proving) = (ba_status B = Batch_Proving)"
      using r(3) B by (auto simp: link_ok_def)
    from recs[OF s(1) r(2) m(2)] True keep s m(1) B h(2) show ?thesis
      by (auto simp: on_record_def link_ok_def bs)
  next
    case False
    with r show ?thesis by (auto simp: link_ok_def bs in_batch_def)
  qed
qed (use keep in \<open>simp_all add: for_members_def update_batch_def on_record_def\<close>)

lemma when_batch_ok:
  "ledger_ok retry l \<Longrightarrow> (\<And>B. map_of (lg_batches l) bid = Some B \<Longrightarrow> ledger_ok retry (f l)) \<Longrightarrow>
   ledger_ok retry (when_batch bid f l)"
  by (auto simp: when_batch_def split: option.splits)

section \<open>The handlers keep the invariant\<close>

lemma not_doneD: "rec_ok retry r \<Longrightarrow> \<not> rec_done r \<Longrightarrow> rr_attempts r < rr_attempts r + 1"
  by (simp add: rec_ok_def)

lemma recoverable_attempts:
  "rec_ok retry r \<Longrightarrow> failed_recoverably r \<Longrightarrow> rr_attempts r < rp_max_attempts retry"
  by (simp add: rec_ok_def)

text \<open>A count below another one is not at its last value.\<close>

lemma room_above:
  fixes a m :: u32
  assumes "a < m"
  shows "a < a + 1"
proof -
  have "unat a < 2 ^ 32 - 1" using assms unsigned_less[of m, where 'a=nat] by (simp add: word_less_nat_alt)
  then show ?thesis by (simp add: word_less_nat_alt unat_word_ariths)
qed

lemma one_more_room:
  fixes a :: u32
  assumes "a < a + 1"
  shows "unat (a + 1) = unat a + 1"
  using assms unsigned_less[of a, where 'a=nat]
  by (cases "unat a = 2 ^ 32 - 1") (simp_all add: word_less_nat_alt unat_word_ariths)

lemma one_more:
  fixes a m :: u32
  assumes "a < m"
  shows "a + 1 \<le> m" "unat (a + 1) = unat a + 1"
proof -
  show u: "unat (a + 1) = unat a + 1" by (rule one_more_room[OF room_above[OF assms]])
  with assms show "a + 1 \<le> m" by (simp add: word_le_nat_alt word_less_nat_alt)
qed

lemma rec_ok_transition:
  assumes "rr_attempts r < rr_attempts r + 1
      \<or> s = Settled \<or> s = Failed \<and> (\<forall>f. rr_failure r = Some f \<longrightarrow> \<not> rf_recoverable f)"
    and "s = Failed \<Longrightarrow> \<exists>f. rr_failure r = Some f \<and> rf_recoverable f \<Longrightarrow> rr_attempts r < rp_max_attempts retry"
  shows "rec_ok retry (transition s t r)"
  using assms by (auto simp: rec_ok_def rec_done_def failed_recoverably_def split: option.splits)

lemma rec_ok_transition_with:
  assumes "rr_attempts r < rr_attempts r + 1 \<or> s = Settled" "s \<noteq> Failed"
  shows "rec_ok retry (transition_with s t m r)"
  using assms by (auto simp: rec_ok_def rec_done_def failed_recoverably_def)

text \<open>A failed attempt either parks the return or leaves it attempts.\<close>

lemma schedule_retry_ok: "rec_ok retry (schedule_retry kind message retry t r)"
  by (auto simp: schedule_retry_def Let_def parked_def terminal_failure_def recoverable_def not_le
      intro!: rec_ok_transition dest: room_above)

lemma schedule_after_interruption_ok: "rec_ok retry (schedule_after_interruption retry t r)"
  by (auto simp: schedule_after_interruption_def Let_def parked_def terminal_failure_def not_le
      intro!: rec_ok_transition rec_ok_transition_with dest: room_above)

lemma schedule_frame [simp]:
  "rr_nullifier (schedule_retry kind message retry t r) = rr_nullifier r"
  "rr_batch_id (schedule_retry kind message retry t r) = rr_batch_id r"
  "rr_status (schedule_retry kind message retry t r) = Failed"
  "rr_nullifier (schedule_after_interruption retry t r) = rr_nullifier r"
  "rr_batch_id (schedule_after_interruption retry t r) = rr_batch_id r"
  "rr_status (schedule_after_interruption retry t r) \<noteq> Proving"
  "rr_status (schedule_after_interruption retry t r) \<noteq> Proven"
  by (simp_all add: schedule_retry_def schedule_after_interruption_def Let_def)

lemma in_stage_not_done: "rr_status x \<in> {Proving, Proven} \<Longrightarrow> \<not> rec_done x"
  by (auto simp: rec_done_def)

lemmas batch_member_simps = for_members_def update_batch_def batch_ok_def batches_ok_def

lemma ledger_prove_ok: "ledger_ok retry l \<Longrightarrow> ledger_ok retry (ledger_prove bid bundle root t l)"
  unfolding ledger_prove_def
  by (rule when_batch_ok, assumption, rule batch_event_ok)
    (auto simp: batch_ok_def intro!: rec_ok_transition dest: not_doneD simp: rec_done_def)

lemma ledger_settle_ok: "ledger_ok retry l \<Longrightarrow> ledger_ok retry (ledger_settle bid txid t l)"
  unfolding ledger_settle_def
  by (rule when_batch_ok, assumption, rule batch_event_ok)
    (auto simp: batch_ok_def settle_record_def Let_def split: option.splits
      intro!: rec_ok_transition rec_ok_transition_with)

lemma ledger_fail_ok: "ledger_ok retry l \<Longrightarrow> ledger_ok retry (ledger_fail bid kind message t retry l)"
  unfolding ledger_fail_def
  by (rule when_batch_ok, assumption, rule batch_event_ok)
    (auto simp: batch_ok_def rec_done_def intro!: schedule_retry_ok)

lemma ledger_rebase_ok:
  assumes "ledger_ok retry l"
    and "\<forall>k b. map_of (lg_batches l) k = Some b \<longrightarrow> ba_status b = Batch_Proving \<longrightarrow> k = bid"
  shows "ledger_ok retry (ledger_rebase bid t l)"
  unfolding ledger_rebase_def
  by (rule when_batch_ok, rule assms(1), rule batch_event_ok)
    (use assms in \<open>auto simp: batch_ok_def rec_done_def intro!: rec_ok_transition_with dest: not_doneD\<close>)

lemma ledger_interrupt_ok:
  assumes "ledger_ok retry l"
    and "\<forall>B. map_of (lg_batches l) bid = Some B \<longrightarrow> ba_status B = Batch_Proving"
  shows "ledger_ok retry (ledger_interrupt bid t orderly retry l)"
  unfolding ledger_interrupt_def
  by (rule when_batch_ok, rule assms(1), rule batch_event_ok)
    (use assms in \<open>auto simp: batch_ok_def rec_done_def interrupt_record_def requeue_after_stop_def
       intro!: rec_ok_transition_with schedule_after_interruption_ok dest: not_doneD\<close>)

lemma ledger_requeue_ok:
  assumes ok: "ledger_ok retry l"
  shows "ledger_ok retry (ledger_requeue rid t retry l)"
  unfolding ledger_requeue_def
proof (rule update_return_ok[OF ok])
  fix r assume "ledger_get l rid = Some r"
  note r = ledger_okD(2)[OF ok this]
  show "rec_ok retry (requeue_record t retry (rt_record r))
      \<and> (requeue_record t retry (rt_record r) = rt_record r
         \<or> rr_status (requeue_record t retry (rt_record r)) \<notin> {Proving, Proven})"
    using r by (auto simp: requeue_record_def Let_def rec_done_def intro!: rec_ok_transition_with
      dest: not_doneD recoverable_attempts[THEN room_above])
qed (simp add: requeue_record_def Let_def)

lemma rec_ok_not_before [simp]: "rec_ok retry (r\<lparr>rr_not_before_ms := x\<rparr>) = rec_ok retry r"
  by (simp add: rec_ok_def rec_done_def failed_recoverably_def flags_ok_def)

lemma exclude_record_ok:
  assumes "rec_ok retry r" "rr_attempts r < rr_attempts r + 1"
  shows "rec_ok retry (exclude_record reason t retry r)"
    "rr_status (exclude_record reason t retry r) \<notin> {Proving, Proven}"
  using assms
  by (cases "(reason, t, retry, r)" rule: exclude_record.cases;
      auto simp: Let_def terminal_failure_def intro!: rec_ok_transition_with rec_ok_transition schedule_retry_ok)+

lemma exclude_record_nullifier [simp]:
  "rr_nullifier (exclude_record reason t retry r) = rr_nullifier r"
  by (cases "(reason, t, retry, r)" rule: exclude_record.cases) (auto simp: Let_def)

lemma ledger_exclude_ok:
  assumes ok: "ledger_ok retry l"
    and "\<forall>r. ledger_get l rid = Some r \<longrightarrow> rr_attempts (rt_record r) < rr_attempts (rt_record r) + 1"
  shows "ledger_ok retry (ledger_exclude rid reason t retry l)"
  unfolding ledger_exclude_def
proof (rule update_return_ok[OF ok])
  fix r assume "ledger_get l rid = Some r"
  with ledger_okD(2)[OF ok this] assms(2)
  show "rec_ok retry (exclude_record reason t retry (rt_record r))
      \<and> (exclude_record reason t retry (rt_record r) = rt_record r
         \<or> rr_status (exclude_record reason t retry (rt_record r)) \<notin> {Proving, Proven})"
    using exclude_record_ok by blast
qed simp

text \<open>Forming a batch takes every member that is pending into it, once.\<close>

lemma enter_batch_twice [simp]: "enter_batch b t (enter_batch b t r) = enter_batch b t r"
  by (simp add: enter_batch_def on_record_def is_pending_def failed_recoverably_def)

lemma foldl_enter_batch:
  "foldl (\<lambda>l i. update_return i (enter_batch b t) l) l ids
     = l\<lparr>lg_returns := map (\<lambda>(k, r). (k, if k \<in> set ids then enter_batch b t r else r)) (lg_returns l)\<rparr>"
  by (induction ids arbitrary: l)
    (auto simp: update_return_def comp_def intro!: map_idI ledger.equality)

lemma ledger_form_eq:
  "ledger_form H sha256 members t l =
     (let b = batch_formed H sha256 (lg_formed l + 1) members t in
      l\<lparr>lg_formed := lg_formed l + 1,
        lg_returns := map (\<lambda>(k, r). (k, if k \<in> set members then enter_batch (ba_id b) t r else r)) (lg_returns l),
        lg_batches := AList.update (ba_id b) b (lg_batches l)\<rparr>)"
  by (simp add: ledger_form_def foldl_enter_batch Let_def)

lemma ledger_form_ok:
  assumes ok: "ledger_ok retry l"
    and fresh: "map_of (lg_batches l) (batch_id_of H sha256 (lg_formed l + 1) members) = None"
    and idle: "\<forall>k b. map_of (lg_batches l) k = Some b \<longrightarrow> ba_status b \<noteq> Batch_Proving"
  shows "ledger_ok retry (ledger_form H sha256 members t l)"
proof -
  define b where "b = batch_formed H sha256 (lg_formed l + 1) members t"
  have b: "ba_id b = batch_id_of H sha256 (lg_formed l + 1) members" "ba_members b = members"
    "ba_status b = Batch_Proving" "ba_bundle b = None"
    by (simp_all add: b_def batch_formed_def)
  let ?l' = "ledger_form H sha256 members t l"
  let ?g = "\<lambda>k r. if k \<in> set members then enter_batch (ba_id b) t r else r"
  have l': "lg_returns ?l' = map (\<lambda>(k, r). (k, ?g k r)) (lg_returns l)"
    "lg_by_nullifier ?l' = lg_by_nullifier l" "lg_accepted ?l' = lg_accepted l"
    "lg_batches ?l' = AList.update (ba_id b) b (lg_batches l)"
    by (simp_all add: ledger_form_eq Let_def b_def[symmetric])
  have bs: "map_of (lg_batches ?l') k = (if k = ba_id b then Some b else map_of (lg_batches l) k)" for k
    by (simp add: l'(4) update_conv')
  have bo: "batches_ok (lg_batches l)" using ok by (simp add: ledger_ok_def)
  have "batches_ok (lg_batches ?l')"
    unfolding batches_ok_def
  proof (intro conjI allI impI)
    show "distinct (map fst (lg_batches ?l'))"
      using bo by (simp add: l'(4) batches_ok_def distinct_update)
  next
    fix k c assume "map_of (lg_batches ?l') k = Some c"
    then show "ba_id c = k" "batch_ok c"
      using batches_okD[OF bo] b by (auto simp: bs batch_ok_def split: if_splits)
  next
    fix k c j d assume "map_of (lg_batches ?l') k = Some c" "map_of (lg_batches ?l') j = Some d"
      "ba_status c = Batch_Proving" "ba_status d = Batch_Proving"
    with idle show "k = j" by (auto simp: bs split: if_splits)
  qed
  then show ?thesis
  proof (rule ledger_ok_mapped[OF ok l'(1-3), rotated])
    fix k r assume "ledger_get l k = Some r"
    note r = ledger_okD[OF ok this]
    have keep: "link_ok (lg_batches ?l') k (rt_record r)"
    proof (rule link_ok_mono[OF r(3)])
      fix j B assume "map_of (lg_batches l) j = Some B"
      with fresh show "map_of (lg_batches ?l') j = Some B" unfolding bs b(1) by auto
    qed
    show "rec_ok retry (rt_record (?g k r)) \<and> link_ok (lg_batches ?l') k (rt_record (?g k r))"
    proof (cases "k \<in> set members \<and> is_pending r")
      case True
      let ?x = "transition Proving t ((rt_record r)\<lparr>rr_batch_id := Some (ba_id b), rr_failure := None\<rparr>)"
      have "rr_attempts (rt_record r) < rr_attempts (rt_record r) + 1"
        using True not_doneD[OF r(2)] recoverable_attempts[OF r(2), THEN room_above]
        by (auto simp: is_pending_def rec_done_def)
      then have "rec_ok retry ?x" by (intro rec_ok_transition) simp_all
      moreover have "link_ok (lg_batches ?l') k ?x" using True b by (simp add: link_ok_def bs)
      moreover have "rt_record (?g k r) = ?x" using True by (simp add: enter_batch_def on_record_def)
      ultimately show ?thesis by (simp only: simp_thms)
    next
      case False
      then have "?g k r = r" by (simp add: enter_batch_def)
      with r(2) keep show ?thesis by (simp only: simp_thms)
    qed
  qed (simp add: enter_batch_def on_record_def)
qed

lemma ledger_accept_ok:
  assumes ok: "ledger_ok retry l"
    and new: "map_of (lg_returns l) (bn_id burn) = None"
    and rec: "rr_status record = Queued" "flags_ok record" "rr_attempts record < rp_max_attempts retry"
    and room: "lg_accepted l < lg_accepted l + 1"
  shows "ledger_ok retry (ledger_accept burn record l)"
proof (cases "map_of (lg_by_nullifier l) (to_lowercase (rr_nullifier record))")
  case (Some i)
  then show ?thesis using ok by (simp add: ledger_accept_def Let_def)
next
  case None
  let ?l' = "ledger_accept burn record l"
  let ?r = "\<lparr>rt_seq = lg_accepted l + 1, rt_burn = burn, rt_record = record\<rparr>"
  have l': "lg_returns ?l' = AList.update (bn_id burn) ?r (lg_returns l)"
    "lg_by_nullifier ?l' = AList.update (to_lowercase (rr_nullifier record)) (bn_id burn) (lg_by_nullifier l)"
    "lg_accepted ?l' = lg_accepted l + 1" "lg_batches ?l' = lg_batches l"
    using None by (simp_all add: ledger_accept_def Let_def)
  have get: "ledger_get ?l' k = (if k = bn_id burn then Some ?r else ledger_get l k)" for k
    by (simp add: ledger_get_def l'(1) update_conv')
  have idx: "map_of (lg_by_nullifier ?l') n
      = (if n = to_lowercase (rr_nullifier record) then Some (bn_id burn) else map_of (lg_by_nullifier l) n)" for n
    by (simp add: l'(2) update_conv')
  have io: "index_ok l" and so: "seq_ok l" using ok by (simp_all add: ledger_ok_def)
  have "index_ok ?l'"
    unfolding index_ok_def
  proof (intro conjI allI impI)
    show "distinct (map fst (lg_returns ?l'))"
      using io by (simp add: index_ok_def l'(1) distinct_update)
  next
    fix k r assume "ledger_get ?l' k = Some r"
    then show "bn_id (rt_burn r) = k"
      "map_of (lg_by_nullifier ?l') (to_lowercase (rr_nullifier (rt_record r))) = Some k"
      using index_okD[OF io, of k r] None by (auto simp: get idx split: if_splits)
  next
    fix n k assume "map_of (lg_by_nullifier ?l') n = Some k"
    then show "\<exists>r. ledger_get ?l' k = Some r \<and> to_lowercase (rr_nullifier (rt_record r)) = n"
      using index_ok_known[OF io, of n k] new[folded ledger_get_def] by (auto simp: get idx split: if_splits)
  qed
  moreover have "seq_ok ?l'"
  proof -
    have le: "rt_seq r \<le> lg_accepted l" if "ledger_get l k = Some r" for k r
      using so that by (simp add: seq_ok_def)
    have new_seq: "rt_seq r \<le> lg_accepted l + 1" "rt_seq r \<noteq> lg_accepted l + 1"
      if "ledger_get l k = Some r" for k r
      using le_less_trans[OF le[OF that] room] by simp_all
    have old: "k = j" if "ledger_get l k = Some r" "ledger_get l j = Some s" "rt_seq r = rt_seq s" for k j r s
      using so that unfolding seq_ok_def by blast
    show ?thesis
      unfolding seq_ok_def get l'(3) using new_seq old by (auto split: if_splits dest: sym)
  qed
  moreover have "rec_ok retry record" "link_ok (lg_batches l) (bn_id burn) record"
    using rec room_above[OF rec(3)] by (simp_all add: rec_ok_def link_ok_def)
  ultimately show ?thesis
    using ok by (auto simp: ledger_ok_def get l'(4))
qed

section \<open>Runs of the ledger\<close>

text \<open>
  What the service guarantees of an event it commits in a state: the store accepts a burn whose
  id it does not hold yet with the record of \<open>queued\<close>, and the orchestrator has one batch in the
  prover at a time and interrupts only that one. A batch id is a digest; \<open>BatchFormed\<close> assumes it is
  not that of an earlier batch. An exclusion may be of any return, also of one that has its outcome: a
  batch proven again after a rebase judges all its members again. The two counters, of accepted
  burns and of failed attempts, are assumed not to be at the last value of their width.
\<close>

fun event_ok :: "hexlib \<Rightarrow> (bytes \<Rightarrow> bytes) \<Rightarrow> retry_policy \<Rightarrow> ledger \<Rightarrow> event \<Rightarrow> bool" where
  "event_ok H sha256 retry l (Snapshot s) = ledger_ok retry s"
| "event_ok H sha256 retry l (Accepted burn record) =
     (map_of (lg_returns l) (bn_id burn) = None \<and> rr_status record = Queued \<and> flags_ok record
      \<and> rr_attempts record < rp_max_attempts retry \<and> lg_accepted l < lg_accepted l + 1)"
| "event_ok H sha256 retry l (BatchFormed members t) =
     (map_of (lg_batches l) (batch_id_of H sha256 (lg_formed l + 1) members) = None
      \<and> active_batch l = None)"
| "event_ok H sha256 retry l (BatchRebased bid t) = (\<forall>b. active_batch l = Some b \<longrightarrow> ba_id b = bid)"
| "event_ok H sha256 retry l (BatchInterrupted bid t orderly) =
     (\<forall>b. ledger_batch l bid = Some b \<longrightarrow> ba_status b = Batch_Proving)"
| "event_ok H sha256 retry l (ReturnExcluded rid reason t) =
     (\<forall>r. ledger_get l rid = Some r \<longrightarrow> rr_attempts (rt_record r) < rr_attempts (rt_record r) + 1)"
| "event_ok H sha256 retry l _ = True"

lemma find_map_of:
  "distinct (map fst xs) \<Longrightarrow> find P (map snd xs) = None \<longleftrightarrow> (\<forall>k v. map_of xs k = Some v \<longrightarrow> \<not> P v)"
  by (force simp: find_None_iff)

lemma active_batch_None_iff:
  "batches_ok (lg_batches l) \<Longrightarrow> active_batch l = None \<longleftrightarrow>
     (\<forall>k b. map_of (lg_batches l) k = Some b \<longrightarrow> ba_status b \<noteq> Batch_Proving)"
  unfolding active_batch_def batch_values_def by (rule find_map_of) (simp add: batches_ok_def)

lemma active_batch_unique:
  assumes "batches_ok (lg_batches l)" "map_of (lg_batches l) k = Some b" "ba_status b = Batch_Proving"
  shows "active_batch l = Some b"
proof -
  obtain c where c: "active_batch l = Some c"
    using assms active_batch_None_iff[OF assms(1)] by (cases "active_batch l") auto
  then have "c \<in> set (batch_values l)" "ba_status c = Batch_Proving"
    by (auto simp: active_batch_def find_Some_iff in_set_conv_nth)
  then obtain j where "(j, c) \<in> set (lg_batches l)" by (auto simp: batch_values_def)
  then have j: "map_of (lg_batches l) j = Some c"
    using assms(1) by (simp add: batches_ok_def map_of_is_SomeI)
  from batches_ok_unique[OF assms(1) j assms(2) \<open>ba_status c = Batch_Proving\<close> assms(3)] j assms(2) c
  show ?thesis by simp
qed

lemma apply_event_ok:
  assumes "ledger_ok retry l" "event_ok H sha256 retry l e"
  shows "ledger_ok retry (apply_event H sha256 retry l e)"
proof -
  have bo: "batches_ok (lg_batches l)" using assms(1) by (simp add: ledger_ok_def)
  show ?thesis
  proof (cases e)
    case (BatchFormed members t)
    with assms show ?thesis by (simp add: ledger_form_ok active_batch_None_iff[OF bo])
  next
    case (BatchRebased bid t)
    have "k = bid" if "map_of (lg_batches l) k = Some b" "ba_status b = Batch_Proving" for k b
      using active_batch_unique[OF bo that] batches_okD(1)[OF bo that(1)] assms(2) BatchRebased by simp
    with assms(1) BatchRebased show ?thesis by (simp add: ledger_rebase_ok)
  qed (use assms in \<open>simp_all add: ledger_accept_ok ledger_requeue_ok ledger_prove_ok ledger_settle_ok
    ledger_fail_ok ledger_interrupt_ok ledger_exclude_ok ledger_batch_def\<close>)
qed

end
