(* ===== verification/Ledger_Runs.thy ===== *)
theory Ledger_Runs
  imports Ledger_Proofs
begin

text \<open>
  The runs of the ledger as a step relation, and what holds along every run: the invariant, the
  life cycle of a return as an abstract state machine the ledger refines, the queue order, the bound
  on the attempts, and the state a start or an orderly stop leaves behind. An outcome is final but for
  an exclusion of the same return, which judges it again (\<open>settled_reopened\<close> is a run in which that happens).
\<close>

section \<open>Runs\<close>

inductive ledger_run ::
  "hexlib \<Rightarrow> (bytes \<Rightarrow> bytes) \<Rightarrow> retry_policy \<Rightarrow> ledger \<Rightarrow> event list \<Rightarrow> ledger \<Rightarrow> bool"
  for H sha256 retry where
  stay: "ledger_run H sha256 retry l [] l"
| step: "event_ok H sha256 retry l e \<Longrightarrow>
    ledger_run H sha256 retry (apply_event H sha256 retry l e) es l' \<Longrightarrow>
    ledger_run H sha256 retry l (e # es) l'"

inductive_simps ledger_run_simps [simp]:
  "ledger_run H sha256 retry l [] l'"
  "ledger_run H sha256 retry l (e # es) l'"

lemma ledger_run_foldl: "ledger_run H sha256 retry l es l' \<Longrightarrow> l' = foldl (apply_event H sha256 retry) l es"
  by (induction rule: ledger_run.induct) auto

lemma ledger_run_keeps:
  assumes "ledger_run H sha256 retry l es l'" "ledger_ok retry l"
  shows "ledger_ok retry l'"
  using assms by (induction rule: ledger_run.induct) (auto intro: apply_event_ok)

lemma ledger_default_ok: "ledger_ok retry ledger_default"
  by (simp add: ledger_ok_def ledger_default_def index_ok_def seq_ok_def batches_ok_def ledger_get_def)

section \<open>The life cycle of a return\<close>

text \<open>
  The contract of the ledger with a wallet, as a machine on one return. The number counts the failed
  attempts. \<open>verdict\<close> is what can become of a return that is judged: it settles, it is released but not
  confirmed yet, it fails with attempts left, it fails with none left, or it can never succeed.
\<close>

datatype life =
    Waiting u32 | InBatch u32 "string option" | Released u32 | Succeeded u32 | GaveUp u32

definition life_of :: "return_record \<Rightarrow> life" where
  "life_of r =
     (if rr_status r = Settled then Succeeded (rr_attempts r)
      else if rec_done r then GaveUp (rr_attempts r)
      else if rr_status r \<in> {Proving, Proven} then InBatch (rr_attempts r) (rr_batch_id r)
      else if rr_status r = Submitted then Released (rr_attempts r)
      else Waiting (rr_attempts r))"

fun attempts_of :: "life \<Rightarrow> u32" where
  "attempts_of (Waiting n) = n"
| "attempts_of (InBatch n b) = n"
| "attempts_of (Released n) = n"
| "attempts_of (Succeeded n) = n"
| "attempts_of (GaveUp n) = n"

fun final_life :: "life \<Rightarrow> bool" where
  "final_life (Succeeded n) = True"
| "final_life (GaveUp n) = True"
| "final_life _ = False"

inductive verdict_on :: "retry_policy \<Rightarrow> u32 \<Rightarrow> life \<Rightarrow> bool" for retry where
  settles: "verdict_on retry n (Succeeded n)"
| releases: "verdict_on retry n (Released n)"
| refuses: "n + 1 < rp_max_attempts retry \<Longrightarrow> verdict_on retry n (Waiting (n + 1))"
| parks: "rp_max_attempts retry \<le> n + 1 \<Longrightarrow> verdict_on retry n (GaveUp (n + 1))"
| rejects: "verdict_on retry n (GaveUp n)"

inductive life_step :: "retry_policy \<Rightarrow> life \<Rightarrow> life \<Rightarrow> bool" for retry where
  enter: "life_step retry (Waiting n) (InBatch n b)"
| judge: "\<not> final_life s \<Longrightarrow> verdict_on retry (attempts_of s) s' \<Longrightarrow> life_step retry s s'"
| unrelease: "life_step retry (Released n) (Waiting n)"
| abandon: "life_step retry (InBatch n b) (Waiting n)"

inductive_cases life_step_final: "life_step retry (Succeeded n) s" "life_step retry (GaveUp n) s"

lemma attempts_of_life [simp]: "attempts_of (life_of r) = rr_attempts r"
  by (simp add: life_of_def)

lemma final_life_of [simp]: "final_life (life_of r) \<longleftrightarrow> rec_done r"
  by (auto simp: life_of_def rec_done_def)

text \<open>The exclusions of one return are the events that can judge it again after its outcome.\<close>

fun excludes :: "event \<Rightarrow> string \<Rightarrow> bool" where
  "excludes (ReturnExcluded i reason t) k \<longleftrightarrow> i = k"
| "excludes _ k \<longleftrightarrow> False"

text \<open>How one event changes a return it finds: not at all, or as the machine allows; an outcome only by
  an exclusion.\<close>

definition evolves :: "retry_policy \<Rightarrow> bool \<Rightarrow> bridge_return \<Rightarrow> bridge_return \<Rightarrow> bool" where
  "evolves retry excluded r r' \<longleftrightarrow> rt_burn r' = rt_burn r \<and> rt_seq r' = rt_seq r
     \<and> (if is_done r
        then if excluded then verdict_on retry (rr_attempts (rt_record r)) (life_of (rt_record r')) else r' = r
        else life_of (rt_record r') = life_of (rt_record r)
          \<or> life_step retry (life_of (rt_record r)) (life_of (rt_record r')))"

lemma evolves_refl [simp]: "evolves retry False r r"
  by (simp add: evolves_def)

lemma evolves_on_record:
  assumes "f (rt_record r) = rt_record r \<or> \<not> is_done r \<and>
    (life_of (f (rt_record r)) = life_of (rt_record r)
      \<or> life_step retry (life_of (rt_record r)) (life_of (f (rt_record r))))"
  shows "evolves retry False r (on_record f r)"
  using assms by (cases r) (auto simp: evolves_def on_record_def)

lemma life_step_verdict:
  "verdict_on retry n s' \<Longrightarrow> life_step retry (InBatch n b) s'"
  using life_step.judge[of "InBatch n b" retry s'] by simp

lemma life_of_transition:
  "life_of (transition s t r) =
     (case s of Settled \<Rightarrow> Succeeded (rr_attempts r)
      | Failed \<Rightarrow> (case rr_failure r of
                     Some f \<Rightarrow> if rf_recoverable f then Waiting (rr_attempts r) else GaveUp (rr_attempts r)
                   | None \<Rightarrow> GaveUp (rr_attempts r))
      | Proving \<Rightarrow> InBatch (rr_attempts r) (rr_batch_id r)
      | Proven \<Rightarrow> InBatch (rr_attempts r) (rr_batch_id r)
      | Submitted \<Rightarrow> Released (rr_attempts r)
      | Queued \<Rightarrow> Waiting (rr_attempts r))"
  by (cases s) (auto simp: life_of_def rec_done_def failed_recoverably_def split: option.splits)

lemma life_of_transition_with:
  "life_of (transition_with s t m r) = life_of (transition s t r)"
  by (cases s) (auto simp: life_of_def rec_done_def failed_recoverably_def split: option.splits)

lemmas life_simps = life_of_transition life_of_transition_with

lemma life_of_schedule_retry:
  "life_of (schedule_retry kind m retry t r) =
     (if rp_max_attempts retry \<le> rr_attempts r + 1 then GaveUp (rr_attempts r + 1)
      else Waiting (rr_attempts r + 1))"
  by (simp add: schedule_retry_def Let_def life_simps parked_def terminal_failure_def recoverable_def)

lemma life_of_schedule_after_interruption:
  "life_of (schedule_after_interruption retry t r) =
     (if rp_max_attempts retry \<le> rr_attempts r + 1 then GaveUp (rr_attempts r + 1)
      else Waiting (rr_attempts r + 1))"
  by (simp add: schedule_after_interruption_def Let_def life_simps parked_def terminal_failure_def)

lemma verdict_schedule_retry: "verdict_on retry (rr_attempts r) (life_of (schedule_retry kind m retry t r))"
  by (auto simp: life_of_schedule_retry not_le intro: verdict_on.intros)

lemma verdict_schedule_after_interruption:
  "verdict_on retry (rr_attempts r) (life_of (schedule_after_interruption retry t r))"
  by (auto simp: life_of_schedule_after_interruption not_le intro: verdict_on.intros)

text \<open>Every exclusion is a verdict, whatever the record was, except on a release that still waits.\<close>

lemma verdict_exclude:
  "exclude_record reason t retry r = r\<lparr>rr_not_before_ms := Some (t + RELEASE_RECHECK_MS)\<rparr> \<and> rr_status r = Submitted
   \<or> verdict_on retry (rr_attempts r) (life_of (exclude_record reason t retry r))"
proof (cases reason)
  case (AlreadySettled txid why)
  then show ?thesis
    by (cases why) (auto simp: Let_def life_simps intro: verdict_on.intros)
next
  case (Rejected m)
  then show ?thesis using verdict_schedule_retry[of retry r] by simp
next
  case (Invalid m)
  then show ?thesis by (simp add: life_simps terminal_failure_def verdict_on.rejects)
qed

lemma life_of_in_stage:
  "rr_status r \<in> {Proving, Proven} \<Longrightarrow> life_of r = InBatch (rr_attempts r) (rr_batch_id r)"
  by (auto simp: life_of_def rec_done_def)

section \<open>What an event does to one return\<close>

lemma get_update_return:
  "ledger_get (update_return rid f l) k = map_option (\<lambda>r. if k = rid then f r else r) (ledger_get l k)"
  by (simp add: ledger_get_def update_return_def)

lemma get_batch_event:
  assumes "ledger_ok retry l" "map_of (lg_batches l) bid = Some B" "ba_members (h B) = ba_members B"
  shows "ledger_get (for_members bid f (update_batch bid h l)) k
    = map_option (\<lambda>r. if in_batch bid r then on_record f r else r) (ledger_get l k)"
  unfolding ledger_get_def for_members_mapped[where f = f and h = h, OF assms] map_of_map_values by simp

lemma get_ledger_form:
  "ledger_get (ledger_form H sha256 members t l) k = map_option
     (\<lambda>r. if k \<in> set members
          then enter_batch (batch_id_of H sha256 (lg_formed l + 1) members) t r else r) (ledger_get l k)"
proof -
  have i: "ba_id (batch_formed H sha256 n members t) = batch_id_of H sha256 n members" for n
    by (simp add: batch_formed_def)
  show ?thesis unfolding ledger_form_eq Let_def ledger_get_def i by simp
qed

lemma absent_batch_event:
  "ledger_get l k = None \<Longrightarrow> ledger_get (when_batch bid (\<lambda>l. for_members bid f (update_batch bid h l)) l) k = None"
  by (auto simp: when_batch_def for_members_def Let_def update_batch_def ledger_get_def map_of_eq_None_iff
      split: option.splits) force

lemma evolves_batch_event:
  assumes "ledger_ok retry l" "ledger_get l k = Some r"
    and h: "\<forall>B. ba_members (h B) = ba_members B"
    and f: "\<And>x. rr_status x \<in> {Proving, Proven} \<Longrightarrow> f x = x \<or> life_of (f x) = life_of x
      \<or> life_step retry (life_of x) (life_of (f x))"
  shows "\<exists>r'. ledger_get (when_batch bid (\<lambda>l. for_members bid f (update_batch bid h l)) l) k = Some r'
    \<and> evolves retry False r r'"
proof (cases "map_of (lg_batches l) bid")
  case None
  then show ?thesis using assms(2) by (simp add: when_batch_def)
next
  case (Some B)
  have "evolves retry False r (on_record f r)" if "in_batch bid r"
    using that f[of "rt_record r"] in_stage_not_done[of "rt_record r"]
    by (intro evolves_on_record) (auto simp: in_batch_def is_done_rec)
  then show ?thesis
    using assms(2) get_batch_event[where f = f and h = h, OF assms(1) Some] h
    by (simp add: when_batch_def Some)
qed

lemma evolves_exclude:
  "evolves retry True r (on_record (exclude_record reason t retry) r)"
proof -
  have same: "life_of (r\<lparr>rr_not_before_ms := x\<rparr>) = life_of r" for r x
    by (simp add: life_of_def rec_done_def failed_recoverably_def)
  show ?thesis
    using verdict_exclude[of reason t retry "rt_record r"] life_step.judge[of "life_of (rt_record r)" retry]
    by (auto simp: evolves_def on_record_def is_done_rec same) (simp add: rec_done_def)
qed

lemma apply_event_evolves:
  assumes ok: "ledger_ok retry l" and ev: "event_ok H sha256 retry l e" "\<forall>s. e \<noteq> Snapshot s"
    and g: "ledger_get l k = Some r"
  shows "\<exists>r'. ledger_get (apply_event H sha256 retry l e) k = Some r' \<and> evolves retry (excludes e k) r r'"
proof (cases e)
  case (Snapshot s)
  with ev show ?thesis by simp
next
  case (Accepted burn rec)
  have "k \<noteq> bn_id burn" using g ev(1) Accepted by (auto simp: ledger_get_def)
  then have "ledger_get (ledger_accept burn rec l) k = Some r"
    using g by (simp add: ledger_accept_def Let_def ledger_get_def update_conv')
  with Accepted show ?thesis by simp
next
  case (Requeued rid t)
  have "evolves retry False r (on_record (requeue_record t retry) r)"
    by (rule evolves_on_record)
      (auto simp: requeue_record_def Let_def is_done_rec life_simps life_of_def rec_done_def failed_recoverably_def
        intro: life_step.intros)
  with Requeued g show ?thesis by (simp add: ledger_requeue_def get_update_return)
next
  case (BatchFormed members t)
  have "evolves retry False r (enter_batch b t r)" for b
    unfolding enter_batch_def
    by (auto simp: life_simps is_done_rec rec_done_def life_of_def is_pending_def failed_recoverably_def
        intro!: evolves_on_record life_step.enter)
  with BatchFormed g show ?thesis by (simp add: get_ledger_form)
next
  case (BatchProven bid bdl old t)
  show ?thesis
    unfolding BatchProven apply_event.simps ledger_prove_def excludes.simps
    by (rule evolves_batch_event[OF ok g]) (simp_all add: life_simps life_of_in_stage)
next
  case (BatchSettled bid txid t)
  show ?thesis
    unfolding BatchSettled apply_event.simps ledger_settle_def excludes.simps
    by (rule evolves_batch_event[OF ok g])
      (auto simp: settle_record_def Let_def life_simps life_of_in_stage
        split: option.splits intro!: life_step_verdict verdict_on.settles)
next
  case (BatchFailed bid kind message t)
  show ?thesis
    unfolding BatchFailed apply_event.simps ledger_fail_def excludes.simps
    by (rule evolves_batch_event[OF ok g])
      (simp_all add: life_of_in_stage life_step_verdict verdict_schedule_retry)
next
  case (BatchRebased bid t)
  show ?thesis
    unfolding BatchRebased apply_event.simps ledger_rebase_def excludes.simps
    by (rule evolves_batch_event[OF ok g]) (simp_all add: life_simps life_of_in_stage)
next
  case (BatchInterrupted bid t orderly)
  show ?thesis
    unfolding BatchInterrupted apply_event.simps ledger_interrupt_def excludes.simps
    by (rule evolves_batch_event[OF ok g])
      (auto simp: interrupt_record_def requeue_after_stop_def life_simps life_of_in_stage
        intro: life_step.abandon life_step_verdict verdict_schedule_after_interruption)
next
  case (ReturnExcluded rid reason t)
  with g evolves_exclude show ?thesis by (cases "rid = k") (simp_all add: ledger_exclude_def get_update_return)
qed

section \<open>The properties of a run\<close>

text \<open>A first run, for the witnesses: a return is accepted, put in a batch, proven and settled.\<close>

definition ex_policy :: retry_policy where
  "ex_policy = \<lparr>rp_base = \<lparr>d_secs = 1, d_nanos = 0\<rparr>, rp_max_attempts = 2, rp_max_rebases = 1\<rparr>"

definition ex_burn :: "string \<Rightarrow> service_burn" where
  "ex_burn i = rt_burn (ex_return i 1)"

definition ex_record :: "string \<Rightarrow> u8 \<Rightarrow> return_record" where
  "ex_record i n = (rt_record (ex_return i 1))\<lparr>rr_nullifier := hex32 std_hex [n]\<rparr>"

abbreviation ex_sha :: "bytes \<Rightarrow> bytes" where "ex_sha b \<equiv> drop (length b - 1) b"

definition ex_bundle :: batch_bundle where
  "ex_bundle = \<lparr>bb_batch_id = ''b'', bb_mode = ''m'', bb_vkey = None, bb_public_values = ''0x'',
     bb_proof_bytes = ''0x01'', bb_settle_txid = None, bb_leaves = [], bb_lock_refs = []\<rparr>"

definition ex_events :: "event list" where
  "ex_events = [Accepted (ex_burn ''a'') (ex_record ''a'' 1), BatchFormed [''a''] 10,
     BatchProven (batch_id_of std_hex ex_sha 1 [''a'']) ex_bundle ''r'' 20,
     BatchSettled (batch_id_of std_hex ex_sha 1 [''a'']) (Some ''t'') 30]"

lemma ex_flags: "flags_ok (ex_record i n)" "rr_status (ex_record i n) = Queued" "rr_attempts (ex_record i n) = 0"
  by (simp_all add: ex_record_def ex_return_def queued_def flags_ok_def rec_done_def)

lemma ex_run: "ledger_run std_hex ex_sha ex_policy ledger_default ex_events
  (foldl (apply_event std_hex ex_sha ex_policy) ledger_default ex_events)"
  by (simp add: ex_events_def ex_flags ex_policy_def ledger_default_def ledger_accept_def Let_def
      active_batch_def batch_values_def)

lemma ex_burn_id [simp]: "bn_id (ex_burn i) = i"
  by (simp add: ex_burn_def ex_return_def)

lemma ex_accepted:
  "ledger_accept (ex_burn ''a'') (ex_record ''a'' 1) ledger_default
     = \<lparr>lg_returns = [(''a'', \<lparr>rt_seq = 1, rt_burn = ex_burn ''a'', rt_record = ex_record ''a'' 1\<rparr>)],
        lg_by_nullifier = [(to_lowercase (rr_nullifier (ex_record ''a'' 1)), ''a'')],
        lg_batches = [], lg_accepted = 1, lg_formed = 0\<rparr>"
  by (simp add: ledger_default_def ledger_accept_def Let_def)



text \<open>C21. The ledger refines the life cycle of a return: in every reachable state, any event but a
  snapshot keeps the return with its burn and its place in the queue. Before its outcome it moves as the
  abstract machine does or its stage is left alone. After its outcome nothing changes about it, except
  that an exclusion of this very return judges it again, with the verdicts of the machine.\<close>

theorem ledger_refines_life:
  assumes "ledger_run H sha256 retry ledger_default es l" "event_ok H sha256 retry l e"
    "\<forall>s. e \<noteq> Snapshot s" "ledger_get l k = Some r"
  shows "\<exists>r'. ledger_get (apply_event H sha256 retry l e) k = Some r'
    \<and> rt_burn r' = rt_burn r \<and> rt_seq r' = rt_seq r
    \<and> (if \<not> is_done r
       then life_of (rt_record r') = life_of (rt_record r)
         \<or> life_step retry (life_of (rt_record r)) (life_of (rt_record r'))
       else if excludes e k then verdict_on retry (rr_attempts (rt_record r)) (life_of (rt_record r'))
       else r' = r)"
  using apply_event_evolves[OF ledger_run_keeps[OF assms(1) ledger_default_ok] assms(2-4)]
  by (auto simp: evolves_def)

theorem ledger_refines_life_witness:
  "\<exists>r'. ledger_get (foldl (apply_event std_hex ex_sha ex_policy) ledger_default (take 2 ex_events)) ''a'' = Some r'
    \<and> rt_burn r' = ex_burn ''a'' \<and> rt_seq r' = 1
    \<and> (life_of (rt_record r') = life_of (ex_record ''a'' 1)
       \<or> life_step ex_policy (life_of (ex_record ''a'' 1)) (life_of (rt_record r')))"
proof -
  let ?e1 = "Accepted (ex_burn ''a'') (ex_record ''a'' 1)"
  have run: "ledger_run std_hex ex_sha ex_policy ledger_default [?e1]
      (apply_event std_hex ex_sha ex_policy ledger_default ?e1)"
    by (simp add: ex_flags ex_policy_def) (simp add: ledger_default_def)
  have ok: "event_ok std_hex ex_sha ex_policy (apply_event std_hex ex_sha ex_policy ledger_default ?e1) (BatchFormed [''a''] 10)"
    by (simp add: ex_accepted active_batch_def batch_values_def)
  have get: "ledger_get (apply_event std_hex ex_sha ex_policy ledger_default ?e1) ''a''
      = Some \<lparr>rt_seq = 1, rt_burn = ex_burn ''a'', rt_record = ex_record ''a'' 1\<rparr>"
    by (simp add: ex_accepted ledger_get_def)
  have "\<not> is_done \<lparr>rt_seq = 1, rt_burn = ex_burn ''a'', rt_record = ex_record ''a'' 1\<rparr>"
    by (simp add: is_done_def ex_flags)
  then show ?thesis using ledger_refines_life[OF run ok _ get] by (simp add: ex_events_def)
qed

lemma sort_key_sorted_distinct:
  fixes f :: "'a \<Rightarrow> 'k :: linorder"
  assumes "distinct xs" "inj_on f (set xs)"
  shows "sorted_wrt (<) (map f (sort_key f xs))"
  using assms by (simp add: strict_sorted_iff distinct_map sorted_sort_key)

lemma get_in_values:
  assumes "ledger_ok retry l"
  shows "r \<in> set (return_values l) \<longleftrightarrow> (\<exists>k. ledger_get l k = Some r)"
proof -
  have "distinct (map fst (lg_returns l))" using assms by (simp add: ledger_ok_def index_ok_def)
  then show ?thesis by (force simp: return_values_def ledger_get_def)
qed

lemma distinct_map_values:
  assumes d: "distinct (map fst xs)" and key: "\<And>k v. map_of xs k = Some v \<Longrightarrow> g v = k"
  shows "distinct (map snd xs)"
proof -
  have k: "g (snd p) = fst p" if "p \<in> set xs" for p
    using that d by (intro key) simp
  have "inj_on snd (set xs)"
  proof (rule inj_onI)
    fix p q assume "p \<in> set xs" "q \<in> set xs" "snd p = snd q"
    with k[of p] k[of q] show "p = q" by (simp add: prod_eq_iff)
  qed
  with d show ?thesis by (simp add: distinct_map)
qed

lemma in_map_values:
  "distinct (map fst xs) \<Longrightarrow> v \<in> set (map snd xs) \<Longrightarrow> \<exists>k. map_of xs k = Some v"
  by force

lemma distinct_values: "ledger_ok retry l \<Longrightarrow> distinct (return_values l)"
  unfolding return_values_def
  by (rule distinct_map_values[where g = "\<lambda>r. bn_id (rt_burn r)"])
    (auto simp: ledger_ok_def index_ok_def ledger_get_def)

lemma seq_inj: "ledger_ok retry l \<Longrightarrow> inj_on rt_seq (set (return_values l))"
proof (rule inj_onI)
  fix r s assume ok: "ledger_ok retry l" and rs: "r \<in> set (return_values l)" "s \<in> set (return_values l)" "rt_seq r = rt_seq s"
  then obtain k j where "ledger_get l k = Some r" "ledger_get l j = Some s" by (auto simp: get_in_values)
  moreover from this have "k = j" using ok rs(3) unfolding ledger_ok_def seq_ok_def by blast
  ultimately show "r = s" by simp
qed

text \<open>The queue is first come, first served: the pending returns, every one once, in the order
  they were accepted, whatever the order the hash map yields them in.\<close>

theorem pending_fifo:
  assumes "ledger_run H sha256 retry ledger_default es l"
  shows "sorted_wrt (<) (map rt_seq (ledger_pending l))
    \<and> (\<forall>k r. ledger_get l k = Some r \<longrightarrow> (is_pending r \<longleftrightarrow> r \<in> set (ledger_pending l)))"
proof (intro conjI allI impI)
  note ok = ledger_run_keeps[OF assms ledger_default_ok]
  show "sorted_wrt (<) (map rt_seq (ledger_pending l))"
    unfolding ledger_pending_def using distinct_values[OF ok] seq_inj[OF ok]
    by (intro sort_key_sorted_distinct) (auto intro: inj_on_subset)
  show "is_pending r \<longleftrightarrow> r \<in> set (ledger_pending l)" if "ledger_get l k = Some r" for k r
    using that get_in_values[OF ok] by (auto simp: ledger_pending_def)
qed

theorem pending_fifo_witness:
  "sorted_wrt (<) (map rt_seq (ledger_pending (foldl (apply_event std_hex ex_sha ex_policy) ledger_default ex_events)))"
  by (rule pending_fifo[OF ex_run, THEN conjunct1])

text \<open>Settled: the fold of the first run, computed.\<close>

lemma ex_settled:
  "map_option (\<lambda>r. rr_status (rt_record r)) (ledger_get (foldl (apply_event std_hex ex_sha ex_policy) ledger_default ex_events) ''a'')
     = Some Settled"
  by (simp add: ex_events_def ex_accepted ledger_form_eq Let_def batch_formed_def ledger_prove_def ledger_settle_def
      when_batch_def for_members_def update_batch_def in_batch_def on_record_def enter_batch_def is_pending_def
      ex_flags ledger_get_def settle_record_def)

section \<open>Attempts\<close>

text \<open>How often a run judges a return again that has its outcome.\<close>

fun rejudged ::
  "hexlib \<Rightarrow> (bytes \<Rightarrow> bytes) \<Rightarrow> retry_policy \<Rightarrow> string \<Rightarrow> ledger \<Rightarrow> event list \<Rightarrow> nat" where
  "rejudged H sha256 retry k l [] = 0"
| "rejudged H sha256 retry k l (e # es) =
     (if excludes e k \<and> (case ledger_get l k of None \<Rightarrow> False | Some r \<Rightarrow> is_done r) then 1 else 0)
     + rejudged H sha256 retry k (apply_event H sha256 retry l e) es"

text \<open>The attempts of a return, when it was judged again \<open>n\<close> times.\<close>

definition within :: "retry_policy \<Rightarrow> nat \<Rightarrow> return_record \<Rightarrow> bool" where
  "within retry n r \<longleftrightarrow> unat (rr_attempts r) \<le> unat (rp_max_attempts retry) + n
     \<and> (\<not> rec_done r \<longrightarrow> unat (rr_attempts r) < unat (rp_max_attempts retry) + n)"

lemma within_verdict:
  assumes "verdict_on retry (rr_attempts r) (life_of r')" "rr_attempts r < rr_attempts r + 1"
    "unat (rr_attempts r) < unat (rp_max_attempts retry) + n"
  shows "within retry n r'"
  using assms(1)
proof (cases rule: verdict_on.cases)
  case refuses
  have "rr_attempts r' = rr_attempts r + 1" using refuses(1) attempts_of_life[of r'] by simp
  with refuses(2) show ?thesis by (simp add: within_def word_less_nat_alt)
next
  case parks
  have "rr_attempts r' = rr_attempts r + 1" "rec_done r'"
    using parks(1) attempts_of_life[of r'] final_life_of[of r'] by simp_all
  with assms(3) one_more_room[OF assms(2)] show ?thesis by (simp add: within_def)
qed (use assms(3) attempts_of_life[of r'] final_life_of[of r'] in \<open>simp_all add: within_def\<close>)

lemma within_evolves:
  assumes "evolves retry ex r r'" "within retry n (rt_record r)" "rec_ok retry (rt_record r)"
    and "ex \<Longrightarrow> rr_attempts (rt_record r) < rr_attempts (rt_record r) + 1"
  shows "within retry (n + (if ex \<and> is_done r then 1 else 0)) (rt_record r')"
proof (cases "is_done r")
  case True
  show ?thesis
  proof (cases ex)
    case True
    then have "verdict_on retry (rr_attempts (rt_record r)) (life_of (rt_record r'))"
      using assms(1) \<open>is_done r\<close> by (simp add: evolves_def)
    then have "within retry (Suc n) (rt_record r')"
      using assms(2,4) True by (intro within_verdict) (auto simp: within_def)
    with True \<open>is_done r\<close> show ?thesis by simp
  next
    case False
    with assms(1,2) True show ?thesis by (simp add: evolves_def)
  qed
next
  case False
  then have nd: "\<not> rec_done (rt_record r)" by (simp add: is_done_rec)
  note room = not_doneD[OF assms(3) nd]
  have lt: "unat (rr_attempts (rt_record r)) < unat (rp_max_attempts retry) + n"
    using assms(2) nd by (simp add: within_def)
  have same: "within retry n (rt_record r')" if "rr_attempts (rt_record r') = rr_attempts (rt_record r)"
    using that lt by (simp add: within_def)
  from assms(1) False consider "life_of (rt_record r') = life_of (rt_record r)"
    | "life_step retry (life_of (rt_record r)) (life_of (rt_record r'))" by (auto simp: evolves_def)
  then show ?thesis
  proof cases
    case 1
    then show ?thesis using same False attempts_of_life by (metis (full_types) add_0_right)
  next
    case 2
    then have "within retry n (rt_record r')"
    proof (cases rule: life_step.cases)
      case judge
      with within_verdict[OF _ room lt] show ?thesis by simp
    qed (use same attempts_of_life[of "rt_record r"] attempts_of_life[of "rt_record r'"] in simp_all)
    with False show ?thesis by simp
  qed
qed

text \<open>A return that appears was just accepted.\<close>

lemma absent_stays:
  assumes "ledger_get l k = None" "event_ok H sha256 retry l e" "\<forall>s. e \<noteq> Snapshot s"
    "ledger_get (apply_event H sha256 retry l e) k = Some r"
  shows "within retry 0 (rt_record r)"
proof (cases e)
  case (Accepted burn rec)
  then have "rt_record r = rec" "rr_attempts rec < rp_max_attempts retry"
    using assms by (auto simp: ledger_accept_def Let_def ledger_get_def update_conv' split: if_splits)
  then show ?thesis by (simp add: within_def word_less_nat_alt)
next
  case (Snapshot s)
  with assms(3) show ?thesis by simp
next
  case (BatchFormed members t)
  with assms(1,4) show ?thesis by (simp add: get_ledger_form)
qed (use assms(1,4) in \<open>auto simp: ledger_requeue_def ledger_exclude_def get_update_return ledger_prove_def
    ledger_settle_def ledger_fail_def ledger_rebase_def ledger_interrupt_def absent_batch_event\<close>)

lemma attempts_within:
  assumes "ledger_run H sha256 retry l es l'" "ledger_ok retry l" "\<forall>e \<in> set es. \<forall>s. e \<noteq> Snapshot s"
    "\<And>r. ledger_get l k = Some r \<Longrightarrow> within retry n (rt_record r)" "ledger_get l' k = Some r'"
  shows "within retry (n + rejudged H sha256 retry k l es) (rt_record r')"
  using assms
proof (induction arbitrary: n rule: ledger_run.induct)
  case (step l e es l')
  let ?m = "apply_event H sha256 retry l e"
  let ?j = "if excludes e k \<and> (case ledger_get l k of None \<Rightarrow> False | Some r \<Rightarrow> is_done r) then 1 else 0"
  have e: "\<forall>s. e \<noteq> Snapshot s" and es: "\<forall>e \<in> set es. \<forall>s. e \<noteq> Snapshot s" using step.prems(2) by simp_all
  have "within retry (n + ?j) (rt_record s)" if s: "ledger_get ?m k = Some s" for s
  proof (cases "ledger_get l k")
    case None
    with absent_stays[OF None step.hyps(1) e s] show ?thesis by (auto simp: within_def)
  next
    case (Some r)
    have "evolves retry (excludes e k) r s"
      using apply_event_evolves[OF step.prems(1) step.hyps(1) e Some] s by simp
    moreover have "excludes e k \<Longrightarrow> rr_attempts (rt_record r) < rr_attempts (rt_record r) + 1"
      using step.hyps(1) Some by (cases e) simp_all
    ultimately show ?thesis
      using within_evolves[OF _ step.prems(3)[OF Some] ledger_okD(2)[OF step.prems(1) Some], of "excludes e k" s] Some
      by simp
  qed
  from step.IH[OF apply_event_ok[OF step.prems(1) step.hyps(1)] es this step.prems(4)]
  show ?case by (simp add: add.assoc)
qed simp



text \<open>
  An outcome of the batch in the prover is not final in the code: the batch of two returns is proven
  again after a rebase, its first member, settled when it was first excluded, is excluded again, and
  with the second source unavailable it is reported as submitted.
\<close>

definition ex_reopened_id :: string where
  "ex_reopened_id = batch_id_of std_hex ex_sha 1 [''a'', ''b'']"

definition ex_reopened :: "event list" where
  "ex_reopened =
     [Accepted (ex_burn ''a'') (ex_record ''a'' 1), Accepted (ex_burn ''b'') (ex_record ''b'' 2),
      BatchFormed [''a'', ''b''] 10, ReturnExcluded ''a'' (AlreadySettled (Some ''t'') None) 15,
      BatchProven ex_reopened_id ex_bundle ''r'' 20, BatchRebased ex_reopened_id 25,
      ReturnExcluded ''a'' (AlreadySettled (Some ''t'') (Some ''no second source'')) 30]"

lemma ex_nullifiers:
  "to_lowercase (rr_nullifier (ex_record ''b'' 2)) \<noteq> to_lowercase (rr_nullifier (ex_record ''a'' 1))"
  by (simp add: ex_record_def hex32_def to_lowercase_def std_hex_def std_encode_def digit_char_def ascii_lower_def)

lemma ex_accepted_two:
  "ledger_accept (ex_burn ''b'') (ex_record ''b'' 2) (ledger_accept (ex_burn ''a'') (ex_record ''a'' 1) ledger_default)
     = \<lparr>lg_returns = [(''a'', \<lparr>rt_seq = 1, rt_burn = ex_burn ''a'', rt_record = ex_record ''a'' 1\<rparr>),
        (''b'', \<lparr>rt_seq = 2, rt_burn = ex_burn ''b'', rt_record = ex_record ''b'' 2\<rparr>)],
        lg_by_nullifier = [(to_lowercase (rr_nullifier (ex_record ''a'' 1)), ''a''),
          (to_lowercase (rr_nullifier (ex_record ''b'' 2)), ''b'')],
        lg_batches = [], lg_accepted = 2, lg_formed = 0\<rparr>"
  using ex_nullifiers by (simp only: ex_accepted) (simp add: ledger_accept_def Let_def)

lemma settled_reopened:
  "\<exists>l l' r r'. ledger_run std_hex ex_sha ex_policy ledger_default (take 4 ex_reopened) l
     \<and> ledger_get l ''a'' = Some r \<and> rr_status (rt_record r) = Settled \<and> rr_terminal (rt_record r)
     \<and> ledger_run std_hex ex_sha ex_policy l (drop 4 ex_reopened) l'
     \<and> ledger_get l' ''a'' = Some r' \<and> rr_status (rt_record r') = Submitted \<and> \<not> rr_terminal (rt_record r')"
proof -
  let ?l0 = "ledger_accept (ex_burn ''b'') (ex_record ''b'' 2)
    (ledger_accept (ex_burn ''a'') (ex_record ''a'' 1) ledger_default)"
  let ?l1 = "ledger_exclude ''a'' (AlreadySettled (Some ''t'') None) 15 ex_policy
    (ledger_form std_hex ex_sha [''a'', ''b''] 10 ?l0)"
  let ?l2 = "ledger_exclude ''a'' (AlreadySettled (Some ''t'') (Some ''no second source'')) 30 ex_policy
     (ledger_rebase ex_reopened_id 25 (ledger_prove ex_reopened_id ex_bundle ''r'' 20 ?l1))"
  note ev = ledger_form_eq Let_def batch_formed_def ledger_exclude_def update_return_def on_record_def
    enter_batch_def is_pending_def ex_flags ledger_get_def ledger_prove_def ledger_rebase_def when_batch_def
    for_members_def update_batch_def in_batch_def active_batch_def batch_values_def ex_reopened_id_def
  have "ledger_run std_hex ex_sha ex_policy ledger_default [Accepted (ex_burn ''a'') (ex_record ''a'' 1),
      Accepted (ex_burn ''b'') (ex_record ''b'' 2)] ?l0"
    by (simp add: ex_flags ex_policy_def) (simp add: ledger_default_def ledger_accept_def Let_def)
  then have 1: "ledger_run std_hex ex_sha ex_policy ledger_default (take 4 ex_reopened) ?l1"
    by (simp add: ex_reopened_def Let_def ex_accepted_two del: One_nat_def) (simp add: ev)
  have 2: "ledger_run std_hex ex_sha ex_policy ?l1 (drop 4 ex_reopened) ?l2"
    unfolding ex_accepted_two by (simp add: ex_reopened_def Let_def) (simp add: ev)
  have 3: "map_option (\<lambda>r. (rr_status (rt_record r), rr_terminal (rt_record r))) (ledger_get ?l1 ''a'') = Some (Settled, True)"
    unfolding ex_accepted_two by (simp add: ev)
  have 4: "map_option (\<lambda>r. (rr_status (rt_record r), rr_terminal (rt_record r))) (ledger_get ?l2 ''a'') = Some (Submitted, False)"
    unfolding ex_accepted_two by (simp add: ev)
  obtain r r' where "ledger_get ?l1 ''a'' = Some r" "rr_status (rt_record r) = Settled" "rr_terminal (rt_record r)"
    "ledger_get ?l2 ''a'' = Some r'" "rr_status (rt_record r') = Submitted" "\<not> rr_terminal (rt_record r')"
    using 3 4 by auto
  with 1 2 show ?thesis by blast
qed

section \<open>Starts and stops\<close>

lemma filter_unique:
  assumes "distinct xs" "x \<in> set xs" "P x" "\<And>y. y \<in> set xs \<Longrightarrow> P y \<Longrightarrow> y = x"
  shows "filter P xs = [x]"
proof -
  obtain ys zs where xs: "xs = ys @ x # zs" using split_list[OF assms(2)] by blast
  have x: "x \<notin> set ys" "x \<notin> set zs" using assms(1) by (simp_all add: xs)
  have sub: "set ys \<subseteq> set xs" "set zs \<subseteq> set xs" by (auto simp: xs)
  have "filter P ys = []" "filter P zs = []"
    unfolding filter_empty_conv using x sub assms(4) by blast+
  with xs assms(3) show ?thesis by simp
qed

lemma interruptions_eq:
  assumes ok: "ledger_ok retry l"
  shows "interruptions l t orderly = (case active_batch l of None \<Rightarrow> []
    | Some b \<Rightarrow> [BatchInterrupted (ba_id b) t orderly])"
proof -
  have bo: "batches_ok (lg_batches l)" using ok by (simp add: ledger_ok_def)
  then have d: "distinct (map fst (lg_batches l))" by (simp add: batches_ok_def)
  have dv: "distinct (batch_values l)"
    unfolding batch_values_def by (rule distinct_map_values[where g = ba_id, OF d batches_okD(1)[OF bo]])
  show ?thesis
  proof (cases "active_batch l")
    case None
    then have "filter (\<lambda>b. ba_status b = Batch_Proving) (batch_values l) = []"
      by (auto simp: active_batch_def find_None_iff filter_empty_conv)
    with None show ?thesis by (simp add: interruptions_def)
  next
    case (Some b)
    then have b: "b \<in> set (batch_values l)" "ba_status b = Batch_Proving"
      by (auto simp: active_batch_def find_Some_iff in_set_conv_nth)
    have "filter (\<lambda>b. ba_status b = Batch_Proving) (batch_values l) = [b]"
    proof (rule filter_unique[OF dv b(1)])
      fix c assume c: "c \<in> set (batch_values l)" "ba_status c = Batch_Proving"
      then obtain k where "map_of (lg_batches l) k = Some c"
        using in_map_values[OF d] by (auto simp: batch_values_def)
      from active_batch_unique[OF bo this c(2)] Some show "c = b" by simp
    qed (rule b(2))
    with Some show ?thesis by (simp add: interruptions_def)
  qed
qed

lemma active_key:
  assumes "batches_ok (lg_batches l)" "active_batch l = Some b"
  shows "map_of (lg_batches l) (ba_id b) = Some b" "ba_status b = Batch_Proving"
proof -
  have b: "b \<in> set (batch_values l)" "ba_status b = Batch_Proving"
    using assms(2) by (auto simp: active_batch_def find_Some_iff in_set_conv_nth)
  then obtain k where "map_of (lg_batches l) k = Some b"
    using assms(1) in_map_values[of "lg_batches l" b] by (auto simp: batch_values_def batches_ok_def)
  with batches_okD(1)[OF assms(1) this] b show "map_of (lg_batches l) (ba_id b) = Some b" "ba_status b = Batch_Proving"
    by simp_all
qed

lemma interrupted_active:
  assumes ok: "ledger_ok retry l"
    and l': "l' = foldl (apply_event H sha256 retry) l (interruptions l t orderly)"
  shows "active_batch l' = None"
proof (cases "active_batch l")
  case None
  then show ?thesis by (simp add: l' interruptions_eq[OF ok])
next
  case (Some b)
  have bo: "batches_ok (lg_batches l)" using ok by (simp add: ledger_ok_def)
  note b = active_key[OF bo Some]
  have l'_eq: "l' = ledger_interrupt (ba_id b) t orderly retry l"
    by (simp add: l' interruptions_eq[OF ok] Some)
  have "ledger_ok retry l'"
    unfolding l'_eq using ledger_interrupt_ok[OF ok] b by simp
  then have bo': "batches_ok (lg_batches l')" by (simp add: ledger_ok_def)
  have bs: "map_of (lg_batches l') j
      = map_option (\<lambda>c. if j = ba_id b then c\<lparr>ba_status := Batch_Interrupted\<rparr> else c) (map_of (lg_batches l) j)" for j
    by (simp add: l'_eq ledger_interrupt_def when_batch_def b(1) for_members_def Let_def map_of_update_batch)
  have "ba_status c \<noteq> Batch_Proving" if c: "map_of (lg_batches l') j = Some c" for j c
  proof
    assume p: "ba_status c = Batch_Proving"
    obtain c0 where c0: "map_of (lg_batches l) j = Some c0"
      "c = (if j = ba_id b then c0\<lparr>ba_status := Batch_Interrupted\<rparr> else c0)"
      using c by (auto simp: bs)
    then have ne: "j \<noteq> ba_id b" using p by (auto split: if_splits)
    with c0 have j: "map_of (lg_batches l) j = Some c" "j \<noteq> ba_id b" by simp_all
    with batches_ok_unique[OF bo j(1) b(1) p b(2)] show False by simp
  qed
  then show ?thesis unfolding active_batch_None_iff[OF bo'] by blast
qed

lemma interrupted_get:
  assumes ok: "ledger_ok retry l" and g: "ledger_get l k = Some r"
    and l': "l' = foldl (apply_event H sha256 retry) l (interruptions l t orderly)"
  shows "ledger_get l' k = Some (if rr_status (rt_record r) = Proving
       then on_record (interrupt_record orderly t retry) r else r)"
proof -
  have bo: "batches_ok (lg_batches l)" using ok by (simp add: ledger_ok_def)
  show ?thesis
  proof (cases "active_batch l")
    case None
    then have "rr_status (rt_record r) \<noteq> Proving"
      using ledger_okD(3)[OF ok g] active_batch_None_iff[OF bo] by (auto simp: link_ok_def)
    with None g show ?thesis by (simp add: l' interruptions_eq[OF ok])
  next
    case (Some b)
    note b = active_key[OF bo Some]
    have l'_eq: "l' = ledger_interrupt (ba_id b) t orderly retry l"
      by (simp add: l' interruptions_eq[OF ok] Some)
    note link = ledger_okD(3)[OF ok g, unfolded link_ok_def]
    have in_iff: "in_batch (ba_id b) r \<longleftrightarrow> rr_status (rt_record r) = Proving"
    proof
      assume "in_batch (ba_id b) r"
      then show "rr_status (rt_record r) = Proving"
        using link b by (auto simp: in_batch_def)
    next
      assume p: "rr_status (rt_record r) = Proving"
      then obtain j B where j: "rr_batch_id (rt_record r) = Some j" "map_of (lg_batches l) j = Some B"
        "ba_status B = Batch_Proving" using link by blast
      from batches_ok_unique[OF bo j(2) b(1) j(3) b(2)] j(1) p show "in_batch (ba_id b) r"
        by (simp add: in_batch_def)
    qed
    have "ledger_get l' k = Some (if in_batch (ba_id b) r then on_record (interrupt_record orderly t retry) r else r)"
      unfolding l'_eq ledger_interrupt_def when_batch_def b(1) option.case
      by (subst get_batch_event[OF ok b(1)]) (simp_all add: g)
    with in_iff show ?thesis by simp
  qed
qed

text \<open>C24. A start after a crash, and an orderly stop, leave nothing in the prover: applying the
  events of \<open>recover\<close> or \<open>stop\<close> to a reachable ledger ends every proof in flight. Every return
  that was being proven is back in the queue or, after a crash only, parked because that attempt was
  its last; a crash costs exactly one attempt, a stop none; no other return changes.\<close>

theorem stop_and_recover:
  assumes "ledger_run H sha256 retry ledger_default es l" "ledger_get l k = Some r"
    and "events = (if orderly then ledger_stop l t else ledger_recover l t)"
    and "l' = foldl (apply_event H sha256 retry) l events"
  shows "active_batch l' = None
    \<and> (\<exists>r'. ledger_get l' k = Some r' \<and> rt_burn r' = rt_burn r
      \<and> (rr_status (rt_record r) \<noteq> Proving \<longrightarrow> r' = r)
      \<and> (rr_status (rt_record r) = Proving \<longrightarrow>
           (is_pending r' \<or> \<not> orderly \<and> is_done r'
              \<and> rp_max_attempts retry \<le> rr_attempts (rt_record r) + 1)
           \<and> unat (rr_attempts (rt_record r'))
               = unat (rr_attempts (rt_record r)) + (if orderly then 0 else 1)))"
proof (rule conjI)
  note ok = ledger_run_keeps[OF assms(1) ledger_default_ok]
  have e: "events = interruptions l t orderly"
    using assms(3) by (auto simp: ledger_stop_def ledger_recover_def)
  note i = interrupted_get[OF ok assms(2) assms(4)[unfolded e]]
  show "active_batch l' = None" by (rule interrupted_active[OF ok assms(4)[unfolded e]])
  have a: "unat (rr_attempts (rt_record r) + 1) = unat (rr_attempts (rt_record r)) + 1"
    if "rr_status (rt_record r) = Proving"
    using one_more_room not_doneD[OF ledger_okD(2)[OF ok assms(2)]] that by (simp add: rec_done_def)
  show "\<exists>r'. ledger_get l' k = Some r' \<and> rt_burn r' = rt_burn r
      \<and> (rr_status (rt_record r) \<noteq> Proving \<longrightarrow> r' = r)
      \<and> (rr_status (rt_record r) = Proving \<longrightarrow>
           (is_pending r' \<or> \<not> orderly \<and> is_done r'
              \<and> rp_max_attempts retry \<le> rr_attempts (rt_record r) + 1)
           \<and> unat (rr_attempts (rt_record r'))
               = unat (rr_attempts (rt_record r)) + (if orderly then 0 else 1))"
    unfolding i using a
    by (auto simp: on_record_def interrupt_record_def requeue_after_stop_def schedule_after_interruption_def
        Let_def is_pending_def is_done_def parked_def terminal_failure_def failed_recoverably_def)
qed

lemma ex_run_proving:
  "ledger_run std_hex ex_sha ex_policy ledger_default (take 2 ex_events)
     (foldl (apply_event std_hex ex_sha ex_policy) ledger_default (take 2 ex_events))"
  by (simp add: ex_events_def ex_flags ex_policy_def ledger_default_def ledger_accept_def Let_def
      active_batch_def batch_values_def)

lemma ex_proving:
  "map_option (\<lambda>r. rr_status (rt_record r))
     (ledger_get (foldl (apply_event std_hex ex_sha ex_policy) ledger_default (take 2 ex_events)) ''a'') = Some Proving"
  by (simp add: ex_events_def ex_accepted ledger_form_eq Let_def batch_formed_def on_record_def enter_batch_def
      is_pending_def ex_flags ledger_get_def)

definition ex_proving_ledger :: ledger where
  "ex_proving_ledger = foldl (apply_event std_hex ex_sha ex_policy) ledger_default (take 2 ex_events)"

theorem stop_and_recover_witness:
  "\<exists>r'. ledger_get (foldl (apply_event std_hex ex_sha ex_policy) ex_proving_ledger
       (ledger_stop ex_proving_ledger 50)) ''a'' = Some r' \<and> is_pending r'"
proof -
  let ?l = "foldl (apply_event std_hex ex_sha ex_policy) ledger_default (take 2 ex_events)"
  obtain r where r: "ledger_get ?l ''a'' = Some r" "rr_status (rt_record r) = Proving"
    using ex_proving by (auto simp del: foldl_Cons take_Suc_Cons)
  from stop_and_recover[where orderly = True, OF ex_run_proving r(1) refl refl] r(2)
  show ?thesis unfolding ex_proving_ledger_def by fastforce
qed

section \<open>Settlement\<close>

lemma settlement_facts:
  assumes "ledger_run H sha256 retry ledger_default es l" "ledger_batch l bid = Some B"
    and "l' = apply_event H sha256 retry l (BatchSettled bid txid t)"
  shows "ledger_batch l' bid = Some (B\<lparr>ba_status := Batch_Settled,
      ba_bundle := map_option (\<lambda>bundle. bundle\<lparr>bb_settle_txid := txid\<rparr>) (ba_bundle B)\<rparr>)"
    and "ledger_get l k = Some r \<Longrightarrow> \<exists>r'. ledger_get l' k = Some r'
      \<and> (if in_batch bid r
         then rt_burn r' = rt_burn r \<and> rr_status (rt_record r') = Settled \<and> rr_terminal (rt_record r')
            \<and> rr_success (rt_record r') = Some True \<and> rr_settle_txid (rt_record r') = txid
         else r' = r)"
proof -
  note ok = ledger_run_keeps[OF assms(1) ledger_default_ok]
  have B: "map_of (lg_batches l) bid = Some B" using assms(2) by (simp add: ledger_batch_def)
  show "ledger_batch l' bid = Some (B\<lparr>ba_status := Batch_Settled,
      ba_bundle := map_option (\<lambda>bundle. bundle\<lparr>bb_settle_txid := txid\<rparr>) (ba_bundle B)\<rparr>)"
    by (simp add: assms(3) ledger_settle_def when_batch_def B for_members_def Let_def map_of_update_batch ledger_batch_def)
  assume g: "ledger_get l k = Some r"
  have "ledger_get l' k = Some (if in_batch bid r then on_record (settle_record txid t) r else r)"
    unfolding assms(3) apply_event.simps ledger_settle_def when_batch_def B option.case
    by (subst get_batch_event[OF ok B]) (simp_all add: g)
  then show "\<exists>r'. ledger_get l' k = Some r'
      \<and> (if in_batch bid r
         then rt_burn r' = rt_burn r \<and> rr_status (rt_record r') = Settled \<and> rr_terminal (rt_record r')
            \<and> rr_success (rt_record r') = Some True \<and> rr_settle_txid (rt_record r') = txid
         else r' = r)"
    by (auto simp: on_record_def settle_record_def Let_def split: option.splits)
qed

text \<open>C25. A confirmed settlement settles its batch exactly: in every reachable ledger it gives every
  return still in the batch its final success and the transaction, changes no other return, and the
  batch is settled with the transaction in its bundle.\<close>

theorem settlement_exact:
  assumes "ledger_run H sha256 retry ledger_default es l" "ledger_batch l bid = Some B"
    and "l' = apply_event H sha256 retry l (BatchSettled bid txid t)"
  shows "ledger_batch l' bid = Some (B\<lparr>ba_status := Batch_Settled,
      ba_bundle := map_option (\<lambda>bundle. bundle\<lparr>bb_settle_txid := txid\<rparr>) (ba_bundle B)\<rparr>)
    \<and> (\<forall>k r. ledger_get l k = Some r \<longrightarrow> (\<exists>r'. ledger_get l' k = Some r'
      \<and> (if in_batch bid r
         then rt_burn r' = rt_burn r \<and> rr_status (rt_record r') = Settled \<and> rr_terminal (rt_record r')
            \<and> rr_success (rt_record r') = Some True \<and> rr_settle_txid (rt_record r') = txid
         else r' = r)))"
  using settlement_facts[OF assms] by blast

theorem settlement_exact_witness:
  "\<exists>r'. ledger_get (ledger_settle (batch_id_of std_hex ex_sha 1 [''a'']) (Some ''t'') 60 ex_proving_ledger) ''a'' = Some r'
     \<and> rr_status (rt_record r') = Settled"
proof -
  let ?l = "foldl (apply_event std_hex ex_sha ex_policy) ledger_default (take 2 ex_events)"
  let ?b = "batch_id_of std_hex ex_sha 1 [''a'']"
  obtain r where r: "ledger_get ?l ''a'' = Some r" "rr_status (rt_record r) = Proving"
      "rr_batch_id (rt_record r) = Some ?b"
    by (simp add: ex_events_def ex_accepted ledger_form_eq Let_def batch_formed_def on_record_def enter_batch_def
      is_pending_def ex_flags ledger_get_def)
  obtain B where B: "ledger_batch ?l ?b = Some B"
    by (simp add: ex_events_def ex_accepted ledger_form_eq Let_def batch_formed_def ledger_batch_def)
  from settlement_exact[OF ex_run_proving B refl, where txid = "Some ''t''" and t = 60] r
  show ?thesis unfolding ex_proving_ledger_def by (fastforce simp: in_batch_def)
qed

section \<open>The queue and the policy together\<close>

lemma distinct_picked: "distinct xs \<Longrightarrow> distinct (picked lim seed taken bytes n xs)"
  using picked_spec[of lim seed] by (induction lim seed taken bytes n xs rule: picked.induct) (auto, blast)

lemma policy_batch_members:
  assumes "policy_next lim pending now collect = Batch ids" "distinct pending"
  obtains rs where "ids = map (\<lambda>r. bn_id (rt_burn r)) rs" "rs \<noteq> []" "distinct rs"
    "\<And>r. r \<in> set rs \<Longrightarrow> r \<in> set pending \<and> is_due now r"
proof -
  obtain seed rest where due: "filter (is_due now) pending = seed # rest" and ids: "ids = select lim (seed # rest)"
    using assms(1) by (cases "filter (is_due now) pending") (auto simp: policy_next_def Let_def split: if_splits)
  let ?rs = "seed # picked lim seed (bn_lock_nonces (rt_burn seed)) (burn_size (rt_burn seed)) 1 rest"
  have d: "distinct (seed # rest)" unfolding due[symmetric] using assms(2) by simp
  have sub0: "set (picked lim seed (bn_lock_nonces (rt_burn seed)) (burn_size (rt_burn seed)) 1 rest) \<subseteq> set rest"
    using picked_spec by blast
  then have sub: "set ?rs \<subseteq> set (seed # rest)" by auto
  show thesis
  proof (rule that[of ?rs])
    show "ids = map (\<lambda>r. bn_id (rt_burn r)) ?rs"
      by (simp add: ids select_def select_loop_picked)
    show "distinct ?rs" using d sub0 distinct_picked[of rest] by auto
    show "r \<in> set pending \<and> is_due now r" if "r \<in> set ?rs" for r
      using sub that unfolding due[symmetric] by auto
  qed simp
qed

lemma chosen_facts:
  assumes "ledger_run H sha256 retry ledger_default es l" "active_batch l = None"
    and "policy_next lim (ledger_pending l) now collect = Batch ids"
    and "ledger_batch l (batch_id_of H sha256 (lg_formed l + 1) ids) = None"
    and "l' = apply_event H sha256 retry l (BatchFormed ids t)"
  shows "ids \<noteq> []" "distinct ids"
    and "map_option ba_id (active_batch l') = Some (batch_id_of H sha256 (lg_formed l + 1) ids)"
    and "i \<in> set ids \<Longrightarrow> \<exists>r r'. ledger_get l i = Some r \<and> is_pending r \<and> is_due now r
      \<and> ledger_get l' i = Some r' \<and> rt_burn r' = rt_burn r \<and> rr_status (rt_record r') = Proving
      \<and> rr_batch_id (rt_record r') = Some (batch_id_of H sha256 (lg_formed l + 1) ids)"
proof -
  note ok = ledger_run_keeps[OF assms(1) ledger_default_ok]
  let ?b = "batch_id_of H sha256 (lg_formed l + 1) ids"
  have "distinct (ledger_pending l)" using distinct_values[OF ok] by (simp add: ledger_pending_def)
  from policy_batch_members[OF assms(3) this] obtain rs
    where rs: "ids = map (\<lambda>r. bn_id (rt_burn r)) rs" "rs \<noteq> []" "distinct rs"
      "\<And>r. r \<in> set rs \<Longrightarrow> r \<in> set (ledger_pending l) \<and> is_due now r" by blast
  have get: "ledger_get l (bn_id (rt_burn r)) = Some r" "is_pending r" "is_due now r" if "r \<in> set rs" for r
  proof -
    show p: "is_pending r" "is_due now r" using rs(4)[OF that] by (auto simp: ledger_pending_def)
    have "r \<in> set (return_values l)" using rs(4)[OF that] by (simp add: ledger_pending_def)
    then obtain k where k: "ledger_get l k = Some r" using get_in_values[OF ok] by blast
    with ledger_okD(1)[OF ok k] show "ledger_get l (bn_id (rt_burn r)) = Some r" by simp
  qed
  show "ids \<noteq> []" using rs by simp
  have "inj_on (\<lambda>r. bn_id (rt_burn r)) (set rs)"
    by (rule inj_onI) (metis get(1) option.inject)
  then show "distinct ids" using rs by (simp add: distinct_map)
  have bo: "batches_ok (lg_batches l)" using ok by (simp add: ledger_ok_def)
  have "ledger_ok retry l'"
    unfolding assms(5) apply_event.simps
    using assms(2,4) active_batch_None_iff[OF bo] by (intro ledger_form_ok[OF ok]) (auto simp: ledger_batch_def)
  then have bo': "batches_ok (lg_batches l')" by (simp add: ledger_ok_def)
  have "map_of (lg_batches l') ?b = Some (batch_formed H sha256 (lg_formed l + 1) ids t)"
    by (simp add: assms(5) ledger_form_eq Let_def batch_formed_def update_conv')
  from active_batch_unique[OF bo' this]
  show "map_option ba_id (active_batch l') = Some ?b" by (simp add: batch_formed_def)
  show "\<exists>r r'. ledger_get l i = Some r \<and> is_pending r \<and> is_due now r
      \<and> ledger_get l' i = Some r' \<and> rt_burn r' = rt_burn r \<and> rr_status (rt_record r') = Proving
      \<and> rr_batch_id (rt_record r') = Some ?b" if i: "i \<in> set ids"
  proof -
    obtain r where r: "r \<in> set rs" "i = bn_id (rt_burn r)" using i rs(1) by auto
    show ?thesis
      using get[OF r(1)] i by (auto simp: assms(5) get_ledger_form r(2) enter_batch_def on_record_def)
  qed
qed

text \<open>What the policy decides over a reachable queue is carried out: the members of the batch it
  chooses are distinct pending returns, and forming it, when no other batch is in the prover,
  leaves every one of them being proven in the new batch, which is the active one.\<close>

theorem chosen_batch_forms:
  assumes "ledger_run H sha256 retry ledger_default es l" "active_batch l = None"
    and "policy_next lim (ledger_pending l) now collect = Batch ids"
    and "ledger_batch l (batch_id_of H sha256 (lg_formed l + 1) ids) = None"
    and "l' = apply_event H sha256 retry l (BatchFormed ids t)"
  shows "ids \<noteq> [] \<and> distinct ids
    \<and> map_option ba_id (active_batch l') = Some (batch_id_of H sha256 (lg_formed l + 1) ids)
    \<and> (\<forall>i \<in> set ids. \<exists>r r'. ledger_get l i = Some r \<and> is_pending r \<and> is_due now r
      \<and> ledger_get l' i = Some r' \<and> rt_burn r' = rt_burn r \<and> rr_status (rt_record r') = Proving
      \<and> rr_batch_id (rt_record r') = Some (batch_id_of H sha256 (lg_formed l + 1) ids))"
  using chosen_facts[OF assms] by blast

theorem chosen_batch_forms_witness:
  "map_option ba_id (active_batch (ledger_form std_hex ex_sha [''a''] 10
     (apply_event std_hex ex_sha ex_policy ledger_default (Accepted (ex_burn ''a'') (ex_record ''a'' 1)))))
   = Some (batch_id_of std_hex ex_sha 1 [''a''])"
proof -
  let ?l = "apply_event std_hex ex_sha ex_policy ledger_default (Accepted (ex_burn ''a'') (ex_record ''a'' 1))"
  let ?lim = "\<lparr>lim_max_size = 8, lim_max_bytes = 100, lim_idle_wait = \<lparr>d_secs = 0, d_nanos = 0\<rparr>\<rparr>"
  have run: "ledger_run std_hex ex_sha ex_policy ledger_default [Accepted (ex_burn ''a'') (ex_record ''a'' 1)] ?l"
    by (simp add: ex_flags ex_policy_def) (simp add: ledger_default_def)
  have d: "rr_not_before_ms (ex_record ''a'' 1) = None"
    by (simp add: ex_record_def ex_return_def queued_def)
  have chosen: "policy_next ?lim (ledger_pending ?l) 2000 False = Batch [''a'']"
    by (simp add: ex_accepted ledger_pending_def return_values_def policy_next_def is_pending_def ex_flags is_due_def d
        select_def Let_def)
  show ?thesis
    using chosen_batch_forms[OF run _ chosen _ refl, of 10]
    by (simp add: ex_accepted active_batch_def batch_values_def ledger_batch_def)
qed

end
