(* ===== verification/Store.thy ===== *)
theory Store
  imports Ledger_Runs
begin

text \<open>
  The durable store: model of \<open>journal.rs\<close> and of the operations of \<open>ReturnStore\<close> in
  \<open>store.rs\<close>. A journal file is its bytes; \<open>J\<close> is the derived \<open>serde_json\<close> codec of events.
  The mutex makes each operation one step, so an operation is a function of the store; waking
  the orchestrator is not modelled. \<open>None\<close> is the end of the process: an append that fails
  exits it, and \<open>expect\<close> would panic.
\<close>

section \<open>The journal\<close>

record event_json =
  ej_to_vec :: "event \<Rightarrow> bytes option"
  ej_from_str :: "string \<Rightarrow> event option"

datatype io_error = NotUtf8 | InvalidLine nat | NotSerialized

datatype journal = Memory | File (journal_bytes: bytes)

text \<open>\<open>BufRead::lines\<close>: split after each line feed, which goes with a carriage return before it.\<close>

definition chomp :: "bytes \<Rightarrow> bytes" where
  "chomp l = (if l \<noteq> [] \<and> last l = 13 then butlast l else l)"

fun lines_of :: "bytes \<Rightarrow> bytes \<Rightarrow> bytes list" where
  "lines_of acc [] = (if acc = [] then [] else [acc])"
| "lines_of acc (b # bs) =
     (if b = 10 then chomp acc # lines_of [] bs else lines_of (acc @ [b]) bs)"

text \<open>\<open>trim().is_empty()\<close>, on the ASCII white space.\<close>

definition is_blank :: "string \<Rightarrow> bool" where
  "is_blank s \<longleftrightarrow> (\<forall>c \<in> set s. (of_char c :: nat) \<in> {9, 10, 11, 12, 13, 32})"

definition event_line :: "event_json \<Rightarrow> event \<Rightarrow> io_error + bytes" where
  "event_line J e = and_then (ok_or NotSerialized (ej_to_vec J e)) (\<lambda>bs. Ok (bs @ [10]))"

fun read_loop ::
  "event_json \<Rightarrow> nat \<Rightarrow> nat \<Rightarrow> event list \<Rightarrow> string list \<Rightarrow> io_error + event list" where
  "read_loop J last_index index events [] = Ok events"
| "read_loop J last_index index events (text # rest) =
     (if is_blank text then read_loop J last_index (index + 1) events rest
      else case ej_from_str J text of
        Some e \<Rightarrow> read_loop J last_index (index + 1) (events @ [e]) rest
      | None \<Rightarrow>
          if index = last_index then read_loop J last_index (index + 1) events rest
          else Err (InvalidLine (index + 1)))"

definition read_events :: "event_json \<Rightarrow> bytes \<Rightarrow> io_error + event list" where
  "read_events J file =
     and_then (collect_results (\<lambda>l. ok_or NotUtf8 (from_utf8 l)) (lines_of [] file)) (\<lambda>lines.
       read_loop J (length lines - 1) 0 [] lines)"

text \<open>\<open>content\<close> is what the journal file holds, \<open>None\<close> when there is none.\<close>

definition journal_open ::
  "event_json \<Rightarrow> bytes option \<Rightarrow> io_error + journal \<times> event list" where
  "journal_open J content =
     and_then (case content of None \<Rightarrow> Ok [] | Some bs \<Rightarrow> read_events J bs) (\<lambda>events.
       Ok (File (case content of None \<Rightarrow> [] | Some bs \<Rightarrow> bs), events))"

definition journal_append :: "event_json \<Rightarrow> event \<Rightarrow> journal \<Rightarrow> io_error + journal" where
  "journal_append J e j =
     (case j of
        Memory \<Rightarrow> Ok Memory
      | File bs \<Rightarrow> and_then (event_line J e) (\<lambda>l. Ok (File (bs @ l))))"

text \<open>The snapshot is written to a temporary file that then replaces the journal.\<close>

definition journal_compact :: "event_json \<Rightarrow> ledger \<Rightarrow> journal \<Rightarrow> io_error + journal" where
  "journal_compact J l j =
     (case j of
        Memory \<Rightarrow> Ok Memory
      | File bs \<Rightarrow> and_then (event_line J (Snapshot l)) (\<lambda>line. Ok (File line)))"

section \<open>The store\<close>

record store =
  st_ledger :: ledger
  st_journal :: journal
  st_retry :: retry_policy

datatype taken = Taken_Batch batch | Taken_WaitUntil u128 | Taken_Idle

definition store_memory :: "retry_policy \<Rightarrow> store" where
  "store_memory retry = \<lparr>st_ledger = ledger_default, st_journal = Memory, st_retry = retry\<rparr>"

fun recover_loop ::
  "hexlib \<Rightarrow> (bytes \<Rightarrow> bytes) \<Rightarrow> event_json \<Rightarrow> retry_policy \<Rightarrow> journal \<Rightarrow> ledger \<Rightarrow> event list
   \<Rightarrow> io_error + journal \<times> ledger" where
  "recover_loop H sha256 J retry j l [] = Ok (j, l)"
| "recover_loop H sha256 J retry j l (e # es) =
     and_then (journal_append J e j) (\<lambda>j'.
       recover_loop H sha256 J retry j' (apply_event H sha256 retry l e) es)"

definition store_open ::
  "hexlib \<Rightarrow> (bytes \<Rightarrow> bytes) \<Rightarrow> event_json \<Rightarrow> bytes option \<Rightarrow> retry_policy \<Rightarrow> u128
   \<Rightarrow> io_error + store" where
  "store_open H sha256 J content retry now_ms =
     and_then (journal_open J content) (\<lambda>(j, events).
     let l = foldl (apply_event H sha256 retry) ledger_default events in
     and_then (recover_loop H sha256 J retry j l (ledger_recover l now_ms)) (\<lambda>(j', l').
     and_then (journal_compact J l' j') (\<lambda>j''.
     Ok \<lparr>st_ledger = l', st_journal = j'', st_retry = retry\<rparr>)))"

definition commit_event ::
  "hexlib \<Rightarrow> (bytes \<Rightarrow> bytes) \<Rightarrow> event_json \<Rightarrow> event \<Rightarrow> store \<Rightarrow> store option" where
  "commit_event H sha256 J e s =
     (case journal_append J e (st_journal s) of
        Inl _ \<Rightarrow> None
      | Inr j \<Rightarrow> Some (s\<lparr>st_journal := j,
                        st_ledger := apply_event H sha256 (st_retry s) (st_ledger s) e\<rparr>))"

definition accept_within ::
  "hexlib \<Rightarrow> (bytes \<Rightarrow> bytes) \<Rightarrow> event_json \<Rightarrow> service_burn \<Rightarrow> return_record \<Rightarrow> u128 \<Rightarrow> nat \<Rightarrow> store
   \<Rightarrow> (store \<times> (return_record \<times> bool) option) option" where
  "accept_within H sha256 J burn record now_ms max_unfinished s =
     (let known = map_option (\<lambda>r. (bn_id (rt_burn r), failed_recoverably (rt_record r)))
            (ledger_by_nullifier (st_ledger s) (rr_nullifier record))
      in if known = None \<and> max_unfinished \<le> unfinished (st_ledger s) then Some (s, None)
      else case known of
        Some (i, False) \<Rightarrow>
          map_option (\<lambda>r. (s, Some (r, False))) (ledger_record (st_ledger s) i)
      | Some (i, True) \<Rightarrow>
          (case commit_event H sha256 J (Requeued i now_ms) s of
             None \<Rightarrow> None
           | Some s' \<Rightarrow> map_option (\<lambda>r. (s', Some (r, True))) (ledger_record (st_ledger s') i))
      | None \<Rightarrow>
          (case commit_event H sha256 J (Accepted burn record) s of
             None \<Rightarrow> None
           | Some s' \<Rightarrow>
               map_option (\<lambda>r. (s', Some (r, True))) (ledger_record (st_ledger s') (bn_id burn))))"

text \<open>\<open>usize::MAX\<close> bounds every count of returns.\<close>

definition accept ::
  "hexlib \<Rightarrow> (bytes \<Rightarrow> bytes) \<Rightarrow> event_json \<Rightarrow> service_burn \<Rightarrow> return_record \<Rightarrow> u128 \<Rightarrow> store
   \<Rightarrow> (store \<times> return_record \<times> bool) option" where
  "accept H sha256 J burn record now_ms s =
     (case accept_within H sha256 J burn record now_ms (2 ^ 64 - 1) s of
        Some (s', Some out) \<Rightarrow> Some (s', out)
      | _ \<Rightarrow> None)"

definition take_next ::
  "hexlib \<Rightarrow> (bytes \<Rightarrow> bytes) \<Rightarrow> event_json \<Rightarrow> limits \<Rightarrow> u128 \<Rightarrow> bool \<Rightarrow> store
   \<Rightarrow> (store \<times> taken) option" where
  "take_next H sha256 J policy now_ms collect s =
     (case policy_next policy (ledger_pending (st_ledger s)) now_ms collect of
        Batch members \<Rightarrow>
          (case commit_event H sha256 J (BatchFormed members now_ms) s of
             None \<Rightarrow> None
           | Some s' \<Rightarrow> map_option (\<lambda>b. (s', Taken_Batch b)) (active_batch (st_ledger s')))
      | WaitUntil at_ms \<Rightarrow> Some (s, Taken_WaitUntil at_ms)
      | Idle \<Rightarrow> Some (s, Taken_Idle))"

fun stop_loop ::
  "hexlib \<Rightarrow> (bytes \<Rightarrow> bytes) \<Rightarrow> event_json \<Rightarrow> event list \<Rightarrow> string list \<Rightarrow> store
   \<Rightarrow> (store \<times> string list) option" where
  "stop_loop H sha256 J [] stopped s = Some (s, stopped)"
| "stop_loop H sha256 J (e # es) stopped s =
     (case commit_event H sha256 J e s of
        None \<Rightarrow> None
      | Some s' \<Rightarrow>
          stop_loop H sha256 J es
            (case e of BatchInterrupted i _ _ \<Rightarrow> stopped @ [i] | _ \<Rightarrow> stopped) s')"

definition stop_proving ::
  "hexlib \<Rightarrow> (bytes \<Rightarrow> bytes) \<Rightarrow> event_json \<Rightarrow> u128 \<Rightarrow> store \<Rightarrow> (store \<times> string list) option" where
  "stop_proving H sha256 J now_ms s = stop_loop H sha256 J (ledger_stop (st_ledger s) now_ms) [] s"

definition store_get :: "store \<Rightarrow> string \<Rightarrow> return_record option" where
  "store_get s i = ledger_record (st_ledger s) i"

definition get_by_nullifier :: "store \<Rightarrow> string \<Rightarrow> return_record option" where
  "get_by_nullifier s nl =
     (case ledger_by_nullifier (st_ledger s) nl of
        None \<Rightarrow> None
      | Some r \<Rightarrow> ledger_record (st_ledger s) (bn_id (rt_burn r)))"

definition get_batch :: "store \<Rightarrow> string \<Rightarrow> batch_bundle option" where
  "get_batch s bid = (case ledger_batch (st_ledger s) bid of None \<Rightarrow> None | Some b \<Rightarrow> ba_bundle b)"

definition store_health :: "store \<Rightarrow> health" where
  "store_health s = ledger_health (st_ledger s)"

end
