(* ===== verification/Store_Proofs.thy ===== *)
theory Store_Proofs
  imports Store
begin

text \<open>
  The store is durable and idempotent: a restart after a crash at any moment resumes from the
  state the journal holds, whatever part of the last line was written (but one inside a character, which
  refuses the journal), and submitting a burn
  again never creates a second return.
\<close>

section \<open>Lines\<close>

lemma lines_of_line: "10 \<notin> set t \<Longrightarrow> lines_of acc (t @ 10 # rest) = chomp (acc @ t) # lines_of [] rest"
  by (induction t arbitrary: acc) auto

lemma lines_of_tail: "10 \<notin> set t \<Longrightarrow> lines_of acc t = (if acc @ t = [] then [] else [acc @ t])"
  by (induction t arbitrary: acc) auto

text \<open>
  What \<open>serde_json\<close> documents, for one event: it is written on one line of valid UTF-8 text that
  reads back as the event, and no proper prefix of the text is a JSON document.
\<close>

definition writes :: "event_json \<Rightarrow> event \<Rightarrow> bool" where
  "writes J e \<longleftrightarrow> (\<exists>bs t. ej_to_vec J e = Some bs \<and> 10 \<notin> set bs \<and> bs \<noteq> [] \<and> last bs \<noteq> 13
     \<and> from_utf8 bs = Some t \<and> \<not> is_blank t \<and> ej_from_str J t = Some e
     \<and> (\<forall>p q u. bs = p @ q \<longrightarrow> q \<noteq> [] \<longrightarrow> from_utf8 p = Some u \<longrightarrow> ej_from_str J u = None))"

definition event_text :: "event_json \<Rightarrow> event \<Rightarrow> bytes" where
  "event_text J e = the (ej_to_vec J e)"

definition journal_of :: "event_json \<Rightarrow> event list \<Rightarrow> bytes" where
  "journal_of J es = concat (map (\<lambda>e. event_text J e @ [10]) es)"

lemma journal_of_simps [simp]:
  "journal_of J [] = []" "journal_of J (e # es) = event_text J e @ 10 # journal_of J es"
  "journal_of J (es @ fs) = journal_of J es @ journal_of J fs"
  by (simp_all add: journal_of_def)

lemma writesD:
  assumes "writes J e"
  obtains t where "ej_to_vec J e = Some (event_text J e)" "10 \<notin> set (event_text J e)" "event_text J e \<noteq> []"
    "last (event_text J e) \<noteq> 13" "from_utf8 (event_text J e) = Some t" "\<not> is_blank t" "ej_from_str J t = Some e"
    "\<And>p q u. event_text J e = p @ q \<Longrightarrow> q \<noteq> [] \<Longrightarrow> from_utf8 p = Some u \<Longrightarrow> ej_from_str J u = None"
  using assms unfolding writes_def event_text_def by (auto intro: that)

lemma event_line_writes: "writes J e \<Longrightarrow> event_line J e = Ok (event_text J e @ [10])"
  by (elim writesD) (simp add: event_line_def)

definition text_of :: "event_json \<Rightarrow> event \<Rightarrow> string" where
  "text_of J e = the (from_utf8 (event_text J e))"

lemma text_of_writes:
  assumes "writes J e"
  shows "from_utf8 (event_text J e) = Some (text_of J e)" "\<not> is_blank (text_of J e)"
    "ej_from_str J (text_of J e) = Some e"
  using assms by (auto simp: text_of_def elim!: writesD)

lemma lines_of_journal:
  "\<forall>e \<in> set es. writes J e \<Longrightarrow> lines_of [] (journal_of J es @ p) = map (event_text J) es @ lines_of [] p"
proof (induction es)
  case (Cons e es)
  then obtain t where w: "10 \<notin> set (event_text J e)" "event_text J e \<noteq> []" "last (event_text J e) \<noteq> 13"
    by (auto elim!: writesD)
  with Cons show ?case by (simp add: lines_of_line chomp_def)
qed simp

lemma collect_texts:
  "\<forall>e \<in> set es. writes J e \<Longrightarrow>
   collect_results (\<lambda>l. ok_or NotUtf8 (from_utf8 l)) (map (event_text J) es @ ls)
     = and_then (collect_results (\<lambda>l. ok_or NotUtf8 (from_utf8 l)) ls) (\<lambda>ts. Ok (map (text_of J) es @ ts))"
proof (induction es)
  case Nil
  then show ?case by (cases "collect_results (\<lambda>l. ok_or NotUtf8 (from_utf8 l)) ls") simp_all
next
  case (Cons e es)
  then show ?case
    by (cases "collect_results (\<lambda>l. ok_or NotUtf8 (from_utf8 l)) ls") (simp_all add: text_of_writes)
qed

lemma read_loop_written:
  "\<forall>e \<in> set es. writes J e \<Longrightarrow>
   read_loop J k i acc (map (text_of J) es @ rest) = read_loop J k (i + length es) (acc @ es) rest"
  by (induction es arbitrary: i acc) (simp_all add: text_of_writes)

text \<open>What a crash leaves of the line being appended: any part of it, from nothing to the whole line;
  the event is in it once its text is, with or without the line feed.\<close>

definition torn :: "event_json \<Rightarrow> bytes \<Rightarrow> event \<Rightarrow> bool" where
  "torn J p e \<longleftrightarrow> (\<exists>q. event_text J e @ [10] = p @ q)"

definition entered :: "event_json \<Rightarrow> bytes \<Rightarrow> event \<Rightarrow> bool" where
  "entered J p e \<longleftrightarrow> length (event_text J e) \<le> length p"

lemma torn_cases:
  assumes "torn J p e"
  obtains (part) q where "event_text J e = p @ q" "q \<noteq> []" "\<not> entered J p e"
    | (all_text) "p = event_text J e" "entered J p e"
    | (line) "p = event_text J e @ [10]" "entered J p e"
proof -
  obtain q where q: "event_text J e @ [10] = p @ q" using assms by (auto simp: torn_def)
  then have n: "Suc (length (event_text J e)) = length p + length q" by (metis length_append_singleton length_append)
  show thesis
  proof (cases q rule: rev_cases)
    case Nil
    with q have "p = event_text J e @ [10]" by simp
    with line show thesis by (simp add: entered_def)
  next
    case (snoc q' x)
    with q have "event_text J e = p @ q'" by simp
    with part all_text show thesis by (cases "q' = []") (simp_all add: entered_def)
  qed
qed

lemma read_events_written:
  assumes "\<forall>e \<in> set es. writes J e"
  shows "read_events J (journal_of J es) = Ok es"
  using lines_of_journal[OF assms, of "[]"] collect_texts[OF assms, of "[]"]
    read_loop_written[OF assms, of "length es - 1" 0 "[]" "[]"]
  by (simp add: read_events_def)

text \<open>A crash inside a character is not tolerated: the whole journal is refused.\<close>

lemma torn_inside_a_character:
  assumes "\<forall>e \<in> set es. writes J e" "10 \<notin> set p" "p \<noteq> []" "\<not> utf8_valid p"
  shows "read_events J (journal_of J es @ p) = Err NotUtf8"
  using lines_of_journal[OF assms(1), of p] collect_texts[OF assms(1), of "[p]"] assms(2-)
  by (simp add: read_events_def lines_of_tail from_utf8_def)

lemma read_events_torn:
  assumes es: "\<forall>e \<in> set es. writes J e" and e: "writes J e" and "torn J p e"
  shows "read_events J (journal_of J es @ p) =
    (if entered J p e then Ok (es @ [e]) else if utf8_valid p then Ok es else Err NotUtf8)"
  using assms(3)
proof (cases rule: torn_cases)
  case (part q)
  have n: "10 \<notin> set p" using e part(1) by (auto elim!: writesD)
  show ?thesis
  proof (cases "utf8_valid p")
    case True
    then obtain u where u: "from_utf8 p = Some u" by (simp add: from_utf8_def)
    have "ej_from_str J u = None" using e part(1,2) u by (auto elim!: writesD)
    then have "p \<noteq> [] \<Longrightarrow> read_events J (journal_of J es @ p) = Ok es"
      using lines_of_journal[OF es, of p] collect_texts[OF es, of "[p]"]
        read_loop_written[OF es, of "length es" 0 "[]" "[u]"] n u
      by (simp add: read_events_def lines_of_tail)
    with True part(3) read_events_written[OF es] show ?thesis by (cases "p = []") simp_all
  next
    case False
    then have "p \<noteq> []" by auto
    with torn_inside_a_character[OF es n this False] False part(3) show ?thesis by simp
  qed
next
  case all_text
  obtain t where t: "10 \<notin> set p" "p \<noteq> []" using e all_text(1) by (auto elim!: writesD)
  note u = text_of_writes[OF e, folded all_text(1)]
  show ?thesis
    using lines_of_journal[OF es, of p] collect_texts[OF es, of "[p]"]
      read_loop_written[OF es, of "length es" 0 "[]" "[text_of J e]"] t u all_text
    by (simp add: read_events_def lines_of_tail)
next
  case line
  have "journal_of J es @ p = journal_of J (es @ [e])" by (simp add: line(1))
  moreover have "read_events J (journal_of J (es @ [e])) = Ok (es @ [e])"
    using es e by (intro read_events_written) simp
  ultimately show ?thesis using line(2) by simp
qed

section \<open>Commits\<close>

fun commit_all ::
  "hexlib \<Rightarrow> (bytes \<Rightarrow> bytes) \<Rightarrow> event_json \<Rightarrow> event list \<Rightarrow> store \<Rightarrow> store option" where
  "commit_all H sha256 J [] s = Some s"
| "commit_all H sha256 J (e # es) s =
     (case commit_event H sha256 J e s of None \<Rightarrow> None | Some s' \<Rightarrow> commit_all H sha256 J es s')"

lemma commit_all_ledger:
  "commit_all H sha256 J es s = Some s' \<Longrightarrow> st_retry s' = st_retry s
   \<and> st_ledger s' = foldl (apply_event H sha256 (st_retry s)) (st_ledger s) es"
proof (induction es arbitrary: s)
  case (Cons e es)
  then obtain s1 where "commit_event H sha256 J e s = Some s1" "commit_all H sha256 J es s1 = Some s'"
    by (auto split: option.splits)
  moreover from this have "st_retry s1 = st_retry s"
    "st_ledger s1 = apply_event H sha256 (st_retry s) (st_ledger s) e"
    by (auto simp: commit_event_def split: sum.splits)
  ultimately show ?case using Cons.IH[of s1] by simp
qed simp

lemma commit_all_journal:
  assumes "commit_all H sha256 J es s = Some s'" "\<forall>e \<in> set es. writes J e" "st_journal s = File bs"
  shows "st_journal s' = File (bs @ journal_of J es)"
  using assms
proof (induction es arbitrary: s bs)
  case (Cons e es)
  then obtain s1 where s1: "commit_event H sha256 J e s = Some s1" "commit_all H sha256 J es s1 = Some s'"
    by (auto split: option.splits)
  then have "st_journal s1 = File (bs @ event_text J e @ [10])"
    using Cons.prems by (auto simp: commit_event_def journal_append_def event_line_writes)
  from Cons.IH[OF s1(2) _ this] Cons.prems(2) show ?case by simp
qed simp

lemma commit_all_append:
  "commit_all H sha256 J (es @ fs) s = (case commit_all H sha256 J es s of None \<Rightarrow> None
     | Some s' \<Rightarrow> commit_all H sha256 J fs s')"
  by (induction es arbitrary: s) (auto split: option.splits)

text \<open>Every operation of the store is a sequence of commits.\<close>

lemma stop_loop_commits:
  "stop_loop H sha256 J es ids s = Some (s', ids') \<Longrightarrow> commit_all H sha256 J es s = Some s'"
  by (induction es arbitrary: s ids) (auto split: option.splits)

lemma accept_within_commits:
  assumes "accept_within H sha256 J burn rc now m s = Some (s', out)"
  shows "\<exists>es. commit_all H sha256 J es s = Some s'"
proof -
  have "s' = s \<or> (\<exists>e. commit_event H sha256 J e s = Some s')"
    using assms by (auto simp: accept_within_def Let_def split: if_splits option.splits prod.splits bool.splits)
  moreover have "commit_all H sha256 J [] s = Some s" by simp
  moreover have "commit_event H sha256 J e s = Some s' \<Longrightarrow> commit_all H sha256 J [e] s = Some s'" for e by simp
  ultimately show ?thesis by metis
qed

section \<open>Restarts\<close>

lemma recover_loop_written:
  assumes "\<forall>e \<in> set es. writes J e"
  shows "recover_loop H sha256 J retry (File bs) l es
    = Ok (File (bs @ journal_of J es), foldl (apply_event H sha256 retry) l es)"
  using assms
  by (induction es arbitrary: bs l) (simp_all add: journal_append_def event_line_writes)

lemma open_written:
  assumes "\<forall>e \<in> set es. writes J e" "writes J e" "torn J p e"
    and "l = foldl (apply_event H sha256 retry) ledger_default (if entered J p e then es @ [e] else es)"
    and "l' = foldl (apply_event H sha256 retry) l (ledger_recover l t)"
    and "\<forall>e \<in> set (ledger_recover l t). writes J e" "writes J (Snapshot l')"
  shows "store_open H sha256 J (Some (journal_of J es @ p)) retry t
    = (if entered J p e \<or> utf8_valid p
       then Ok \<lparr>st_ledger = l', st_journal = File (journal_of J [Snapshot l']), st_retry = retry\<rparr>
       else Err NotUtf8)"
proof -
  note r = read_events_torn[OF assms(1-3)]
  have open_on: "store_open H sha256 J (Some (journal_of J es @ p)) retry t
      = Ok \<lparr>st_ledger = l', st_journal = File (journal_of J [Snapshot l']), st_retry = retry\<rparr>"
    if "read_events J (journal_of J es @ p) = Ok fs" "foldl (apply_event H sha256 retry) ledger_default fs = l" for fs
    using assms(5-7) that
    by (simp add: store_open_def journal_open_def Let_def recover_loop_written journal_compact_def event_line_writes)
  show ?thesis
  proof (cases "entered J p e \<or> utf8_valid p")
    case True
    with r assms(4) open_on[of "if entered J p e then es @ [e] else es"] show ?thesis by auto
  next
    case False
    with r show ?thesis by (simp add: store_open_def journal_open_def)
  qed
qed

lemma open_new:
  assumes "store_open H sha256 J None retry t0 = Ok s" "writes J (Snapshot ledger_default)"
  shows "s = \<lparr>st_ledger = ledger_default, st_journal = File (journal_of J [Snapshot ledger_default]),
    st_retry = retry\<rparr>"
proof -
  have "ledger_recover ledger_default t0 = []"
    by (simp add: ledger_recover_def interruptions_def batch_values_def ledger_default_def)
  with assms show ?thesis
    by (simp add: store_open_def journal_open_def journal_compact_def event_line_writes Let_def)
qed

text \<open>A store whose journal holds exactly the events its ledger is made of.\<close>

definition durable :: "hexlib \<Rightarrow> (bytes \<Rightarrow> bytes) \<Rightarrow> event_json \<Rightarrow> store \<Rightarrow> bool" where
  "durable H sha256 J s \<longleftrightarrow> (\<exists>es. (\<forall>e \<in> set es. writes J e) \<and> st_journal s = File (journal_of J es)
     \<and> st_ledger s = foldl (apply_event H sha256 (st_retry s)) ledger_default es)"

lemma durable_commits:
  assumes "durable H sha256 J s" "commit_all H sha256 J es s = Some s'" "\<forall>e \<in> set es. writes J e"
  shows "durable H sha256 J s'"
proof -
  obtain fs where fs: "\<forall>e \<in> set fs. writes J e" "st_journal s = File (journal_of J fs)"
    "st_ledger s = foldl (apply_event H sha256 (st_retry s)) ledger_default fs"
    using assms(1) by (auto simp: durable_def)
  from commit_all_journal[OF assms(2,3) fs(2)] commit_all_ledger[OF assms(2)] fs assms(3)
  show ?thesis unfolding durable_def by (intro exI[of _ "fs @ es"]) auto
qed

text \<open>C26. A restart resumes where the store was: a store that holds its state durably still does after any
  commits. When the process is cut off after any number of bytes of a further line, the next open finds
  exactly the committed state, with the further event if its text is all there, ends the proof the crash
  interrupted, and leaves a store that is durable again; only when the cut is inside a character does it
  refuse the journal as not being text.\<close>

theorem restart_resumes:
  assumes "durable H sha256 J s0" "commit_all H sha256 J es s0 = Some s" "torn J p e"
    and "l = (if entered J p e then apply_event H sha256 (st_retry s) (st_ledger s) e else st_ledger s)"
    and "l' = foldl (apply_event H sha256 (st_retry s)) l (ledger_recover l t)"
    and "\<forall>x \<in> set es \<union> set (ledger_recover l t) \<union> {e, Snapshot l'}. writes J x"
  shows "st_ledger s = foldl (apply_event H sha256 (st_retry s)) (st_ledger s0) es
    \<and> durable H sha256 J s
    \<and> (if entered J p e \<or> utf8_valid p
       then \<exists>s'. store_open H sha256 J (Some (journal_bytes (st_journal s) @ p)) (st_retry s) t = Ok s'
         \<and> st_ledger s' = l' \<and> st_retry s' = st_retry s \<and> durable H sha256 J s'
       else store_open H sha256 J (Some (journal_bytes (st_journal s) @ p)) (st_retry s) t = Err NotUtf8)"
proof -
  have d: "durable H sha256 J s" using durable_commits[OF assms(1,2)] assms(6) by blast
  then obtain fs where fs: "\<forall>e \<in> set fs. writes J e" "st_journal s = File (journal_of J fs)"
    "st_ledger s = foldl (apply_event H sha256 (st_retry s)) ledger_default fs"
    by (auto simp: durable_def)
  have w: "writes J e" "\<forall>x \<in> set (ledger_recover l t). writes J x" "writes J (Snapshot l')"
    using assms(6) by auto
  have l: "l = foldl (apply_event H sha256 (st_retry s)) ledger_default (if entered J p e then fs @ [e] else fs)"
    by (simp add: assms(4) fs(3))
  note o = open_written[OF fs(1) w(1) assms(3) l assms(5) w(2,3)]
  have d': "durable H sha256 J \<lparr>st_ledger = l', st_journal = File (journal_of J [Snapshot l']), st_retry = st_retry s\<rparr>"
    unfolding durable_def using w(3) by (intro exI[of _ "[Snapshot l']"]) simp
  have "st_ledger s = foldl (apply_event H sha256 (st_retry s)) (st_ledger s0) es"
    using commit_all_ledger[OF assms(2)] by simp
  with d o d' show ?thesis by (simp add: fs(2))
qed

definition ex_json :: event_json where
  "ex_json =
     \<lparr>ej_to_vec = (\<lambda>e. if e = Requeued ''a'' 1 then Some [123, 97] else if e = Requeued ''b'' 2 then Some [123, 98]
         else if e = Snapshot ledger_default then Some [123, 99] else None),
      ej_from_str = (\<lambda>t. if t = ''{a'' then Some (Requeued ''a'' 1) else if t = ''{b'' then Some (Requeued ''b'' 2)
         else if t = ''{c'' then Some (Snapshot ledger_default) else None)\<rparr>"

lemma ex_json_writes:
  "writes ex_json (Requeued ''a'' 1)" "writes ex_json (Requeued ''b'' 2)" "writes ex_json (Snapshot ledger_default)"
proof -
  have t: "from_utf8 [123, 97] = Some ''{a''" "from_utf8 [123, 98] = Some ''{b''" "from_utf8 [123, 99] = Some ''{c''"
    by code_simp+
  have p: "ej_from_str ex_json u = None" if "[123, x] = p @ q" "q \<noteq> []" "from_utf8 p = Some u" for x p q u
  proof -
    have "p = [] \<or> p = [123]" using that by (cases p) (auto simp: Cons_eq_append_conv)
    then show ?thesis using that(3) by (auto simp: from_utf8_def ex_json_def utf8_ranges_def split: if_splits)
  qed
  show "writes ex_json (Requeued ''a'' 1)" "writes ex_json (Requeued ''b'' 2)" "writes ex_json (Snapshot ledger_default)"
    unfolding writes_def using p t by (auto simp: ex_json_def is_blank_def)
qed

theorem restart_resumes_witness:
  "\<exists>s s'. store_open std_hex ex_sha ex_json None ex_policy 0 = Ok s
     \<and> store_open std_hex ex_sha ex_json (Some (journal_bytes (st_journal s) @ [123, 97, 10, 123])) ex_policy 5 = Ok s'
     \<and> st_ledger s' = ledger_default"
proof -
  note w = ex_json_writes
  let ?fresh = "\<lparr>st_ledger = ledger_default, st_journal = File (journal_of ex_json [Snapshot ledger_default]),
    st_retry = ex_policy\<rparr>"
  let ?later = "?fresh\<lparr>st_journal := File (journal_of ex_json [Snapshot ledger_default, Requeued ''a'' 1])\<rparr>"
  have r0: "ledger_recover ledger_default u = []" for u
    by (simp add: ledger_recover_def interruptions_def batch_values_def ledger_default_def)
  have o: "store_open std_hex ex_sha ex_json None ex_policy 0 = Ok ?fresh"
    using w(3) r0 by (simp add: store_open_def journal_open_def journal_compact_def event_line_writes Let_def)
  have d: "durable std_hex ex_sha ex_json ?fresh"
    unfolding durable_def using w(3) by (intro exI[of _ "[Snapshot ledger_default]"]) simp
  have l: "ledger_requeue ''a'' 1 ex_policy ledger_default = ledger_default"
    by (simp add: ledger_requeue_def update_return_def ledger_default_def)
  have c: "commit_all std_hex ex_sha ex_json [Requeued ''a'' 1] ?fresh = Some ?later"
    using w(1) by (simp add: commit_event_def journal_append_def event_line_writes l)
  have t: "torn ex_json [123] (Requeued ''b'' 2)" "\<not> entered ex_json [123] (Requeued ''b'' 2)" "utf8_valid [123]"
    by (simp_all add: torn_def entered_def event_text_def ex_json_def utf8_ranges_def)
  note r = r0[of 5]
  have b: "journal_bytes (st_journal ?later) @ [123] = journal_bytes (st_journal ?fresh) @ [123, 97, 10, 123]"
    by (simp add: event_text_def ex_json_def)
  from restart_resumes[OF d c t(1) refl refl, of 5] w r b t(2,3)
  have "\<exists>s'. store_open std_hex ex_sha ex_json (Some (journal_bytes (st_journal ?fresh) @ [123, 97, 10, 123])) ex_policy 5 = Ok s'
      \<and> st_ledger s' = ledger_default" by auto
  with o show ?thesis by blast
qed

section \<open>Accepting a burn\<close>

lemma update_new: "map_of al k = None \<Longrightarrow> AList.update k v al = al @ [(k, v)]"
  by (induction al) (auto split: if_splits)

lemma sort_key_append_last:
  fixes f :: "'a \<Rightarrow> 'k :: linorder"
  assumes "\<forall>x \<in> set xs. f x < f y"
  shows "sort_key f (xs @ [y]) = sort_key f xs @ [y]"
proof (rule properties_for_sort_key)
  show "mset (sort_key f xs @ [y]) = mset (xs @ [y])" by simp
  show "sorted (map f (sort_key f xs @ [y]))"
    using assms by (auto simp: sorted_append sorted_sort_key less_imp_le)
  show "filter (\<lambda>x. f k = f x) (sort_key f xs @ [y]) = filter (\<lambda>x. f k = f x) (xs @ [y])"
    if "k \<in> set (sort_key f xs @ [y])" for k
    by (simp add: sort_key_stable eq_commute[of "f k"])
qed

lemma position_snoc: "\<forall>x \<in> set xs. \<not> P x \<Longrightarrow> P y \<Longrightarrow> position P (xs @ [y]) = Some (length xs)"
  by (induction xs) auto

lemma pending_accepted:
  assumes ok: "ledger_ok retry l" and new: "ledger_get l (bn_id burn) = None"
    "ledger_by_nullifier l (rr_nullifier rc) = None"
    and rc: "rr_status rc = Queued" and room: "lg_accepted l < lg_accepted l + 1"
  defines "r \<equiv> \<lparr>rt_seq = lg_accepted l + 1, rt_burn = burn, rt_record = rc\<rparr>"
  shows "return_values (ledger_accept burn rc l) = return_values l @ [r]"
    "ledger_pending (ledger_accept burn rc l) = ledger_pending l @ [r]"
    "ledger_get (ledger_accept burn rc l) (bn_id burn) = Some r"
    "ledger_by_nullifier (ledger_accept burn rc l) (rr_nullifier rc) = Some r"
proof -
  have n: "map_of (lg_by_nullifier l) (to_lowercase (rr_nullifier rc)) = None"
  proof (rule ccontr)
    assume "map_of (lg_by_nullifier l) (to_lowercase (rr_nullifier rc)) \<noteq> None"
    then obtain k where k: "map_of (lg_by_nullifier l) (to_lowercase (rr_nullifier rc)) = Some k" by blast
    with ok index_ok_known[of l "to_lowercase (rr_nullifier rc)" k] new(2)
    show False by (auto simp: ledger_ok_def ledger_by_nullifier_def ledger_get_def)
  qed
  have g: "map_of (lg_returns l) (bn_id burn) = None" using new(1) by (simp add: ledger_get_def)
  have l': "lg_returns (ledger_accept burn rc l) = lg_returns l @ [(bn_id burn, r)]"
    "lg_by_nullifier (ledger_accept burn rc l)
      = lg_by_nullifier l @ [(to_lowercase (rr_nullifier rc), bn_id burn)]"
    using n g by (simp_all add: ledger_accept_def Let_def update_new r_def)
  show v: "return_values (ledger_accept burn rc l) = return_values l @ [r]"
    by (simp add: return_values_def l')
  have "rt_seq x < rt_seq r" if "x \<in> set (filter is_pending (return_values l))" for x
  proof -
    have "x \<in> set (return_values l)" using that by simp
    then obtain k where "ledger_get l k = Some x" using get_in_values[OF ok] by blast
    then have "rt_seq x \<le> lg_accepted l" using ok by (simp add: ledger_ok_def seq_ok_def)
    with room show ?thesis by (simp add: r_def)
  qed
  moreover have "is_pending r" using rc by (simp add: is_pending_def r_def)
  ultimately show "ledger_pending (ledger_accept burn rc l) = ledger_pending l @ [r]"
    unfolding ledger_pending_def v by (simp add: sort_key_append_last)
  show get: "ledger_get (ledger_accept burn rc l) (bn_id burn) = Some r"
    using g by (simp add: ledger_get_def l' map_add_def)
  show "ledger_by_nullifier (ledger_accept burn rc l) (rr_nullifier rc) = Some r"
    using n get by (simp add: ledger_by_nullifier_def l' map_add_def ledger_get_def)
qed

lemma commit_event_Some:
  "commit_event H sha256 J e s = Some s' \<Longrightarrow>
   st_ledger s' = apply_event H sha256 (st_retry s) (st_ledger s) e \<and> st_retry s' = st_retry s"
  by (auto simp: commit_event_def split: sum.splits)

lemma by_nullifier_key:
  assumes "ledger_ok retry l" "ledger_by_nullifier l nl = Some r"
  shows "ledger_get l (bn_id (rt_burn r)) = Some r"
    "map_of (lg_by_nullifier l) (to_lowercase nl) = Some (bn_id (rt_burn r))"
proof -
  obtain k where k: "map_of (lg_by_nullifier l) (to_lowercase nl) = Some k" "ledger_get l k = Some r"
    using assms(2) by (auto simp: ledger_by_nullifier_def ledger_get_def split: option.splits)
  with ledger_okD(1)[OF assms(1) k(2)] show "ledger_get l (bn_id (rt_burn r)) = Some r"
    "map_of (lg_by_nullifier l) (to_lowercase nl) = Some (bn_id (rt_burn r))" by simp_all
qed

text \<open>A requeued return is where it was, waiting again.\<close>

lemma requeue_get:
  assumes "ledger_get l i = Some r" "failed_recoverably (rt_record r)"
  shows "\<exists>m. ledger_get (ledger_requeue i t retry l) i
      = Some (on_record (\<lambda>x. transition_with Queued t m (x\<lparr>rr_failure := None\<rparr>)) r)"
  using assms
  by (auto simp: ledger_requeue_def get_update_return requeue_record_def Let_def on_record_def failed_recoverably_def)

lemma requeue_by_nullifier:
  "lg_by_nullifier (ledger_requeue i t retry l) = lg_by_nullifier l"
  by (simp add: ledger_requeue_def update_return_def)

text \<open>C27. Submitting a burn is idempotent and bounded: a burn the store does not hold is refused,
  changing nothing, once the limit of unfinished returns is reached, and otherwise becomes the last
  return of the queue; a burn it holds, under any letter case of the nullifier, never becomes a second
  return: it is queued again if it had failed recoverably, keeping its attempts, its retry time and
  its place, and nothing changes otherwise.\<close>

theorem accept_idempotent:
  assumes ok: "ledger_ok (st_retry s) (st_ledger s)"
    and rc: "rr_status record = Queued" "flags_ok record" "rr_attempts record < rp_max_attempts (st_retry s)"
    and room: "lg_accepted (st_ledger s) < lg_accepted (st_ledger s) + 1"
    and fresh: "ledger_by_nullifier (st_ledger s) (rr_nullifier record) = None \<longrightarrow>
      ledger_get (st_ledger s) (bn_id burn) = None"
    and acc: "accept_within H sha256 J burn record now m s = Some (s', out)"
  shows "ledger_ok (st_retry s) (st_ledger s')
    \<and> (case ledger_by_nullifier (st_ledger s) (rr_nullifier record) of
         None \<Rightarrow>
           if m \<le> unfinished (st_ledger s) then s' = s \<and> out = None
           else out = Some (record\<lparr>rr_queue_position := Some (length (ledger_pending (st_ledger s)) + 1)\<rparr>, True)
             \<and> ledger_pending (st_ledger s') = ledger_pending (st_ledger s)
                 @ [\<lparr>rt_seq = lg_accepted (st_ledger s) + 1, rt_burn = burn, rt_record = record\<rparr>]
       | Some r \<Rightarrow>
           map fst (lg_returns (st_ledger s')) = map fst (lg_returns (st_ledger s))
           \<and> (if failed_recoverably (rt_record r)
              then \<exists>r'. ledger_by_nullifier (st_ledger s') (rr_nullifier record) = Some r'
                \<and> rt_seq r' = rt_seq r \<and> rt_burn r' = rt_burn r \<and> rr_status (rt_record r') = Queued
                \<and> rr_attempts (rt_record r') = rr_attempts (rt_record r)
                \<and> rr_not_before_ms (rt_record r') = rr_not_before_ms (rt_record r)
                \<and> map_option snd out = Some True
              else s' = s \<and> out = map_option (\<lambda>x. (x, False)) (ledger_record (st_ledger s) (bn_id (rt_burn r)))))"
proof (cases "ledger_by_nullifier (st_ledger s) (rr_nullifier record)")
  case None
  show ?thesis
  proof (cases "m \<le> unfinished (st_ledger s)")
    case True
    with None acc ok show ?thesis by (simp add: accept_within_def)
  next
    case False
    let ?l = "ledger_accept burn record (st_ledger s)"
    note p = pending_accepted[OF ok fresh[rule_format, OF None] None rc(1) room]
    have s': "commit_event H sha256 J (Accepted burn record) s = Some s'"
      "map_option (\<lambda>r. Some (r, True)) (ledger_record (st_ledger s') (bn_id burn)) = Some out"
      using None False acc by (auto simp: accept_within_def split: option.splits)
    then have l: "st_ledger s' = ?l" using commit_event_Some[OF s'(1)] by simp
    have o: "ledger_ok (st_retry s) ?l"
      using fresh None by (intro ledger_accept_ok[OF ok _ rc room]) (simp add: ledger_get_def)
    have "\<forall>x \<in> set (ledger_pending (st_ledger s)). bn_id (rt_burn x) \<noteq> bn_id burn"
    proof
      fix x assume "x \<in> set (ledger_pending (st_ledger s))"
      then have "x \<in> set (return_values (st_ledger s))" by (simp add: ledger_pending_def)
      then obtain k where k: "ledger_get (st_ledger s) k = Some x" using get_in_values[OF ok] by blast
      with ledger_okD(1)[OF ok k] fresh None show "bn_id (rt_burn x) \<noteq> bn_id burn" by auto
    qed
    then have "position (\<lambda>q. bn_id (rt_burn q) = bn_id burn) (ledger_pending ?l)
        = Some (length (ledger_pending (st_ledger s)))"
      unfolding p(2) by (intro position_snoc) simp_all
    then have "ledger_record ?l (bn_id burn)
        = Some (record\<lparr>rr_queue_position := Some (length (ledger_pending (st_ledger s)) + 1)\<rparr>)"
      by (simp add: ledger_record_def p(3))
    with s'(2) l o p(2) None False show ?thesis by auto
  qed
next
  case (Some r)
  note key = by_nullifier_key[OF ok Some]
  show ?thesis
  proof (cases "failed_recoverably (rt_record r)")
    case True
    let ?i = "bn_id (rt_burn r)"
    let ?l = "ledger_requeue ?i now (st_retry s) (st_ledger s)"
    have s': "commit_event H sha256 J (Requeued ?i now) s = Some s'"
      "map_option (\<lambda>r. Some (r, True)) (ledger_record (st_ledger s') ?i) = Some out"
      using Some True acc by (auto simp: accept_within_def split: option.splits)
    then have l: "st_ledger s' = ?l" using commit_event_Some[OF s'(1)] by simp
    obtain msg where g: "ledger_get ?l ?i
        = Some (on_record (\<lambda>x. transition_with Queued now msg (x\<lparr>rr_failure := None\<rparr>)) r)"
      using requeue_get[OF key(1) True] by blast
    then have b: "ledger_by_nullifier ?l (rr_nullifier record)
        = Some (on_record (\<lambda>x. transition_with Queued now msg (x\<lparr>rr_failure := None\<rparr>)) r)"
      by (simp add: ledger_by_nullifier_def requeue_by_nullifier key(2) ledger_get_def)
    have "map fst (lg_returns ?l) = map fst (lg_returns (st_ledger s))"
      unfolding ledger_requeue_def update_return_def by (simp del: map_map)
    with s'(2) l b True Some ledger_requeue_ok[OF ok] show ?thesis
      by (auto simp: on_record_def)
  next
    case False
    with Some acc ok show ?thesis by (auto simp: accept_within_def)
  qed
qed

theorem accept_idempotent_witness:
  "\<exists>s' r. accept_within std_hex ex_sha ex_json (ex_burn ''a'') (ex_record ''a'' 1) 5 10 (store_memory ex_policy) = Some (s', Some (r, True))
     \<and> rr_queue_position r = Some 1
     \<and> accept_within std_hex ex_sha ex_json (ex_burn ''b'') (ex_record ''b'' 1) 6 10 s' = Some (s', Some (r, False))
     \<and> ledger_ok ex_policy (st_ledger s')"
proof -
  let ?m = "store_memory ex_policy"
  let ?r = "(ex_record ''a'' 1)\<lparr>rr_queue_position := Some 1\<rparr>"
  let ?e = "\<lparr>rt_seq = 1, rt_burn = ex_burn ''a'', rt_record = ex_record ''a'' 1\<rparr>"
  have m: "st_ledger ?m = ledger_default" "st_retry ?m = ex_policy" "st_journal ?m = Memory"
    by (simp_all add: store_memory_def)
  have none: "ledger_by_nullifier ledger_default x = None" "unfinished ledger_default = 0"
    "ledger_pending ledger_default = []" for x
    by (simp_all add: ledger_by_nullifier_def ledger_default_def unfinished_def return_values_def ledger_pending_def)
  let ?s = "?m\<lparr>st_ledger := ledger_accept (ex_burn ''a'') (ex_record ''a'' 1) ledger_default\<rparr>"
  have rc: "ledger_record (st_ledger ?s) ''a'' = Some ?r"
    by (simp add: ex_accepted ledger_record_def ledger_get_def ledger_pending_def return_values_def is_pending_def ex_flags)
  have a: "accept_within std_hex ex_sha ex_json (ex_burn ''a'') (ex_record ''a'' 1) 5 10 ?m = Some (?s, Some (?r, True))"
    using rc by (simp add: accept_within_def m none commit_event_def journal_append_def Let_def)
  have h: "ledger_ok (st_retry ?m) (st_ledger ?m)" by (simp add: m ledger_default_ok)
  have att: "rr_attempts (ex_record ''a'' 1) < rp_max_attempts (st_retry ?m)" unfolding m ex_flags by (simp add: ex_policy_def)
  have room: "lg_accepted (st_ledger ?m) < lg_accepted (st_ledger ?m) + 1" by (simp add: m ledger_default_def)
  have fr: "ledger_by_nullifier (st_ledger ?m) (rr_nullifier (ex_record ''a'' 1)) = None \<longrightarrow>
      ledger_get (st_ledger ?m) (bn_id (ex_burn ''a'')) = None"
    by (simp add: m ledger_get_def ledger_default_def)
  from accept_idempotent[OF h ex_flags(2,1) att room fr a]
  have ok: "ledger_ok ex_policy (st_ledger ?s)" by (simp only: m)
  have n: "to_lowercase (rr_nullifier (ex_record ''b'' 1)) = to_lowercase (rr_nullifier (ex_record ''a'' 1))"
    by (simp add: ex_record_def)
  have k: "ledger_by_nullifier (st_ledger ?s) (rr_nullifier (ex_record ''b'' 1)) = Some ?e"
    by (simp add: ex_accepted ledger_by_nullifier_def n)
  have "accept_within std_hex ex_sha ex_json (ex_burn ''b'') (ex_record ''b'' 1) 6 10 ?s = Some (?s, Some (?r, False))"
    using k rc ex_flags(2)[of "''a''" 1] by (simp add: accept_within_def failed_recoverably_def)
  with a ok show ?thesis by (intro exI[of _ ?s] exI[of _ ?r]) simp
qed

end
