(* ===== verification/Assembler.thy ===== *)
theory Assembler
  imports Ledger S1
begin

text \<open>
  Model of \<open>domain/assembler.rs\<close>: the burns of a batch are merged into one guest input on top
  of the vault's accumulator; a member that cannot be proven is excluded with the reason. \<open>dbg\<close>
  is the derived \<open>Debug\<close> text of a decoding error. \<open>None\<close> is a panic (of the accumulator or
  the wire encoder) or running out of fuel in the precheck.
\<close>

section \<open>Data\<close>

datatype rejection_kind = Rejected_Recipient | Rejected_Unconfirmed | Rejected_Lock

record rejected =
  rj_nullifier :: string
  rj_reason :: string
  rj_kind :: rejection_kind

record assembled =
  as_wire :: bytes
  as_public_values :: public_values
  as_leaves :: "return_leaf list"
  as_lock_refs :: "source_lock_ref list"
  as_kept :: "string list"
  as_excluded :: "(string \<times> exclusion) list"

datatype assemble_error =
    AllExcluded "(string \<times> exclusion) list"
  | AccumulatorFailed s2_error
  | LockRefsFailed bridge_core_error
  | PrecheckFailed s1_error

record merge =
  mg_template :: "(bridge_config \<times> public_values) option"
  mg_taken :: "u64 set"
  mg_leaves :: "return_leaf list"
  mg_lock_refs :: "source_lock_ref list"
  mg_burns :: "burn_witness list"
  mg_kept :: "string list"
  mg_excluded :: "(string \<times> exclusion) list"

definition merge_new :: merge where
  "merge_new = \<lparr>mg_template = None, mg_taken = {}, mg_leaves = [], mg_lock_refs = [], mg_burns = [],
     mg_kept = [], mg_excluded = []\<rparr>"

section \<open>Admission\<close>

text \<open>\<open>acc.tree.non_membership_witness(n).is_none()\<close>: whether the vault has released \<open>n\<close>.\<close>

definition is_spent :: "(bytes \<Rightarrow> bytes) \<Rightarrow> rebuilt_accumulator \<Rightarrow> bytes \<Rightarrow> bool option" where
  "is_spent sha acc n = map_option (\<lambda>w. w = None) (non_membership_witness sha (ra_tree acc) n)"

fun find_spent ::
  "(bytes \<Rightarrow> bytes) \<Rightarrow> rebuilt_accumulator \<Rightarrow> return_leaf list \<Rightarrow> return_leaf option option" where
  "find_spent sha acc [] = Some None"
| "find_spent sha acc (leaf # leaves) =
     (case is_spent sha acc (leaf_nullifier leaf) of
        None \<Rightarrow> None
      | Some True \<Rightarrow> Some (Some leaf)
      | Some False \<Rightarrow> find_spent sha acc leaves)"

fun exclusion_of :: "rejected \<Rightarrow> exclusion" where
  "exclusion_of r =
     (case rj_kind r of
        Rejected_Recipient \<Rightarrow> Rejected (rj_reason r)
      | Rejected_Unconfirmed \<Rightarrow> Rejected (''lock not confirmed yet: '' @ rj_reason r)
      | Rejected_Lock \<Rightarrow> Invalid (''lock refs are not the vault's: '' @ rj_reason r))"

definition differs_from_template :: "merge \<Rightarrow> guest_input \<Rightarrow> exclusion option" where
  "differs_from_template merge input =
     (case mg_template merge of
        None \<Rightarrow> None
      | Some (config, template) \<Rightarrow>
          if gi_config input \<noteq> config then Some (Invalid ''bridge config differs from the batch'')
          else if pv_trust_base_hash (gi_public_values input) \<noteq> pv_trust_base_hash template
          then Some (Invalid ''trust base differs from the batch'')
          else None)"

definition admit ::
  "(bridge_core_error \<Rightarrow> string) \<Rightarrow> (bytes \<Rightarrow> bytes) \<Rightarrow> sdk \<Rightarrow> service_burn \<Rightarrow> rebuilt_accumulator
   \<Rightarrow> rejected list \<Rightarrow> merge \<Rightarrow> (exclusion + guest_input) option" where
  "admit dbg sha S burn acc rejected merge =
     (case decode_guest_input S (bn_wire_input burn) of
        Inl e \<Rightarrow> Some (Err (Invalid (''stored wire input does not decode: '' @ dbg e)))
      | Inr input \<Rightarrow>
          (case differs_from_template merge input of
             Some reason \<Rightarrow> Some (Err reason)
           | None \<Rightarrow>
               (case find (\<lambda>r. eq_ignore_ascii_case (rj_nullifier r) (burn_nullifier burn)) rejected of
                  Some r \<Rightarrow> Some (Err (exclusion_of r))
                | None \<Rightarrow>
                    (case find_spent sha acc (gi_return_leaves input) of
                       None \<Rightarrow> None
                     | Some (Some spent) \<Rightarrow>
                         Some (Err (exclusion_released (ra_txids acc (leaf_nullifier spent))))
                     | Some None \<Rightarrow>
                         if \<exists>r \<in> set (gi_sorted_lock_refs input). ref_nonce r \<in> mg_taken merge
                         then Some (Err (Invalid ''lock nonce already used by another burn in the batch''))
                         else Some (Ok input)))))"

definition merge_take :: "service_burn \<Rightarrow> guest_input \<Rightarrow> merge \<Rightarrow> merge" where
  "merge_take burn input m =
     m\<lparr>mg_template := (case mg_template m of
          None \<Rightarrow> Some (gi_config input, gi_public_values input) | Some t \<Rightarrow> Some t),
       mg_taken := mg_taken m \<union> set (map ref_nonce (gi_sorted_lock_refs input)),
       mg_leaves := mg_leaves m @ gi_return_leaves input,
       mg_lock_refs := mg_lock_refs m @ gi_sorted_lock_refs input,
       mg_burns := mg_burns m @ rw_bridge_burns (gi_witness input),
       mg_kept := mg_kept m @ [bn_id burn]\<rparr>"

fun merge_loop ::
  "(bridge_core_error \<Rightarrow> string) \<Rightarrow> (bytes \<Rightarrow> bytes) \<Rightarrow> sdk \<Rightarrow> rebuilt_accumulator \<Rightarrow> rejected list
   \<Rightarrow> merge \<Rightarrow> service_burn list \<Rightarrow> merge option" where
  "merge_loop dbg sha S acc rejected merge [] = Some merge"
| "merge_loop dbg sha S acc rejected merge (burn # rest) =
     (case admit dbg sha S burn acc rejected merge of
        None \<Rightarrow> None
      | Some (Inr input) \<Rightarrow> merge_loop dbg sha S acc rejected (merge_take burn input merge) rest
      | Some (Inl reason) \<Rightarrow>
          merge_loop dbg sha S acc rejected
            (merge\<lparr>mg_excluded := mg_excluded merge @ [(bn_id burn, reason)]\<rparr>) rest)"

section \<open>Assembly\<close>

definition assembled_input ::
  "(bytes \<Rightarrow> bytes) \<Rightarrow> merge \<Rightarrow> bridge_config \<Rightarrow> public_values \<Rightarrow> source_lock_ref list \<Rightarrow> bytes
   \<Rightarrow> next_batch_inputs \<Rightarrow> guest_input" where
  "assembled_input keccak m config template refs lroot next =
     \<lparr>gi_config = config,
      gi_public_values =
        \<lparr>pv_domain_tag = pv_domain_tag template, pv_config_hash = pv_config_hash template,
         pv_trust_base_hash = pv_trust_base_hash template,
         pv_spent_root_old = nb_spent_root_old next, pv_spent_root_new = nb_spent_root_new next,
         pv_return_root = return_root keccak (mg_leaves m), pv_lock_ref_root = lroot,
         pv_batch_size = of_nat (length (mg_leaves m)), pv_total_amount = sum_amounts (mg_leaves m)\<rparr>,
      gi_return_leaves = mg_leaves m, gi_sorted_lock_refs = refs,
      gi_witness = \<lparr>rw_accumulator_witnesses = nb_witnesses next, rw_bridge_burns = mg_burns m\<rparr>\<rparr>"

definition assemble ::
  "nat \<Rightarrow> (bridge_core_error \<Rightarrow> string) \<Rightarrow> (bytes \<Rightarrow> bytes) \<Rightarrow> (bytes \<Rightarrow> bytes) \<Rightarrow> sdk
   \<Rightarrow> service_burn list \<Rightarrow> rebuilt_accumulator \<Rightarrow> rejected list
   \<Rightarrow> (assemble_error + assembled) option" where
  "assemble fuel dbg sha256 keccak S members acc rejected =
     (case merge_loop dbg (sdk_sha256 S) S acc rejected merge_new members of
        None \<Rightarrow> None
      | Some m \<Rightarrow>
          (case mg_template m of
             None \<Rightarrow> Some (Err (AllExcluded (mg_excluded m)))
           | Some (config, template) \<Rightarrow>
               (let refs = sort_key ref_nonce (mg_lock_refs m) in
                run_then (map_option (map_err AccumulatorFailed)
                    (next_batch (sdk_sha256 S) acc (map leaf_nullifier (mg_leaves m)))) (\<lambda>next.
                run_then (Some (map_err LockRefsFailed (lock_ref_root keccak refs))) (\<lambda>lroot.
                (let input = assembled_input keccak m config template refs lroot next in
                 case encode_guest_input S input of
                   None \<Rightarrow> None
                 | Some wire \<Rightarrow>
                     run_then (map_option (map_err PrecheckFailed)
                         (precheck_wire fuel sha256 keccak S wire)) (\<lambda>_.
                     Some (Ok \<lparr>as_wire = wire, as_public_values = gi_public_values input,
                               as_leaves = mg_leaves m, as_lock_refs = refs,
                               as_kept = mg_kept m, as_excluded = mg_excluded m\<rparr>)))))))
     )"

end
