(* ===== verification/Clients.thy ===== *)
theory Clients
  imports Store Assembler "HOL-Library.Sublist"
begin

text \<open>
  The clients of the chain: model of \<open>sequencer.rs\<close> (the settlement log and the second source)
  and \<open>submitter.rs\<close> (simulation and submission). Each runs a command of the deployment; \<open>run\<close>
  is that command, given what is written to its standard input, and answers with its output or with
  the message of a failure to start, feed or await it. Output text is what \<open>from_utf8_lossy\<close> makes
  of the bytes; \<open>None\<close> is the panic of a slice inside a character.
\<close>

section \<open>Commands\<close>

record cmd_output =
  co_code :: "int option"
  co_status :: string
  co_stdout :: string
  co_stderr :: string

type_synonym run_cmd = "string \<Rightarrow> string + cmd_output"

definition cmd_success :: "cmd_output \<Rightarrow> bool" where
  "cmd_success out \<longleftrightarrow> co_code out = Some 0"

text \<open>\<open>&s[..200]\<close> panics when byte 200 is inside a character; the ellipsis is U+2026.\<close>

definition char_boundary :: "string \<Rightarrow> nat \<Rightarrow> bool" where
  "char_boundary s i \<longleftrightarrow> i = length s \<or> i < length s \<and> (of_char (s ! i) :: nat) div 64 \<noteq> 2"

definition snippet :: "string \<Rightarrow> string option" where
  "snippet s =
     (if length s \<le> 200 then Some s
      else if char_boundary s 200 then Some (take 200 s @ [char_of (226::nat), char_of (128::nat), char_of (166::nat)])
      else None)"

section \<open>The settlement log and the second source\<close>

datatype sync_error =
    Sync_Spawn string
  | Sync_CommandFailed string string
  | Sync_Decode string
  | Sync_Rebuild string
  | NoConfirmationSource

definition sync_error_text :: "sync_error \<Rightarrow> string" where
  "sync_error_text e =
     (case e of
        Sync_Spawn m \<Rightarrow> ''spawn events command failed: '' @ m
      | Sync_CommandFailed status err \<Rightarrow> ''events command exited '' @ status @ '': '' @ err
      | Sync_Decode m \<Rightarrow> ''events log decode failed: '' @ m
      | Sync_Rebuild m \<Rightarrow> m
      | NoConfirmationSource \<Rightarrow> ''no confirmation source is configured (BRIDGE_RETURN_CONFIRM_CMD)'')"

definition is_unavailable :: "sync_error \<Rightarrow> bool" where
  "is_unavailable e \<longleftrightarrow> (case e of Sync_Spawn _ \<Rightarrow> True | Sync_CommandFailed _ _ \<Rightarrow> True | _ \<Rightarrow> False)"

record release =
  rl_nullifier :: string
  rl_txid :: string

record unconfirmed =
  uc_nullifier :: string
  uc_txid :: string
  uc_reason :: string

record confirmations =
  cf_confirmed :: "release list"
  cf_unconfirmed :: "unconfirmed list"

definition release_is :: "release \<Rightarrow> string \<Rightarrow> string \<Rightarrow> bool" where
  "release_is r nl txid \<longleftrightarrow>
     eq_ignore_ascii_case (rl_nullifier r) nl \<and> eq_ignore_ascii_case (rl_txid r) txid"

definition verdict :: "confirmations \<Rightarrow> release \<Rightarrow> string + unit" where
  "verdict c r =
     (if \<exists>x \<in> set (cf_confirmed c). release_is x (rl_nullifier r) (rl_txid r) then Ok ()
      else Err (case find (\<lambda>u. eq_ignore_ascii_case (uc_nullifier u) (rl_nullifier r)
                     \<and> eq_ignore_ascii_case (uc_txid u) (rl_txid r)) (cf_unconfirmed c) of
             Some u \<Rightarrow> if uc_reason u \<noteq> [] then uc_reason u
                       else ''the confirmation source did not confirm it''
           | None \<Rightarrow> ''the confirmation source did not confirm it''))"

text \<open>\<open>parse\<close> is \<open>serde_json::from_str\<close> at the type read; its error is the text of the error.\<close>

record chain_events =
  ce_backend :: "run_cmd option"
  ce_confirm :: "run_cmd option"

definition chain_events_none :: chain_events where
  "chain_events_none = \<lparr>ce_backend = None, ce_confirm = None\<rparr>"

definition is_live :: "chain_events \<Rightarrow> bool" where
  "is_live c \<longleftrightarrow> ce_backend c \<noteq> None"

definition chain_label :: "chain_events \<Rightarrow> string" where
  "chain_label c =
     (case ce_backend c of None \<Rightarrow> ''none (vault assumed pristine)'' | Some _ \<Rightarrow> ''command'')"

definition confirm_label :: "chain_events \<Rightarrow> string" where
  "confirm_label c =
     (case ce_confirm c of
        None \<Rightarrow> ''none (a release the service holds no receipt for never settles a return)''
      | Some _ \<Rightarrow> ''command'')"

definition confirm_releases ::
  "(release list \<Rightarrow> string) \<Rightarrow> (string \<Rightarrow> string + confirmations) \<Rightarrow> chain_events \<Rightarrow> release list
   \<Rightarrow> (sync_error + confirmations) option" where
  "confirm_releases payload parse c releases =
     (case ce_confirm c of
        None \<Rightarrow> Some (Err NoConfirmationSource)
      | Some run \<Rightarrow>
          (case run (payload releases) of
             Inl e \<Rightarrow> Some (Err (Sync_Spawn e))
           | Inr out \<Rightarrow>
               if \<not> cmd_success out
               then Some (Err (Sync_CommandFailed (co_status out) (trim (co_stderr out))))
               else (case parse (trim (co_stdout out)) of
                       Inr answer \<Rightarrow> Some (Ok answer)
                     | Inl e \<Rightarrow>
                         map_option (\<lambda>s. Err (Sync_Decode
                             (''confirm command stdout is not the expected JSON ('' @ e @ ''); got: '' @ s)))
                           (snippet (trim (co_stdout out))))))"

definition run_events_command ::
  "'v jsonlib \<Rightarrow> hexlib \<Rightarrow> (string \<Rightarrow> string + 'v) \<Rightarrow> (s2_error \<Rightarrow> string) \<Rightarrow> run_cmd
   \<Rightarrow> (sync_error + settled_log) option" where
  "run_events_command J H parse s2_text run =
     (case run [] of
        Inl e \<Rightarrow> Some (Err (Sync_Spawn e))
      | Inr out \<Rightarrow>
          if \<not> cmd_success out
          then Some (Err (Sync_CommandFailed (co_status out) (trim (co_stderr out))))
          else (case parse (trim (co_stdout out)) of
                  Inl e \<Rightarrow>
                    map_option (\<lambda>s. Err (Sync_Decode
                        (''events command stdout is not valid JSON ('' @ e @ ''); got: '' @ s)))
                      (snippet (trim (co_stdout out)))
                | Inr json \<Rightarrow>
                    Some (map_err (\<lambda>e. Sync_Decode (s2_text e)) (parse_settled_log J H json))))"

definition fetch_log ::
  "'v jsonlib \<Rightarrow> hexlib \<Rightarrow> (string \<Rightarrow> string + 'v) \<Rightarrow> (s2_error \<Rightarrow> string) \<Rightarrow> chain_events
   \<Rightarrow> (sync_error + settled_log) option" where
  "fetch_log J H parse s2_text c =
     (case ce_backend c of
        None \<Rightarrow> Some (Ok \<lparr>sl_batches = [], sl_on_chain_spent_root = None\<rparr>)
      | Some run \<Rightarrow> run_events_command J H parse s2_text run)"

text \<open>The log is extended by the settlements the service itself made.\<close>

definition synced_accumulator ::
  "'v jsonlib \<Rightarrow> hexlib \<Rightarrow> (string \<Rightarrow> string + 'v) \<Rightarrow> (s2_error \<Rightarrow> string) \<Rightarrow> (bytes \<Rightarrow> bytes)
   \<Rightarrow> chain_events \<Rightarrow> settled_batch list \<Rightarrow> (sync_error + rebuilt_accumulator) option" where
  "synced_accumulator J H parse s2_text sha c known =
     run_then (fetch_log J H parse s2_text c) (\<lambda>log.
       map_option (map_err (\<lambda>e. Sync_Rebuild (s2_text e)))
         (rebuild_verified sha (log\<lparr>sl_batches := sl_batches log @ known\<rparr>)))"

section \<open>Simulation and submission\<close>

record submitter =
  sm_submit :: "run_cmd option"
  sm_simulate :: "run_cmd option"

datatype submit_outcome =
    Skipped
  | Was_Submitted string
  | Unconfirmed string
  | StaleRoot
  | Submit_Failed string

datatype simulate_error =
    Sim_Spawn string
  | Sim_Command string string
  | Sim_Decode string

definition simulate_error_text :: "simulate_error \<Rightarrow> string" where
  "simulate_error_text e =
     (case e of
        Sim_Spawn m \<Rightarrow> ''spawn simulate command failed: '' @ m
      | Sim_Command status err \<Rightarrow> ''simulate command exited '' @ status @ '': '' @ err
      | Sim_Decode m \<Rightarrow> ''simulate command output decode failed: '' @ m)"

definition UNCONFIRMED_EXIT :: int where "UNCONFIRMED_EXIT = 75"

definition require_simulation :: "submitter \<Rightarrow> string + submitter" where
  "require_simulation s =
     (if sm_simulate s = None then
        Err (''BRIDGE_RETURN_SIMULATE_CMD is required: it checks each burn's lock refs ''
             @ ''against the vault before proving'')
      else Ok s)"

definition submits :: "submitter \<Rightarrow> bool" where
  "submits s \<longleftrightarrow> sm_submit s \<noteq> None"

definition submitter_label :: "submitter \<Rightarrow> string" where
  "submitter_label s = (case sm_submit s of None \<Rightarrow> ''none'' | Some _ \<Rightarrow> ''command'')"

definition run_submit_command ::
  "(batch_bundle \<Rightarrow> string) \<Rightarrow> run_cmd \<Rightarrow> batch_bundle \<Rightarrow> submit_outcome" where
  "run_submit_command payload run bundle =
     (if \<not> has_proof bundle then Skipped
      else case run (payload bundle) of
        Inl e \<Rightarrow> Submit_Failed e
      | Inr out \<Rightarrow>
          (let err = trim (co_stderr out); txid = trim (co_stdout out) in
           if co_code out = Some UNCONFIRMED_EXIT \<and> txid \<noteq> [] then Unconfirmed txid
           else if \<not> cmd_success out then
             (if sublist ''stale root'' err then StaleRoot
              else Submit_Failed (''submit command exited '' @ co_status out @ '': '' @ err))
           else if txid = [] then Submit_Failed ''submit command exited 0 but printed no txid''
           else Was_Submitted txid))"

definition submit ::
  "(batch_bundle \<Rightarrow> string) \<Rightarrow> submitter \<Rightarrow> batch_bundle \<Rightarrow> submit_outcome" where
  "submit payload s bundle =
     (case sm_submit s of None \<Rightarrow> Skipped | Some run \<Rightarrow> run_submit_command payload run bundle)"

definition run_simulate_command ::
  "(leaf_to_settle list \<Rightarrow> string) \<Rightarrow> (string \<Rightarrow> string + rejected list) \<Rightarrow> run_cmd
   \<Rightarrow> leaf_to_settle list \<Rightarrow> (simulate_error + rejected list) option" where
  "run_simulate_command payload parse run leaves =
     (case run (payload leaves) of
        Inl e \<Rightarrow> Some (Err (Sim_Spawn e))
      | Inr out \<Rightarrow>
          if \<not> cmd_success out
          then Some (Err (Sim_Command (co_status out) (trim (co_stderr out))))
          else (case parse (trim (co_stdout out)) of
                  Inr rejected \<Rightarrow> Some (Ok rejected)
                | Inl e \<Rightarrow> map_option (\<lambda>s. Err (Sim_Decode (e @ ''; got: '' @ s)))
                    (snippet (trim (co_stdout out)))))"

definition simulate ::
  "(leaf_to_settle list \<Rightarrow> string) \<Rightarrow> (string \<Rightarrow> string + rejected list) \<Rightarrow> submitter
   \<Rightarrow> leaf_to_settle list \<Rightarrow> (simulate_error + rejected list) option" where
  "simulate payload parse s leaves =
     (case sm_simulate s of
        None \<Rightarrow> Some (Ok [])
      | Some run \<Rightarrow> run_simulate_command payload parse run leaves)"

text \<open>The slice of \<open>snippet\<close> panics on text whose byte 200 is inside a character.\<close>

lemma snippet_panics: "snippet (replicate 199 CHR ''a'' @ [char_of (226::nat), char_of (128::nat), char_of (166::nat)]) = None"
  by (simp add: snippet_def char_boundary_def nth_append)

end
