(* ===== verification/Orchestrator.thy ===== *)
theory Orchestrator
  imports Clients
begin

text \<open>
  The orchestrator: model of \<open>orchestrator.rs\<close>, one batch at a time through simulation,
  assembly, proof and settlement. The state is the ledger of the store and the world outside; the
  environment gives, for every world, what a call answers and the world after it. While a call or a
  sleep is awaited the service's requests commit events of their own (\<open>en_api\<close>). The
  code's \<open>Display\<close> texts of errors that are constructors here are fields of the environment.
\<close>

section \<open>The environment\<close>

record 'w env =
  en_now :: "'w \<Rightarrow> u128 \<times> 'w"
  en_draining :: "'w \<Rightarrow> bool \<times> 'w"
  en_api :: "'w \<Rightarrow> event list \<times> 'w"
  en_sync :: "settled_batch list \<Rightarrow> 'w \<Rightarrow> (sync_error + rebuilt_accumulator) \<times> 'w"
  en_confirm :: "release list \<Rightarrow> 'w \<Rightarrow> (sync_error + confirmations) \<times> 'w"
  en_simulate :: "leaf_to_settle list \<Rightarrow> 'w \<Rightarrow> (simulate_error + rejected list) \<times> 'w"
  en_submit :: "batch_bundle \<Rightarrow> 'w \<Rightarrow> submit_outcome \<times> 'w"
  en_prove :: "string \<Rightarrow> bytes \<Rightarrow> 'w \<Rightarrow> (string + proof_bundle) \<times> 'w"
  en_hex :: hexlib
  en_sha256 :: "bytes \<Rightarrow> bytes"
  en_keccak :: "bytes \<Rightarrow> bytes"
  en_sdk :: sdk
  en_fuel :: nat
  en_retry :: retry_policy
  en_policy :: limits
  en_debug :: "bridge_core_error \<Rightarrow> string"
  en_assemble_text :: "assemble_error \<Rightarrow> string"
  en_join_text :: string

record 'w orch =
  oc_ledger :: ledger
  oc_world :: 'w

datatype stage = Done | Rebase

record released_return =
  rd_id :: string
  rd_nullifier :: string
  rd_txid :: "string option"

definition SYNC_RETRY_DELAYS :: "nat list" where "SYNC_RETRY_DELAYS = [15, 30, 60]"
definition SETTLEMENT_CHECKS :: "nat list" where "SETTLEMENT_CHECKS = [30, 60, 120, 240, 480]"

section \<open>Steps\<close>

definition apply_to_store :: "('w, 'm) env_scheme \<Rightarrow> event \<Rightarrow> 'w orch \<Rightarrow> 'w orch" where
  "apply_to_store E e st =
     st\<lparr>oc_ledger := apply_event (en_hex E) (en_sha256 E) (en_retry E) (oc_ledger st) e\<rparr>"

definition now_ms :: "('w, 'm) env_scheme \<Rightarrow> 'w orch \<Rightarrow> u128 \<times> 'w orch" where
  "now_ms E st = (case en_now E (oc_world st) of (t, w) \<Rightarrow> (t, st\<lparr>oc_world := w\<rparr>))"

definition draining :: "('w, 'm) env_scheme \<Rightarrow> 'w orch \<Rightarrow> bool \<times> 'w orch" where
  "draining E st = (case en_draining E (oc_world st) of (d, w) \<Rightarrow> (d, st\<lparr>oc_world := w\<rparr>))"

text \<open>The events requests commit while the orchestrator waits.\<close>

definition requests :: "('w, 'm) env_scheme \<Rightarrow> 'w orch \<Rightarrow> 'w orch" where
  "requests E st =
     (case en_api E (oc_world st) of
        (es, w) \<Rightarrow> foldl (\<lambda>s e. apply_to_store E e s) (st\<lparr>oc_world := w\<rparr>) es)"

definition await :: "('w, 'm) env_scheme \<Rightarrow> ('w \<Rightarrow> 'a \<times> 'w) \<Rightarrow> 'w orch \<Rightarrow> 'a \<times> 'w orch" where
  "await E call st =
     (case call (oc_world st) of (a, w) \<Rightarrow> (a, requests E (st\<lparr>oc_world := w\<rparr>)))"

definition commit_now :: "('w, 'm) env_scheme \<Rightarrow> (u128 \<Rightarrow> event) \<Rightarrow> 'w orch \<Rightarrow> 'w orch" where
  "commit_now E ev st = (case now_ms E st of (t, st1) \<Rightarrow> apply_to_store E (ev t) st1)"

definition fail_batch ::
  "('w, 'm) env_scheme \<Rightarrow> batch \<Rightarrow> error_kind \<Rightarrow> string \<Rightarrow> 'w orch \<Rightarrow> stage \<times> 'w orch" where
  "fail_batch E batch kind message st = (Done, commit_now E (BatchFailed (ba_id batch) kind message) st)"

definition exclude_all ::
  "('w, 'm) env_scheme \<Rightarrow> (string \<times> exclusion) list \<Rightarrow> 'w orch \<Rightarrow> 'w orch" where
  "exclude_all E excluded st =
     foldl (\<lambda>s (i, reason). commit_now E (ReturnExcluded i reason) s) st excluded"

definition reload :: "'w orch \<Rightarrow> string \<Rightarrow> batch option" where
  "reload st bid = ledger_batch (oc_ledger st) bid"

definition rebase_or_fail ::
  "('w, 'm) env_scheme \<Rightarrow> batch \<Rightarrow> string \<Rightarrow> 'w orch \<Rightarrow> stage \<times> 'w orch" where
  "rebase_or_fail E batch why st =
     (if \<not> can_rebase (rp_max_rebases (en_retry E)) batch then
        fail_batch E batch ChainRejected
          (why @ ''; rebased '' @ dec_text (unat (ba_rebases batch)) @ '' times already'') st
      else (Rebase, commit_now E (BatchRebased (ba_id batch)) st))"

section \<open>The accumulator and the second source\<close>

text \<open>A log that cannot be read is read again after each delay that is left.\<close>

fun sync_loop ::
  "('w, 'm) env_scheme \<Rightarrow> batch \<Rightarrow> nat list \<Rightarrow> 'w orch \<Rightarrow> rebuilt_accumulator option \<times> 'w orch" where
  "sync_loop E batch delays st =
     (case await E (en_sync E (settled_batches (en_hex E) (oc_ledger st))) st of
        (Inr acc, st1) \<Rightarrow> (Some acc, st1)
      | (Inl e, st1) \<Rightarrow>
          (case delays of
             delay # rest \<Rightarrow>
               if is_unavailable e then sync_loop E batch rest (requests E st1)
               else (None, snd (fail_batch E batch ChainRejected
                 (''accumulator not synced to chain: '' @ sync_error_text e) st1))
           | [] \<Rightarrow>
               (None, snd (fail_batch E batch
                 (if is_unavailable e then ServiceUnavailable else ChainRejected)
                 (''accumulator not synced to chain: '' @ sync_error_text e) st1))))"

definition synced ::
  "('w, 'm) env_scheme \<Rightarrow> batch \<Rightarrow> 'w orch \<Rightarrow> rebuilt_accumulator option \<times> 'w orch" where
  "synced E batch st = sync_loop E batch SYNC_RETRY_DELAYS st"

text \<open>Whether the log shows \<open>n\<close> spent; a panic of the lookup does not arise on a rebuilt tree.\<close>

definition spent_in :: "('w, 'm) env_scheme \<Rightarrow> rebuilt_accumulator \<Rightarrow> bytes \<Rightarrow> bool" where
  "spent_in E acc n \<longleftrightarrow> is_spent (sdk_sha256 (en_sdk E)) acc n = Some True"

definition all_released :: "('w, 'm) env_scheme \<Rightarrow> batch \<Rightarrow> rebuilt_accumulator \<Rightarrow> bool" where
  "all_released E batch acc \<longleftrightarrow>
     (let ns = batch_nullifiers (en_hex E) batch in ns \<noteq> [] \<and> (\<forall>n \<in> set ns. spent_in E acc n))"

definition unconfirmed_why :: "sync_error + confirmations \<Rightarrow> released_return \<Rightarrow> string option" where
  "unconfirmed_why answer r =
     (case rd_txid r of
        None \<Rightarrow> Some ''the vault log names no transaction for it''
      | Some txid \<Rightarrow>
          (case answer of
             Inl e \<Rightarrow> Some (sync_error_text e)
           | Inr c \<Rightarrow>
               (case verdict c \<lparr>rl_nullifier = rd_nullifier r, rl_txid = txid\<rparr> of
                  Inl why \<Rightarrow> Some why | Inr _ \<Rightarrow> None)))"

definition confirm ::
  "('w, 'm) env_scheme \<Rightarrow> released_return list \<Rightarrow> 'w orch \<Rightarrow> (string \<times> exclusion) list \<times> 'w orch" where
  "confirm E released st =
     (let asked = filter_map (\<lambda>r. map_option
            (\<lambda>t. \<lparr>rl_nullifier = rd_nullifier r, rl_txid = t\<rparr>) (rd_txid r)) released
      in case (if asked = [] then (Ok \<lparr>cf_confirmed = [], cf_unconfirmed = []\<rparr>, st)
               else await E (en_confirm E asked) st) of
           (answer, st1) \<Rightarrow>
             (map (\<lambda>r. (rd_id r, AlreadySettled (rd_txid r) (unconfirmed_why answer r))) released, st1))"

text \<open>\<open>verdicts.remove(&id).unwrap_or(exclusion)\<close> over the members in order.\<close>

fun replace_verdicts ::
  "(string \<rightharpoonup> exclusion) \<Rightarrow> (string \<times> exclusion) list \<Rightarrow> (string \<times> exclusion) list" where
  "replace_verdicts verdicts [] = []"
| "replace_verdicts verdicts ((i, reason) # rest) =
     (i, unwrap_or (verdicts i) reason) # replace_verdicts (verdicts(i := None)) rest"

definition confirmed ::
  "('w, 'm) env_scheme \<Rightarrow> (string \<times> exclusion) list \<Rightarrow> (string \<rightharpoonup> string) \<Rightarrow> 'w orch
   \<Rightarrow> (string \<times> exclusion) list \<times> 'w orch" where
  "confirmed E excluded nullifiers st =
     (let released = filter_map (\<lambda>(i, reason).
            (case reason of
               AlreadySettled txid _ \<Rightarrow>
                 map_option (\<lambda>n. \<lparr>rd_id = i, rd_nullifier = n, rd_txid = txid\<rparr>) (nullifiers i)
             | _ \<Rightarrow> None)) excluded
      in case confirm E released st of
           (verdicts, st1) \<Rightarrow> (replace_verdicts (map_of (rev verdicts)) excluded, st1))"

section \<open>Settling\<close>

definition released_members ::
  "('w, 'm) env_scheme \<Rightarrow> batch \<Rightarrow> rebuilt_accumulator \<Rightarrow> ledger \<Rightarrow> released_return list" where
  "released_members E batch acc l =
     filter_map (\<lambda>n.
       (case ledger_by_nullifier l (hex32 (en_hex E) n) of
          None \<Rightarrow> None
        | Some member \<Rightarrow>
            if in_batch (ba_id batch) member
            then Some \<lparr>rd_id = bn_id (rt_burn member), rd_nullifier = hex32 (en_hex E) n,
                       rd_txid = ra_txids acc n\<rparr>
            else None)) (batch_nullifiers (en_hex E) batch)"

definition confirmed_txids :: "(string \<times> exclusion) list \<Rightarrow> string list" where
  "confirmed_txids verdicts =
     filter_map (\<lambda>(i, v). (case v of AlreadySettled (Some txid) None \<Rightarrow> Some txid | _ \<Rightarrow> None)) verdicts"

definition one_transaction :: "(string \<times> exclusion) list \<Rightarrow> string option" where
  "one_transaction verdicts =
     (case confirmed_txids verdicts of
        [] \<Rightarrow> None
      | first # rest \<Rightarrow>
          if length (first # rest) = length verdicts
             \<and> (\<forall>t \<in> set (first # rest). eq_ignore_ascii_case t first)
          then Some first else None)"

definition released_stage ::
  "('w, 'm) env_scheme \<Rightarrow> batch \<Rightarrow> rebuilt_accumulator \<Rightarrow> 'w orch \<Rightarrow> stage \<times> 'w orch" where
  "released_stage E batch acc st =
     (case confirm E (released_members E batch acc (oc_ledger st)) st of
        (verdicts, st1) \<Rightarrow>
          (case one_transaction verdicts of
             Some txid \<Rightarrow> (Done, commit_now E (BatchSettled (ba_id batch) (Some txid)) st1)
           | None \<Rightarrow>
               fail_batch E batch ChainRejected
                 (''every member was released on chain without a receipt of the service's own; ''
                  @ dec_text (length (confirmed_txids verdicts)) @ '' of ''
                  @ dec_text (length verdicts) @ '' confirmed by a second source'')
                 (exclude_all E verdicts st1)))"

fun await_loop ::
  "('w, 'm) env_scheme \<Rightarrow> batch \<Rightarrow> string \<Rightarrow> nat list \<Rightarrow> 'w orch \<Rightarrow> stage \<times> 'w orch" where
  "await_loop E batch txid [] st =
     fail_batch E batch SubmissionFailed
       (''settlement '' @ txid @ '' was broadcast but the chain log does not show it after ''
        @ dec_text (sum_list SETTLEMENT_CHECKS) @ ''s'') st"
| "await_loop E batch txid (delay # delays) st =
     (let st1 = requests E st in
      case await E (en_sync E (settled_batches (en_hex E) (oc_ledger st1))) st1 of
        (Inl e, st2) \<Rightarrow> await_loop E batch txid delays st2
      | (Inr acc, st2) \<Rightarrow>
          if all_released E batch acc then released_stage E batch acc st2
          else if \<not> chains_onto (en_hex E) batch (ra_spent_root acc)
          then rebase_or_fail E batch ''vault root moved while the settlement was unconfirmed'' st2
          else await_loop E batch txid delays st2)"

definition await_settlement ::
  "('w, 'm) env_scheme \<Rightarrow> batch \<Rightarrow> string \<Rightarrow> 'w orch \<Rightarrow> stage \<times> 'w orch" where
  "await_settlement E batch txid st = await_loop E batch txid SETTLEMENT_CHECKS st"

definition settle_stage ::
  "('w, 'm) env_scheme \<Rightarrow> batch \<Rightarrow> 'w orch \<Rightarrow> stage \<times> 'w orch" where
  "settle_stage E batch st =
     (case synced E batch st of
        (None, st1) \<Rightarrow> (Done, st1)
      | (Some acc, st1) \<Rightarrow>
          if all_released E batch acc then released_stage E batch acc st1
          else if \<not> chains_onto (en_hex E) batch (ra_spent_root acc)
          then rebase_or_fail E batch ''vault root moved after proving'' st1
          else (case ba_bundle batch of
            None \<Rightarrow> (Done, st1)
          | Some bundle \<Rightarrow>
              (case await E (en_submit E bundle) st1 of
                 (outcome, st2) \<Rightarrow>
                   (case outcome of
                      Skipped \<Rightarrow> (Done, st2)
                    | Was_Submitted txid \<Rightarrow>
                        (Done, commit_now E (BatchSettled (ba_id batch) (Some txid)) st2)
                    | Unconfirmed txid \<Rightarrow> await_settlement E batch txid st2
                    | StaleRoot \<Rightarrow> rebase_or_fail E batch ''vault: stale root'' st2
                    | Submit_Failed message \<Rightarrow>
                        fail_batch E batch SubmissionFailed message st2))))"

section \<open>Proving\<close>

definition prove_and_settle ::
  "('w, 'm) env_scheme \<Rightarrow> batch \<Rightarrow> assembled \<Rightarrow> 'w orch \<Rightarrow> stage \<times> 'w orch" where
  "prove_and_settle E batch a st =
     (let H = en_hex E; old = hex32 H (pv_spent_root_old (as_public_values a));
          ns = map (\<lambda>l. hex32 H (leaf_nullifier l)) (as_leaves a)
      in case (case proof_for (oc_ledger st) ns old of
                 Some reused \<Rightarrow>
                   (Ok (reused\<lparr>bb_batch_id := ba_id batch, bb_settle_txid := None\<rparr>), st)
               | None \<Rightarrow>
                   (case await E (en_prove E (ba_id batch) (as_wire a)) st of
                      (Inr proof, st1) \<Rightarrow>
                        (Ok (bundle_proven H (ba_id batch) proof (as_leaves a) (as_lock_refs a)), st1)
                    | (Inl e, st1) \<Rightarrow> (Err e, st1))) of
           (Inl e, st1) \<Rightarrow> fail_batch E batch ProvingFailed e st1
         | (Inr bundle, st1) \<Rightarrow>
             (let st2 = commit_now E (BatchProven (ba_id batch) bundle old) st1 in
              case reload st2 (ba_id batch) of
                None \<Rightarrow> (Done, st2)
              | Some proven \<Rightarrow> settle_stage E proven st2))"

definition prove_stage ::
  "('w, 'm) env_scheme \<Rightarrow> batch \<Rightarrow> 'w orch \<Rightarrow> stage \<times> 'w orch" where
  "prove_stage E batch st =
     (case synced E batch st of
        (None, st1) \<Rightarrow> (Done, st1)
      | (Some acc, st1) \<Rightarrow>
          (let burns = ledger_burns (oc_ledger st1) (ba_members batch);
               nullifiers = map_of (rev (map (\<lambda>b. (bn_id b, burn_nullifier b)) burns));
               leaves = filter_map (burn_leaf_to_settle (en_hex E) (en_sdk E)) burns
           in case await E (en_simulate E leaves) st1 of
                (Inl e, st2) \<Rightarrow>
                  fail_batch E batch ChainRejected
                    (''settlement simulation failed: '' @ simulate_error_text e) st2
              | (Inr rejected, st2) \<Rightarrow>
                  (let st3 = requests E st2 in
                   case assemble (en_fuel E) (en_debug E) (en_sha256 E) (en_keccak E) (en_sdk E)
                          burns acc rejected of
                     None \<Rightarrow>
                       fail_batch E batch ProvingFailed (''assembly task failed: '' @ en_join_text E) st3
                   | Some (Inl (AllExcluded excluded)) \<Rightarrow>
                       (case confirmed E excluded nullifiers st3 of
                          (verdicts, st4) \<Rightarrow>
                            fail_batch E batch ChainRejected
                              ''every member was excluded before proving'' (exclude_all E verdicts st4))
                   | Some (Inl e) \<Rightarrow>
                       fail_batch E batch ChainRejected (en_assemble_text E e) st3
                   | Some (Inr a) \<Rightarrow>
                       (case confirmed E (as_excluded a) nullifiers st3 of
                          (verdicts, st4) \<Rightarrow>
                            prove_and_settle E batch a (exclude_all E verdicts st4)))))"

text \<open>The loop of \<open>run_batch\<close>, which may in principle not end.\<close>

partial_function (option) rebase_loop ::
  "('w, 'm) env_scheme \<Rightarrow> string \<Rightarrow> stage \<Rightarrow> 'w orch \<Rightarrow> 'w orch option" where
  "rebase_loop E bid stage st =
     (case stage of
        Done \<Rightarrow> Some st
      | Rebase \<Rightarrow>
          (case reload st bid of
             None \<Rightarrow> Some st
           | Some current \<Rightarrow>
               (case prove_stage E current st of (stage', st') \<Rightarrow> rebase_loop E bid stage' st')))"

definition run_batch :: "('w, 'm) env_scheme \<Rightarrow> batch \<Rightarrow> 'w orch \<Rightarrow> 'w orch option" where
  "run_batch E batch st =
     (case (if ba_bundle batch \<noteq> None then settle_stage E batch st else prove_stage E batch st) of
        (stage, st1) \<Rightarrow> rebase_loop E (ba_id batch) stage st1)"

section \<open>The main loop\<close>

fun recheck_due ::
  "('w, 'm) env_scheme \<Rightarrow> rebuilt_accumulator \<Rightarrow> (string \<times> string) list \<Rightarrow> released_return list
   \<Rightarrow> 'w orch \<Rightarrow> released_return list \<times> 'w orch" where
  "recheck_due E acc [] released st = (released, st)"
| "recheck_due E acc ((i, nl) # due) released st =
     (case parse_hex32 (en_hex E) nl of
        Some n \<Rightarrow>
          if spent_in E acc n
          then recheck_due E acc due
                 (released @ [\<lparr>rd_id = i, rd_nullifier = nl, rd_txid = ra_txids acc n\<rparr>]) st
          else recheck_due E acc due released (commit_now E (Requeued i) st)
      | None \<Rightarrow> recheck_due E acc due released (commit_now E (Requeued i) st))"

definition recheck_releases :: "('w, 'm) env_scheme \<Rightarrow> 'w orch \<Rightarrow> 'w orch" where
  "recheck_releases E st =
     (case now_ms E st of (t, st0) \<Rightarrow>
       let due = releases_due (oc_ledger st0) t in
       if due = [] then st0
       else case await E (en_sync E (settled_batches (en_hex E) (oc_ledger st0))) st0 of
         (Inl e, st1) \<Rightarrow>
           exclude_all E (map (\<lambda>(i, _). (i, AlreadySettled None
             (Some (''the chain log could not be checked again: '' @ sync_error_text e)))) due) st1
       | (Inr acc, st1) \<Rightarrow>
           (case recheck_due E acc due [] st1 of
              (released, st2) \<Rightarrow>
                (case confirm E released st2 of (verdicts, st3) \<Rightarrow> exclude_all E verdicts st3)))"

fun startup_loop :: "('w, 'm) env_scheme \<Rightarrow> batch list \<Rightarrow> 'w orch \<Rightarrow> 'w orch option" where
  "startup_loop E [] st = Some st"
| "startup_loop E (batch # batches) st =
     (case draining E st of (d, st1) \<Rightarrow>
       if d then Some st1
       else case run_batch E batch st1 of
         None \<Rightarrow> None
       | Some st2 \<Rightarrow> startup_loop E batches st2)"

definition run_startup :: "('w, 'm) env_scheme \<Rightarrow> 'w orch \<Rightarrow> 'w orch option" where
  "run_startup E st = startup_loop E (unsettled_proofs (oc_ledger st)) st"

text \<open>
  One turn of the loop of \<open>run\<close>: whether to go on, the \<open>collect\<close> of the next turn, and the
  state. A wait ends on a change of the store, a time or a drain: what happens meanwhile is
  \<open>requests\<close>.
\<close>

definition run_turn :: "('w, 'm) env_scheme \<Rightarrow> bool \<Rightarrow> 'w orch \<Rightarrow> (bool \<times> bool \<times> 'w orch) option" where
  "run_turn E collect st =
     (case draining E st of (d, st0) \<Rightarrow>
       if d then Some (False, collect, st0)
       else case draining E (recheck_releases E st0) of (d1, st1) \<Rightarrow>
         if d1 then Some (False, collect, st1)
         else case now_ms E st1 of (t, st2) \<Rightarrow>
           (case policy_next (en_policy E) (ledger_pending (oc_ledger st2)) t collect of
              Batch members \<Rightarrow>
                (let st3 = apply_to_store E (BatchFormed members t) st2 in
                 case active_batch (oc_ledger st3) of
                   None \<Rightarrow> None
                 | Some batch \<Rightarrow> map_option (\<lambda>st4. (True, False, st4)) (run_batch E batch st3))
            | _ \<Rightarrow> Some (True, True, requests E st2)))"

end
