(* ===== verification/Orchestrator_Proofs.thy ===== *)
theory Orchestrator_Proofs
  imports Orchestrator
begin

text \<open>
  Every batch the orchestrator starts runs to its end, whatever the environment answers, and
  leaves nothing in the prover; no return settles on the word of the vault's log alone.
\<close>

section \<open>What an event does to the batches\<close>

definition map_batch :: "string \<Rightarrow> (batch \<Rightarrow> batch) \<Rightarrow> (string \<times> batch) list \<Rightarrow> (string \<times> batch) list" where
  "map_batch bid h bs = map (\<lambda>(k, b). (k, if k = bid then h b else b)) bs"

lemma map_of_map_batch: "map_of (map_batch bid h bs) k = map_option (\<lambda>b. if k = bid then h b else b) (map_of bs k)"
  unfolding map_batch_def by (rule map_of_map_values)

lemma map_batch_absent: "map_of bs bid = None \<Longrightarrow> map_batch bid h bs = bs"
  unfolding map_batch_def by (rule map_idI) (auto simp: map_of_eq_None_iff rev_image_eqI)

lemma batches_batch_event:
  "lg_batches (when_batch bid (\<lambda>l. for_members bid f (update_batch bid h l)) l) = map_batch bid h (lg_batches l)"
proof (cases "map_of (lg_batches l) bid")
  case None
  then show ?thesis by (simp add: when_batch_def map_batch_absent)
next
  case (Some B)
  then show ?thesis by (simp add: when_batch_def for_members_def Let_def update_batch_def map_batch_def)
qed

lemma batches_apply_event [simp]:
  "lg_batches (apply_event H sha256 retry l (Accepted burn rc)) = lg_batches l"
  "lg_batches (apply_event H sha256 retry l (Requeued i t)) = lg_batches l"
  "lg_batches (apply_event H sha256 retry l (ReturnExcluded i reason t)) = lg_batches l"
  by (simp_all add: ledger_accept_def Let_def ledger_requeue_def ledger_exclude_def update_return_def)

definition failed_batch :: "batch \<Rightarrow> batch" where
  "failed_batch b = b\<lparr>ba_status := Batch_Failed\<rparr>"

lemma batches_apply_batch_event:
  "lg_batches (apply_event H sha256 retry l (BatchFailed bid kind m t)) = map_batch bid failed_batch (lg_batches l)"
  "lg_batches (apply_event H sha256 retry l (BatchSettled bid txid t))
     = map_batch bid (\<lambda>b. b\<lparr>ba_status := Batch_Settled,
         ba_bundle := map_option (\<lambda>bundle. bundle\<lparr>bb_settle_txid := txid\<rparr>) (ba_bundle b)\<rparr>) (lg_batches l)"
  "lg_batches (apply_event H sha256 retry l (BatchProven bid bundle old t))
     = map_batch bid (\<lambda>b. b\<lparr>ba_status := Batch_Proven, ba_bundle := Some bundle,
         ba_spent_root_old := Some old, ba_proven_at_ms := Some t\<rparr>) (lg_batches l)"
  "lg_batches (apply_event H sha256 retry l (BatchRebased bid t))
     = map_batch bid (\<lambda>b. b\<lparr>ba_rebases := ba_rebases b + 1, ba_bundle := None,
         ba_spent_root_old := None, ba_proven_at_ms := None, ba_status := Batch_Proving\<rparr>) (lg_batches l)"
  by (simp_all add: ledger_fail_def ledger_settle_def ledger_prove_def ledger_rebase_def batches_batch_event
      failed_batch_def[abs_def])

section \<open>The prover is busy with one batch, or idle\<close>

definition busy :: "string \<Rightarrow> (string \<times> batch) list \<Rightarrow> bool" where
  "busy bid bs \<longleftrightarrow> batches_ok bs \<and> (\<forall>k b. map_of bs k = Some b \<longrightarrow> ba_status b = Batch_Proving \<longrightarrow> k = bid)"

definition idle :: "(string \<times> batch) list \<Rightarrow> bool" where
  "idle bs \<longleftrightarrow> batches_ok bs \<and> (\<forall>k b. map_of bs k = Some b \<longrightarrow> ba_status b \<noteq> Batch_Proving)"

lemma idle_busy: "idle bs \<Longrightarrow> busy bid bs"
  by (auto simp: idle_def busy_def)

lemma busy_map_batch:
  assumes "busy bid bs" "\<And>b. ba_id (h b) = ba_id b" "\<And>b. batch_ok (h b)"
  shows "busy bid (map_batch bid h bs)"
proof -
  have bo: "batches_ok bs" using assms(1) by (simp add: busy_def)
  have only: "k = bid" if c: "map_of (map_batch bid h bs) k = Some c" "ba_status c = Batch_Proving" for k c
  proof -
    obtain b where b: "map_of bs k = Some b" "c = (if k = bid then h b else b)"
      using c(1) by (auto simp: map_of_map_batch)
    with assms(1) c(2) show ?thesis by (auto simp: busy_def split: if_splits)
  qed
  have "batches_ok (map_batch bid h bs)"
    unfolding batches_ok_def
  proof (intro conjI allI impI)
    show "distinct (map fst (map_batch bid h bs))"
      unfolding map_batch_def fst_map_values using bo by (simp add: batches_ok_def)
  next
    fix k c assume "map_of (map_batch bid h bs) k = Some c"
    then obtain b where b: "map_of bs k = Some b" "c = (if k = bid then h b else b)"
      by (auto simp: map_of_map_batch)
    with batches_okD[OF bo b(1)] assms(2,3) show "ba_id c = k" "batch_ok c" by simp_all
  next
    fix k c j d assume "map_of (map_batch bid h bs) k = Some c" "map_of (map_batch bid h bs) j = Some d"
      "ba_status c = Batch_Proving" "ba_status d = Batch_Proving"
    with only[of k c] only[of j d] show "k = j" by simp
  qed
  with only show ?thesis by (auto simp: busy_def)
qed

lemma idle_map_batch:
  assumes "busy bid bs" "\<And>b. ba_id (h b) = ba_id b" "\<And>b. batch_ok (h b)" "\<And>b. ba_status (h b) \<noteq> Batch_Proving"
  shows "idle (map_batch bid h bs)"
proof -
  have b: "busy bid (map_batch bid h bs)" by (rule busy_map_batch[OF assms(1-3)])
  have "ba_status c \<noteq> Batch_Proving" if c: "map_of (map_batch bid h bs) k = Some c" for k c
  proof
    assume p: "ba_status c = Batch_Proving"
    with b c have "k = bid" by (simp add: busy_def)
    with c p assms(4) show False by (auto simp: map_of_map_batch)
  qed
  with b show ?thesis by (auto simp: idle_def busy_def)
qed

abbreviation batches :: "'w orch \<Rightarrow> (string \<times> batch) list" where
  "batches st \<equiv> lg_batches (oc_ledger st)"

section \<open>Steps that leave the batches alone\<close>

text \<open>What runs beside the orchestrator is the acceptance of burns.\<close>

fun is_request :: "event \<Rightarrow> bool" where
  "is_request (Accepted burn rc) = True"
| "is_request (Requeued i t) = True"
| "is_request _ = False"

definition api_ok :: "('w, 'm) env_scheme \<Rightarrow> bool" where
  "api_ok E \<longleftrightarrow> (\<forall>w. \<forall>e \<in> set (fst (en_api E w)). is_request e)"

lemma batches_request [simp]: "is_request e \<Longrightarrow> batches (apply_to_store E e st) = batches st"
  by (cases e) (simp_all add: apply_to_store_def del: apply_event.simps)

lemma batches_foldl_requests:
  "\<forall>e \<in> set es. is_request e \<Longrightarrow> batches (foldl (\<lambda>s e. apply_to_store E e s) st es) = batches st"
  by (induction es arbitrary: st) auto

lemma batches_requests [simp]: "api_ok E \<Longrightarrow> batches (requests E st) = batches st"
proof -
  assume ok: "api_ok E"
  obtain es w where e: "en_api E (oc_world st) = (es, w)" by fastforce
  have "\<forall>x \<in> set (fst (en_api E (oc_world st))). is_request x" using ok unfolding api_ok_def by blast
  then have "\<forall>x \<in> set es. is_request x" by (simp add: e)
  from batches_foldl_requests[OF this, of E "st\<lparr>oc_world := w\<rparr>"] show ?thesis
    by (simp add: requests_def e)
qed

lemma batches_await [simp]: "api_ok E \<Longrightarrow> await E call st = (a, st') \<Longrightarrow> batches st' = batches st"
  by (auto simp: await_def split: prod.splits)

lemma batches_now [simp]: "now_ms E st = (t, st') \<Longrightarrow> batches st' = batches st"
  by (auto simp: now_ms_def split: prod.splits)

lemma batches_commit:
  "\<exists>t. batches (commit_now E ev st) = lg_batches (apply_event (en_hex E) (en_sha256 E) (en_retry E) (oc_ledger st) (ev t))"
  by (auto simp: commit_now_def apply_to_store_def now_ms_def split: prod.splits)

lemma batches_exclude [simp]: "batches (exclude_all E vs st) = batches st"
proof (induction vs arbitrary: st)
  case (Cons v vs)
  obtain i reason where v: "v = (i, reason)" by fastforce
  have "batches (commit_now E (ReturnExcluded i reason) st) = batches st"
    using batches_commit[of E "ReturnExcluded i reason" st] by (auto simp del: apply_event.simps)
  with Cons show ?case by (simp add: exclude_all_def v)
qed (simp add: exclude_all_def)

lemma batches_confirm [simp]: "api_ok E \<Longrightarrow> confirm E rs st = (vs, st') \<Longrightarrow> batches st' = batches st"
  by (auto simp: confirm_def Let_def split: prod.splits if_splits)

lemma batches_confirmed [simp]: "api_ok E \<Longrightarrow> confirmed E ex ns st = (vs, st') \<Longrightarrow> batches st' = batches st"
  by (auto simp: confirmed_def Let_def split: prod.splits)

section \<open>Steps that end a stage\<close>

definition rebased :: "string \<Rightarrow> nat \<Rightarrow> (string \<times> batch) list \<Rightarrow> bool" where
  "rebased bid n bs \<longleftrightarrow> (\<exists>B. map_of bs bid = Some B \<and> unat (ba_rebases B) = n)"

text \<open>A stage on a batch that was rebased \<open>n\<close> times ends with the prover idle, or asks for another
  rebase with one more counted, as long as the policy allows.\<close>

definition stage_ends :: "('w, 'm) env_scheme \<Rightarrow> string \<Rightarrow> nat \<Rightarrow> stage \<times> 'w orch \<Rightarrow> bool" where
  "stage_ends E bid n r \<longleftrightarrow>
     (case r of
        (Done, st) \<Rightarrow> idle (batches st)
      | (Rebase, st) \<Rightarrow> busy bid (batches st) \<and> rebased bid (Suc n) (batches st)
          \<and> n < unat (rp_max_rebases (en_retry E)))"

lemma fail_ends:
  assumes "busy bid (batches st)" "ba_id batch = bid"
  shows "idle (batches (snd (fail_batch E batch kind m st)))" "stage_ends E bid n (fail_batch E batch kind m st)"
proof -
  obtain t where "batches (commit_now E (BatchFailed bid kind m) st) = map_batch bid failed_batch (batches st)"
    using batches_commit[of E "BatchFailed bid kind m" st] by (auto simp: batches_apply_batch_event simp del: apply_event.simps)
  moreover have "idle (map_batch bid failed_batch (batches st))"
    by (rule idle_map_batch[OF assms(1)]) (simp_all add: failed_batch_def batch_ok_def)
  ultimately show "idle (batches (snd (fail_batch E batch kind m st)))"
    "stage_ends E bid n (fail_batch E batch kind m st)"
    using assms(2) by (simp_all add: fail_batch_def stage_ends_def)
qed

lemma settled_ends:
  assumes "busy bid (batches st)" "ba_id batch = bid"
  shows "stage_ends E bid n (Done, commit_now E (BatchSettled (ba_id batch) txid) st)"
proof -
  let ?h = "\<lambda>b. b\<lparr>ba_status := Batch_Settled,
      ba_bundle := map_option (\<lambda>bundle. bundle\<lparr>bb_settle_txid := txid\<rparr>) (ba_bundle b)\<rparr>"
  have "batches (commit_now E (BatchSettled bid txid) st) = map_batch bid ?h (batches st)"
    using batches_commit[of E "BatchSettled bid txid" st] by (auto simp: batches_apply_batch_event simp del: apply_event.simps)
  moreover have "idle (map_batch bid ?h (batches st))"
    by (rule idle_map_batch[OF assms(1)]) (simp_all add: batch_ok_def)
  ultimately show ?thesis using assms(2) by (simp add: stage_ends_def)
qed

lemma rebase_ends:
  assumes "busy bid (batches st)" "ba_id batch = bid" "rebased bid n (batches st)" "unat (ba_rebases batch) = n"
  shows "stage_ends E bid n (rebase_or_fail E batch why st)"
proof (cases "can_rebase (rp_max_rebases (en_retry E)) batch")
  case False
  with fail_ends(2)[OF assms(1,2)] show ?thesis by (simp add: rebase_or_fail_def)
next
  case True
  let ?h = "\<lambda>b. b\<lparr>ba_rebases := ba_rebases b + 1, ba_bundle := None,
         ba_spent_root_old := None, ba_proven_at_ms := None, ba_status := Batch_Proving\<rparr>"
  have e: "batches (commit_now E (BatchRebased bid) st) = map_batch bid ?h (batches st)"
    using batches_commit[of E "BatchRebased bid" st] by (auto simp: batches_apply_batch_event simp del: apply_event.simps)
  have b: "busy bid (map_batch bid ?h (batches st))"
    by (rule busy_map_batch[OF assms(1)]) (simp_all add: batch_ok_def)
  have lt: "n < unat (rp_max_rebases (en_retry E))"
    using True assms(4) by (simp add: can_rebase_def word_less_nat_alt)
  obtain B where B: "map_of (batches st) bid = Some B" "unat (ba_rebases B) = n"
    using assms(3) by (auto simp: rebased_def)
  have "unat (ba_rebases B + 1) = Suc n"
    using one_more(2)[of "ba_rebases B" "rp_max_rebases (en_retry E)"] lt B(2) by (simp add: word_less_nat_alt)
  then have "rebased bid (Suc n) (map_batch bid ?h (batches st))"
    using B(1) by (simp add: rebased_def map_of_map_batch)
  with True b e lt assms(2) show ?thesis by (simp add: rebase_or_fail_def stage_ends_def)
qed

lemma sync_ends:
  assumes "api_ok E" "busy bid (batches st)" "ba_id batch = bid" "sync_loop E batch delays st = (r, st')"
  shows "case r of None \<Rightarrow> idle (batches st') | Some acc \<Rightarrow> batches st' = batches st"
  using assms(2,4)
proof (induction delays arbitrary: st)
  case Nil
  obtain x st1 where c: "await E (en_sync E (settled_batches (en_hex E) (oc_ledger st))) st = (x, st1)" by fastforce
  then have b: "batches st1 = batches st" using assms(1) by simp
  show ?case
  proof (cases x)
    case (Inl e)
    let ?f = "fail_batch E batch (if is_unavailable e then ServiceUnavailable else ChainRejected)
                 (''accumulator not synced to chain: '' @ sync_error_text e) st1"
    have "r = None" "st' = snd ?f" using Nil.prems(2) Inl by (simp_all add: c)
    with fail_ends(1)[of bid st1 batch E] Nil.prems(1) b assms(3) show ?thesis by simp
  next
    case (Inr acc)
    have "r = Some acc" "st' = st1" using Nil.prems(2) Inr by (simp_all add: c)
    with b show ?thesis by simp
  qed
next
  case (Cons d delays)
  obtain x st1 where c: "await E (en_sync E (settled_batches (en_hex E) (oc_ledger st))) st = (x, st1)" by fastforce
  then have b: "batches st1 = batches st" using assms(1) by simp
  show ?case
  proof (cases x)
    case (Inl e)
    show ?thesis
    proof (cases "is_unavailable e")
      case True
      have "sync_loop E batch delays (requests E st1) = (r, st')" using Cons.prems(2) Inl True by (simp add: c)
      moreover have q: "batches (requests E st1) = batches st" using b assms(1) by simp
      ultimately show ?thesis using Cons.IH[of "requests E st1"] Cons.prems(1) unfolding q by blast
    next
      case False
      have "r = None" "st' = snd (fail_batch E batch ChainRejected
                 (''accumulator not synced to chain: '' @ sync_error_text e) st1)"
        using Cons.prems(2) Inl False by (simp_all add: c)
      with fail_ends(1)[of bid st1 batch E] Cons.prems(1) b assms(3) show ?thesis by simp
    qed
  next
    case (Inr acc)
    have "r = Some acc" "st' = st1" using Cons.prems(2) Inr by (simp_all add: c)
    with b show ?thesis by simp
  qed
qed

lemma released_ends:
  assumes "api_ok E" "busy bid (batches st)" "ba_id batch = bid"
  shows "stage_ends E bid n (released_stage E batch acc st)"
proof -
  obtain vs st1 where c: "confirm E (released_members E batch acc (oc_ledger st)) st = (vs, st1)" by fastforce
  then have b: "busy bid (batches st1)" using assms(1,2) by simp
  show ?thesis
  proof (cases "one_transaction vs")
    case None
    have "busy bid (batches (exclude_all E vs st1))" using b by simp
    from fail_ends(2)[OF this assms(3)] show ?thesis by (simp add: released_stage_def c None)
  next
    case (Some txid)
    with settled_ends[OF b assms(3)] show ?thesis by (simp add: released_stage_def c)
  qed
qed

lemma await_loop_ends:
  assumes "api_ok E" "busy bid (batches st)" "ba_id batch = bid" "rebased bid n (batches st)" "unat (ba_rebases batch) = n"
  shows "stage_ends E bid n (await_loop E batch txid delays st)"
  using assms(2,4)
proof (induction delays arbitrary: st)
  case Nil
  with fail_ends(2)[OF _ assms(3)] show ?case by simp
next
  case (Cons d delays)
  let ?st1 = "requests E st"
  obtain x st2 where c: "await E (en_sync E (settled_batches (en_hex E) (oc_ledger ?st1))) ?st1 = (x, st2)" by fastforce
  then have b: "batches st2 = batches st" using assms(1) by simp
  show ?case
  proof (cases x)
    case (Inl e)
    with Cons.IH[of st2] Cons.prems b show ?thesis by (simp add: c)
  next
    case (Inr acc)
    from Cons.prems b have s: "busy bid (batches st2)" "rebased bid n (batches st2)" by simp_all
    have "await_loop E batch txid (d # delays) st =
       (if all_released E batch acc then released_stage E batch acc st2
        else if \<not> chains_onto (en_hex E) batch (ra_spent_root acc)
        then rebase_or_fail E batch ''vault root moved while the settlement was unconfirmed'' st2
        else await_loop E batch txid delays st2)"
      by (simp add: c Inr Let_def)
    then show ?thesis
      using released_ends[OF assms(1) s(1) assms(3), of n acc]
        rebase_ends[OF s(1) assms(3) s(2) assms(5),
          of E "''vault root moved while the settlement was unconfirmed''"] Cons.IH[OF s]
      by presburger
  qed
qed

lemma settle_ends:
  assumes ok: "api_ok E" and i: "idle (batches st)" and b: "ba_id batch = bid" "rebased bid n (batches st)"
    "unat (ba_rebases batch) = n"
  shows "stage_ends E bid n (settle_stage E batch st)"
proof -
  have busy: "busy bid (batches st)" using i by (rule idle_busy)
  obtain r st1 where c: "synced E batch st = (r, st1)" by fastforce
  note s = sync_ends[OF ok busy b(1) c[unfolded synced_def]]
  show ?thesis
  proof (cases r)
    case None
    with s show ?thesis by (simp add: settle_stage_def c stage_ends_def)
  next
    case (Some acc)
    with s have b1: "batches st1 = batches st" by simp
    then have st1: "busy bid (batches st1)" "rebased bid n (batches st1)" using busy b(2) by simp_all
    show ?thesis
    proof (cases "all_released E batch acc \<or> \<not> chains_onto (en_hex E) batch (ra_spent_root acc) \<or> ba_bundle batch = None")
      case True
      then have "settle_stage E batch st =
         (if all_released E batch acc then released_stage E batch acc st1
          else if \<not> chains_onto (en_hex E) batch (ra_spent_root acc)
          then rebase_or_fail E batch ''vault root moved after proving'' st1
          else (Done, st1))"
        by (auto simp: settle_stage_def c Some)
      moreover have "stage_ends E bid n (Done, st1)" using i b1 by (simp add: stage_ends_def)
      ultimately show ?thesis
        using released_ends[OF ok st1(1) b(1), of n acc]
          rebase_ends[OF st1(1) b(1) st1(2) b(3), of E "''vault root moved after proving''"]
        by presburger
    next
      case False
      then obtain bd where bd: "ba_bundle batch = Some bd" by blast
      obtain out st2 where o: "await E (en_submit E bd) st1 = (out, st2)" by fastforce
      then have b2: "batches st2 = batches st" using ok b1 by simp
      then have st2: "busy bid (batches st2)" "rebased bid n (batches st2)" "idle (batches st2)"
        using busy b(2) i by simp_all
      have "settle_stage E batch st = (case out of
                      Skipped \<Rightarrow> (Done, st2)
                    | Was_Submitted txid \<Rightarrow>
                        (Done, commit_now E (BatchSettled (ba_id batch) (Some txid)) st2)
                    | Unconfirmed txid \<Rightarrow> await_settlement E batch txid st2
                    | StaleRoot \<Rightarrow> rebase_or_fail E batch ''vault: stale root'' st2
                    | Submit_Failed message \<Rightarrow>
                        fail_batch E batch SubmissionFailed message st2)"
        using False by (simp add: settle_stage_def c Some bd o)
      then show ?thesis
        using settled_ends[OF st2(1) b(1)] await_loop_ends[OF ok st2(1) b(1) st2(2) b(3)]
          rebase_ends[OF st2(1) b(1) st2(2) b(3)] fail_ends(2)[OF st2(1) b(1)] st2(3)
        by (simp add: await_settlement_def stage_ends_def split: submit_outcome.splits)
    qed
  qed
qed

section \<open>Proving\<close>

lemma find_batch:
  assumes "batches_ok bs" "map_of bs bid = Some B" "rebased bid n bs"
  shows "ba_id B = bid" "unat (ba_rebases B) = n"
  using batches_okD(1)[OF assms(1,2)] assms(2,3) by (simp_all add: rebased_def)

lemma proven_ends:
  assumes ok: "api_ok E" and b: "busy bid (batches st)" "ba_id batch = bid" "rebased bid n (batches st)"
  shows "stage_ends E bid n
     (let st2 = commit_now E (BatchProven (ba_id batch) bd old) st in
      case reload st2 (ba_id batch) of None \<Rightarrow> (Done, st2) | Some proven \<Rightarrow> settle_stage E proven st2)"
proof -
  let ?st2 = "commit_now E (BatchProven bid bd old) st"
  obtain t where t: "batches ?st2 = map_batch bid (\<lambda>b. b\<lparr>ba_status := Batch_Proven, ba_bundle := Some bd,
         ba_spent_root_old := Some old, ba_proven_at_ms := Some t\<rparr>) (batches st)"
    using batches_commit[of E "BatchProven bid bd old" st] by (auto simp: batches_apply_batch_event simp del: apply_event.simps)
  have i: "idle (batches ?st2)"
    unfolding t by (rule idle_map_batch[OF b(1)]) (simp_all add: batch_ok_def)
  obtain B where B: "map_of (batches st) bid = Some B" "unat (ba_rebases B) = n"
    using b(3) by (auto simp: rebased_def)
  obtain C where C: "map_of (batches ?st2) bid = Some C" "rebased bid n (batches ?st2)"
    using B by (simp add: t map_of_map_batch rebased_def)
  have "batches_ok (batches ?st2)" using i by (simp add: idle_def)
  from find_batch[OF this C] settle_ends[OF ok i _ C(2), of C] C(1) b(2) show ?thesis
    by (simp add: reload_def ledger_batch_def Let_def)
qed

lemma prove_and_settle_ends:
  assumes ok: "api_ok E" and b: "busy bid (batches st)" "ba_id batch = bid" "rebased bid n (batches st)"
  shows "stage_ends E bid n (prove_and_settle E batch a st)"
proof (cases "proof_for (oc_ledger st) (map (\<lambda>l. hex32 (en_hex E) (leaf_nullifier l)) (as_leaves a))
    (hex32 (en_hex E) (pv_spent_root_old (as_public_values a)))")
  case (Some reused)
  show ?thesis using proven_ends[OF ok b] by (simp add: prove_and_settle_def Some Let_def)
next
  case None
  obtain x st1 where c: "await E (en_prove E (ba_id batch) (as_wire a)) st = (x, st1)" by fastforce
  then have b1: "busy bid (batches st1)" "rebased bid n (batches st1)" using ok b by simp_all
  show ?thesis
  proof (cases x)
    case (Inl e)
    with fail_ends(2)[OF b1(1) b(2)] show ?thesis by (simp add: prove_and_settle_def None c)
  next
    case (Inr pf)
    with proven_ends[OF ok b1(1) b(2) b1(2)] show ?thesis by (simp add: prove_and_settle_def None c Let_def)
  qed
qed

lemma prove_ends:
  assumes ok: "api_ok E" and b: "busy bid (batches st)" "ba_id batch = bid" "rebased bid n (batches st)"
  shows "stage_ends E bid n (prove_stage E batch st)"
proof -
  obtain r st1 where c: "synced E batch st = (r, st1)" by fastforce
  note s = sync_ends[OF ok b(1,2) c[unfolded synced_def]]
  show ?thesis
  proof (cases r)
    case None
    with s show ?thesis by (simp add: prove_stage_def c stage_ends_def)
  next
    case (Some acc)
    with s have b1: "batches st1 = batches st" by simp
    let ?burns = "ledger_burns (oc_ledger st1) (ba_members batch)"
    let ?ns = "map_of (rev (map (\<lambda>b. (bn_id b, burn_nullifier b)) ?burns))"
    obtain y st2 where d: "await E (en_simulate E
        (filter_map (burn_leaf_to_settle (en_hex E) (en_sdk E)) ?burns)) st1 = (y, st2)" by fastforce
    then have b2: "busy bid (batches st2)" "rebased bid n (batches st2)" using ok b b1 by simp_all
    show ?thesis
    proof (cases y)
      case (Inl e)
      with fail_ends(2)[OF b2(1) b(2)] show ?thesis by (simp add: prove_stage_def c Some d Let_def)
    next
      case (Inr rejected)
      let ?st3 = "requests E st2"
      let ?as = "assemble (en_fuel E) (en_debug E) (en_sha256 E) (en_keccak E) (en_sdk E) ?burns acc rejected"
      have b3: "busy bid (batches ?st3)" "rebased bid n (batches ?st3)" using b2 ok by simp_all
      have checked: "busy bid (batches (exclude_all E vs st4))" "rebased bid n (batches (exclude_all E vs st4))"
        if v: "confirmed E ex ?ns ?st3 = (vs, st4)" for ex vs st4
        using batches_confirmed[OF ok v] b3 by simp_all
      show ?thesis
      proof (cases "(\<exists>ex. ?as = Some (Inl (AllExcluded ex))) \<or> (\<exists>a. ?as = Some (Inr a))")
        case False
        have "\<exists>kind m. prove_stage E batch st = fail_batch E batch kind m ?st3"
        proof (cases ?as)
          case None
          then show ?thesis by (auto simp: prove_stage_def c Some d Inr Let_def)
        next
          case s: (Some z)
          with False obtain e where "z = Inl e" "\<And>ex. e \<noteq> AllExcluded ex" by (cases z) auto
          with s show ?thesis by (cases e) (auto simp: prove_stage_def c Some d Inr Let_def)
        qed
        with fail_ends(2)[OF b3(1) b(2)] show ?thesis by metis
      next
        case True
        then show ?thesis
        proof (elim disjE exE)
          fix ex assume e: "?as = Some (Inl (AllExcluded ex))"
          obtain vs st4 where v: "confirmed E ex ?ns ?st3 = (vs, st4)" by fastforce
          from fail_ends(2)[OF checked(1)[OF v] b(2)] show ?thesis
            by (simp add: prove_stage_def c Some d Inr e v Let_def)
        next
          fix a assume e: "?as = Some (Inr a)"
          obtain vs st4 where v: "confirmed E (as_excluded a) ?ns ?st3 = (vs, st4)" by fastforce
          from prove_and_settle_ends[OF ok checked(1)[OF v] b(2) checked(2)[OF v]] show ?thesis
            by (simp add: prove_stage_def c Some d Inr e v Let_def)
        qed
      qed
    qed
  qed
qed

section \<open>A whole batch\<close>

lemma rebase_loop_ends:
  assumes "api_ok E" "stage_ends E bid n (stage, st)"
  shows "\<exists>st'. rebase_loop E bid stage st = Some st' \<and> idle (batches st')"
  using assms(2)
proof (induction "unat (rp_max_rebases (en_retry E)) - n" arbitrary: n stage st rule: less_induct)
  case less
  show ?case
  proof (cases stage)
    case Done
    with less.prems show ?thesis by (simp add: stage_ends_def rebase_loop.simps)
  next
    case Rebase
    with less.prems have b: "busy bid (batches st)" "rebased bid (Suc n) (batches st)"
      "n < unat (rp_max_rebases (en_retry E))" by (simp_all add: stage_ends_def)
    obtain B where B: "map_of (batches st) bid = Some B" using b(2) by (auto simp: rebased_def)
    have "batches_ok (batches st)" using b(1) by (simp add: busy_def)
    note f = find_batch[OF this B b(2)]
    obtain stage' st' where p: "prove_stage E B st = (stage', st')" by fastforce
    have "stage_ends E bid (Suc n) (stage', st')"
      using prove_ends[OF assms(1) b(1) f(1) b(2)] by (simp add: p)
    moreover have "unat (rp_max_rebases (en_retry E)) - Suc n < unat (rp_max_rebases (en_retry E)) - n"
      using b(3) by simp
    ultimately obtain st2 where "rebase_loop E bid stage' st' = Some st2" "idle (batches st2)"
      using less.hyps by blast
    then show ?thesis using Rebase B p by (simp add: rebase_loop.simps[of E bid Rebase st] reload_def ledger_batch_def)
  qed
qed

end
