(* ===== verification/Assembler_Proofs.thy ===== *)
theory Assembler_Proofs
  imports Assembler S1_Proofs S2_Proofs
begin

text \<open>
  What an assembled batch is: the members it keeps fit together, every member it leaves out is
  named with a reason, and what is handed to the prover is a batch the guest accepts on top of
  the vault's root.
\<close>

section \<open>Admission\<close>

definition not_spent :: "(bytes \<Rightarrow> bytes) \<Rightarrow> rebuilt_accumulator \<Rightarrow> guest_input \<Rightarrow> bool" where
  "not_spent sha acc i \<longleftrightarrow> (\<forall>l \<in> set (gi_return_leaves i). is_spent sha acc (leaf_nullifier l) = Some False)"

definition not_rejected :: "rejected list \<Rightarrow> service_burn \<Rightarrow> bool" where
  "not_rejected rejected b \<longleftrightarrow>
     (\<forall>r \<in> set rejected. \<not> eq_ignore_ascii_case (rj_nullifier r) (burn_nullifier b))"

lemma find_spent_None: "find_spent sha acc ls = Some None \<longleftrightarrow>
    (\<forall>l \<in> set ls. is_spent sha acc (leaf_nullifier l) = Some False)"
  by (induction ls) (auto split: option.splits bool.splits)

lemma is_spent_False: "is_spent sha acc n = Some False \<Longrightarrow> n \<notin> set (ra_tree acc)"
  using non_membership_witness_present[of n "ra_tree acc" sha] by (auto simp: is_spent_def)

lemma admit_Ok:
  assumes "admit dbg sha S b acc rejected m = Some (Ok i)"
  shows "decode_guest_input S (bn_wire_input b) = Ok i" "differs_from_template m i = None"
    "not_rejected rejected b" "not_spent sha acc i"
    "\<forall>r \<in> set (gi_sorted_lock_refs i). ref_nonce r \<notin> mg_taken m"
  using assms
  by (auto simp: admit_def not_spent_def find_spent_None not_rejected_def find_None_iff
      split: sum.splits option.splits if_splits)

section \<open>The merge\<close>

text \<open>What the loop makes of the members it keeps, in order, with their decoded inputs.\<close>

definition merge_of :: "(service_burn \<times> guest_input) list \<Rightarrow> merge \<Rightarrow> merge" where
  "merge_of ins m = foldl (\<lambda>m (b, i). merge_take b i m) m ins"

lemma merge_of_simps [simp]:
  "merge_of [] m = m"
  "merge_of ((b, i) # ins) m = merge_of ins (merge_take b i m)"
  by (simp_all add: merge_of_def)

fun fits :: "sdk \<Rightarrow> rebuilt_accumulator \<Rightarrow> rejected list \<Rightarrow> merge \<Rightarrow> (service_burn \<times> guest_input) list \<Rightarrow> bool" where
  "fits S acc rejected m [] = True"
| "fits S acc rejected m ((b, i) # ins) =
     (decode_guest_input S (bn_wire_input b) = Ok i \<and> differs_from_template m i = None
      \<and> not_rejected rejected b \<and> not_spent (sdk_sha256 S) acc i
      \<and> (\<forall>r \<in> set (gi_sorted_lock_refs i). ref_nonce r \<notin> mg_taken m)
      \<and> fits S acc rejected (merge_take b i m) ins)"

lemma merge_of_excluded: "merge_of ins (m\<lparr>mg_excluded := e\<rparr>) = (merge_of ins m)\<lparr>mg_excluded := e\<rparr>"
proof (induction ins arbitrary: m)
  case (Cons x ins)
  obtain b i where x: "x = (b, i)" by fastforce
  have "merge_take b i (m\<lparr>mg_excluded := e\<rparr>) = (merge_take b i m)\<lparr>mg_excluded := e\<rparr>"
    by (simp add: merge_take_def)
  then show ?case by (simp add: x Cons)
qed simp

lemma fits_excluded [simp]:
  "fits S acc rejected (m\<lparr>mg_excluded := e\<rparr>) ins = fits S acc rejected m ins"
proof (induction ins arbitrary: m)
  case (Cons x ins)
  obtain b i where x: "x = (b, i)" by fastforce
  have "merge_take b i (m\<lparr>mg_excluded := e\<rparr>) = (merge_take b i m)\<lparr>mg_excluded := e\<rparr>"
    by (simp add: merge_take_def)
  then show ?case by (simp add: x Cons differs_from_template_def)
qed simp

lemma mg_excluded_merge_of [simp]: "mg_excluded (merge_of ins m) = mg_excluded m"
  by (induction ins arbitrary: m) (auto simp: merge_take_def)

lemma merge_loop_spec:
  assumes "merge_loop dbg (sdk_sha256 S) S acc rejected m members = Some m'"
  shows "\<exists>ins out. m' = (merge_of ins m)\<lparr>mg_excluded := mg_excluded m @ out\<rparr>
    \<and> fits S acc rejected m ins
    \<and> mset (map (\<lambda>x. bn_id (fst x)) ins) + mset (map fst out) = mset (map bn_id members)
    \<and> fst ` set ins \<subseteq> set members"
  using assms
proof (induction members arbitrary: m)
  case Nil
  then show ?case by (intro exI[of _ "[]"]) simp
next
  case (Cons b members)
  obtain r where r: "admit dbg (sdk_sha256 S) S b acc rejected m = Some r"
    using Cons.prems by (auto split: option.splits)
  show ?case
  proof (cases r)
    case (Inl e)
    let ?m = "m\<lparr>mg_excluded := mg_excluded m @ [(bn_id b, e)]\<rparr>"
    have "merge_loop dbg (sdk_sha256 S) S acc rejected ?m members = Some m'"
      using r Cons.prems Inl by simp
    from Cons.IH[OF this] obtain ins out where ins: "m' = (merge_of ins ?m)\<lparr>mg_excluded := mg_excluded ?m @ out\<rparr>"
      "fits S acc rejected ?m ins"
      "mset (map (\<lambda>x. bn_id (fst x)) ins) + mset (map fst out) = mset (map bn_id members)"
      "fst ` set ins \<subseteq> set members" by blast
    show ?thesis
      by (rule exI[of _ ins], rule exI[of _ "(bn_id b, e) # out"])
        (use ins in \<open>auto simp: merge_of_excluded\<close>)
  next
    case (Inr i)
    note a = admit_Ok[OF r[unfolded Inr]]
    have "merge_loop dbg (sdk_sha256 S) S acc rejected (merge_take b i m) members = Some m'"
      using r Cons.prems Inr by simp
    from Cons.IH[OF this] obtain ins out where ins:
      "m' = (merge_of ins (merge_take b i m))\<lparr>mg_excluded := mg_excluded (merge_take b i m) @ out\<rparr>"
      "fits S acc rejected (merge_take b i m) ins"
      "mset (map (\<lambda>x. bn_id (fst x)) ins) + mset (map fst out) = mset (map bn_id members)"
      "fst ` set ins \<subseteq> set members" by blast
    show ?thesis
      by (rule exI[of _ "(b, i) # ins"], rule exI[of _ out])
        (use ins a in \<open>auto simp: merge_take_def\<close>)
  qed
qed

text \<open>The fields of the merge, and what fitting together means.\<close>

lemma merge_of_fields:
  "mg_leaves (merge_of ins m) = mg_leaves m @ concat (map (gi_return_leaves \<circ> snd) ins)"
  "mg_lock_refs (merge_of ins m) = mg_lock_refs m @ concat (map (gi_sorted_lock_refs \<circ> snd) ins)"
  "mg_burns (merge_of ins m) = mg_burns m @ concat (map (rw_bridge_burns \<circ> gi_witness \<circ> snd) ins)"
  "mg_kept (merge_of ins m) = mg_kept m @ map (\<lambda>x. bn_id (fst x)) ins"
  by (induction ins arbitrary: m) (auto simp: merge_take_def)

lemma fits_member:
  assumes "fits S acc rejected m ins" "(b, i) \<in> set ins"
  shows "decode_guest_input S (bn_wire_input b) = Ok i \<and> not_rejected rejected b
    \<and> not_spent (sdk_sha256 S) acc i"
  using assms by (induction ins arbitrary: m) auto

fun pairwise_disjoint :: "'a set \<Rightarrow> 'a set list \<Rightarrow> bool" where
  "pairwise_disjoint used [] = True"
| "pairwise_disjoint used (A # As) = (A \<inter> used = {} \<and> pairwise_disjoint (used \<union> A) As)"

lemma fits_nonces:
  "fits S acc rejected m ins \<Longrightarrow>
   pairwise_disjoint (mg_taken m) (map (\<lambda>(b, i). ref_nonce ` set (gi_sorted_lock_refs i)) ins)"
proof (induction ins arbitrary: m)
  case (Cons x ins)
  obtain b i where x: "x = (b, i)" by fastforce
  have "mg_taken (merge_take b i m) = mg_taken m \<union> ref_nonce ` set (gi_sorted_lock_refs i)"
    by (simp add: merge_take_def)
  with Cons.prems Cons.IH[of "merge_take b i m"] show ?case by (auto simp: x)
qed simp

lemma fits_template:
  assumes "fits S acc rejected m ins" "mg_template m = Some (c, t)"
  shows "mg_template (merge_of ins m) = Some (c, t)
    \<and> (\<forall>(b, i) \<in> set ins. gi_config i = c
        \<and> pv_trust_base_hash (gi_public_values i) = pv_trust_base_hash t)"
  using assms
proof (induction ins arbitrary: m)
  case (Cons x ins)
  obtain b i where x: "x = (b, i)" by fastforce
  have "mg_template (merge_take b i m) = Some (c, t)" using Cons.prems(2) by (simp add: merge_take_def)
  from Cons.IH[OF _ this] Cons.prems show ?case
    by (auto simp: x differs_from_template_def split: if_splits)
qed simp

lemma fits_new:
  assumes "fits S acc rejected merge_new ins"
  shows "case ins of [] \<Rightarrow> mg_template (merge_of ins merge_new) = None
    | (b0, i0) # rest \<Rightarrow> mg_template (merge_of ins merge_new) = Some (gi_config i0, gi_public_values i0)
        \<and> (\<forall>(b, i) \<in> set ins. gi_config i = gi_config i0
            \<and> pv_trust_base_hash (gi_public_values i) = pv_trust_base_hash (gi_public_values i0))"
proof (cases ins)
  case (Cons x rest)
  obtain b0 i0 where x: "x = (b0, i0)" by fastforce
  have t: "mg_template (merge_take b0 i0 merge_new) = Some (gi_config i0, gi_public_values i0)"
    by (simp add: merge_take_def merge_new_def)
  have "fits S acc rejected (merge_take b0 i0 merge_new) rest" using assms Cons x by simp
  from fits_template[OF this t] Cons x show ?thesis by simp
qed (simp add: merge_new_def)

section \<open>The assembled batch\<close>

lemma assemble_Ok:
  assumes "assemble fuel dbg sha256 keccak S members acc rejected = Some (Ok a)"
  obtains ins c t b root input where
    "fits S acc rejected merge_new ins" "mset (map (\<lambda>x. bn_id (fst x)) ins) + mset (map fst (as_excluded a))
      = mset (map bn_id members)" "fst ` set ins \<subseteq> set members"
    "mg_template (merge_of ins merge_new) = Some (c, t)"
    "as_kept a = map (\<lambda>x. bn_id (fst x)) ins"
    "as_leaves a = concat (map (gi_return_leaves \<circ> snd) ins)"
    "as_lock_refs a = sort_key ref_nonce (concat (map (gi_sorted_lock_refs \<circ> snd) ins))"
    "next_batch (sdk_sha256 S) acc (map leaf_nullifier (as_leaves a)) = Some (Ok b)"
    "lock_ref_root keccak (as_lock_refs a) = Ok root"
    "input = assembled_input keccak (merge_of ins merge_new) c t (as_lock_refs a) root b"
    "as_public_values a = gi_public_values input" "encode_guest_input S input = Some (as_wire a)"
    "\<exists>r. precheck_wire fuel sha256 keccak S (as_wire a) = Some (Ok r)"
proof -
  obtain m where m: "merge_loop dbg (sdk_sha256 S) S acc rejected merge_new members = Some m"
    using assms by (auto simp: assemble_def split: option.splits)
  from merge_loop_spec[OF this] obtain ins out where
    i: "m = (merge_of ins merge_new)\<lparr>mg_excluded := mg_excluded merge_new @ out\<rparr>"
    "fits S acc rejected merge_new ins"
    "mset (map (\<lambda>x. bn_id (fst x)) ins) + mset (map fst out) = mset (map bn_id members)"
    "fst ` set ins \<subseteq> set members" by blast
  have f: "mg_leaves m = concat (map (gi_return_leaves \<circ> snd) ins)"
    "mg_lock_refs m = concat (map (gi_sorted_lock_refs \<circ> snd) ins)"
    "mg_kept m = map (\<lambda>x. bn_id (fst x)) ins" "mg_excluded m = out"
    "mg_template m = mg_template (merge_of ins merge_new)" "mg_burns m = mg_burns (merge_of ins merge_new)"
    "mg_leaves (merge_of ins merge_new) = mg_leaves m"
    by (simp_all add: i(1) merge_of_fields merge_new_def)
  obtain c t where t: "mg_template m = Some (c, t)"
    using assms m by (auto simp: assemble_def split: option.splits)
  let ?refs = "sort_key ref_nonce (mg_lock_refs m)"
  obtain b root wire where b: "next_batch (sdk_sha256 S) acc (map leaf_nullifier (mg_leaves m)) = Some (Ok b)"
    "lock_ref_root keccak ?refs = Ok root"
    "encode_guest_input S (assembled_input keccak m c t ?refs root b) = Some wire"
    "\<exists>r. precheck_wire fuel sha256 keccak S wire = Some (Ok r)"
    "a = \<lparr>as_wire = wire, as_public_values = gi_public_values (assembled_input keccak m c t ?refs root b),
       as_leaves = mg_leaves m, as_lock_refs = ?refs, as_kept = mg_kept m, as_excluded = mg_excluded m\<rparr>"
    using assms unfolding assemble_def m t option.case prod.case Let_def run_then_Ok_iff
    by (auto split: option.splits simp: run_then_Ok_iff)
  have e: "assembled_input keccak m c t ?refs root b = assembled_input keccak (merge_of ins merge_new) c t ?refs root b"
    by (simp add: assembled_input_def f)
  have a: "as_wire a = wire" "as_leaves a = mg_leaves m" "as_lock_refs a = ?refs" "as_kept a = mg_kept m"
    "as_excluded a = out" "as_public_values a = gi_public_values (assembled_input keccak m c t ?refs root b)"
    by (simp_all add: b(5) f(4))
  show thesis
  proof (rule that[of ins c t b root])
    show "mset (map (\<lambda>x. bn_id (fst x)) ins) + mset (map fst (as_excluded a)) = mset (map bn_id members)"
      unfolding a by (rule i(3))
    show "mg_template (merge_of ins merge_new) = Some (c, t)" using t f(5) by simp
    show "as_kept a = map (\<lambda>x. bn_id (fst x)) ins" unfolding a by (rule f(3))
    show "as_leaves a = concat (map (gi_return_leaves \<circ> snd) ins)" unfolding a by (rule f(1))
    show "as_lock_refs a = sort_key ref_nonce (concat (map (gi_sorted_lock_refs \<circ> snd) ins))"
      unfolding a f(2) ..
    show "next_batch (sdk_sha256 S) acc (map leaf_nullifier (as_leaves a)) = Some (Ok b)" unfolding a by (rule b(1))
    show "lock_ref_root keccak (as_lock_refs a) = Ok root" unfolding a by (rule b(2))
    show "as_public_values a = gi_public_values
        (assembled_input keccak (merge_of ins merge_new) c t (as_lock_refs a) root b)"
      unfolding a e ..
    show "encode_guest_input S (assembled_input keccak (merge_of ins merge_new) c t (as_lock_refs a) root b)
        = Some (as_wire a)"
      unfolding a e[symmetric] by (rule b(3))
    show "\<exists>r. precheck_wire fuel sha256 keccak S (as_wire a) = Some (Ok r)" unfolding a by (rule b(4))
  qed (use i in auto)
qed

text \<open>C28. A batch handed to the prover fits together: every member is kept or excluded, once; the kept
  ones decode, were not refused by the simulation and share configuration and trust base; the leaves
  are theirs in order, none spent already or twice; the lock references are theirs, strictly
  ascending; the public values lead from the vault's root to the root of the extended tree; and the
  guest accepts the wire bytes, with these public values when they decode to what was encoded.\<close>

theorem assembled_batch:
  assumes "rebuild (sdk_sha256 S) batches = Some (Ok acc)"
    and "\<forall>b \<in> set batches. \<forall>n \<in> set (sb_nullifiers b). length n = 32"
    and "\<forall>b \<in> set members. \<forall>i. decode_guest_input S (bn_wire_input b) = Ok i \<longrightarrow>
      (\<forall>l \<in> set (gi_return_leaves i). length (leaf_nullifier l) = 32)"
    and "assemble fuel dbg sha256 keccak S members acc rejected = Some (Ok a)"
  shows "\<exists>ins c tbh. as_kept a = map (\<lambda>x. bn_id (fst x)) ins \<and> ins \<noteq> [] \<and> fst ` set ins \<subseteq> set members
    \<and> mset (as_kept a) + mset (map fst (as_excluded a)) = mset (map bn_id members)
    \<and> (\<forall>(b, i) \<in> set ins. decode_guest_input S (bn_wire_input b) = Ok i \<and> not_rejected rejected b
        \<and> gi_config i = c \<and> pv_trust_base_hash (gi_public_values i) = tbh)
    \<and> as_leaves a = concat (map (gi_return_leaves \<circ> snd) ins)
    \<and> as_lock_refs a = sort_key ref_nonce (concat (map (gi_sorted_lock_refs \<circ> snd) ins))
    \<and> sorted_wrt (<) (map ref_nonce (as_lock_refs a))
    \<and> distinct (ra_tree acc @ map leaf_nullifier (as_leaves a))
    \<and> pv_trust_base_hash (as_public_values a) = tbh
    \<and> pv_spent_root_old (as_public_values a) = ra_spent_root acc
    \<and> tree_root (sdk_sha256 S) (ra_tree acc @ map leaf_nullifier (as_leaves a))
        = Some (pv_spent_root_new (as_public_values a))
    \<and> (\<exists>input. encode_guest_input S input = Some (as_wire a) \<and> gi_config input = c
        \<and> gi_public_values input = as_public_values a \<and> gi_return_leaves input = as_leaves a
        \<and> gi_sorted_lock_refs input = as_lock_refs a
        \<and> (wf_input S input \<longrightarrow> execute fuel sha256 keccak S input = Some (Ok (as_public_values a))))"
proof -
  obtain ins c t b root input where i: "fits S acc rejected merge_new ins"
    "mset (map (\<lambda>x. bn_id (fst x)) ins) + mset (map fst (as_excluded a)) = mset (map bn_id members)"
    "fst ` set ins \<subseteq> set members" "mg_template (merge_of ins merge_new) = Some (c, t)"
    "as_kept a = map (\<lambda>x. bn_id (fst x)) ins"
    "as_leaves a = concat (map (gi_return_leaves \<circ> snd) ins)"
    "as_lock_refs a = sort_key ref_nonce (concat (map (gi_sorted_lock_refs \<circ> snd) ins))"
    "next_batch (sdk_sha256 S) acc (map leaf_nullifier (as_leaves a)) = Some (Ok b)"
    "lock_ref_root keccak (as_lock_refs a) = Ok root"
    "input = assembled_input keccak (merge_of ins merge_new) c t (as_lock_refs a) root b"
    "as_public_values a = gi_public_values input" "encode_guest_input S input = Some (as_wire a)"
    "\<exists>r. precheck_wire fuel sha256 keccak S (as_wire a) = Some (Ok r)"
    by (rule assemble_Ok[OF assms(4)])
  let ?ns = "map leaf_nullifier (as_leaves a)"
  have ne: "ins \<noteq> []" using i(4) by (auto simp: merge_new_def)
  have dec: "\<forall>(b, i) \<in> set ins. decode_guest_input S (bn_wire_input b) = Ok i \<and> not_rejected rejected b"
    using fits_member[OF i(1)] by blast
  have tmpl: "\<forall>(b, i) \<in> set ins. gi_config i = c \<and> pv_trust_base_hash (gi_public_values i) = pv_trust_base_hash t"
    using fits_new[OF i(1)] ne i(4) by (cases ins) auto
  have k: "\<forall>n \<in> set ?ns. key_ok n"
    using assms(3) dec i(3) unfolding i(6) key_ok_def by fastforce
  have g: "good (sdk_sha256 S) acc"
    using rebuild_facts[OF _ assms(1)] assms(2) by (auto simp: keys_ok_def key_ok_def)
  have d: "?ns \<noteq> [] \<and> distinct (ra_tree acc @ ?ns)"
    using next_batch_if[OF g k] i(8) by (auto split: if_splits)
  then have b: "nb_spent_root_old b = ra_spent_root acc"
    "nb_spent_root_new b = commit (sdk_sha256 S) (set (ra_tree acc @ ?ns))"
    using next_batch_if[OF g k] i(8) by auto
  have t: "tree_root (sdk_sha256 S) (ra_tree acc @ ?ns) = Some (commit (sdk_sha256 S) (set (ra_tree acc @ ?ns)))"
    using d g k by (intro tree_root_commit) (auto simp: good_def)
  have asc: "sorted_wrt (<) (map ref_nonce (as_lock_refs a))"
    using i(9) by (simp add: lock_ref_root_Ok_iff ascending_def)
  have x: "execute fuel sha256 keccak S input = Some (Ok (as_public_values a))" if "wf_input S input"
    using i(13) precheck_wire_Ok[of fuel sha256 keccak S "as_wire a"] decode_encoded[OF i(12) that] i(11) by force
  have inp: "gi_config input = c" "gi_return_leaves input = as_leaves a" "gi_sorted_lock_refs input = as_lock_refs a"
    "pv_trust_base_hash (as_public_values a) = pv_trust_base_hash t"
    "pv_spent_root_old (as_public_values a) = ra_spent_root acc"
    "pv_spent_root_new (as_public_values a) = commit (sdk_sha256 S) (set (ra_tree acc @ ?ns))"
    unfolding i(11) by (simp_all add: i(10) assembled_input_def b merge_of_fields merge_new_def i(6))
  have both: "\<forall>(b, i) \<in> set ins. decode_guest_input S (bn_wire_input b) = Ok i \<and> not_rejected rejected b
        \<and> gi_config i = c \<and> pv_trust_base_hash (gi_public_values i) = pv_trust_base_hash t"
    using dec tmpl by blast
  have m: "mset (as_kept a) + mset (map fst (as_excluded a)) = mset (map bn_id members)"
    unfolding i(5) by (rule i(2))
  note parts = i(5) ne i(3) m both i(6,7) asc conjunct2[OF d] inp(4,5) t[folded inp(6)] i(12) inp(1)
    i(11)[symmetric] inp(2,3) impI[OF x]
  show ?thesis
    by (rule exI[of _ ins], rule exI[of _ c], rule exI[of _ "pv_trust_base_hash t"],
        (intro conjI exI[of _ input]; rule parts))
qed

section \<open>A witness\<close>

lemma ex_empty: "rebuild sketch [] = Some (Ok rebuild_start)"
proof -
  have k: "keys_ok []" by (simp add: keys_ok_def)
  have "run sketch [] [] rebuild_start [] rebuild_start []"
    by (rule run.stop) (simp add: next_link_def)
  then show ?thesis unfolding rebuild_Ok_run[OF k] by force
qed

definition ex_member :: "bytes \<Rightarrow> service_burn" where
  "ex_member bs = \<lparr>bn_id = ''a'', bn_trust_base_hash = ''t'', bn_lock_nonces = [7],
     bn_leaf = leaf_hex_of std_hex ex_leaf, bn_wire_input = bs\<rparr>"

definition ex_dbg :: "bridge_core_error \<Rightarrow> string" where "ex_dbg e = ''?''"

lemma ex_next:
  "next_batch sketch rebuild_start [leaf_nullifier ex_leaf] = Some (Ok \<lparr>nb_spent_root_old = commit sketch {},
      nb_witnesses = [no_steps], nb_spent_root_new = commit sketch {leaf_nullifier ex_leaf}\<rparr>)"
proof -
  have k: "key_ok (leaf_nullifier ex_leaf)" using ex_leaf_wf by (simp add: wf_leaf_def key_ok_def)
  have r: "tree_root sketch [] = Some (commit sketch {})" using tree_root_commit[of "[]" sketch] by simp
  have r1: "tree_root sketch [leaf_nullifier ex_leaf] = Some (commit sketch {leaf_nullifier ex_leaf})"
    using tree_root_commit[of "[leaf_nullifier ex_leaf]" sketch] k by simp
  have w: "non_membership_witness sketch [] (leaf_nullifier ex_leaf) = Some (Some no_steps)"
    by (simp add: non_membership_witness_def no_steps_def)
  have t: "tree_insert [] (leaf_nullifier ex_leaf) = Ok [leaf_nullifier ex_leaf]"
    by (simp add: tree_insert_def)
  show ?thesis
    by (simp add: next_batch_def rebuild_start_def r ordered_insert_witnesses_def w t r1 no_steps_insert)
qed

lemma ex_assemble:
  assumes bs: "encode_guest_input ex_sdk ex_input = Some bs"
  shows "assemble 0 ex_dbg len32 len32 ex_sdk [ex_member bs] rebuild_start []
    = Some (Ok \<lparr>as_wire = bs, as_public_values = ex_pv, as_leaves = [ex_leaf], as_lock_refs = [ex_ref],
        as_kept = [''a''], as_excluded = []\<rparr>)"
proof -
  let ?m = "merge_take (ex_member bs) ex_input merge_new"
  have dec: "decode_guest_input ex_sdk bs = Ok ex_input" by (rule decode_encoded[OF bs ex_wf])
  have w: "non_membership_witness sketch [] (leaf_nullifier ex_leaf) = Some (Some no_steps)"
    by (simp add: non_membership_witness_def no_steps_def)
  have "admit ex_dbg sketch ex_sdk (ex_member bs) rebuild_start [] merge_new = Some (Ok ex_input)"
    by (simp add: admit_def ex_member_def dec differs_from_template_def merge_new_def ex_input_simps is_spent_def
        rebuild_start_def w)
  then have m: "merge_loop ex_dbg sketch ex_sdk rebuild_start [] merge_new [ex_member bs] = Some ?m" by simp
  have i: "assembled_input len32 ?m wit_config ex_pv [ex_ref]
      (len32 (refs_buf [ex_ref])) \<lparr>nb_spent_root_old = commit sketch {}, nb_witnesses = [no_steps],
        nb_spent_root_new = commit sketch {leaf_nullifier ex_leaf}\<rparr> = ex_input"
    by (simp add: assembled_input_def merge_take_def merge_new_def ex_input_simps)
      (simp add: ex_input_def ex_pv_def)
  have p: "precheck_wire 0 len32 len32 ex_sdk bs = Some (Ok (report_of len32 ex_pv bs))"
    by (simp add: precheck_wire_def dec precheck_eq[OF bs ex_wf] ex_execute)
  have l: "lock_ref_root len32 [ex_ref] = Ok (len32 (refs_buf [ex_ref]))"
    by (simp add: lock_ref_root_Ok_iff ascending_def)
  have f: "mg_template ?m = Some (wit_config, ex_pv)" "mg_leaves ?m = [ex_leaf]"
    "mg_lock_refs ?m = [ex_ref]" "mg_kept ?m = [''a'']" "mg_excluded ?m = []"
    by (simp_all add: merge_take_def merge_new_def ex_input_simps ex_member_def)
  show ?thesis
    unfolding assemble_def ex_sdk_simps m option.case f prod.case
    by (simp add: ex_next l i bs p ex_input_simps del: refs_buf_simps)
qed

theorem assembled_batch_witness:
  "\<exists>bs a. encode_guest_input ex_sdk ex_input = Some bs
     \<and> assemble 0 ex_dbg len32 len32 ex_sdk [ex_member bs] rebuild_start [] = Some (Ok a)
     \<and> mset (as_kept a) + mset (map fst (as_excluded a)) = {#''a''#}"
proof -
  obtain bs where bs: "encode_guest_input ex_sdk ex_input = Some bs" using ex_encodes by blast
  have dec: "decode_guest_input ex_sdk (bn_wire_input (ex_member bs)) = Ok ex_input"
    using decode_encoded[OF bs ex_wf] by (simp add: ex_member_def)
  have k: "length (leaf_nullifier ex_leaf) = 32" using ex_leaf_wf by (simp add: wf_leaf_def)
  have r: "rebuild (sdk_sha256 ex_sdk) [] = Some (Ok rebuild_start)" using ex_empty by (simp add: ex_sdk_simps)
  from assembled_batch[OF r _ _ ex_assemble[OF bs]] dec k
  have "mset [''a''] + mset (map fst []) = mset (map bn_id [ex_member bs])"
    by (fastforce simp: ex_input_simps)
  with bs ex_assemble[OF bs] show ?thesis by (intro exI[of _ bs]) (simp add: ex_member_def)
qed

end
