(* ===== verification/Orchestrator_Safety.thy ===== *)
theory Orchestrator_Safety
  imports Orchestrator_Proofs Assembler_Proofs
begin

text \<open>
  What every event the orchestrator commits keeps, a whole batch keeps (\<open>event_contract\<close>), and the
  instance of it that matters: without a receipt of the service's own and without a second source
  no return settles, whatever the vault's log says.
\<close>

section \<open>Verdicts nobody confirmed\<close>

definition nobody_confirmed :: "(string \<times> exclusion) list \<Rightarrow> bool" where
  "nobody_confirmed vs \<longleftrightarrow> (\<forall>(i, v) \<in> set vs. \<forall>t. v \<noteq> AlreadySettled t None)"

lemma nobody_confirmed_simps [simp]:
  "nobody_confirmed []"
  "nobody_confirmed ((i, v) # vs) \<longleftrightarrow> (\<forall>t. v \<noteq> AlreadySettled t None) \<and> nobody_confirmed vs"
  "nobody_confirmed (us @ vs) \<longleftrightarrow> nobody_confirmed us \<and> nobody_confirmed vs"
  by (auto simp: nobody_confirmed_def)

lemma admit_unconfirmed: "admit dbg sha S b acc rejected m = Some (Err e) \<Longrightarrow> e \<noteq> AlreadySettled t None"
  by (auto simp: admit_def differs_from_template_def exclusion_released_def
      split: sum.splits option.splits if_splits rejection_kind.splits)

lemma merge_loop_unconfirmed:
  "merge_loop dbg sha S acc rejected m members = Some m' \<Longrightarrow> nobody_confirmed (mg_excluded m)
    \<Longrightarrow> nobody_confirmed (mg_excluded m')"
proof (induction members arbitrary: m)
  case (Cons b members)
  obtain r where r: "admit dbg sha S b acc rejected m = Some r"
    using Cons.prems by (auto split: option.splits)
  show ?case
  proof (cases r)
    case (Inl e)
    have "nobody_confirmed (mg_excluded m @ [(bn_id b, e)])"
      using Cons.prems(2) admit_unconfirmed[OF r[unfolded Inl]] by simp
    with r Cons Inl show ?thesis by simp
  next
    case (Inr i)
    with r Cons show ?thesis by (auto simp: merge_take_def)
  qed
qed simp

lemma assemble_unconfirmed:
  "assemble fuel dbg sha256 keccak S members acc rejected = Some (Inl (AllExcluded ex)) \<Longrightarrow> nobody_confirmed ex"
  "assemble fuel dbg sha256 keccak S members acc rejected = Some (Inr a) \<Longrightarrow> nobody_confirmed (as_excluded a)"
proof -
  have m: "nobody_confirmed (mg_excluded m)"
    if "merge_loop dbg (sdk_sha256 S) S acc rejected merge_new members = Some m" for m
    using merge_loop_unconfirmed[OF that] by (simp add: merge_new_def)
  show "assemble fuel dbg sha256 keccak S members acc rejected = Some (Inl (AllExcluded ex)) \<Longrightarrow> nobody_confirmed ex"
    by (auto simp: assemble_def run_then_def map_err_def Let_def m split: option.splits prod.splits sum.splits)
  show "assemble fuel dbg sha256 keccak S members acc rejected = Some (Inr a) \<Longrightarrow> nobody_confirmed (as_excluded a)"
    by (auto simp: assemble_def run_then_Ok_iff Let_def m split: option.splits prod.splits)
qed

lemma replace_unconfirmed:
  "\<lbrakk>nobody_confirmed vs; \<And>i v t. verdicts i = Some v \<Longrightarrow> v \<noteq> AlreadySettled t None\<rbrakk>
    \<Longrightarrow> nobody_confirmed (replace_verdicts verdicts vs)"
proof (induction verdicts vs rule: replace_verdicts.induct)
  case (2 verdicts i reason rest)
  have "nobody_confirmed (replace_verdicts (verdicts(i := None)) rest)"
    using "2.prems" by (intro "2.IH") (auto split: if_splits)
  moreover have "unwrap_or (verdicts i) reason \<noteq> AlreadySettled t None" for t
    using "2.prems" by (cases "verdicts i") (simp_all add: unwrap_or_def)
  ultimately show ?case by simp
qed simp

lemma one_transaction_unconfirmed: "nobody_confirmed vs \<Longrightarrow> one_transaction vs = None"
proof -
  assume "nobody_confirmed vs"
  then have "confirmed_txids vs = []"
    by (induction vs) (auto simp: confirmed_txids_def split: exclusion.splits option.splits)
  then show ?thesis by (simp add: one_transaction_def)
qed

section \<open>Events that settle nothing\<close>

fun quiet :: "event \<Rightarrow> bool" where
  "quiet (Accepted burn rec) = (rr_status rec \<noteq> Settled)"
| "quiet (ReturnExcluded i reason t) = (\<forall>txid. reason \<noteq> AlreadySettled txid None)"
| "quiet (Snapshot l) = False"
| "quiet (BatchSettled bid txid t) = False"
| "quiet _ = True"

definition settled_ids :: "ledger \<Rightarrow> string set" where
  "settled_ids l = {k. \<exists>r. ledger_get l k = Some r \<and> rr_status (rt_record r) = Settled}"

lemma settled_update_return:
  assumes "\<And>x. rr_status (f x) = Settled \<Longrightarrow> rr_status x = Settled"
  shows "settled_ids (update_return rid (on_record f) l) \<subseteq> settled_ids l"
  using assms by (auto simp: settled_ids_def get_update_return on_record_def split: if_splits)

lemma settled_batch_event:
  assumes "\<And>x. rr_status (f x) = Settled \<Longrightarrow> rr_status x = Settled"
  shows "settled_ids (when_batch bid (\<lambda>l. for_members bid f (update_batch bid h l)) l) \<subseteq> settled_ids l"
proof -
  have "settled_ids (for_members bid f (update_batch bid h l)) \<subseteq> settled_ids l"
    using assms unfolding settled_ids_def for_members_def ledger_get_def update_batch_def
    by (auto simp: Let_def on_record_def map_of_map_values split: if_splits)
  then show ?thesis by (simp add: when_batch_def split: option.splits)
qed

lemma quiet_settles_nothing: "quiet e \<Longrightarrow> settled_ids (apply_event H sha retry l e) \<subseteq> settled_ids l"
proof (cases e)
  case (Accepted burn rec)
  assume "quiet e"
  with Accepted show ?thesis
    by (auto simp: settled_ids_def ledger_get_def ledger_accept_def Let_def update_conv' split: if_splits)
next
  case (Requeued rid t)
  show ?thesis
    unfolding Requeued apply_event.simps ledger_requeue_def
    by (rule settled_update_return) (auto simp: requeue_record_def Let_def split: if_splits)
next
  case (ReturnExcluded rid reason t)
  assume q: "quiet e"
  show ?thesis
    unfolding ReturnExcluded apply_event.simps ledger_exclude_def
  proof (rule settled_update_return)
    fix x assume s: "rr_status (exclude_record reason t retry x) = Settled"
    show "rr_status x = Settled"
    proof (cases reason)
      case (AlreadySettled txid why)
      with q ReturnExcluded s show ?thesis
        by (cases why) (auto simp: Let_def split: if_splits)
    qed (use s in \<open>simp_all add: schedule_retry_def Let_def\<close>)
  qed
next
  case (BatchFormed members t)
  show ?thesis
    by (auto simp: BatchFormed settled_ids_def get_ledger_form enter_batch_def on_record_def split: if_splits)
next
  case (BatchProven bid bd old t)
  show ?thesis unfolding BatchProven apply_event.simps ledger_prove_def
    by (rule settled_batch_event) simp
next
  case (BatchFailed bid kind m t)
  show ?thesis unfolding BatchFailed apply_event.simps ledger_fail_def
    by (rule settled_batch_event) (simp add: schedule_retry_def Let_def)
next
  case (BatchRebased bid t)
  show ?thesis unfolding BatchRebased apply_event.simps ledger_rebase_def
    by (rule settled_batch_event) simp
next
  case (BatchInterrupted bid t orderly)
  show ?thesis unfolding BatchInterrupted apply_event.simps ledger_interrupt_def
    by (rule settled_batch_event)
      (auto simp: interrupt_record_def requeue_after_stop_def schedule_after_interruption_def Let_def split: if_splits)
qed simp_all

text \<open>No receipt, and no second source: what the environment answers when both are missing.\<close>

definition unconfirming :: "('w, 'm) env_scheme \<Rightarrow> bool" where
  "unconfirming E \<longleftrightarrow>
     (\<forall>w. \<forall>e \<in> set (fst (en_api E w)). quiet e)
     \<and> (\<forall>rs w c. fst (en_confirm E rs w) = Inr c \<longrightarrow> cf_confirmed c = [])
     \<and> (\<forall>bd w t. fst (en_submit E bd w) \<noteq> Was_Submitted t)"

section \<open>What every quiet event keeps, a batch keeps\<close>

locale event_contract =
  fixes E :: "('w, 'm) env_scheme" and I :: "ledger \<Rightarrow> bool"
  assumes keeps: "quiet e \<Longrightarrow> I l \<Longrightarrow> I (apply_event (en_hex E) (en_sha256 E) (en_retry E) l e)"
begin

lemma applied: "quiet e \<Longrightarrow> I (oc_ledger st) \<Longrightarrow> I (oc_ledger (apply_to_store E e st))"
  by (simp add: apply_to_store_def keeps)

lemma applied_all: "\<forall>e \<in> set es. quiet e \<Longrightarrow> I (oc_ledger st)
    \<Longrightarrow> I (oc_ledger (foldl (\<lambda>s e. apply_to_store E e s) st es))"
  by (induction es arbitrary: st) (auto simp: applied)

lemma at_requests:
  assumes "unconfirming E" "I (oc_ledger st)"
  shows "I (oc_ledger (requests E st))"
proof -
  obtain es w where e: "en_api E (oc_world st) = (es, w)" by fastforce
  have "\<forall>x \<in> set (fst (en_api E (oc_world st))). quiet x" using assms(1) unfolding unconfirming_def by blast
  then have "\<forall>x \<in> set es. quiet x" by (simp add: e)
  from applied_all[OF this, of "st\<lparr>oc_world := w\<rparr>"] assms(2) show ?thesis by (simp add: requests_def e)
qed

lemma at_await: "await E call st = (a, st') \<Longrightarrow> unconfirming E \<Longrightarrow> I (oc_ledger st) \<Longrightarrow> I (oc_ledger st')"
  by (auto simp: await_def at_requests split: prod.splits)

lemma await_answer: "await E call st = (a, st') \<Longrightarrow> a = fst (call (oc_world st))"
  by (auto simp: await_def split: prod.splits)

lemma at_commit: "(\<And>t. quiet (ev t)) \<Longrightarrow> I (oc_ledger st) \<Longrightarrow> I (oc_ledger (commit_now E ev st))"
  by (auto simp: commit_now_def now_ms_def applied split: prod.splits)

lemma at_exclude: "nobody_confirmed vs \<Longrightarrow> I (oc_ledger st) \<Longrightarrow> I (oc_ledger (exclude_all E vs st))"
proof (induction vs arbitrary: st)
  case (Cons v vs)
  obtain i reason where v: "v = (i, reason)" by fastforce
  with Cons have "I (oc_ledger (commit_now E (ReturnExcluded i reason) st))" by (auto intro!: at_commit)
  from Cons.IH[OF _ this] Cons.prems(1) v show ?case by (simp add: exclude_all_def)
qed (simp add: exclude_all_def)

lemma at_fail: "I (oc_ledger st) \<Longrightarrow> I (oc_ledger (snd (fail_batch E batch kind m st)))"
  by (simp add: fail_batch_def at_commit)

lemma at_rebase: "I (oc_ledger st) \<Longrightarrow> I (oc_ledger (snd (rebase_or_fail E batch why st)))"
  by (simp add: rebase_or_fail_def at_fail at_commit)

lemma at_confirm:
  assumes "unconfirming E" "I (oc_ledger st)" "confirm E rs st = (vs, st')"
  shows "I (oc_ledger st')" "nobody_confirmed vs"
proof -
  let ?asked = "filter_map (\<lambda>r. map_option (\<lambda>t. \<lparr>rl_nullifier = rd_nullifier r, rl_txid = t\<rparr>) (rd_txid r)) rs"
  obtain answer st1 where c: "(if ?asked = [] then (Ok \<lparr>cf_confirmed = [], cf_unconfirmed = []\<rparr>, st)
      else await E (en_confirm E ?asked) st) = (answer, st1)" by fastforce
  have v: "vs = map (\<lambda>r. (rd_id r, AlreadySettled (rd_txid r) (unconfirmed_why answer r))) rs" "st' = st1"
    using assms(3) unfolding confirm_def Let_def c by auto
  show "I (oc_ledger st')"
    using c assms(1,2) v(2) at_await[of "en_confirm E ?asked" st answer st1] by (auto split: if_splits)
  have "cf_confirmed a = []" if "answer = Inr a" for a
    using c that assms(1) await_answer[of "en_confirm E ?asked" st answer st1]
    by (auto simp: unconfirming_def split: if_splits)
  then have "unconfirmed_why answer r \<noteq> None" for r
    by (cases answer) (auto simp: unconfirmed_why_def verdict_def split: option.splits)
  then show "nobody_confirmed vs" unfolding v(1) nobody_confirmed_def by auto
qed

lemma at_confirmed:
  assumes "unconfirming E" "I (oc_ledger st)" "nobody_confirmed ex" "confirmed E ex ns st = (vs, st')"
  shows "I (oc_ledger st')" "nobody_confirmed vs"
proof -
  obtain rs us where c: "confirm E rs st = (us, st')" "vs = replace_verdicts (map_of (rev us)) ex"
    using assms(4) by (auto simp: confirmed_def Let_def split: prod.splits)
  note k = at_confirm[OF assms(1,2) c(1)]
  show "I (oc_ledger st')" by (rule k(1))
  have "v \<noteq> AlreadySettled t None" if "map_of (rev us) i = Some v" for i v t
    using k(2) map_of_SomeD[OF that] by (auto simp: nobody_confirmed_def)
  then show "nobody_confirmed vs" unfolding c(2) by (rule replace_unconfirmed[OF assms(3)])
qed


lemma at_sync:
  assumes "unconfirming E" "I (oc_ledger st)" "sync_loop E batch delays st = (r, st')"
  shows "I (oc_ledger st')"
  using assms(2,3)
proof (induction delays arbitrary: st)
  case Nil
  obtain x st1 where c: "await E (en_sync E (settled_batches (en_hex E) (oc_ledger st))) st = (x, st1)" by fastforce
  with Nil at_await[OF c assms(1)] show ?case by (cases x) (auto simp: at_fail)
next
  case (Cons d delays)
  obtain x st1 where c: "await E (en_sync E (settled_batches (en_hex E) (oc_ledger st))) st = (x, st1)" by fastforce
  note k = at_await[OF c assms(1) Cons.prems(1)]
  show ?case
  proof (cases x)
    case (Inl e)
    with Cons.prems(2) have "(r, st') = (if is_unavailable e then sync_loop E batch delays (requests E st1)
        else (None, snd (fail_batch E batch ChainRejected
          (''accumulator not synced to chain: '' @ sync_error_text e) st1)))" by (simp add: c)
    with Cons.IH[OF at_requests[OF assms(1) k]] at_fail[OF k] show ?thesis by (metis snd_conv)
  next
    case (Inr acc)
    with Cons.prems(2) k show ?thesis by (simp add: c)
  qed
qed

lemma at_released: "unconfirming E \<Longrightarrow> I (oc_ledger st) \<Longrightarrow> I (oc_ledger (snd (released_stage E batch acc st)))"
proof -
  assume a: "unconfirming E" "I (oc_ledger st)"
  obtain vs st1 where c: "confirm E (released_members E batch acc (oc_ledger st)) st = (vs, st1)" by fastforce
  note k = at_confirm[OF a c]
  show ?thesis
    using at_fail[OF at_exclude[OF k(2,1)]] by (simp add: released_stage_def c one_transaction_unconfirmed[OF k(2)])
qed

lemma at_await_loop:
  assumes "unconfirming E"
  shows "I (oc_ledger st) \<Longrightarrow> I (oc_ledger (snd (await_loop E batch txid delays st)))"
proof (induction delays arbitrary: st)
  case Nil
  then show ?case by (simp add: at_fail)
next
  case (Cons d delays)
  let ?st1 = "requests E st"
  obtain x st2 where c: "await E (en_sync E (settled_batches (en_hex E) (oc_ledger ?st1))) ?st1 = (x, st2)" by fastforce
  note k = at_await[OF c assms at_requests[OF assms Cons.prems]]
  show ?case
    using Cons.IH[OF k] at_released[OF assms k] at_rebase[OF k] by (cases x) (simp_all add: c Let_def)
qed

lemma at_settle:
  assumes "unconfirming E" "I (oc_ledger st)"
  shows "I (oc_ledger (snd (settle_stage E batch st)))"
proof -
  obtain r st1 where c: "synced E batch st = (r, st1)" by fastforce
  note k = at_sync[OF assms c[unfolded synced_def]]
  show ?thesis
  proof (cases r)
    case None
    with k show ?thesis by (simp add: settle_stage_def c)
  next
    case r: (Some acc)
    show ?thesis
    proof (cases "ba_bundle batch")
      case None
      with k at_released[OF assms(1) k] at_rebase[OF k] show ?thesis by (simp add: settle_stage_def c r)
    next
      case (Some bd)
      obtain out st2 where o: "await E (en_submit E bd) st1 = (out, st2)" by fastforce
      note m = at_await[OF o assms(1) k]
      have "\<nexists>t. out = Was_Submitted t"
        using assms(1) unfolding await_answer[OF o] unconfirming_def by blast
      then show ?thesis
        using at_released[OF assms(1) k] at_rebase[OF k] m at_rebase[OF m] at_fail[OF m] at_await_loop[OF assms(1) m]
        by (cases out) (simp_all add: settle_stage_def c r Some o await_settlement_def)
    qed
  qed
qed

lemma at_proven:
  assumes "unconfirming E" "I (oc_ledger st)"
  shows "I (oc_ledger (snd (let st2 = commit_now E (BatchProven bid bd old) st in
      case reload st2 bid of None \<Rightarrow> (Done, st2) | Some proven \<Rightarrow> settle_stage E proven st2)))"
proof -
  have "I (oc_ledger (commit_now E (BatchProven bid bd old) st))" by (rule at_commit) (use assms(2) in simp_all)
  with at_settle[OF assms(1) this] show ?thesis by (simp add: Let_def split: option.splits)
qed

lemma at_prove_and_settle:
  assumes "unconfirming E" "I (oc_ledger st)"
  shows "I (oc_ledger (snd (prove_and_settle E batch a st)))"
proof (cases "proof_for (oc_ledger st) (map (\<lambda>l. hex32 (en_hex E) (leaf_nullifier l)) (as_leaves a))
    (hex32 (en_hex E) (pv_spent_root_old (as_public_values a)))")
  case (Some reused)
  show ?thesis using at_proven[OF assms] by (simp add: prove_and_settle_def Some Let_def)
next
  case None
  obtain x st1 where c: "await E (en_prove E (ba_id batch) (as_wire a)) st = (x, st1)" by fastforce
  note k = at_await[OF c assms]
  show ?thesis
    using at_fail[OF k] at_proven[OF assms(1) k] by (cases x) (simp_all add: prove_and_settle_def None c Let_def)
qed


lemma at_prove:
  assumes "unconfirming E" "I (oc_ledger st)"
  shows "I (oc_ledger (snd (prove_stage E batch st)))"
proof -
  obtain r st1 where c: "synced E batch st = (r, st1)" by fastforce
  note k = at_sync[OF assms c[unfolded synced_def]]
  show ?thesis
  proof (cases r)
    case None
    with k show ?thesis by (simp add: prove_stage_def c)
  next
    case r: (Some acc)
    let ?burns = "ledger_burns (oc_ledger st1) (ba_members batch)"
    let ?ns = "map_of (rev (map (\<lambda>b. (bn_id b, burn_nullifier b)) ?burns))"
    obtain y st2 where d: "await E (en_simulate E
        (filter_map (burn_leaf_to_settle (en_hex E) (en_sdk E)) ?burns)) st1 = (y, st2)" by fastforce
    note m = at_await[OF d assms(1) k]
    show ?thesis
    proof (cases y)
      case (Inl e)
      with at_fail[OF m] show ?thesis by (simp add: prove_stage_def c r d Let_def)
    next
      case (Inr rejected)
      let ?st3 = "requests E st2"
      let ?as = "assemble (en_fuel E) (en_debug E) (en_sha256 E) (en_keccak E) (en_sdk E) ?burns acc rejected"
      note n = at_requests[OF assms(1) m]
      have failed: "?thesis" if "\<exists>kind why. prove_stage E batch st = fail_batch E batch kind why ?st3"
        using that at_fail[OF n] by auto
      show ?thesis
      proof (cases ?as)
        case None
        then show ?thesis by (intro failed) (auto simp: prove_stage_def c r d Inr Let_def)
      next
        case z: (Some z)
        show ?thesis
        proof (cases z)
          case zr: (Inr a)
          obtain vs st4 where v: "confirmed E (as_excluded a) ?ns ?st3 = (vs, st4)" by fastforce
          note q = at_confirmed[OF assms(1) n assemble_unconfirmed(2)[OF z[unfolded zr]] v]
          from at_prove_and_settle[OF assms(1) at_exclude[OF q(2,1)]] show ?thesis
            by (simp add: prove_stage_def c r d Inr z zr v Let_def)
        next
          case zl: (Inl e)
          show ?thesis
          proof (cases "\<exists>ex. e = AllExcluded ex")
            case True
            then obtain ex where e: "e = AllExcluded ex" by blast
            obtain vs st4 where v: "confirmed E ex ?ns ?st3 = (vs, st4)" by fastforce
            note q = at_confirmed[OF assms(1) n assemble_unconfirmed(1)[OF z[unfolded zl e]] v]
            from at_fail[OF at_exclude[OF q(2,1)]] show ?thesis
              by (simp add: prove_stage_def c r d Inr z zl e v Let_def)
          next
            case False
            then show ?thesis by (intro failed, cases e) (auto simp: prove_stage_def c r d Inr z zl Let_def)
          qed
        qed
      qed
    qed
  qed
qed

lemma at_rebase_loop:
  assumes "rebase_loop E bid stage st = Some st'" "unconfirming E" "I (oc_ledger st)"
  shows "I (oc_ledger st')"
proof -
  have "E = E \<longrightarrow> I (oc_ledger st) \<longrightarrow> I (oc_ledger st')"
  proof (rule rebase_loop.raw_induct[where P = "\<lambda>E' bid stage st st'. E' = E \<longrightarrow>
      I (oc_ledger st) \<longrightarrow> I (oc_ledger st')", OF _ assms(1)], intro impI)
    fix loop E' bid stage st st'
    assume IH: "\<And>E' bid stage st y. loop E' bid stage st = Some y \<Longrightarrow> E' = E \<longrightarrow> I (oc_ledger st) \<longrightarrow> I (oc_ledger y)"
      and step: "(case stage of Done \<Rightarrow> Some st | Rebase \<Rightarrow>
          (case reload st bid of None \<Rightarrow> Some st
           | Some current \<Rightarrow> (case prove_stage E' current st of (stage', st') \<Rightarrow> loop E' bid stage' st'))) = Some st'"
      and E: "E' = E" and i: "I (oc_ledger st)"
    show "I (oc_ledger st')"
    proof (cases "stage = Done \<or> reload st bid = None")
      case True
      with step i show ?thesis by (cases stage) auto
    next
      case False
      then obtain current where r: "stage = Rebase" "reload st bid = Some current" by (cases stage) auto
      obtain stage' st1 where p: "prove_stage E current st = (stage', st1)" by fastforce
      have "I (oc_ledger st1)" using at_prove[OF assms(2) i, of current] by (simp add: p)
      with IH[of E bid stage' st1 st'] step r p E show ?thesis by simp
    qed
  qed
  with assms(3) show ?thesis by simp
qed

lemma at_run_batch:
  assumes "run_batch E batch st = Some st'" "unconfirming E" "I (oc_ledger st)"
  shows "I (oc_ledger st')"
proof -
  obtain stage st1 where c: "(if ba_bundle batch \<noteq> None then settle_stage E batch st else prove_stage E batch st) = (stage, st1)"
    by fastforce
  then have "I (oc_ledger st1)"
    using at_settle[OF assms(2,3), of batch] at_prove[OF assms(2,3), of batch] by (auto split: if_splits)
  with assms(1,2) c show ?thesis by (simp add: run_batch_def at_rebase_loop)
qed

end

interpretation settling: event_contract E "\<lambda>l. settled_ids l \<subseteq> K" for E K
  by unfold_locales (use quiet_settles_nothing in blast)

section \<open>The properties of a batch\<close>

lemma run_batch_ends:
  assumes ok: "api_ok E" and run: "ledger_run (en_hex E) (en_sha256 E) (en_retry E) ledger_default es (oc_ledger st)"
    and b: "ledger_batch (oc_ledger st) (ba_id batch) = Some batch"
    and active: "active_batch (oc_ledger st) = (if ba_bundle batch = None then Some batch else None)"
  obtains st' where "run_batch E batch st = Some st'" "idle (batches st')"
proof -
  let ?bid = "ba_id batch" let ?n = "unat (ba_rebases batch)"
  have bo: "batches_ok (batches st)"
    using ledger_run_keeps[OF run ledger_default_ok] by (simp add: ledger_ok_def)
  have reb: "rebased ?bid ?n (batches st)" using b by (simp add: rebased_def ledger_batch_def)
  have "k = ?bid" "ba_bundle batch = None" if "map_of (batches st) k = Some c" "ba_status c = Batch_Proving" for k c
    using active_batch_unique[OF bo that] batches_okD(1)[OF bo that(1)] active by (auto split: if_splits)
  then have busy: "busy ?bid (batches st)" and idle: "ba_bundle batch \<noteq> None \<Longrightarrow> idle (batches st)"
    using bo by (auto simp: busy_def idle_def)
  obtain stage st1 where c: "(if ba_bundle batch \<noteq> None then settle_stage E batch st else prove_stage E batch st)
      = (stage, st1)" by fastforce
  have "stage_ends E ?bid ?n (stage, st1)"
    using settle_ends[OF ok idle refl reb refl] prove_ends[OF ok busy refl reb] c by (cases "ba_bundle batch") auto
  from rebase_loop_ends[OF ok this] that show ?thesis using c by (auto simp: run_batch_def)
qed

text \<open>C31. Every batch the orchestrator starts comes to an end, whatever the chain, the prover, the
  submitter and the service's own requests answer, and when it has ended no batch is left in the
  prover: the loop that re-proves a batch on a moved root runs at most the rebases of the policy.\<close>

theorem run_batch_returns:
  assumes "api_ok E" "ledger_run (en_hex E) (en_sha256 E) (en_retry E) ledger_default es (oc_ledger st)"
    "ledger_batch (oc_ledger st) (ba_id batch) = Some batch"
    "active_batch (oc_ledger st) = (if ba_bundle batch = None then Some batch else None)"
  shows "\<exists>st'. run_batch E batch st = Some st' \<and> active_batch (oc_ledger st') = None"
proof -
  from run_batch_ends[OF assms] obtain st' where "run_batch E batch st = Some st'" "idle (batches st')" .
  then show ?thesis using active_batch_None_iff[of "oc_ledger st'"] by (auto simp: idle_def)
qed

definition ex_env :: "unit env" where
  "ex_env = \<lparr>en_now = (\<lambda>w. (40, w)), en_draining = (\<lambda>w. (False, w)), en_api = (\<lambda>w. ([], w)),
     en_sync = (\<lambda>_ w. (Err (Sync_Spawn ''no command''), w)), en_confirm = (\<lambda>_ w. (Err NoConfirmationSource, w)),
     en_simulate = (\<lambda>_ w. (Ok [], w)), en_submit = (\<lambda>_ w. (Skipped, w)),
     en_prove = (\<lambda>_ _ w. (Err ''no prover'', w)), en_hex = std_hex, en_sha256 = ex_sha, en_keccak = len32,
     en_sdk = ex_sdk, en_fuel = 0, en_retry = ex_policy,
     en_policy = \<lparr>lim_max_size = 1, lim_max_bytes = 1000, lim_idle_wait = \<lparr>d_secs = 0, d_nanos = 0\<rparr>\<rparr>,
     en_debug = ex_dbg, en_assemble_text = (\<lambda>_. []), en_join_text = []\<rparr>"

definition ex_start :: "unit orch" where
  "ex_start = \<lparr>oc_ledger = foldl (apply_event std_hex ex_sha ex_policy) ledger_default (take 2 ex_events), oc_world = ()\<rparr>"

lemma ex_env_ok: "api_ok ex_env" "unconfirming ex_env"
  by (simp_all add: api_ok_def unconfirming_def ex_env_def)

lemma ex_env_ledger: "ledger_run (en_hex ex_env) (en_sha256 ex_env) (en_retry ex_env) ledger_default
    (take 2 ex_events) (oc_ledger ex_start)"
  unfolding ex_start_def ex_env_def env.simps orch.simps by (rule ex_run_proving)

lemma ex_batch:
  "\<exists>b. ledger_batch (oc_ledger ex_start) (ba_id b) = Some b
     \<and> active_batch (oc_ledger ex_start) = (if ba_bundle b = None then Some b else None)"
  by (intro exI[of _ "batch_formed std_hex ex_sha 1 [''a''] 10"])
    (simp add: ex_start_def ex_events_def ex_accepted ledger_form_eq Let_def batch_formed_def ledger_batch_def
      active_batch_def batch_values_def)

theorem run_batch_returns_witness:
  "\<exists>b st'. run_batch ex_env b ex_start = Some st' \<and> active_batch (oc_ledger st') = None"
  using run_batch_returns[OF ex_env_ok(1) ex_env_ledger] ex_batch by blast

text \<open>C30. No return settles on the word of the vault's log alone: as long as the submitter reads no
  receipt of the service's own transaction and no second source confirms a release, a batch that
  runs to its end settles no return, whatever the log, the prover and the simulation answer.\<close>

theorem settles_only_confirmed:
  assumes "api_ok E" "unconfirming E"
    "ledger_run (en_hex E) (en_sha256 E) (en_retry E) ledger_default es (oc_ledger st)"
    "ledger_batch (oc_ledger st) (ba_id batch) = Some batch"
    "active_batch (oc_ledger st) = (if ba_bundle batch = None then Some batch else None)"
  shows "\<exists>st'. run_batch E batch st = Some st' \<and> settled_ids (oc_ledger st') \<subseteq> settled_ids (oc_ledger st)"
proof -
  from run_batch_ends[OF assms(1,3-5)] obtain st' where r: "run_batch E batch st = Some st'" .
  from settling.at_run_batch[OF r assms(2), of "settled_ids (oc_ledger st)"] r show ?thesis by simp
qed

theorem settles_only_confirmed_witness:
  "\<exists>b st'. run_batch ex_env b ex_start = Some st' \<and> settled_ids (oc_ledger st') \<subseteq> settled_ids (oc_ledger ex_start)"
  using settles_only_confirmed[OF ex_env_ok ex_env_ledger] ex_batch by blast

end
