(* ===== verification/Orchestrator_Final.thy ===== *)
theory Orchestrator_Final
  imports Orchestrator_Safety
begin

text \<open>
  Outcomes are final from one turn of the orchestrator to the next: what runs in a turn judges the
  returns its batch was formed of, and the releases that await their confirmation, and no other.
\<close>

section \<open>Events that leave a finished return alone\<close>

fun spares :: "string \<Rightarrow> event \<Rightarrow> bool" where
  "spares k (Accepted burn rc) \<longleftrightarrow> bn_id burn \<noteq> k"
| "spares k (ReturnExcluded i reason t) \<longleftrightarrow> i \<noteq> k"
| "spares k (Snapshot l) \<longleftrightarrow> False"
| "spares k (BatchFormed members t) \<longleftrightarrow> False"
| "spares k _ \<longleftrightarrow> True"

text \<open>
  The return \<open>r\<close> is held under \<open>k\<close>, every return under the id of its burn, and \<open>k\<close> is not a member of
  the batches \<open>K\<close>.
\<close>

definition held :: "string set \<Rightarrow> string \<Rightarrow> bridge_return \<Rightarrow> ledger \<Rightarrow> bool" where
  "held K k r l \<longleftrightarrow> distinct (map fst (lg_returns l)) \<and> (\<forall>j s. ledger_get l j = Some s \<longrightarrow> bn_id (rt_burn s) = j) \<and> ledger_get l k = Some r
     \<and> (\<forall>j \<in> K. \<forall>B. map_of (lg_batches l) j = Some B \<longrightarrow> k \<notin> set (ba_members B))"

lemma get_for_members:
  "ledger_get (for_members bid f l) j = map_option
     (\<lambda>s. if bn_id (rt_burn s) \<in> set (case map_of (lg_batches l) bid of None \<Rightarrow> [] | Some b \<Rightarrow> ba_members b)
            \<and> in_batch bid s then on_record f s else s) (ledger_get l j)"
  unfolding for_members_def ledger_get_def Let_def by simp

lemma held_batch_event:
  assumes "held K k r l" "is_done r" "\<And>B. ba_members (h B) = ba_members B"
  shows "held K k r (when_batch bid (\<lambda>l. for_members bid f (update_batch bid h l)) l)"
proof -
  have n: "\<not> in_batch bid r" using assms(2) by (auto simp: in_batch_def is_done_def failed_recoverably_def)
  have g: "ledger_get (update_batch bid h l) j = ledger_get l j" for j
    by (simp add: update_batch_def ledger_get_def)
  have "map fst (lg_returns (for_members bid f (update_batch bid h l))) = map fst (lg_returns l)"
    unfolding for_members_def Let_def by (simp add: update_batch_def del: map_map)
  then have "held K k r (for_members bid f (update_batch bid h l))"
    using assms(1,3) n unfolding held_def get_for_members g
    by (auto simp: on_record_def for_members_def Let_def map_of_update_batch split: if_splits)
  with assms(1) show ?thesis by (simp add: when_batch_def split: option.splits)
qed

lemma held_update_return:
  assumes "held K k r l" "i = k \<Longrightarrow> f (rt_record r) = rt_record r"
  shows "held K k r (update_return i (on_record f) l)"
proof -
  have "lg_batches (update_return i (on_record f) l) = lg_batches l"
    "map fst (lg_returns (update_return i (on_record f) l)) = map fst (lg_returns l)"
    by (simp_all add: update_return_def del: map_map)
  with assms show ?thesis by (cases r) (auto simp: held_def get_update_return on_record_def)
qed

lemma held_event:
  assumes "spares k e" "is_done r" "held K k r l"
  shows "held K k r (apply_event H sha256 retry l e)"
proof (cases e)
  case (Accepted burn rec)
  let ?l = "ledger_accept burn rec l"
  have get: "ledger_get ?l j = (if ?l \<noteq> l \<and> j = bn_id burn
      then Some \<lparr>rt_seq = lg_accepted l + 1, rt_burn = burn, rt_record = rec\<rparr> else ledger_get l j)" for j
    by (auto simp: ledger_accept_def Let_def ledger_get_def update_conv')
  have "distinct (map fst (lg_returns ?l))" "lg_batches ?l = lg_batches l"
    using assms(3) by (simp_all add: held_def ledger_accept_def Let_def distinct_update)
  with Accepted assms(1,3) show ?thesis unfolding held_def by (auto simp: get)
next
  case (Requeued i t)
  have "requeue_record t retry (rt_record r) = rt_record r"
    using assms(2) by (auto simp: requeue_record_def is_done_def failed_recoverably_def)
  with Requeued assms(3) show ?thesis by (simp add: ledger_requeue_def held_update_return)
next
  case (ReturnExcluded i reason t)
  with assms(1,3) show ?thesis by (simp add: ledger_exclude_def held_update_return)
qed (use assms in \<open>simp_all add: held_batch_event ledger_prove_def ledger_settle_def ledger_fail_def
    ledger_rebase_def ledger_interrupt_def\<close>)

text \<open>A batch that is formed has no finished member when it is formed of pending returns.\<close>

lemma held_formed:
  assumes "held K k r l" "k \<notin> set members"
  shows "held (insert (batch_id_of H sha256 (lg_formed l + 1) members) K) k r
    (apply_event H sha256 retry l (BatchFormed members t))"
proof -
  have "ledger_get (ledger_form H sha256 members t l) k = Some r"
    using assms by (simp add: held_def get_ledger_form)
  moreover have "bn_id (rt_burn s) = j" if "ledger_get (ledger_form H sha256 members t l) j = Some s" for j s
    using that assms(1) by (auto simp: held_def get_ledger_form enter_batch_def on_record_def split: if_splits)
  moreover have "map_of (lg_batches (ledger_form H sha256 members t l)) j =
      (if j = batch_id_of H sha256 (lg_formed l + 1) members
       then Some (batch_formed H sha256 (lg_formed l + 1) members t) else map_of (lg_batches l) j)" for j
    by (simp add: ledger_form_eq Let_def update_conv' batch_formed_def)
  moreover have "map fst (lg_returns (ledger_form H sha256 members t l)) = map fst (lg_returns l)"
    by (simp add: ledger_form_eq Let_def del: map_map)
  ultimately show ?thesis using assms by (auto simp: held_def batch_formed_def split: if_splits)
qed

lemma held_values:
  assumes "held K k r l" "s \<in> set (return_values l)" "bn_id (rt_burn s) = k"
  shows "s = r"
proof -
  obtain j where j: "ledger_get l j = Some s"
    using assms(1,2) by (force simp: held_def return_values_def ledger_get_def)
  with assms(1,3) show ?thesis by (auto simp: held_def)
qed

section \<open>Steps\<close>

text \<open>
  The return is finished, and the requests that run beside the orchestrator accept burns under other ids
  and requeue.
\<close>

definition finished :: "('w, 'm) env_scheme \<Rightarrow> string \<Rightarrow> bridge_return \<Rightarrow> bool" where
  "finished E k r \<longleftrightarrow> is_done r \<and> api_ok E \<and> (\<forall>w. \<forall>e \<in> set (fst (en_api E w)). spares k e)"

abbreviation keeps :: "string set \<Rightarrow> string \<Rightarrow> bridge_return \<Rightarrow> 'w orch \<Rightarrow> bool" where
  "keeps K k r st \<equiv> held K k r (oc_ledger st)"

lemma keeps_apply:
  "finished E k r \<Longrightarrow> spares k e \<Longrightarrow> keeps K k r st \<Longrightarrow> keeps K k r (apply_to_store E e st)"
  by (simp add: apply_to_store_def held_event finished_def)

lemma keeps_requests:
  assumes "finished E k r" "keeps K k r st"
  shows "keeps K k r (requests E st)"
proof -
  obtain es w where e: "en_api E (oc_world st) = (es, w)" by fastforce
  have "\<forall>x \<in> set (fst (en_api E (oc_world st))). spares k x" using assms(1) unfolding finished_def by blast
  then have "\<forall>x \<in> set es. spares k x" by (simp add: e)
  then have "keeps K k r st' \<Longrightarrow> keeps K k r (foldl (\<lambda>s e. apply_to_store E e s) st' es)" for st'
    by (induction es arbitrary: st') (auto simp: keeps_apply[OF assms(1)])
  from this[of "st\<lparr>oc_world := w\<rparr>"] assms(2) show ?thesis by (simp add: requests_def e)
qed

lemma keeps_await: "await E call st = (a, st') \<Longrightarrow> finished E k r \<Longrightarrow> keeps K k r st \<Longrightarrow> keeps K k r st'"
  by (auto simp: await_def keeps_requests split: prod.splits)

lemma keeps_now: "now_ms E st = (t, st') \<Longrightarrow> oc_ledger st' = oc_ledger st"
  by (auto simp: now_ms_def split: prod.splits)

lemma keeps_draining: "draining E st = (d, st') \<Longrightarrow> oc_ledger st' = oc_ledger st"
  by (auto simp: draining_def split: prod.splits)

lemma keeps_commit:
  "finished E k r \<Longrightarrow> (\<And>t. spares k (ev t)) \<Longrightarrow> keeps K k r st \<Longrightarrow> keeps K k r (commit_now E ev st)"
  by (auto simp: commit_now_def now_ms_def keeps_apply split: prod.splits)

lemma keeps_exclude:
  "finished E k r \<Longrightarrow> k \<notin> fst ` set vs \<Longrightarrow> keeps K k r st \<Longrightarrow> keeps K k r (exclude_all E vs st)"
proof (induction vs arbitrary: st)
  case (Cons v vs)
  obtain i reason where v: "v = (i, reason)" by fastforce
  with Cons.prems have "keeps K k r (commit_now E (ReturnExcluded i reason) st)" by (intro keeps_commit) auto
  from Cons.IH[OF Cons.prems(1) _ this] Cons.prems(2) v show ?case by (simp add: exclude_all_def)
qed (simp add: exclude_all_def)

lemma keeps_fail: "finished E k r \<Longrightarrow> keeps K k r st \<Longrightarrow> keeps K k r (snd (fail_batch E batch kind m st))"
  by (simp add: fail_batch_def keeps_commit)

lemma keeps_rebase: "finished E k r \<Longrightarrow> keeps K k r st \<Longrightarrow> keeps K k r (snd (rebase_or_fail E batch why st))"
  by (simp add: rebase_or_fail_def keeps_fail keeps_commit)

lemma keeps_confirm:
  assumes "confirm E rs st = (vs, st')" "finished E k r" "keeps K k r st"
  shows "keeps K k r st'" "fst ` set vs = rd_id ` set rs"
proof -
  let ?asked = "filter_map (\<lambda>r. map_option (\<lambda>t. \<lparr>rl_nullifier = rd_nullifier r, rl_txid = t\<rparr>) (rd_txid r)) rs"
  obtain answer st1 where c: "(if ?asked = [] then (Ok \<lparr>cf_confirmed = [], cf_unconfirmed = []\<rparr>, st)
      else await E (en_confirm E ?asked) st) = (answer, st1)" by fastforce
  have v: "vs = map (\<lambda>r. (rd_id r, AlreadySettled (rd_txid r) (unconfirmed_why answer r))) rs" "st' = st1"
    using assms(1) unfolding confirm_def Let_def c by auto
  show "keeps K k r st'"
    using c assms(2,3) v(2) keeps_await[of E "en_confirm E ?asked" st answer st1] by (auto split: if_splits)
  show "fst ` set vs = rd_id ` set rs" unfolding v(1) by force
qed

lemma replace_ids [simp]: "map fst (replace_verdicts verdicts vs) = map fst vs"
  by (induction verdicts vs rule: replace_verdicts.induct) (simp_all del: fun_upd_apply)

lemma keeps_confirmed:
  assumes "confirmed E ex ns st = (vs, st')" "finished E k r" "keeps K k r st"
  shows "keeps K k r st'" "fst ` set vs = fst ` set ex"
proof -
  obtain rs us where c: "confirm E rs st = (us, st')" "vs = replace_verdicts (map_of (rev us)) ex"
    using assms(1) by (auto simp: confirmed_def Let_def split: prod.splits)
  show "keeps K k r st'" by (rule keeps_confirm(1)[OF c(1) assms(2,3)])
  have "map fst vs = map fst ex" by (simp add: c(2))
  then show "fst ` set vs = fst ` set ex" by (metis list.set_map)
qed

lemma keeps_sync:
  assumes "finished E k r" "keeps K k r st" "sync_loop E batch delays st = (a, st')"
  shows "keeps K k r st'"
  using assms(2,3)
proof (induction delays arbitrary: st)
  case Nil
  obtain x st1 where c: "await E (en_sync E (settled_batches (en_hex E) (oc_ledger st))) st = (x, st1)" by fastforce
  with Nil keeps_await[OF c assms(1)] keeps_fail[OF assms(1)] show ?case by (cases x) auto
next
  case (Cons d delays)
  obtain x st1 where c: "await E (en_sync E (settled_batches (en_hex E) (oc_ledger st))) st = (x, st1)" by fastforce
  note k = keeps_await[OF c assms(1) Cons.prems(1)]
  show ?case
  proof (cases x)
    case (Inl e)
    with Cons.prems(2) have "(a, st') = (if is_unavailable e then sync_loop E batch delays (requests E st1)
        else (None, snd (fail_batch E batch ChainRejected
          (''accumulator not synced to chain: '' @ sync_error_text e) st1)))" by (simp add: c)
    with Cons.IH[OF keeps_requests[OF assms(1) k]] keeps_fail[OF assms(1) k] show ?thesis by (metis snd_conv)
  next
    case (Inr acc)
    with Cons.prems(2) k show ?thesis by (simp add: c)
  qed
qed

section \<open>Settling\<close>

lemma released_not_finished:
  assumes "finished E k r" "held K k r l"
  shows "k \<notin> rd_id ` set (released_members E batch acc l)"
proof
  assume "k \<in> rd_id ` set (released_members E batch acc l)"
  then obtain n m where m: "ledger_by_nullifier l n = Some m" "in_batch (ba_id batch) m" "bn_id (rt_burn m) = k"
    by (auto simp: released_members_def set_filter_map split: option.splits if_splits)
  then obtain j where j: "ledger_get l j = Some m"
    by (auto simp: ledger_by_nullifier_def ledger_get_def split: option.splits)
  with assms(2) m(3) have "m = r" by (auto simp: held_def)
  with m(2) assms(1) show False
    by (auto simp: finished_def in_batch_def is_done_def failed_recoverably_def)
qed

lemma keeps_released:
  assumes "finished E k r" "keeps K k r st"
  shows "keeps K k r (snd (released_stage E batch acc st))"
proof -
  obtain vs st1 where c: "confirm E (released_members E batch acc (oc_ledger st)) st = (vs, st1)" by fastforce
  note v = keeps_confirm[OF c assms]
  have "k \<notin> fst ` set vs" unfolding v(2) by (rule released_not_finished[OF assms])
  with keeps_fail[OF assms(1) keeps_exclude[OF assms(1) _ v(1)]] keeps_commit[OF assms(1) _ v(1)]
  show ?thesis by (simp add: released_stage_def c split: option.splits)
qed

lemma keeps_await_loop:
  assumes "finished E k r"
  shows "keeps K k r st \<Longrightarrow> keeps K k r (snd (await_loop E batch txid delays st))"
proof (induction delays arbitrary: st)
  case Nil
  then show ?case by (simp add: keeps_fail[OF assms])
next
  case (Cons d delays)
  let ?st1 = "requests E st"
  obtain x st2 where c: "await E (en_sync E (settled_batches (en_hex E) (oc_ledger ?st1))) ?st1 = (x, st2)" by fastforce
  note k = keeps_await[OF c assms keeps_requests[OF assms Cons.prems]]
  show ?case
    using Cons.IH[OF k] keeps_released[OF assms k] keeps_rebase[OF assms k] by (cases x) (simp_all add: c Let_def)
qed

lemma keeps_settle:
  assumes "finished E k r" "keeps K k r st"
  shows "keeps K k r (snd (settle_stage E batch st))"
proof -
  obtain a st1 where c: "synced E batch st = (a, st1)" by fastforce
  note k = keeps_sync[OF assms c[unfolded synced_def]]
  show ?thesis
  proof (cases a)
    case None
    with k show ?thesis by (simp add: settle_stage_def c)
  next
    case a: (Some acc)
    show ?thesis
    proof (cases "ba_bundle batch")
      case None
      with k keeps_released[OF assms(1) k] keeps_rebase[OF assms(1) k] show ?thesis
        by (simp add: settle_stage_def c a)
    next
      case (Some bd)
      obtain out st2 where o: "await E (en_submit E bd) st1 = (out, st2)" by fastforce
      note m = keeps_await[OF o assms(1) k]
      show ?thesis
        using keeps_released[OF assms(1) k] keeps_rebase[OF assms(1) k] m keeps_rebase[OF assms(1) m]
          keeps_fail[OF assms(1) m] keeps_await_loop[OF assms(1) m] keeps_commit[OF assms(1) _ m]
        by (cases out) (simp_all add: settle_stage_def c a Some o await_settlement_def)
    qed
  qed
qed

section \<open>Proving\<close>

lemma keeps_proven:
  assumes "finished E k r" "keeps K k r st"
  shows "keeps K k r (snd (let st2 = commit_now E (BatchProven bid bd old) st in
      case reload st2 bid of None \<Rightarrow> (Done, st2) | Some proven \<Rightarrow> settle_stage E proven st2))"
proof -
  have "keeps K k r (commit_now E (BatchProven bid bd old) st)" by (rule keeps_commit) (use assms in simp_all)
  with keeps_settle[OF assms(1) this] show ?thesis by (simp add: Let_def split: option.splits)
qed

lemma keeps_prove_and_settle:
  assumes "finished E k r" "keeps K k r st"
  shows "keeps K k r (snd (prove_and_settle E batch a st))"
proof (cases "proof_for (oc_ledger st) (map (\<lambda>l. hex32 (en_hex E) (leaf_nullifier l)) (as_leaves a))
    (hex32 (en_hex E) (pv_spent_root_old (as_public_values a)))")
  case (Some reused)
  show ?thesis using keeps_proven[OF assms] by (simp add: prove_and_settle_def Some Let_def)
next
  case None
  obtain x st1 where c: "await E (en_prove E (ba_id batch) (as_wire a)) st = (x, st1)" by fastforce
  note k = keeps_await[OF c assms]
  show ?thesis
    using keeps_fail[OF assms(1) k] keeps_proven[OF assms(1) k]
    by (cases x) (simp_all add: prove_and_settle_def None c Let_def)
qed

text \<open>The assembly excludes members of the batch only.\<close>

lemma merge_loop_ids:
  "merge_loop dbg sha S acc rejected m members = Some m' \<Longrightarrow>
   fst ` set (mg_excluded m') \<subseteq> fst ` set (mg_excluded m) \<union> bn_id ` set members"
proof (induction members arbitrary: m)
  case (Cons b members)
  obtain x where x: "admit dbg sha S b acc rejected m = Some x" using Cons.prems by (auto split: option.splits)
  show ?case
  proof (cases x)
    case (Inl e)
    then have "merge_loop dbg sha S acc rejected (m\<lparr>mg_excluded := mg_excluded m @ [(bn_id b, e)]\<rparr>) members = Some m'"
      using Cons.prems x by simp
    from Cons.IH[OF this] show ?thesis by auto
  next
    case (Inr i)
    then have "merge_loop dbg sha S acc rejected (merge_take b i m) members = Some m'" using Cons.prems x by simp
    from Cons.IH[OF this] show ?thesis by (auto simp: merge_take_def)
  qed
qed simp

lemma assemble_ids:
  "assemble fuel dbg sha256 keccak S members acc rejected = Some (Inl (AllExcluded ex))
     \<Longrightarrow> fst ` set ex \<subseteq> bn_id ` set members"
  "assemble fuel dbg sha256 keccak S members acc rejected = Some (Inr a)
     \<Longrightarrow> fst ` set (as_excluded a) \<subseteq> bn_id ` set members"
proof -
  assume r: "assemble fuel dbg sha256 keccak S members acc rejected = Some (Inl (AllExcluded ex))"
  then obtain m where m: "merge_loop dbg (sdk_sha256 S) S acc rejected merge_new members = Some m"
    by (auto simp: assemble_def split: option.splits)
  have "ex = mg_excluded m"
    using r by (simp add: assemble_def run_then_def map_err_def Let_def m split: option.splits prod.splits sum.splits)
  with merge_loop_ids[OF m] show "fst ` set ex \<subseteq> bn_id ` set members" by (simp add: merge_new_def)
next
  assume "assemble fuel dbg sha256 keccak S members acc rejected = Some (Inr a)"
  then obtain ins :: "(service_burn \<times> guest_input) list" where
    "mset (map (\<lambda>x. bn_id (fst x)) ins) + mset (map fst (as_excluded a)) = mset (map bn_id members)"
    by (rule assemble_Ok)
  then have "mset (map fst (as_excluded a)) \<subseteq># mset (map bn_id members)" by (metis mset_subset_eq_add_right)
  from set_mset_mono[OF this] show "fst ` set (as_excluded a) \<subseteq> bn_id ` set members" by simp
qed

lemma burns_not_finished:
  assumes "held K k r l" "k \<notin> set ids"
  shows "k \<notin> bn_id ` set (ledger_burns l ids)"
  using assms by (auto simp: ledger_burns_def held_def set_filter_map)

lemma keeps_prove:
  assumes "finished E k r" "keeps K k r st" "k \<notin> set (ba_members batch)"
  shows "keeps K k r (snd (prove_stage E batch st))"
proof -
  obtain a st1 where c: "synced E batch st = (a, st1)" by fastforce
  note n = keeps_sync[OF assms(1,2) c[unfolded synced_def]]
  show ?thesis
  proof (cases a)
    case None
    with n show ?thesis by (simp add: prove_stage_def c)
  next
    case a: (Some acc)
    let ?burns = "ledger_burns (oc_ledger st1) (ba_members batch)"
    let ?ns = "map_of (rev (map (\<lambda>b. (bn_id b, burn_nullifier b)) ?burns))"
    note others = burns_not_finished[OF n assms(3)]
    obtain y st2 where d: "await E (en_simulate E
        (filter_map (burn_leaf_to_settle (en_hex E) (en_sdk E)) ?burns)) st1 = (y, st2)" by fastforce
    note m = keeps_await[OF d assms(1) n]
    show ?thesis
    proof (cases y)
      case (Inl e)
      with keeps_fail[OF assms(1) m] show ?thesis by (simp add: prove_stage_def c a d Let_def)
    next
      case (Inr rejected)
      let ?st3 = "requests E st2"
      let ?as = "assemble (en_fuel E) (en_debug E) (en_sha256 E) (en_keccak E) (en_sdk E) ?burns acc rejected"
      note q = keeps_requests[OF assms(1) m]
      have failed: "?thesis" if "\<exists>kind why. prove_stage E batch st = fail_batch E batch kind why ?st3"
        using that keeps_fail[OF assms(1) q] by auto
      have excluded: "keeps K k r (exclude_all E vs st4)"
        if "confirmed E ex ?ns ?st3 = (vs, st4)" "fst ` set ex \<subseteq> bn_id ` set ?burns" for ex vs st4
        using keeps_confirmed[OF that(1) assms(1) q] that(2) others by (intro keeps_exclude[OF assms(1)]) auto
      show ?thesis
      proof (cases ?as)
        case None
        then show ?thesis by (intro failed) (auto simp: prove_stage_def c a d Inr Let_def)
      next
        case z: (Some z)
        show ?thesis
        proof (cases z)
          case zr: (Inr b)
          obtain vs st4 where v: "confirmed E (as_excluded b) ?ns ?st3 = (vs, st4)" by fastforce
          from keeps_prove_and_settle[OF assms(1) excluded[OF v assemble_ids(2)[OF z[unfolded zr]]]] show ?thesis
            by (simp add: prove_stage_def c a d Inr z zr v Let_def)
        next
          case zl: (Inl e)
          show ?thesis
          proof (cases "\<exists>ex. e = AllExcluded ex")
            case True
            then obtain ex where e: "e = AllExcluded ex" by blast
            obtain vs st4 where v: "confirmed E ex ?ns ?st3 = (vs, st4)" by fastforce
            from keeps_fail[OF assms(1) excluded[OF v assemble_ids(1)[OF z[unfolded zl e]]]] show ?thesis
              by (simp add: prove_stage_def c a d Inr z zl e v Let_def)
          next
            case False
            then show ?thesis by (intro failed, cases e) (auto simp: prove_stage_def c a d Inr z zl Let_def)
          qed
        qed
      qed
    qed
  qed
qed

lemma keeps_rebase_loop:
  assumes "rebase_loop E bid stage st = Some st'" "finished E k r" "bid \<in> K" "keeps K k r st"
  shows "keeps K k r st'"
proof -
  have "E = E \<longrightarrow> bid \<in> K \<longrightarrow> keeps K k r st \<longrightarrow> keeps K k r st'"
  proof (rule rebase_loop.raw_induct[where P = "\<lambda>E' bid stage st st'. E' = E \<longrightarrow> bid \<in> K \<longrightarrow>
      keeps K k r st \<longrightarrow> keeps K k r st'", OF _ assms(1)], intro impI)
    fix loop E' bid stage st st'
    assume IH: "\<And>E' bid stage st y. loop E' bid stage st = Some y \<Longrightarrow>
        E' = E \<longrightarrow> bid \<in> K \<longrightarrow> keeps K k r st \<longrightarrow> keeps K k r y"
      and step: "(case stage of Done \<Rightarrow> Some st | Rebase \<Rightarrow>
          (case reload st bid of None \<Rightarrow> Some st
           | Some current \<Rightarrow> (case prove_stage E' current st of (stage', st') \<Rightarrow> loop E' bid stage' st'))) = Some st'"
      and E: "E' = E" and b: "bid \<in> K" and i: "keeps K k r st"
    show "keeps K k r st'"
    proof (cases "stage = Done \<or> reload st bid = None")
      case True
      with step i show ?thesis by (cases stage) auto
    next
      case False
      then obtain current where c: "stage = Rebase" "reload st bid = Some current" by (cases stage) auto
      obtain stage' st1 where p: "prove_stage E current st = (stage', st1)" by fastforce
      have "k \<notin> set (ba_members current)" using c(2) b i by (simp add: reload_def ledger_batch_def held_def)
      then have "keeps K k r st1" using keeps_prove[OF assms(2) i, of current] by (simp add: p)
      with IH[of E bid stage' st1 st'] step c p E b show ?thesis by simp
    qed
  qed
  with assms(3,4) show ?thesis by simp
qed

lemma keeps_run_batch:
  assumes "run_batch E batch st = Some st'" "finished E k r" "ba_id batch \<in> K" "keeps K k r st"
    and "k \<notin> set (ba_members batch)"
  shows "keeps K k r st'"
proof -
  obtain stage st1 where c: "(if ba_bundle batch \<noteq> None then settle_stage E batch st else prove_stage E batch st) = (stage, st1)"
    by fastforce
  then have "keeps K k r st1"
    using keeps_settle[OF assms(2,4), of batch] keeps_prove[OF assms(2,4,5)] by (auto split: if_splits)
  with assms(1-3) c show ?thesis by (simp add: run_batch_def keeps_rebase_loop)
qed

section \<open>Rechecks\<close>

lemma recheck_due_ids:
  "recheck_due E acc due released st = (released', st') \<Longrightarrow>
   rd_id ` set released' \<subseteq> rd_id ` set released \<union> fst ` set due"
proof (induction E acc due released st rule: recheck_due.induct)
  case (2 E acc i nl due released st)
  show ?case
  proof (cases "\<exists>n. parse_hex32 (en_hex E) nl = Some n \<and> spent_in E acc n")
    case True
    then obtain n where n: "parse_hex32 (en_hex E) nl = Some n" "spent_in E acc n" by blast
    from "2.IH"(2)[OF n] "2.prems" n show ?thesis by auto
  next
    case False
    then have "recheck_due E acc due released (commit_now E (Requeued i) st) = (released', st')"
      using "2.prems" by (auto split: option.splits)
    with "2.IH"(1,3) False show ?thesis by (cases "parse_hex32 (en_hex E) nl") auto
  qed
qed simp

lemma keeps_recheck_due:
  "finished E k r \<Longrightarrow> keeps K k r st \<Longrightarrow> recheck_due E acc due released st = (released', st') \<Longrightarrow> keeps K k r st'"
  by (induction E acc due released st rule: recheck_due.induct)
    (auto simp: keeps_commit split: option.splits if_splits)

lemma due_not_finished:
  assumes "finished E k r" "held K k r l"
  shows "k \<notin> fst ` set (releases_due l t)"
proof
  assume "k \<in> fst ` set (releases_due l t)"
  then obtain s where s: "s \<in> set (return_values l)" "awaits_confirmation s" "bn_id (rt_burn s) = k"
    by (auto simp: releases_due_def)
  then have "awaits_confirmation r" using held_values[OF assms(2)] by blast
  with assms(1) show False
    by (auto simp: finished_def awaits_confirmation_def is_done_def failed_recoverably_def)
qed

lemma keeps_recheck:
  assumes "finished E k r" "keeps K k r st"
  shows "keeps K k r (recheck_releases E st)"
proof -
  obtain t st0 where t: "now_ms E st = (t, st0)" by fastforce
  have k0: "keeps K k r st0" using assms(2) by (simp add: keeps_now[OF t])
  let ?due = "releases_due (oc_ledger st0) t"
  note due = due_not_finished[OF assms(1) k0, of t]
  show ?thesis
  proof (cases "?due = []")
    case True
    with k0 show ?thesis by (simp add: recheck_releases_def t Let_def)
  next
    case False
    obtain x st1 where x: "await E (en_sync E (settled_batches (en_hex E) (oc_ledger st0))) st0 = (x, st1)" by fastforce
    note k1 = keeps_await[OF x assms(1) k0]
    show ?thesis
    proof (cases x)
      case (Inl e)
      have "k \<notin> fst ` set (map (\<lambda>(i, _). (i, AlreadySettled None
             (Some (''the chain log could not be checked again: '' @ sync_error_text e)))) ?due)"
        using due by force
      from keeps_exclude[OF assms(1) this k1] False show ?thesis
        by (simp add: recheck_releases_def t x Inl Let_def)
    next
      case (Inr acc)
      obtain released st2 where d: "recheck_due E acc ?due [] st1 = (released, st2)" by fastforce
      obtain vs st3 where c: "confirm E released st2 = (vs, st3)" by fastforce
      note v = keeps_confirm[OF c assms(1) keeps_recheck_due[OF assms(1) k1 d]]
      have "k \<notin> fst ` set vs" unfolding v(2) using recheck_due_ids[OF d] due by auto
      from keeps_exclude[OF assms(1) this v(1)] False show ?thesis
        by (simp add: recheck_releases_def t x Inr d c Let_def)
    qed
  qed
qed

lemma batches_recheck_due:
  "recheck_due E acc due released st = (released', st') \<Longrightarrow> batches st' = batches st"
proof (induction E acc due released st rule: recheck_due.induct)
  case (2 E acc i nl due released st)
  have "batches (commit_now E (Requeued i) st) = batches st"
    using batches_commit[of E "Requeued i" st] by (auto simp del: apply_event.simps)
  with 2 show ?case by (auto split: option.splits if_splits)
qed simp

lemma batches_recheck: "api_ok E \<Longrightarrow> batches (recheck_releases E st) = batches st"
proof -
  assume ok: "api_ok E"
  obtain t st0 where t: "now_ms E st = (t, st0)" by fastforce
  let ?due = "releases_due (oc_ledger st0) t"
  obtain x st1 where x: "await E (en_sync E (settled_batches (en_hex E) (oc_ledger st0))) st0 = (x, st1)" by fastforce
  have b: "batches st0 = batches st" "batches st1 = batches st" using t batches_await[OF ok x] by simp_all
  show ?thesis
  proof (cases x)
    case (Inl e)
    with b show ?thesis by (simp add: recheck_releases_def t x Let_def)
  next
    case (Inr acc)
    obtain released st2 where d: "recheck_due E acc ?due [] st1 = (released, st2)" by fastforce
    obtain vs st3 where c: "confirm E released st2 = (vs, st3)" by fastforce
    from b batches_recheck_due[OF d] batches_confirm[OF ok c] Inr show ?thesis
      by (simp add: recheck_releases_def t x d c Let_def)
  qed
qed

section \<open>Turns\<close>

text \<open>The loop of \<open>run\<close> for at most \<open>n\<close> turns; \<open>None\<close> is a panic of one of them.\<close>

fun run_turns :: "('w, 'm) env_scheme \<Rightarrow> nat \<Rightarrow> bool \<Rightarrow> 'w orch \<Rightarrow> 'w orch option" where
  "run_turns E 0 collect st = Some st"
| "run_turns E (Suc n) collect st =
     (case run_turn E collect st of
        None \<Rightarrow> None
      | Some (go, collect', st') \<Rightarrow> if go then run_turns E n collect' st' else Some st')"

text \<open>No finished return is in a batch that is formed.\<close>

lemma members_not_finished:
  assumes "finished E k r" "held K k r l" "policy_next lim (ledger_pending l) now collect = Batch ids"
  shows "k \<notin> set ids"
proof
  assume k: "k \<in> set ids"
  obtain seed rest where due: "filter (is_due now) (ledger_pending l) = seed # rest" and ids: "ids = select lim (seed # rest)"
    using assms(3) by (cases "filter (is_due now) (ledger_pending l)") (auto simp: policy_next_def Let_def split: if_splits)
  let ?picked = "picked lim seed (bn_lock_nonces (rt_burn seed)) (burn_size (rt_burn seed)) 1 rest"
  have "set (seed # ?picked) \<subseteq> set (seed # rest)"
    using picked_spec[of lim seed "bn_lock_nonces (rt_burn seed)" "burn_size (rt_burn seed)" 1 rest] by auto
  moreover have "set (seed # rest) \<subseteq> set (ledger_pending l)" unfolding due[symmetric] by auto
  moreover have "ids = map (\<lambda>c. bn_id (rt_burn c)) (seed # ?picked)" by (simp add: ids select_def select_loop_picked)
  ultimately obtain s where s: "s \<in> set (return_values l)" "is_pending s" "bn_id (rt_burn s) = k"
    using k by (auto simp: ledger_pending_def)
  then have "is_pending r" using held_values[OF assms(2)] by blast
  with assms(1) show False by (auto simp: finished_def is_pending_def is_done_def failed_recoverably_def)
qed

lemma busy_formed:
  fixes H :: hexlib and sha256 :: "bytes \<Rightarrow> bytes" and members :: "string list" and t :: u128
  assumes "idle (lg_batches l)"
  defines "bid \<equiv> batch_id_of H sha256 (lg_formed l + 1) members"
  defines "bs \<equiv> lg_batches (ledger_form H sha256 members t l)"
  shows "busy bid bs" "map_of bs bid = Some (batch_formed H sha256 (lg_formed l + 1) members t)"
proof -
  let ?b = "batch_formed H sha256 (lg_formed l + 1) members t"
  have b: "ba_id ?b = bid" "batch_ok ?b" by (simp_all add: batch_formed_def bid_def batch_ok_def)
  have bs: "map_of bs j = (if j = bid then Some ?b else map_of (lg_batches l) j)" for j
    by (simp add: bs_def ledger_form_eq Let_def update_conv' b(1))
  have bo: "batches_ok (lg_batches l)" using assms(1) by (simp add: idle_def)
  have only: "j = bid" if "map_of bs j = Some c" "ba_status c = Batch_Proving" for j c
    using that assms(1) by (auto simp: bs idle_def split: if_splits)
  have "distinct (map fst bs)"
    using bo by (simp add: bs_def ledger_form_eq Let_def batches_ok_def distinct_update)
  moreover have "ba_id c = j \<and> batch_ok c" if "map_of bs j = Some c" for j c
    using that b batches_okD[OF bo] by (auto simp: bs split: if_splits)
  ultimately have "batches_ok bs" unfolding batches_ok_def using only by blast
  with only show "busy bid bs" by (auto simp: busy_def)
  show "map_of bs bid = Some ?b" by (simp add: bs)
qed

text \<open>A turn that finds no batch in the prover returns, leaves none there, and leaves a finished return alone.\<close>

lemma turn_keeps:
  assumes f: "finished E k r" and h: "keeps {} k r st" and i: "idle (batches st)"
  obtains go collect' st' where "run_turn E collect st = Some (go, collect', st')" "keeps {} k r st'" "idle (batches st')"
proof -
  have ok: "api_ok E" using f by (simp add: finished_def)
  obtain d st0 where d: "draining E st = (d, st0)" by fastforce
  obtain d1 st1 where d1: "draining E (recheck_releases E st0) = (d1, st1)" by fastforce
  obtain t st2 where t: "now_ms E st1 = (t, st2)" by fastforce
  note l = keeps_draining[OF d] keeps_draining[OF d1] keeps_now[OF t]
  have k0: "keeps {} k r st0" "idle (batches st0)" using h i l by simp_all
  have k2: "keeps {} k r st2" "idle (batches st2)"
    using keeps_recheck[OF f k0(1)] batches_recheck[OF ok, of st0] k0(2) l by simp_all
  show thesis
  proof (cases "d \<or> d1")
    case True
    then show thesis
    proof
      assume d
      with k0 show thesis by (intro that[of False collect st0]) (simp_all add: run_turn_def d)
    next
      assume d1
      show thesis
      proof (cases d)
        case True
        with k0 show thesis by (intro that[of False collect st0]) (simp_all add: run_turn_def d)
      next
        case False
        with \<open>d1\<close> k2 l show thesis by (intro that[of False collect st1]) (simp_all add: run_turn_def d d1)
      qed
    qed
  next
    case False
    let ?p = "policy_next (en_policy E) (ledger_pending (oc_ledger st2)) t collect"
    show thesis
    proof (cases "\<exists>ids. ?p = Batch ids")
      case True
      then obtain ids where p: "?p = Batch ids" by blast
      let ?st3 = "apply_to_store E (BatchFormed ids t) st2"
      let ?b = "batch_formed (en_hex E) (en_sha256 E) (lg_formed (oc_ledger st2) + 1) ids t"
      have bid: "ba_id ?b = batch_id_of (en_hex E) (en_sha256 E) (lg_formed (oc_ledger st2) + 1) ids"
        "ba_members ?b = ids" "ba_bundle ?b = None" "ba_status ?b = Batch_Proving" "ba_rebases ?b = 0"
        by (simp_all add: batch_formed_def)
      have b: "busy (ba_id ?b) (batches ?st3)" "map_of (batches ?st3) (ba_id ?b) = Some ?b"
        unfolding bid using busy_formed[OF k2(2)] by (simp_all add: apply_to_store_def)
      then have "active_batch (oc_ledger ?st3) = Some ?b"
        using active_batch_unique[OF _ b(2) bid(4)] by (simp add: busy_def)
      moreover note m = members_not_finished[OF f k2(1) p]
      have k3: "keeps {ba_id ?b} k r ?st3"
        using held_formed[OF k2(1) m] by (simp add: apply_to_store_def bid)
      have "rebased (ba_id ?b) 0 (batches ?st3)" using b(2) bid(5) by (simp add: rebased_def)
      from prove_ends[OF ok b(1) refl this]
      obtain st4 where r: "run_batch E ?b ?st3 = Some st4" "idle (batches st4)"
        using rebase_loop_ends[OF ok] bid(3) by (fastforce simp: run_batch_def split: prod.splits)
      have "keeps {ba_id ?b} k r st4" using keeps_run_batch[OF r(1) f _ k3] m bid(2) by simp
      then have "keeps {} k r st4" by (simp add: held_def)
      ultimately show thesis
        using that[of True False st4] r False by (simp add: run_turn_def d d1 t p Let_def)
    next
      case False
      with \<open>\<not> (d \<or> d1)\<close> keeps_requests[OF f k2(1)] k2(2) ok show thesis
        by (intro that[of True True "requests E st2"])
          (auto simp: run_turn_def d d1 t split: decision.splits)
    qed
  qed
qed

lemma turns_keep:
  assumes "finished E k r"
  shows "keeps {} k r st \<Longrightarrow> idle (batches st) \<Longrightarrow>
    \<exists>st'. run_turns E n collect st = Some st' \<and> keeps {} k r st' \<and> idle (batches st')"
proof (induction n arbitrary: collect st)
  case (Suc n)
  obtain go collect' st' where t: "run_turn E collect st = Some (go, collect', st')" "keeps {} k r st'" "idle (batches st')"
    by (rule turn_keeps[OF assms Suc.prems])
  from Suc.IH[OF t(2,3), of collect'] t show ?case by (cases go) simp_all
qed simp

section \<open>The property\<close>

text \<open>C22. Outcomes are final while the service runs: whatever the chain, the prover, the submitter and the
  simulation answer, no number of turns of the orchestrator changes anything about a return that is
  settled, or failed for good, when the first of them starts, and every turn returns with the prover
  idle. The requests beside it accept burns under other ids and requeue. (Within a turn the outcome of a
  member of the batch in the prover is not final: \<open>settled_reopened\<close>.)\<close>

theorem outcome_final:
  assumes "ledger_run (en_hex E) (en_sha256 E) (en_retry E) ledger_default es (oc_ledger st)"
    "active_batch (oc_ledger st) = None" "ledger_get (oc_ledger st) k = Some r" "is_done r" "api_ok E"
    "\<forall>w. \<forall>e \<in> set (fst (en_api E w)). spares k e"
  shows "\<exists>st'. run_turns E n collect st = Some st' \<and> ledger_get (oc_ledger st') k = Some r
    \<and> active_batch (oc_ledger st') = None"
proof -
  have ok: "index_ok (oc_ledger st)" "batches_ok (batches st)"
    using ledger_run_keeps[OF assms(1) ledger_default_ok] by (simp_all add: ledger_ok_def)
  have i: "idle (batches st)" using active_batch_None_iff[OF ok(2)] assms(2) ok(2) by (auto simp: idle_def)
  have "keeps {} k r st" using ok(1) assms(3) by (simp add: held_def index_ok_def)
  moreover have "finished E k r" using assms(4-6) by (simp add: finished_def)
  ultimately obtain st' where s: "run_turns E n collect st = Some st'" "keeps {} k r st'" "idle (batches st')"
    using turns_keep[OF _ _ i] by blast
  then have "active_batch (oc_ledger st') = None" using active_batch_None_iff by (auto simp: idle_def)
  with s show ?thesis by (simp add: held_def)
qed

text \<open>A return is settled and another one is waiting, of which the next turn forms a batch.\<close>

definition ex_waiting :: event where
  "ex_waiting = Accepted (Ledger_Runs.ex_burn ''b'') (ex_record ''b'' 2)"

definition ex_finished :: "unit orch" where
  "ex_finished = \<lparr>oc_ledger = apply_event std_hex ex_sha ex_policy
     (foldl (apply_event std_hex ex_sha ex_policy) ledger_default ex_events) ex_waiting, oc_world = ()\<rparr>"

lemma ledger_run_append:
  "ledger_run H sha256 retry l es l' \<Longrightarrow> event_ok H sha256 retry l' e \<Longrightarrow>
   ledger_run H sha256 retry l (es @ [e]) (apply_event H sha256 retry l' e)"
  by (induction rule: ledger_run.induct) auto

lemma accept_new:
  assumes "map_of (lg_by_nullifier l) (to_lowercase (rr_nullifier rc)) = None"
  shows "ledger_get (ledger_accept burn rc l) j = (if j = bn_id burn
      then Some \<lparr>rt_seq = lg_accepted l + 1, rt_burn = burn, rt_record = rc\<rparr> else ledger_get l j)"
    "active_batch (ledger_accept burn rc l) = active_batch l"
  using assms by (simp_all add: ledger_accept_def Let_def ledger_get_def update_conv' active_batch_def batch_values_def)

lemma ex_finished_facts:
  "ledger_run (en_hex ex_env) (en_sha256 ex_env) (en_retry ex_env) ledger_default (ex_events @ [ex_waiting]) (oc_ledger ex_finished)"
  "active_batch (oc_ledger ex_finished) = None"
  "map_option (\<lambda>r. rr_status (rt_record r)) (ledger_get (oc_ledger ex_finished) ''a'') = Some Settled"
  "map_option (\<lambda>r. rr_status (rt_record r)) (ledger_get (oc_ledger ex_finished) ''b'') = Some Queued"
proof -
  let ?l = "foldl (apply_event std_hex ex_sha ex_policy) ledger_default ex_events"
  note ev = ex_events_def ex_accepted ledger_form_eq Let_def batch_formed_def ledger_prove_def ledger_settle_def
      when_batch_def for_members_def update_batch_def in_batch_def on_record_def enter_batch_def is_pending_def
      ex_flags ledger_get_def settle_record_def
  have n: "map_of (lg_by_nullifier ?l) (to_lowercase (rr_nullifier (ex_record ''b'' 2))) = None"
    using ex_nullifiers by (simp add: ev)
  have l: "active_batch ?l = None" "map_of (lg_returns ?l) ''b'' = None" "lg_accepted ?l = 1"
    by (simp_all add: ev active_batch_def batch_values_def)
  have st: "oc_ledger ex_finished = ledger_accept (Ledger_Runs.ex_burn ''b'') (ex_record ''b'' 2) ?l"
    by (simp only: ex_finished_def ex_waiting_def apply_event.simps orch.simps)
  have ok: "event_ok std_hex ex_sha ex_policy ?l ex_waiting"
    unfolding ex_waiting_def event_ok.simps l(3) ex_burn_id using l(2) by (simp add: ex_flags ex_policy_def)
  show "ledger_run (en_hex ex_env) (en_sha256 ex_env) (en_retry ex_env) ledger_default (ex_events @ [ex_waiting]) (oc_ledger ex_finished)"
    unfolding ex_finished_def ex_env_def env.simps orch.simps by (rule ledger_run_append[OF ex_run ok])
  show "active_batch (oc_ledger ex_finished) = None" unfolding st accept_new(2)[OF n] by (rule l(1))
  show "map_option (\<lambda>r. rr_status (rt_record r)) (ledger_get (oc_ledger ex_finished) ''a'') = Some Settled"
    unfolding st accept_new(1)[OF n] using ex_settled by (simp del: foldl_Cons)
  show "map_option (\<lambda>r. rr_status (rt_record r)) (ledger_get (oc_ledger ex_finished) ''b'') = Some Queued"
    unfolding st accept_new(1)[OF n] by (simp add: ex_flags)
qed

theorem outcome_final_witness:
  "\<exists>st' r. run_turns ex_env 3 True ex_finished = Some st' \<and> ledger_get (oc_ledger st') ''a'' = Some r
     \<and> rr_status (rt_record r) = Settled"
proof -
  obtain r where r: "ledger_get (oc_ledger ex_finished) ''a'' = Some r" "rr_status (rt_record r) = Settled"
    using ex_finished_facts(3) by auto
  have "\<forall>w. \<forall>e \<in> set (fst (en_api ex_env w)). spares ''a'' e" by (simp add: ex_env_def)
  with outcome_final[OF ex_finished_facts(1,2) r(1) _ ex_env_ok(1)] r(2) show ?thesis
    by (fastforce simp: is_done_def)
qed

end
