(* ===== verification/Config.thy ===== *)
theory Config
  imports Service_Policy
begin

text \<open>
  The configuration of the service: model of \<open>config.rs\<close>. \<open>env\<close> is the process environment, a
  path is its text and \<open>parse_addr\<close> the standard library's parser of a socket address.
\<close>

section \<open>The configuration\<close>

datatype prove_mode = PrecheckOnly | Sp1Groth16

datatype config_error = Invalid_Variable string

record 'addr service_config =
  sv_bind :: 'addr
  sv_gateway_url :: "string option"
  sv_vault :: "string option"
  sv_config_hash :: "bytes option"
  sv_trust_base_path :: "string option"
  sv_deployment_config_path :: "string option"
  sv_justification_tag :: u64
  sv_idle_wait :: duration
  sv_max_batch_size :: nat
  sv_max_batch_bytes :: nat
  sv_command_timeout :: duration
  sv_max_pending :: nat
  sv_state_dir :: "string option"
  sv_retry :: retry_policy
  sv_fee :: fee_policy
  sv_elf_path :: "string option"
  sv_proof_dir :: string
  sv_prove_mode :: prove_mode
  sv_prove_cmd :: string
  sv_vkey_cmd :: string
  sv_prove_timeout :: duration
  sv_drain_timeout :: duration

definition from_secs :: "u64 \<Rightarrow> duration" where
  "from_secs s = \<lparr>d_secs = s, d_nanos = 0\<rparr>"

definition config_default :: "'addr \<Rightarrow> 'addr service_config" where
  "config_default localhost =
     \<lparr>sv_bind = localhost, sv_gateway_url = None, sv_vault = None, sv_config_hash = None,
      sv_trust_base_path = None, sv_deployment_config_path = None, sv_justification_tag = 1330002,
      sv_idle_wait = from_secs 0, sv_max_batch_size = 8, sv_max_batch_bytes = 8 * 2 ^ 20,
      sv_command_timeout = from_secs 600, sv_max_pending = 1000, sv_state_dir = None,
      sv_retry = retry_default, sv_fee = fee_default, sv_elf_path = None,
      sv_proof_dir = ''target/bridge-return-service/proofs'', sv_prove_mode = PrecheckOnly,
      sv_prove_cmd = ''bridge-return-host sp1-groth16-files'',
      sv_vkey_cmd = ''bridge-return-host sp1-vkey'', sv_prove_timeout = from_secs 7200,
      sv_drain_timeout = from_secs 0\<rparr>"

definition limits_of :: "'addr service_config \<Rightarrow> limits" where
  "limits_of c = \<lparr>lim_max_size = sv_max_batch_size c, lim_max_bytes = sv_max_batch_bytes c,
     lim_idle_wait = sv_idle_wait c\<rparr>"

section \<open>Reading the environment\<close>

type_synonym environment = "string \<Rightarrow> string option"

definition env_opt :: "environment \<Rightarrow> string \<Rightarrow> string option" where
  "env_opt env key = (case env key of Some v \<Rightarrow> if v = [] then None else Some v | None \<Rightarrow> None)"

text \<open>The standard library's parser of a \<open>w\<close>-bit unsigned number.\<close>

definition uint_from_str :: "nat \<Rightarrow> string \<Rightarrow> nat option" where
  "uint_from_str w s =
     (let digits = (if s \<noteq> [] \<and> hd s = CHR ''+'' then tl s else s) in
      if digits = [] then None
      else case radix_value 10 0 digits of
        None \<Rightarrow> None
      | Some n \<Rightarrow> if n < 2 ^ w then Some n else None)"

definition env_parsed :: "environment \<Rightarrow> nat \<Rightarrow> string \<Rightarrow> config_error + nat option" where
  "env_parsed env w key =
     (case env_opt env key of
        None \<Rightarrow> Ok None
      | Some v \<Rightarrow> map_err (\<lambda>_. Invalid_Variable key) (and_then (ok_or () (uint_from_str w v)) (\<lambda>n. Ok (Some n))))"

definition address_from :: "hexlib \<Rightarrow> string \<Rightarrow> bytes option" where
  "address_from H s =
     (case hex_decode H (strip_0x s) of
        None \<Rightarrow> None
      | Some bs \<Rightarrow> if length bs = 20 then Some bs else None)"

definition positive :: "nat \<Rightarrow> string \<Rightarrow> config_error + nat" where
  "positive value key = (if value = 0 then Err (Invalid_Variable key) else Ok value)"

text \<open>\<open>if let Some(v) = found? \<dots>\<close>: the rest of the statement, when the variable is set.\<close>

definition if_set ::
  "(config_error + 'a option) \<Rightarrow> ('a \<Rightarrow> 'c \<Rightarrow> config_error + 'c) \<Rightarrow> 'c \<Rightarrow> config_error + 'c" where
  "if_set found step c =
     and_then found (\<lambda>v. case v of None \<Rightarrow> Ok c | Some x \<Rightarrow> step x c)"

type_synonym 'addr config_step = "'addr service_config \<Rightarrow> config_error + 'addr service_config"

definition set_secs ::
  "environment \<Rightarrow> string \<Rightarrow> (duration \<Rightarrow> 'addr service_config \<Rightarrow> 'addr service_config)
   \<Rightarrow> 'addr config_step" where
  "set_secs env key put = if_set (env_parsed env 64 key) (\<lambda>secs c. Ok (put (from_secs (of_nat secs)) c))"

definition set_positive ::
  "environment \<Rightarrow> string \<Rightarrow> (nat \<Rightarrow> 'addr service_config \<Rightarrow> 'addr service_config)
   \<Rightarrow> 'addr config_step" where
  "set_positive env key put =
     if_set (env_parsed env 64 key) (\<lambda>n c. and_then (positive n key) (\<lambda>n. Ok (put n c)))"

definition set_text ::
  "environment \<Rightarrow> string \<Rightarrow> (string \<Rightarrow> 'addr service_config \<Rightarrow> 'addr service_config)
   \<Rightarrow> 'addr config_step" where
  "set_text env key put = if_set (Ok (env_opt env key)) (\<lambda>v c. Ok (put v c))"

definition check_fee :: "'addr config_step" where
  "check_fee c =
     (if \<not> is_collectable (sv_fee c) then Err (Invalid_Variable ''BRIDGE_RETURN_FEE_RECIPIENT'')
      else if \<not> floor_within_amount (sv_fee c) then Err (Invalid_Variable ''BRIDGE_RETURN_FEE_FLOOR'')
      else Ok c)"

section \<open>\<open>ServiceConfig::from_env\<close>, a step per statement\<close>

definition fee_steps :: "hexlib \<Rightarrow> environment \<Rightarrow> 'addr config_step list" where
  "fee_steps H env =
     [if_set (env_parsed env 128 ''BRIDGE_RETURN_FEE_AMOUNT'')
        (\<lambda>n c. Ok (c\<lparr>sv_fee := (sv_fee c)\<lparr>fp_amount := of_nat n\<rparr>\<rparr>)),
      (\<lambda>c. and_then (env_parsed env 128 ''BRIDGE_RETURN_FEE_FLOOR'') (\<lambda>v.
        Ok (c\<lparr>sv_fee := (sv_fee c)\<lparr>fp_floor := of_nat (unwrap_or v 0)\<rparr>\<rparr>))),
      if_set (Ok (env_opt env ''BRIDGE_RETURN_FEE_RECIPIENT''))
        (\<lambda>v c. and_then (ok_or (Invalid_Variable ''BRIDGE_RETURN_FEE_RECIPIENT'') (address_from H v)) (\<lambda>a.
          Ok (c\<lparr>sv_fee := (sv_fee c)\<lparr>fp_recipient := a\<rparr>\<rparr>))),
      set_secs env ''BRIDGE_RETURN_FEE_WINDOW_SECS''
        (\<lambda>d c. c\<lparr>sv_fee := (sv_fee c)\<lparr>fp_settle_window := d\<rparr>\<rparr>),
      check_fee]"

definition intake_steps ::
  "(string \<Rightarrow> 'addr option) \<Rightarrow> environment \<Rightarrow> 'addr config_step list" where
  "intake_steps parse_addr env =
     [if_set (Ok (env_opt env ''BRIDGE_RETURN_BIND''))
        (\<lambda>v c. and_then (ok_or (Invalid_Variable ''BRIDGE_RETURN_BIND'') (parse_addr v)) (\<lambda>a.
          Ok (c\<lparr>sv_bind := a\<rparr>))),
      (\<lambda>c. Ok (c\<lparr>sv_gateway_url := env_opt env ''UNICITY_GATEWAY'', sv_vault := env_opt env ''BRIDGE_VAULT'',
        sv_trust_base_path := env_opt env ''TRUST_BASE_PATH'',
        sv_deployment_config_path := env_opt env ''BRIDGE_DEPLOYMENT_CONFIG''\<rparr>)),
      if_set (env_parsed env 64 ''BRIDGE_JUSTIFICATION_TAG'')
        (\<lambda>n c. Ok (c\<lparr>sv_justification_tag := of_nat n\<rparr>)),
      (\<lambda>c. Ok (c\<lparr>sv_elf_path := env_opt env ''SP1_GUEST_ELF''\<rparr>)),
      set_text env ''BRIDGE_RETURN_PROOF_DIR'' (\<lambda>v c. c\<lparr>sv_proof_dir := v\<rparr>),
      set_secs env ''BRIDGE_RETURN_IDLE_WAIT_SECS'' (\<lambda>d c. c\<lparr>sv_idle_wait := d\<rparr>),
      set_positive env ''BRIDGE_RETURN_MAX_BATCH_SIZE'' (\<lambda>n c. c\<lparr>sv_max_batch_size := n\<rparr>),
      set_positive env ''BRIDGE_RETURN_COMMAND_TIMEOUT_SECS''
        (\<lambda>n c. c\<lparr>sv_command_timeout := from_secs (of_nat n)\<rparr>),
      set_positive env ''BRIDGE_RETURN_MAX_BATCH_BYTES'' (\<lambda>n c. c\<lparr>sv_max_batch_bytes := n\<rparr>),
      set_positive env ''BRIDGE_RETURN_MAX_PENDING'' (\<lambda>n c. c\<lparr>sv_max_pending := n\<rparr>),
      (\<lambda>c. Ok (c\<lparr>sv_state_dir := env_opt env ''BRIDGE_RETURN_STATE_DIR''\<rparr>)),
      set_secs env ''BRIDGE_RETURN_RETRY_BASE_SECS'' (\<lambda>d c. c\<lparr>sv_retry := (sv_retry c)\<lparr>rp_base := d\<rparr>\<rparr>),
      set_positive env ''BRIDGE_RETURN_MAX_ATTEMPTS''
        (\<lambda>n c. c\<lparr>sv_retry := (sv_retry c)\<lparr>rp_max_attempts := ucast (of_nat n :: u64)\<rparr>\<rparr>),
      if_set (env_parsed env 32 ''BRIDGE_RETURN_MAX_REBASES'')
        (\<lambda>n c. Ok (c\<lparr>sv_retry := (sv_retry c)\<lparr>rp_max_rebases := of_nat n\<rparr>\<rparr>))]"

definition proving_steps :: "hexlib \<Rightarrow> environment \<Rightarrow> 'addr config_step list" where
  "proving_steps H env =
     [if_set (Ok (env_opt env ''BRIDGE_CONFIG_HASH''))
        (\<lambda>v c. and_then (ok_or (Invalid_Variable ''BRIDGE_CONFIG_HASH'') (parse_hex32 H v)) (\<lambda>h.
          Ok (c\<lparr>sv_config_hash := Some h\<rparr>))),
      set_text env ''BRIDGE_RETURN_PROVE_CMD'' (\<lambda>v c. c\<lparr>sv_prove_cmd := v\<rparr>),
      set_text env ''BRIDGE_RETURN_VKEY_CMD'' (\<lambda>v c. c\<lparr>sv_vkey_cmd := v\<rparr>),
      set_secs env ''BRIDGE_RETURN_PROVE_TIMEOUT_SECS'' (\<lambda>d c. c\<lparr>sv_prove_timeout := d\<rparr>),
      set_secs env ''BRIDGE_RETURN_DRAIN_TIMEOUT_SECS'' (\<lambda>d c. c\<lparr>sv_drain_timeout := d\<rparr>),
      (\<lambda>c. Ok (if env_opt env ''BRIDGE_RETURN_PROVE_MODE'' = Some ''sp1_groth16''
               then c\<lparr>sv_prove_mode := Sp1Groth16\<rparr> else c))]"

definition config_steps ::
  "(string \<Rightarrow> 'addr option) \<Rightarrow> hexlib \<Rightarrow> environment \<Rightarrow> 'addr config_step list" where
  "config_steps parse_addr H env = intake_steps parse_addr env @ fee_steps H env @ proving_steps H env"

definition run_steps :: "'addr config_step list \<Rightarrow> 'addr service_config \<Rightarrow> config_error + 'addr service_config" where
  "run_steps steps c = foldl and_then (Ok c) steps"

definition from_env ::
  "'addr \<Rightarrow> (string \<Rightarrow> 'addr option) \<Rightarrow> hexlib \<Rightarrow> environment \<Rightarrow> config_error + 'addr service_config" where
  "from_env localhost parse_addr H env = run_steps (config_steps parse_addr H env) (config_default localhost)"

end
