(* ===== verification/Api.thy ===== *)
theory Api
  imports Config Clients
begin

text \<open>
  The service's HTTP interface: model of \<open>api.rs\<close>. A handler is given the state of the service and
  the clock readings it takes, in order, and answers or refuses; \<open>None\<close> is a panic of the handler.
  Handlers run side by side: what other requests and the orchestrator commit between two operations of
  one handler on the store is its argument \<open>others\<close>. The texts of errors that are constructors here
  are fields of \<open>api_libs\<close>.
\<close>

section \<open>State\<close>

record api_libs =
  al_fuel :: nat
  al_sha256 :: "bytes \<Rightarrow> bytes"
  al_keccak :: "bytes \<Rightarrow> bytes"
  al_sdk :: sdk
  al_hex :: hexlib
  al_json :: event_json
  al_host_text :: "s1_error \<Rightarrow> string"
  al_debug :: "bridge_core_error \<Rightarrow> string"
  al_hex_text :: "string \<Rightarrow> string"

record 'addr app_state =
  ap_config :: "'addr service_config"
  ap_store :: store
  ap_intake :: "envelope_intake option"
  ap_chain_events :: chain_events
  ap_draining :: bool
  ap_submits :: bool

text \<open>\<open>Clock::now_secs\<close> of a reading in milliseconds.\<close>

definition secs_of :: "u128 \<Rightarrow> u64" where
  "secs_of now_ms = ucast (now_ms div 1000)"

section \<open>Errors\<close>

datatype api_error =
    BadRequest string string
  | FeeRefused string string
  | PrecheckRejected string
  | HostFailed string
  | ChainUnsynced string
  | IntakeUnconfigured
  | QueueFull nat
  | NotFound string
  | NotPublished string "u64 option"

record error_response =
  er_status :: nat
  er_code :: string
  er_message :: string
  er_recoverable :: bool

fun api_message :: "api_error \<Rightarrow> string" where
  "api_message (BadRequest code m) = m"
| "api_message (FeeRefused code m) = m"
| "api_message (PrecheckRejected m) = m"
| "api_message (HostFailed m) = m"
| "api_message (ChainUnsynced m) = ''accumulator not synced to chain: '' @ m"
| "api_message IntakeUnconfigured =
     ''envelope intake is not configured (set BRIDGE_DEPLOYMENT_CONFIG + TRUST_BASE_PATH)''"
| "api_message (QueueFull n) =
     ''the service already holds '' @ dec_text n @ '' unfinished returns; resubmit once some settle''"
| "api_message (NotFound i) = ''not found: '' @ i"
| "api_message (NotPublished i at) =
     ''batch '' @ i @ '' is published once it settles or every burn in it is past its deadline''
     @ (case at of Some t \<Rightarrow> '' (unix time '' @ dec_text (unat t) @ '')'' | None \<Rightarrow> [])"

fun api_status :: "api_error \<Rightarrow> nat" where
  "api_status (BadRequest _ _) = 400"
| "api_status (FeeRefused _ _) = 400"
| "api_status (PrecheckRejected _) = 400"
| "api_status (HostFailed _) = 400"
| "api_status (ChainUnsynced _) = 503"
| "api_status IntakeUnconfigured = 503"
| "api_status (QueueFull _) = 503"
| "api_status (NotFound _) = 404"
| "api_status (NotPublished _ _) = 404"

fun api_code :: "api_error \<Rightarrow> string" where
  "api_code (BadRequest code _) = code"
| "api_code (FeeRefused code _) = code"
| "api_code (PrecheckRejected _) = ''precheck_rejected''"
| "api_code (HostFailed _) = ''host_error''"
| "api_code (ChainUnsynced _) = ''chain_unsynced''"
| "api_code IntakeUnconfigured = ''intake_unconfigured''"
| "api_code (QueueFull _) = ''queue_full''"
| "api_code (NotFound _) = ''not_found''"
| "api_code (NotPublished _ _) = ''not_published''"

fun api_recoverable :: "api_error \<Rightarrow> bool" where
  "api_recoverable (FeeRefused _ _) = True"
| "api_recoverable (HostFailed _) = True"
| "api_recoverable (ChainUnsynced _) = True"
| "api_recoverable IntakeUnconfigured = True"
| "api_recoverable (QueueFull _) = True"
| "api_recoverable (NotPublished _ _) = True"
| "api_recoverable _ = False"

definition into_response :: "api_error \<Rightarrow> error_response" where
  "into_response e = \<lparr>er_status = api_status e, er_code = api_code e, er_message = api_message e,
     er_recoverable = api_recoverable e\<rparr>"

section \<open>Reading a request\<close>

record create_request =
  cq_token_cbor :: "string option"
  cq_reason_bytes :: "string option"
  cq_config_hash :: "string option"
  cq_anchor_hint :: "string option"
  cq_wire_input :: "string option"

record create_response =
  cr_return_id :: string
  cr_nullifier :: string
  cr_status :: return_status
  cr_terminal :: bool
  cr_success :: "bool option"
  cr_progress :: u8
  cr_message :: string
  cr_next_poll_ms :: u64
  cr_duplicate :: bool

definition decode_hex :: "('m) api_libs_scheme \<Rightarrow> string \<Rightarrow> api_error + bytes" where
  "decode_hex L input =
     ok_or (BadRequest ''invalid_hex'' (''invalid hex: '' @ al_hex_text L (strip_0x input)))
       (hex_decode (al_hex L) (strip_0x input))"

definition declared_matches ::
  "('m) api_libs_scheme \<Rightarrow> envelope_intake \<Rightarrow> string option \<Rightarrow> api_error + unit" where
  "declared_matches L intake declared =
     (case declared of
        None \<Rightarrow> Ok ()
      | Some text \<Rightarrow>
          and_then (decode_hex L text) (\<lambda>d.
          if d \<noteq> intake_config_hash (al_keccak L) intake then
            Err (BadRequest ''config_hash_mismatch''
              (''configHash mismatch: got 0x'' @ hex_encode (al_hex L) d @ '', service uses 0x''
               @ hex_encode (al_hex L) (intake_config_hash (al_keccak L) intake)))
          else Ok ()))"

definition build_wire_input ::
  "('m) api_libs_scheme \<Rightarrow> ('addr, 'n) app_state_scheme \<Rightarrow> create_request \<Rightarrow> (api_error + bytes) option" where
  "build_wire_input L app req =
     (case (cq_token_cbor req, cq_reason_bytes req) of
        (Some token_cbor, Some reason_bytes) \<Rightarrow>
          (case ap_intake app of
             None \<Rightarrow> Some (Err IntakeUnconfigured)
           | Some intake \<Rightarrow>
               run_then (Some (declared_matches L intake (cq_config_hash req))) (\<lambda>_.
               run_then (Some (decode_hex L token_cbor)) (\<lambda>token.
               run_then (Some (decode_hex L reason_bytes)) (\<lambda>reason.
               map_option (map_err (\<lambda>e. PrecheckRejected (al_host_text L e)))
                 (intake_build_wire_input (al_fuel L) (al_sha256 L) (al_keccak L) (al_sdk L) intake
                    token reason)))))
      | (None, None) \<Rightarrow>
          (case cq_wire_input req of
             None \<Rightarrow> Some (Err (BadRequest ''missing_payload''
               ''provide {tokenCbor, reasonBytes} (wallet envelope) or wireInput''))
           | Some wire \<Rightarrow>
               if ap_intake app \<noteq> None then Some (Err (BadRequest ''raw_witness_refused''
                 (''this service admits burns through the wallet envelope {tokenCbor, reasonBytes}; ''
                  @ ''a pre-assembled wireInput is taken only by a service run without a deployment config'')))
               else Some (decode_hex L wire))
      | _ \<Rightarrow> Some (Err (BadRequest ''incomplete_envelope''
               ''tokenCbor and reasonBytes must be provided together'')))"

definition return_id :: "('m) api_libs_scheme \<Rightarrow> bytes \<Rightarrow> bytes \<Rightarrow> string" where
  "return_id L digest nl =
     ''0x'' @ hex_encode (al_hex L)
       (al_sha256 L (as_bytes ''bridge-return-service:return-id:v1'' @ digest @ nl))"

section \<open>Handlers\<close>

text \<open>What is checked of a request before the store is asked: the precheck, the shape and the
  configuration.\<close>

definition checked_input ::
  "('m) api_libs_scheme \<Rightarrow> ('addr, 'n) app_state_scheme \<Rightarrow> create_request
   \<Rightarrow> (api_error + bytes \<times> precheck_report \<times> guest_input \<times> return_leaf) option" where
  "checked_input L app req =
     run_then (build_wire_input L app req) (\<lambda>wire_input.
     run_then (map_option (map_err (\<lambda>e. PrecheckRejected (al_host_text L e)))
         (precheck_wire (al_fuel L) (al_sha256 L) (al_keccak L) (al_sdk L) wire_input)) (\<lambda>report.
     run_then (Some (map_err (\<lambda>e. BadRequest ''invalid_wire_input'' (''wire decode failed: '' @ al_debug L e))
         (decode_guest_input (al_sdk L) wire_input))) (\<lambda>input.
     case gi_return_leaves input of
       [leaf] \<Rightarrow>
         (case sv_config_hash (ap_config app) of
            Some expected \<Rightarrow>
              if pv_config_hash (pr_public_values report) \<noteq> expected then
                Some (Err (BadRequest ''config_hash_mismatch''
                  (''configHash mismatch: got 0x''
                   @ hex_encode (al_hex L) (pv_config_hash (pr_public_values report))
                   @ '', expected 0x'' @ hex_encode (al_hex L) expected)))
              else Some (Ok (wire_input, report, input, leaf))
          | None \<Rightarrow> Some (Ok (wire_input, report, input, leaf)))
     | _ \<Rightarrow> Some (Err (BadRequest ''unsupported_batch_shape''
              ''service intake currently expects one return leaf per submitted wire input'')))))"

definition fee_check ::
  "('m) api_libs_scheme \<Rightarrow> ('addr, 'n) app_state_scheme \<Rightarrow> return_leaf \<Rightarrow> u64 \<Rightarrow> api_error + unit" where
  "fee_check L app leaf now_secs =
     (if get_by_nullifier (ap_store app) (hex32 (al_hex L) (leaf_nullifier leaf)) \<noteq> None then Ok ()
      else case refusal (al_hex L) (sv_fee (ap_config app)) leaf now_secs of
        Some (Unpaid why) \<Rightarrow> Err (FeeRefused ''fee_not_paid'' why)
      | Some (Late why) \<Rightarrow> Err (FeeRefused ''fee_deadline_passed'' why)
      | None \<Rightarrow> Ok ())"

definition created :: "return_record \<Rightarrow> bool \<Rightarrow> create_response" where
  "created r inserted =
     \<lparr>cr_return_id = rr_return_id r, cr_nullifier = rr_nullifier r, cr_status = rr_status r,
      cr_terminal = rr_terminal r, cr_success = rr_success r, cr_progress = rr_progress r,
      cr_message = rr_message r, cr_next_poll_ms = rr_next_poll_ms r, cr_duplicate = \<not> inserted\<rparr>"

definition create_return ::
  "('m) api_libs_scheme \<Rightarrow> (store \<Rightarrow> store) \<Rightarrow> u128 \<Rightarrow> u128 \<Rightarrow> u128 \<Rightarrow> create_request
   \<Rightarrow> ('addr, 'n) app_state_scheme
   \<Rightarrow> ((api_error + create_response) \<times> ('addr, 'n) app_state_scheme) option" where
  "create_return L others t t1 t2 req app =
     (case checked_input L app req of
        None \<Rightarrow> None
      | Some (Inl e) \<Rightarrow> Some (Err e, app)
      | Some (Inr (wire_input, report, input, leaf)) \<Rightarrow>
          (let rid = return_id L (pr_public_values_digest report) (leaf_nullifier leaf) in
           case fee_check L app leaf (secs_of t) of
             Inl e \<Rightarrow> Some (Err e, app)
           | Inr _ \<Rightarrow>
               (case burn_from_input (al_hex L) rid input wire_input of
                  None \<Rightarrow> None
                | Some burn \<Rightarrow>
                    (let record = queued (al_hex L) rid (leaf_nullifier leaf)
                           (pr_public_values_digest report) (pr_public_values report) t1
                     in case accept_within (al_hex L) (al_sha256 L) (al_json L) burn record t2
                               (sv_max_pending (ap_config app)) (others (ap_store app)) of
                          None \<Rightarrow> None
                        | Some (s, None) \<Rightarrow>
                            Some (Err (QueueFull (sv_max_pending (ap_config app))), app\<lparr>ap_store := s\<rparr>)
                        | Some (s, Some (r, inserted)) \<Rightarrow>
                            Some (Ok (created r inserted), app\<lparr>ap_store := s\<rparr>)))))"

definition get_return :: "('addr, 'n) app_state_scheme \<Rightarrow> string \<Rightarrow> api_error + return_record" where
  "get_return app i = ok_or (NotFound i) (store_get (ap_store app) i)"

definition get_return_by_nullifier :: "('addr, 'n) app_state_scheme \<Rightarrow> string \<Rightarrow> return_record option" where
  "get_return_by_nullifier app nl = get_by_nullifier (ap_store app) nl"

definition publish_batch ::
  "('addr, 'n) app_state_scheme \<Rightarrow> string \<Rightarrow> u128 \<Rightarrow> api_error + batch_bundle" where
  "publish_batch app i t =
     and_then (ok_or (NotFound i)
         (case ledger_batch (st_ledger (ap_store app)) i of
            None \<Rightarrow> None
          | Some b \<Rightarrow> map_option (\<lambda>bd. (bd, ba_status b = Batch_Settled)) (ba_bundle b)))
       (\<lambda>(bd, settled).
         let open_at = self_settle_from_secs bd in
         if ap_submits app \<and> \<not> settled
            \<and> (case open_at of None \<Rightarrow> True | Some at \<Rightarrow> secs_of t \<le> at)
         then Err (NotPublished i open_at) else Ok bd)"

definition fees :: "('m) api_libs_scheme \<Rightarrow> ('addr, 'n) app_state_scheme \<Rightarrow> u128 \<Rightarrow> fee_quote" where
  "fees L app t = quote (al_hex L) (sv_fee (ap_config app)) (secs_of t)"

record accumulator_response =
  ac_synced :: bool
  ac_spent_root :: string
  ac_spent_count :: nat

text \<open>\<open>sync\<close> is \<open>synced_accumulator\<close> of \<open>Clients\<close> on the chain events of the service.\<close>

definition accumulator ::
  "('m) api_libs_scheme \<Rightarrow> (chain_events \<Rightarrow> settled_batch list \<Rightarrow> (sync_error + rebuilt_accumulator) option)
   \<Rightarrow> ('addr, 'n) app_state_scheme \<Rightarrow> (api_error + accumulator_response) option" where
  "accumulator L sync app =
     run_then (map_option (map_err (\<lambda>e. ChainUnsynced (sync_error_text e)))
         (sync (ap_chain_events app) (settled_batches (al_hex L) (st_ledger (ap_store app))))) (\<lambda>acc.
       Some (Ok \<lparr>ac_synced = is_live (ap_chain_events app),
                 ac_spent_root = ''0x'' @ hex_encode (al_hex L) (ra_spent_root acc),
                 ac_spent_count = ra_spent_count acc\<rparr>))"

record health_response =
  hr_status :: string
  hr_draining :: bool
  hr_health :: health
  hr_max_batch_size :: nat
  hr_idle_wait_ms :: u128
  hr_prove_mode :: string
  hr_chain_sync :: string

fun prove_mode_text :: "prove_mode \<Rightarrow> string" where
  "prove_mode_text PrecheckOnly = ''PrecheckOnly''"
| "prove_mode_text Sp1Groth16 = ''Sp1Groth16''"

definition health_handler :: "('addr, 'n) app_state_scheme \<Rightarrow> health_response" where
  "health_handler app =
     \<lparr>hr_status = ''ok'', hr_draining = ap_draining app, hr_health = store_health (ap_store app),
      hr_max_batch_size = sv_max_batch_size (ap_config app),
      hr_idle_wait_ms = as_millis (sv_idle_wait (ap_config app)),
      hr_prove_mode = prove_mode_text (sv_prove_mode (ap_config app)),
      hr_chain_sync = chain_label (ap_chain_events app)\<rparr>"

end
