(* ===== verification/Config_Proofs.thy ===== *)
theory Config_Proofs
  imports Config
begin

text \<open>
  What a configuration the service starts with is known to satisfy, and what the environment is
  refused for.
\<close>

section \<open>Running the statements\<close>

lemma foldl_and_then_Err [simp]: "foldl and_then (Err e) steps = Err e"
  by (induction steps) simp_all

lemma run_steps_simps [simp]:
  "run_steps [] c = Ok c"
  "run_steps (step # steps) c = and_then (step c) (run_steps steps)"
proof -
  show "run_steps [] c = Ok c" by (simp add: run_steps_def)
  show "run_steps (step # steps) c = and_then (step c) (run_steps steps)"
    by (cases "step c") (simp_all add: run_steps_def)
qed

lemma run_steps_append [simp]: "run_steps (as @ bs) c = and_then (run_steps as c) (run_steps bs)"
proof (induction as arbitrary: c)
  case (Cons a as)
  then show ?case by (cases "a c") simp_all
qed simp

definition keeps_inv :: "('addr service_config \<Rightarrow> bool) \<Rightarrow> 'addr config_step \<Rightarrow> bool" where
  "keeps_inv P step \<longleftrightarrow> (\<forall>c c'. P c \<longrightarrow> step c = Ok c' \<longrightarrow> P c')"

lemma run_steps_keeps:
  assumes "\<forall>step \<in> set steps. keeps_inv P step" "P c" "run_steps steps c = Ok c'"
  shows "P c'"
  using assms
proof (induction steps arbitrary: c)
  case (Cons step steps)
  obtain d where d: "step c = Ok d" "run_steps steps d = Ok c'"
    using Cons.prems(3) by (auto simp: and_then_Ok_iff)
  with Cons.prems have "P d" by (auto simp: keeps_inv_def)
  with Cons.IH[OF _ this d(2)] Cons.prems(1) show ?case by simp
qed simp

lemma uint_from_str_bound: "uint_from_str w s = Some n \<Longrightarrow> n < 2 ^ w"
  by (auto simp: uint_from_str_def Let_def split: option.splits if_splits)

lemma env_parsed_bound: "env_parsed env w key = Ok (Some n) \<Longrightarrow> n < 2 ^ w"
  by (auto simp: env_parsed_def and_then_Ok_iff ok_or_def map_err_def dest: uint_from_str_bound
      split: option.splits sum.splits)

lemma keeps_if_set:
  "(\<And>x c c'. found = Ok (Some x) \<Longrightarrow> P c \<Longrightarrow> step x c = Ok c' \<Longrightarrow> P c') \<Longrightarrow> keeps_inv P (if_set found step)"
  by (auto simp: keeps_inv_def if_set_def and_then_Ok_iff split: option.splits)

lemma keeps_pure: "(\<And>c. P c \<Longrightarrow> P (f c)) \<Longrightarrow> keeps_inv P (\<lambda>c. Ok (f c))"
  by (simp add: keeps_inv_def)

lemma keeps_set_text: "(\<And>v c. P c \<Longrightarrow> P (put v c)) \<Longrightarrow> keeps_inv P (set_text env key put)"
  unfolding set_text_def by (rule keeps_if_set) auto

lemma keeps_set_secs: "(\<And>d c. P c \<Longrightarrow> P (put d c)) \<Longrightarrow> keeps_inv P (set_secs env key put)"
  unfolding set_secs_def by (rule keeps_if_set) auto

lemma keeps_set_positive:
  "(\<And>n c. 0 < n \<Longrightarrow> n < 2 ^ 64 \<Longrightarrow> P c \<Longrightarrow> P (put n c)) \<Longrightarrow> keeps_inv P (set_positive env key put)"
  unfolding set_positive_def
  by (rule keeps_if_set) (auto simp: and_then_Ok_iff positive_def dest: env_parsed_bound split: if_splits)

section \<open>Valid configurations\<close>

definition config_ok :: "'addr service_config \<Rightarrow> bool" where
  "config_ok c \<longleftrightarrow>
     0 < sv_max_batch_size c \<and> sv_max_batch_size c < 2 ^ 64
     \<and> 0 < sv_max_batch_bytes c \<and> sv_max_batch_bytes c < 2 ^ 64
     \<and> 0 < sv_max_pending c \<and> sv_max_pending c < 2 ^ 64
     \<and> 0 < d_secs (sv_command_timeout c)
     \<and> length (fp_recipient (sv_fee c)) = 20
     \<and> (\<forall>h. sv_config_hash c = Some h \<longrightarrow> length h = 32)"

definition fee_ok :: "'addr service_config \<Rightarrow> bool" where
  "fee_ok c \<longleftrightarrow> is_collectable (sv_fee c) \<and> floor_within_amount (sv_fee c)"

lemma config_default_ok: "config_ok (config_default a)"
  by (simp add: config_ok_def config_default_def from_secs_def fee_default_def)

lemmas keeps_rules = keeps_set_text keeps_set_secs keeps_set_positive keeps_pure

lemma address_from_length: "address_from H v = Some h \<Longrightarrow> length h = 20"
  by (auto simp: address_from_def split: option.splits if_splits)

lemma check_fee_keeps: "keeps_inv P check_fee"
  by (auto simp: keeps_inv_def check_fee_def split: if_splits)

lemma floor_step_keeps:
  "(\<And>v c. P c \<Longrightarrow> P (put v c)) \<Longrightarrow> keeps_inv P (\<lambda>c. and_then found (\<lambda>v. Ok (put v c)))"
  by (auto simp: keeps_inv_def and_then_Ok_iff)

lemmas keeps_steps = keeps_if_set keeps_rules check_fee_keeps floor_step_keeps

lemma fee_steps_keep: "\<forall>step \<in> set (fee_steps H env). keeps_inv config_ok step"
  unfolding fee_steps_def list.set ball_simps(5,7)
  by (intro conjI TrueI keeps_steps)
    (auto simp: config_ok_def and_then_Ok_iff ok_or_def address_from_length split: option.splits)

lemma of_nat_pos64: "0 < n \<Longrightarrow> n < 2 ^ 64 \<Longrightarrow> 0 < (of_nat n :: u64)"
  by (simp add: word_less_nat_alt unat_of_nat take_bit_nat_eq_self)

lemma intake_steps_keep: "\<forall>step \<in> set (intake_steps parse_addr env). keeps_inv config_ok step"
  unfolding intake_steps_def list.set ball_simps(5,7)
  by (intro conjI TrueI keeps_steps)
    (auto simp: config_ok_def and_then_Ok_iff from_secs_def of_nat_pos64)

lemma proving_steps_keep:
  "\<forall>step \<in> set (proving_steps H env). keeps_inv config_ok step \<and> keeps_inv fee_ok step"
  unfolding proving_steps_def list.set ball_simps(5,7)
  by (intro conjI TrueI keeps_steps)
    (auto simp: config_ok_def fee_ok_def and_then_Ok_iff ok_or_def parse_hex32_length split: option.splits)

lemma fee_checked:
  assumes "run_steps (fee_steps H env) c = Ok d"
  shows "fee_ok d"
  using assms by (auto simp: fee_steps_def and_then_Ok_iff check_fee_def fee_ok_def split: if_splits)

lemma from_env_ok:
  assumes "from_env a parse_addr H env = Ok c"
  shows "config_ok c" "fee_ok c"
proof -
  obtain d e where r: "run_steps (intake_steps parse_addr env) (config_default a) = Ok d"
    "run_steps (fee_steps H env) d = Ok e" "run_steps (proving_steps H env) e = Ok c"
    using assms by (auto simp: from_env_def config_steps_def and_then_Ok_iff)
  have "config_ok d" by (rule run_steps_keeps[OF intake_steps_keep config_default_ok r(1)])
  then have e: "config_ok e" by (rule run_steps_keeps[OF fee_steps_keep _ r(2)])
  have k: "\<forall>step \<in> set (proving_steps H env). keeps_inv config_ok step"
    "\<forall>step \<in> set (proving_steps H env). keeps_inv fee_ok step" using proving_steps_keep by blast+
  show "config_ok c" by (rule run_steps_keeps[OF k(1) e r(3)])
  show "fee_ok c" by (rule run_steps_keeps[OF k(2) fee_checked[OF r(2)] r(3)])
qed

section \<open>The properties\<close>

text \<open>C32. A service that reads its configuration from the environment starts only with a valid one:
  the batch limits, the queue limit and the timeout of a command are positive, a fee has somewhere
  to go and a floor not above what is quoted, the fee recipient is an address and a pinned
  configuration hash is 32 bytes.\<close>

theorem from_env_valid:
  assumes "from_env a parse_addr H env = Ok c"
  shows "0 < lim_max_size (limits_of c) \<and> 0 < lim_max_bytes (limits_of c) \<and> 0 < sv_max_pending c
    \<and> 0 < d_secs (sv_command_timeout c) \<and> length (fp_recipient (sv_fee c)) = 20
    \<and> (0 < fp_amount (sv_fee c) \<longrightarrow> fp_recipient (sv_fee c) \<noteq> replicate 20 0)
    \<and> fp_floor (sv_fee c) \<le> fp_amount (sv_fee c)
    \<and> (\<forall>h. sv_config_hash c = Some h \<longrightarrow> length h = 32)"
  using from_env_ok[OF assms]
  by (auto simp: config_ok_def fee_ok_def is_collectable_def floor_within_amount_def limits_of_def word_gt_0)

definition ex_environment :: environment where
  "ex_environment = [''BRIDGE_RETURN_FEE_AMOUNT'' \<mapsto> ''50'', ''BRIDGE_RETURN_FEE_RECIPIENT'' \<mapsto> ''0xc3c3c3c3c3c3c3c3c3c3c3c3c3c3c3c3c3c3c3c3'',
     ''BRIDGE_RETURN_MAX_BATCH_SIZE'' \<mapsto> ''4'', ''BRIDGE_RETURN_PROVE_MODE'' \<mapsto> ''sp1_groth16'']"

definition started :: "config_error + unit service_config \<Rightarrow> (u128 \<times> nat \<times> prove_mode \<times> u32) option" where
  "started r = (case r of Inl _ \<Rightarrow> None
     | Inr c \<Rightarrow> Some (fp_amount (sv_fee c), sv_max_batch_size c, sv_prove_mode c, rp_max_attempts (sv_retry c)))"

lemma startedD: "started r = Some (x, n, m, k) \<Longrightarrow>
    \<exists>c. r = Ok c \<and> fp_amount (sv_fee c) = x \<and> rp_max_attempts (sv_retry c) = k"
  by (auto simp: started_def split: sum.splits)

lemma ex_numbers:
  "uint_from_str w ''4'' = (if 4 < (2::nat) ^ w then Some 4 else None)"
  "uint_from_str w ''50'' = (if 50 < (2::nat) ^ w then Some 50 else None)"
  "uint_from_str w ''4294967296'' = (if 4294967296 < (2::nat) ^ w then Some 4294967296 else None)"
  by (simp_all add: uint_from_str_def digit_value_def)

lemma ex_address: "address_from std_hex ''0xc3c3c3c3c3c3c3c3c3c3c3c3c3c3c3c3c3c3c3c3'' = Some (replicate 20 195)"
  by code_simp

lemmas eval_config = from_env_def config_steps_def intake_steps_def fee_steps_def proving_steps_def
  set_secs_def set_positive_def set_text_def if_set_def env_parsed_def env_opt_def ok_or_def positive_def
  check_fee_def is_collectable_def floor_within_amount_def unwrap_or_def config_default_def fee_default_def
  retry_default_def

lemma ex_from_env: "started (from_env () (\<lambda>_. None) std_hex ex_environment) = Some (50, 4, Sp1Groth16, 5)"
  by (simp add: eval_config ex_environment_def ex_numbers ex_address started_def)

theorem from_env_valid_witness:
  "\<exists>c. from_env () (\<lambda>_. None) std_hex ex_environment = Ok c \<and> fp_amount (sv_fee c) = 50
    \<and> fp_recipient (sv_fee c) \<noteq> replicate 20 0"
proof -
  obtain c where c: "from_env () (\<lambda>_. None) std_hex ex_environment = Ok c" "fp_amount (sv_fee c) = 50"
    using startedD[OF ex_from_env] by blast
  from from_env_valid[OF c(1)] c show ?thesis by auto
qed

text \<open>The attempts are checked as a \<open>usize\<close> and then narrowed: a positive number can become none,
  and every return is parked on its first failure.\<close>

lemma max_attempts_narrowed:
  "\<exists>c. from_env () (\<lambda>_. None) std_hex [''BRIDGE_RETURN_MAX_ATTEMPTS'' \<mapsto> ''4294967296''] = Ok c
     \<and> rp_max_attempts (sv_retry c) = 0 \<and> parked (sv_retry c) 1"
proof -
  have "started (from_env () (\<lambda>_. None) std_hex [''BRIDGE_RETURN_MAX_ATTEMPTS'' \<mapsto> ''4294967296''])
    = Some (0, 8, PrecheckOnly, 0)" by (simp add: eval_config ex_numbers started_def)
  from startedD[OF this] show ?thesis by (auto simp: parked_def)
qed

end
