(* ===== verification/Api_Proofs.thy ===== *)
theory Api_Proofs
  imports Api S1_Proofs Store_Proofs Config_Proofs Assembler_Proofs
begin

text \<open>
  What a return the service admits is known to be: a burn the guest accepts, under the deployment's
  own configuration and trust base, that pays the fee or was already held.
\<close>

section \<open>The header of an encoded input\<close>

lemma c_bind_Ok_iff: "c_bind p f bs = Ok r \<longleftrightarrow> (\<exists>a rest. p bs = Ok (a, rest) \<and> f a rest = Ok r)"
  by (auto simp: c_bind_def and_then_Ok_iff)

text \<open>The configuration and the public values come first, so they are read back whatever follows.\<close>

lemma header_decodes:
  assumes "encode_guest_input S i = Some bs" "wf_config (gi_config i)" "wf_public_values (gi_public_values i)"
    and "decode_guest_input S bs = Ok j"
  shows "gi_config j = gi_config i" "gi_public_values j = gi_public_values i"
proof -
  obtain c p rest where parts: "put_config (gi_config i) = Some c"
    "put_public_values (gi_public_values i) = Some p" "bs = be32 WIRE_VERSION @ c @ p @ rest"
    using assms(1) by (auto simp only: encode_guest_input_def cat_all_iff append_assoc)
  have "\<exists>t. c_guest_input S bs = Ok (j, t)"
    using assms(4) by (auto simp: decode_guest_input_def and_then_Ok_iff split: if_splits)
  then show "gi_config j = gi_config i" "gi_public_values j = gi_public_values i"
    unfolding c_guest_input_def parts(3)
    by (auto simp: config_codec.bind_enc[OF parts(1) assms(2)] public_codec.bind_enc[OF parts(2) assms(3)]
        c_bind_Ok_iff c_return_def)
qed

lemma commit_length: "\<forall>x. length (sha x) = 32 \<Longrightarrow> length (commit sha A) = 32"
  using tree_hash_length[of sha 0 A] by (simp add: commit_def EMPTY_TREE_ROOT_def)

section \<open>The input of an envelope\<close>

lemma envelope_header:
  assumes build: "build_certified_guest_input_from_envelope fuel sha256 keccak S c tb tag token reason = Some (Ok input)"
    and len: "\<forall>x. length (sha256 x) = 32" "\<forall>x. length (keccak x) = 32" "\<forall>x. length (sdk_sha256 S x) = 32"
  shows "gi_config input = c" "pv_trust_base_hash (gi_public_values input) = canonical_hash S tb"
    "wf_public_values (gi_public_values input)"
proof -
  obtain leaf where l: "envelope_leaf sha256 keccak S c token reason = Ok leaf"
    "build_certified_guest_input_batch fuel keccak S c
       [\<lparr>cb_token = token, cb_trust_base = tb, cb_lock_justification_tag = tag, cb_leaf = leaf\<rparr>] = Some (Ok input)"
    using build by (auto simp: build_certified_guest_input_from_envelope_def run_then_Ok_iff
        build_certified_guest_input_def)
  note e = envelope_leaf_Ok[OF l(1)]
  have key: "key_ok (leaf_nullifier leaf)"
    using e len(1) by (auto simp: key_ok_def nullifier_def h_array_length Let_def)
  have amount: "length (leaf_amount leaf) = 32"
    using e decoded_amount_lengths(1) by (metis return_leaf.select_convs(3))
  obtain refs ws new lroot where b:
      "ordered_insert_witnesses (sdk_sha256 S) [] [leaf_nullifier leaf] = Some (Ok (ws, new))"
      "lock_ref_root keccak (sort_key ref_nonce refs) = Ok lroot"
      "gi_config input = c" "gi_public_values input =
          \<lparr>pv_domain_tag = domain_tag keccak, pv_config_hash = config_hash keccak c,
           pv_trust_base_hash = canonical_hash S tb, pv_spent_root_old = EMPTY_TREE_ROOT,
           pv_spent_root_new = new, pv_return_root = return_root keccak [leaf], pv_lock_ref_root = lroot,
           pv_batch_size = 1, pv_total_amount = sum_amounts [leaf]\<rparr>"
    using l(2) unfolding build_certified_guest_input_batch_def Let_def
    by (auto simp: run_then_Ok_iff and_then_Ok_iff tree_root_def split: if_splits)
  show "gi_config input = c" "pv_trust_base_hash (gi_public_values input) = canonical_hash S tb"
    by (simp_all add: b)
  have new: "length new = 32"
    using ordered_loop_ok[of "[]" "[leaf_nullifier leaf]" "sdk_sha256 S" "[]"] key b(1) commit_length[OF len(3)]
    by (auto simp: ordered_insert_witnesses_def)
  have "length lroot = 32" using b(2) len(2) by (auto simp: lock_ref_root_def and_then_Ok_iff)
  moreover have "length (sum_amounts [leaf]) = 32" using add_u256_sum(1)[of "replicate 32 0"] amount
    by (simp add: sum_amounts_def)
  ultimately show "wf_public_values (gi_public_values input)"
    using len new by (simp add: b wf_public_values_def domain_tag_def config_hash_def return_root_def
        canonical_hash_def Let_def EMPTY_TREE_ROOT_def)
qed

lemma intake_input:
  assumes "intake_build_wire_input fuel sha256 keccak S i tok rb = Some (Ok bs)"
    and len: "\<forall>x. length (sha256 x) = 32" "\<forall>x. length (keccak x) = 32" "\<forall>x. length (sdk_sha256 S x) = 32"
    and "wf_config (ei_config i)" "decode_guest_input S bs = Ok input"
  shows "gi_config input = ei_config i"
    "pv_trust_base_hash (gi_public_values input) = canonical_hash S (ei_trust_base i)"
proof -
  obtain token j where j: "build_certified_guest_input_from_envelope fuel sha256 keccak S (ei_config i)
      (ei_trust_base i) (ei_lock_justification_tag i) token rb = Some (Ok j)" "encode_guest_input S j = Some bs"
    using assms(1) by (auto simp: intake_build_wire_input_def run_then_Ok_iff)
  note h = envelope_header[OF j(1) len]
  have "wf_config (gi_config j)" using assms(5) by (simp add: h(1))
  from header_decodes[OF j(2) this h(3) assms(6)]
  show "gi_config input = ei_config i"
    "pv_trust_base_hash (gi_public_values input) = canonical_hash S (ei_trust_base i)"
    by (simp_all add: h)
qed


section \<open>What a request was checked for\<close>

lemma checked_input_Ok:
  assumes "checked_input L app req = Some (Ok (wire, report, input, leaf))"
  shows "build_wire_input L app req = Some (Ok wire)"
    "precheck_wire (al_fuel L) (al_sha256 L) (al_keccak L) (al_sdk L) wire = Some (Ok report)"
    "decode_guest_input (al_sdk L) wire = Ok input" "gi_return_leaves input = [leaf]"
    "sv_config_hash (ap_config app) = Some h \<longrightarrow> pv_config_hash (pr_public_values report) = h"
proof -
  obtain w r i where parts: "build_wire_input L app req = Some (Ok w)"
    "precheck_wire (al_fuel L) (al_sha256 L) (al_keccak L) (al_sdk L) w = Some (Ok r)"
    "decode_guest_input (al_sdk L) w = Ok i"
    "(case gi_return_leaves i of [l] \<Rightarrow>
        (case sv_config_hash (ap_config app) of
           Some expected \<Rightarrow> if pv_config_hash (pr_public_values r) \<noteq> expected then
               Some (Err (BadRequest ''config_hash_mismatch''
                  (''configHash mismatch: got 0x'' @ hex_encode (al_hex L) (pv_config_hash (pr_public_values r))
                   @ '', expected 0x'' @ hex_encode (al_hex L) expected)))
             else Some (Ok (w, r, i, l))
         | None \<Rightarrow> Some (Ok (w, r, i, l)))
      | _ \<Rightarrow> Some (Err (BadRequest ''unsupported_batch_shape''
              ''service intake currently expects one return leaf per submitted wire input'')))
     = Some (Ok (wire, report, input, leaf))"
    using assms unfolding checked_input_def by (auto simp: run_then_Ok_iff)
  obtain l where l: "gi_return_leaves i = [l]"
    using parts(4) by (auto split: list.splits)
  have "w = wire" "r = report" "i = input" "l = leaf"
    and h: "sv_config_hash (ap_config app) = Some h \<longrightarrow> pv_config_hash (pr_public_values r) = h"
    using parts(4) by (auto simp: l split: option.splits if_splits)
  with parts l h show "build_wire_input L app req = Some (Ok wire)"
    "precheck_wire (al_fuel L) (al_sha256 L) (al_keccak L) (al_sdk L) wire = Some (Ok report)"
    "decode_guest_input (al_sdk L) wire = Ok input" "gi_return_leaves input = [leaf]"
    "sv_config_hash (ap_config app) = Some h \<longrightarrow> pv_config_hash (pr_public_values report) = h" by simp_all
qed

lemma built_by_intake:
  assumes "build_wire_input L app req = Some (Ok wire)" "ap_intake app = Some i"
  shows "\<exists>token reason. intake_build_wire_input (al_fuel L) (al_sha256 L) (al_keccak L) (al_sdk L) i token reason
    = Some (Ok wire)"
  using assms unfolding build_wire_input_def
  by (auto simp: run_then_Ok_iff split: option.splits if_splits)

lemma create_return_Ok:
  assumes "create_return L others t t1 t2 req app = Some (Ok resp, app')"
  obtains wire report input leaf burn s r inserted where
    "checked_input L app req = Some (Ok (wire, report, input, leaf))"
    "fee_check L app leaf (secs_of t) = Ok ()"
    "burn_from_input (al_hex L) (return_id L (pr_public_values_digest report) (leaf_nullifier leaf)) input wire = Some burn"
    "accept_within (al_hex L) (al_sha256 L) (al_json L) burn
       (queued (al_hex L) (bn_id burn) (leaf_nullifier leaf) (pr_public_values_digest report) (pr_public_values report) t1)
       t2 (sv_max_pending (ap_config app)) (others (ap_store app)) = Some (s, Some (r, inserted))"
    "app' = app\<lparr>ap_store := s\<rparr>" "resp = created r inserted"
proof -
  obtain wire report input leaf where c: "checked_input L app req = Some (Ok (wire, report, input, leaf))"
    using assms by (auto simp: create_return_def split: option.splits sum.splits)
  have f: "fee_check L app leaf (secs_of t) = Ok ()"
    using assms by (cases "fee_check L app leaf (secs_of t)") (simp_all add: create_return_def c)
  let ?rid = "return_id L (pr_public_values_digest report) (leaf_nullifier leaf)"
  obtain burn where b: "burn_from_input (al_hex L) ?rid input wire = Some burn"
    using assms by (auto simp: create_return_def c f Let_def split: option.splits)
  then have "bn_id burn = ?rid" by (auto simp: burn_from_input_def split: list.splits)
  moreover obtain s out where a: "accept_within (al_hex L) (al_sha256 L) (al_json L) burn
       (queued (al_hex L) ?rid (leaf_nullifier leaf) (pr_public_values_digest report) (pr_public_values report) t1)
       t2 (sv_max_pending (ap_config app)) (others (ap_store app)) = Some (s, out)"
    using assms by (auto simp: create_return_def c f b Let_def split: option.splits)
  moreover have "\<exists>r inserted. out = Some (r, inserted) \<and> app' = app\<lparr>ap_store := s\<rparr> \<and> resp = created r inserted"
    using assms a by (auto simp: create_return_def c f b Let_def split: option.splits)
  ultimately show ?thesis using that[OF c f b] by auto
qed


lemma accepted_burn:
  assumes "ledger_ok retry (st_ledger s)" "ledger_by_nullifier (st_ledger s) (rr_nullifier record) = None"
    and "accept_within H sha256 J burn record t m s = Some (s', Some out)"
  shows "\<exists>x. ledger_by_nullifier (st_ledger s') (rr_nullifier record) = Some x
    \<and> rt_burn x = burn \<and> rt_record x = record \<and> snd out"
proof -
  have "map_of (lg_by_nullifier (st_ledger s)) (to_lowercase (rr_nullifier record)) = None"
  proof (rule ccontr)
    assume "\<not> ?thesis"
    then obtain i where i: "map_of (lg_by_nullifier (st_ledger s)) (to_lowercase (rr_nullifier record)) = Some i" by blast
    have "index_ok (st_ledger s)" using assms(1) by (simp add: ledger_ok_def)
    with i obtain x where "ledger_get (st_ledger s) i = Some x" unfolding index_ok_def by blast
    with assms(2) i show False by (simp add: ledger_by_nullifier_def ledger_get_def)
  qed
  with assms(2,3) show ?thesis
    by (auto simp: accept_within_def commit_event_def Let_def ledger_accept_def ledger_by_nullifier_def update_conv'
        split: if_splits option.splits sum.splits)
qed

section \<open>The properties\<close>

text \<open>C33. Whatever a service admits is provable and its own: a return that \<open>POST /returns\<close> takes
  is backed by a wire input of one leaf that the guest's relation accepts, with the pinned
  configuration hash; on a service with a deployment the input has the deployment's configuration and
  commits to its trust base; the burn pays the fee of the moment unless the service already held it;
  and a burn the service did not hold is in the queue with exactly that input.\<close>

theorem admitted_return:
  assumes create: "create_return L others t t1 t2 req app = Some (Ok resp, app')"
    and ok: "ledger_ok retry (st_ledger (others (ap_store app)))"
    and deployed: "\<And>i. ap_intake app = Some i \<Longrightarrow> wf_config (ei_config i)"
    and len: "\<forall>x. length (al_sha256 L x) = 32" "\<forall>x. length (al_keccak L x) = 32" "\<forall>x. length (sdk_sha256 (al_sdk L) x) = 32"
  shows "\<exists>wire input leaf. decode_guest_input (al_sdk L) wire = Ok input \<and> gi_return_leaves input = [leaf]
    \<and> execute (al_fuel L) (al_sha256 L) (al_keccak L) (al_sdk L) input = Some (Ok (gi_public_values input))
    \<and> (\<forall>h. sv_config_hash (ap_config app) = Some h \<longrightarrow> pv_config_hash (gi_public_values input) = h)
    \<and> (\<forall>i. ap_intake app = Some i \<longrightarrow> gi_config input = ei_config i
         \<and> pv_trust_base_hash (gi_public_values input) = canonical_hash (al_sdk L) (ei_trust_base i))
    \<and> (let nl = hex32 (al_hex L) (leaf_nullifier leaf) in
        (get_by_nullifier (ap_store app) nl = None \<longrightarrow> is_paid_by (al_hex L) (sv_fee (ap_config app)) leaf (secs_of t))
        \<and> (ledger_by_nullifier (st_ledger (others (ap_store app))) nl = None \<longrightarrow>
            \<not> cr_duplicate resp
            \<and> (\<exists>x. ledger_by_nullifier (st_ledger (ap_store app')) nl = Some x
                \<and> bn_wire_input (rt_burn x) = wire \<and> rr_status (rt_record x) = Queued)))"
proof -
  from create_return_Ok[OF create] obtain wire report input leaf burn s r inserted where c:
    "checked_input L app req = Some (Ok (wire, report, input, leaf))"
    "fee_check L app leaf (secs_of t) = Ok ()"
    "burn_from_input (al_hex L) (return_id L (pr_public_values_digest report) (leaf_nullifier leaf)) input wire = Some burn"
    "accept_within (al_hex L) (al_sha256 L) (al_json L) burn
       (queued (al_hex L) (bn_id burn) (leaf_nullifier leaf) (pr_public_values_digest report) (pr_public_values report) t1)
       t2 (sv_max_pending (ap_config app)) (others (ap_store app)) = Some (s, Some (r, inserted))"
    "app' = app\<lparr>ap_store := s\<rparr>" "resp = created r inserted" .
  note k = checked_input_Ok[OF c(1)]
  obtain input' where p: "decode_guest_input (al_sdk L) wire = Ok input'"
    "execute (al_fuel L) (al_sha256 L) (al_keccak L) (al_sdk L) input' = Some (Ok (pr_public_values report))"
    "pr_public_values report = gi_public_values input'"
    using precheck_wire_Ok[OF k(2)] by blast
  then have i: "input' = input" using k(3) by simp
  have dep: "gi_config input = ei_config i \<and>
      pv_trust_base_hash (gi_public_values input) = canonical_hash (al_sdk L) (ei_trust_base i)"
    if d: "ap_intake app = Some i" for i
    using built_by_intake[OF k(1) d] intake_input[OF _ len deployed[OF d] k(3)] by blast
  have w: "bn_wire_input burn = wire" using c(3) by (auto simp: burn_from_input_def split: list.splits)
  let ?nl = "hex32 (al_hex L) (leaf_nullifier leaf)"
  have paid: "is_paid_by (al_hex L) (sv_fee (ap_config app)) leaf (secs_of t)" if "get_by_nullifier (ap_store app) ?nl = None"
    using c(2) that by (auto simp: fee_check_def is_paid_by_def split: option.splits fee_refusal.splits)
  have new: "\<not> cr_duplicate resp \<and> (\<exists>x. ledger_by_nullifier (st_ledger (ap_store app')) ?nl = Some x
      \<and> bn_wire_input (rt_burn x) = wire \<and> rr_status (rt_record x) = Queued)"
    if n: "ledger_by_nullifier (st_ledger (others (ap_store app))) ?nl = None"
    using accepted_burn[OF ok _ c(4)] n w c(5,6) by (auto simp: queued_def created_def)
  show ?thesis
    by (rule exI[of _ wire], rule exI[of _ input], rule exI[of _ leaf])
      (use k p i dep paid new in \<open>auto simp: Let_def\<close>)
qed


section \<open>A burn sent to a deployed service\<close>

definition ex_libs :: api_libs where
  "ex_libs = \<lparr>al_fuel = 0, al_sha256 = len32, al_keccak = len32, al_sdk = ex_sdk, al_hex = std_hex, al_json = ex_json,
     al_host_text = (\<lambda>_. []), al_debug = ex_dbg, al_hex_text = (\<lambda>_. [])\<rparr>"

definition ex_app :: "unit app_state" where
  "ex_app = \<lparr>ap_config = config_default (), ap_store = store_memory ex_policy,
     ap_intake = Some \<lparr>ei_config = wit_config, ei_trust_base = ex_tb, ei_lock_justification_tag = ex_tag\<rparr>,
     ap_chain_events = chain_events_none, ap_draining = False, ap_submits = True\<rparr>"

definition ex_request :: create_request where
  "ex_request = \<lparr>cq_token_cbor = Some (hex32 std_hex [1]), cq_reason_bytes = Some (hex32 std_hex ex_reason),
     cq_config_hash = None, cq_anchor_hint = None, cq_wire_input = None\<rparr>"

lemma ex_built_input: "build_certified_guest_input_batch 0 len32 ex_sdk wit_config [ex_cb] = Some (Ok ex_input)"
proof -
  have k: "key_ok (leaf_nullifier ex_leaf)" using ex_leaf_wf by (simp add: wf_leaf_def key_ok_def)
  have r: "tree_root sketch [] = Some (commit sketch {})" using tree_root_commit[of "[]" sketch] by simp
  have r1: "tree_root sketch [leaf_nullifier ex_leaf] = Some (commit sketch {leaf_nullifier ex_leaf})"
    using tree_root_commit[of "[leaf_nullifier ex_leaf]" sketch] k by simp
  have w: "non_membership_witness sketch [] (leaf_nullifier ex_leaf) = Some (Some no_steps)"
    by (simp add: non_membership_witness_def no_steps_def)
  have t: "tree_insert [] (leaf_nullifier ex_leaf) = Ok [leaf_nullifier ex_leaf]"
    by (simp add: tree_insert_def)
  have o: "ordered_insert_witnesses sketch [] [leaf_nullifier ex_leaf]
      = Some (Ok ([no_steps], commit sketch {leaf_nullifier ex_leaf}))"
    by (simp add: ordered_insert_witnesses_def w t r1)
  have l: "lock_ref_root len32 [ex_ref] = Ok (len32 (refs_buf [ex_ref]))"
    using lock_ref_root_Ok_iff[of len32 "[ex_ref]"] by (simp add: ascending_def)
  show ?thesis
    by (simp add: build_certified_guest_input_batch_def ex_cb_def ex_certified_burn ex_sdk_simps(1) o r l Let_def
        burn_of_def) (simp add: ex_input_def ex_pv_def ex_burn_def)
qed

lemma ex_intake:
  "intake_build_wire_input 0 len32 len32 ex_sdk
     \<lparr>ei_config = wit_config, ei_trust_base = ex_tb, ei_lock_justification_tag = ex_tag\<rparr> [1] ex_reason
   = map_option Ok (encode_guest_input ex_sdk ex_input)"
proof -
  have t: "sdk_token_from_cbor ex_sdk [1] = Some ex_token" by (simp add: ex_sdk_def)
  show ?thesis
    using ex_built_input by (simp add: intake_build_wire_input_def t ok_or_def
        build_certified_guest_input_from_envelope_def ex_envelope_leaf build_certified_guest_input_def ex_cb_def)
qed


lemma ex_decode_hex: "decode_hex ex_libs (hex32 std_hex bs) = Ok bs"
  using std_hex_ok by (simp add: decode_hex_def ex_libs_def hex32_def ok_or_def hex_ok_def)

lemma ex_wire: "build_wire_input ex_libs ex_app ex_request = map_option Ok (encode_guest_input ex_sdk ex_input)"
  by (cases "encode_guest_input ex_sdk ex_input")
    (simp_all add: build_wire_input_def ex_request_def ex_app_def declared_matches_def ex_decode_hex,
     simp_all add: ex_libs_def ex_intake)

lemma ex_checked:
  assumes "encode_guest_input ex_sdk ex_input = Some bs"
  shows "checked_input ex_libs ex_app ex_request
    = Some (Ok (bs, report_for (public_output len32 ex_pv) bs, ex_input, ex_leaf))"
proof -
  have d: "decode_guest_input ex_sdk bs = Ok ex_input" by (rule decode_encoded[OF assms ex_wf])
  have "precheck_wire 0 len32 len32 ex_sdk bs = Some (Ok (report_for (public_output len32 ex_pv) bs))"
    using precheck_eq[OF assms ex_wf, of 0 len32 len32]
    by (simp add: precheck_wire_def d ex_execute)
  then show ?thesis
    unfolding checked_input_def ex_wire assms
    by (simp add: ex_libs_def d ex_input_simps) (simp add: ex_app_def config_default_def)
qed

lemma ex_created: "\<exists>resp app'. create_return ex_libs id 40000 40001 40002 ex_request ex_app = Some (Ok resp, app')"
proof -
  obtain bs where bs: "encode_guest_input ex_sdk ex_input = Some bs" using ex_encodes by blast
  have m: "st_ledger (ap_store ex_app) = ledger_default" "st_journal (ap_store ex_app) = Memory"
    "sv_fee (ap_config ex_app) = fee_default" "sv_max_pending (ap_config ex_app) = 1000"
    by (simp_all add: ex_app_def store_memory_def config_default_def)
  have none: "ledger_by_nullifier ledger_default x = None" "unfinished ledger_default = 0" for x
    by (simp_all add: ledger_by_nullifier_def ledger_default_def unfinished_def return_values_def)
  have f: "fee_check ex_libs ex_app ex_leaf now = Ok ()" for now
    by (simp add: fee_check_def get_by_nullifier_def m none refusal_def is_enforced_def fee_default_def)
  obtain burn where b: "burn_from_input (al_hex ex_libs) rid ex_input bs = Some (burn rid)"
    and "bn_id (burn rid) = rid" for rid
    using that[of "\<lambda>rid. the (burn_from_input (al_hex ex_libs) rid ex_input bs)"]
    by (simp add: burn_from_input_def ex_input_simps)
  have a: "\<exists>s r. accept_within (al_hex ex_libs) (al_sha256 ex_libs) (al_json ex_libs) x rc t 1000 (ap_store ex_app)
      = Some (s, Some (r, True))" for x rc t
    by (simp add: accept_within_def m none commit_event_def journal_append_def ledger_accept_def
        ledger_record_def ledger_get_def Let_def) (simp add: ledger_default_def)
  let ?report = "report_for (public_output len32 ex_pv) bs"
  let ?rid = "return_id ex_libs (pr_public_values_digest ?report) (leaf_nullifier ex_leaf)"
  obtain s r where "accept_within (al_hex ex_libs) (al_sha256 ex_libs) (al_json ex_libs) (burn ?rid)
      (queued (al_hex ex_libs) ?rid (leaf_nullifier ex_leaf) (pr_public_values_digest ?report)
        (pr_public_values ?report) 40001) 40002 1000 (ap_store ex_app) = Some (s, Some (r, True))"
    using a by blast
  then show ?thesis by (simp add: create_return_def ex_checked[OF bs] f b m Let_def)
qed

theorem admitted_return_witness:
  "\<exists>wire input leaf. decode_guest_input ex_sdk wire = Ok input \<and> gi_return_leaves input = [leaf]
     \<and> execute 0 len32 len32 ex_sdk input = Some (Ok (gi_public_values input))
     \<and> gi_config input = wit_config \<and> pv_trust_base_hash (gi_public_values input) = canonical_hash ex_sdk ex_tb"
proof -
  obtain resp app' where c: "create_return ex_libs id 40000 40001 40002 ex_request ex_app = Some (Ok resp, app')"
    using ex_created by blast
  have l: "ap_intake ex_app = Some \<lparr>ei_config = wit_config, ei_trust_base = ex_tb, ei_lock_justification_tag = ex_tag\<rparr>"
    "al_sdk ex_libs = ex_sdk" "al_sha256 ex_libs = len32" "al_keccak ex_libs = len32" "al_fuel ex_libs = 0"
    by (simp_all add: ex_app_def ex_libs_def)
  have "ledger_ok ex_policy (st_ledger (id (ap_store ex_app)))"
    by (simp add: ex_app_def store_memory_def ledger_default_ok)
  from admitted_return[OF c this] show ?thesis
    by (simp add: l wit_config_wf ex_sdk_simps(1)) blast
qed

end
