(* ===== verification/Shutdown.thy ===== *)
theory Shutdown
  imports Store Config
begin

text \<open>
  Stopping the service: model of \<open>shutdown.rs\<close>. The drain is a flag. What \<open>stop\<close> waits for happens at
  a time after the drain has started, in nanoseconds, or never.
\<close>

section \<open>Signals\<close>

datatype stop_signal = Terminate | Interrupt

datatype stopped = Drained | Abandoned

definition drain_start :: "bool \<Rightarrow> bool" where
  "drain_start draining = True"

text \<open>
  \<open>stop_signals\<close> forwards the signals in the order in which they arrive; \<open>Wake_Orchestrator\<close> and the others
  are the branches of the \<open>select\<close> in \<open>stop\<close>.
\<close>

datatype wake = Wake_Orchestrator | Wake_Signal | Wake_Expiry

definition span_nanos :: "duration \<Rightarrow> nat" where
  "span_nanos d = unat (d_secs d) * 10 ^ 9 + unat (d_nanos d)"

definition expiry :: "duration \<Rightarrow> nat option" where
  "expiry timeout = (if span_nanos timeout = 0 then None else Some (span_nanos timeout))"

record waits =
  wt_orchestrator :: "nat option"
  wt_signal :: "nat option"
  wt_timeout :: duration

fun wake_at :: "waits \<Rightarrow> wake \<Rightarrow> nat option" where
  "wake_at w Wake_Orchestrator = wt_orchestrator w"
| "wake_at w Wake_Signal = wt_signal w"
| "wake_at w Wake_Expiry = expiry (wt_timeout w)"

text \<open>The branches that can be taken: those ready at the first time at which one is.\<close>

definition ready :: "waits \<Rightarrow> wake list" where
  "ready w =
     filter (\<lambda>b. case wake_at w b of
         None \<Rightarrow> False
       | Some t \<Rightarrow> list_all (\<lambda>c. case wake_at w c of None \<Rightarrow> True | Some u \<Rightarrow> t \<le> u)
                     [Wake_Orchestrator, Wake_Signal, Wake_Expiry])
       [Wake_Orchestrator, Wake_Signal, Wake_Expiry]"

section \<open>Stopping\<close>

text \<open>How the task of the orchestrator is found when it is joined.\<close>

datatype joined = Joined_Done | Joined_Cancelled | Joined_Panicked

datatype 'a finish = Never | Panics | Returns 'a

text \<open>
  \<open>first\<close> is the first signal, \<open>pick\<close> the choice of \<open>select\<close> among the branches that are ready, \<open>s\<close> the
  store when the orchestrator is aborted and \<open>now_ms\<close> the reading of the clock then. The answer is
  how the service stopped, the drain, the store and the batches put back in the queue.
\<close>

definition abort_orchestrator ::
  "hexlib \<Rightarrow> (bytes \<Rightarrow> bytes) \<Rightarrow> event_json \<Rightarrow> joined \<Rightarrow> u128 \<Rightarrow> bool \<Rightarrow> store
   \<Rightarrow> (stopped \<times> bool \<times> store \<times> string list) finish" where
  "abort_orchestrator H sha256 J joined now_ms draining s =
     (case joined of
        Joined_Panicked \<Rightarrow> Returns (Abandoned, draining, s, [])
      | _ \<Rightarrow>
          (case stop_proving H sha256 J now_ms s of
             None \<Rightarrow> Panics
           | Some (s', batch_ids) \<Rightarrow> Returns (Abandoned, draining, s', batch_ids)))"

definition stop ::
  "hexlib \<Rightarrow> (bytes \<Rightarrow> bytes) \<Rightarrow> event_json \<Rightarrow> stop_signal option \<Rightarrow> waits \<Rightarrow> (wake list \<Rightarrow> wake) \<Rightarrow> joined
   \<Rightarrow> u128 \<Rightarrow> bool \<Rightarrow> store \<Rightarrow> (stopped \<times> bool \<times> store \<times> string list) finish" where
  "stop H sha256 J first w pick joined now_ms draining s =
     (case first of
        None \<Rightarrow> Never
      | Some Interrupt \<Rightarrow> abort_orchestrator H sha256 J joined now_ms draining s
      | Some Terminate \<Rightarrow>
          (if ready w = [] then Never
           else case pick (ready w) of
             Wake_Orchestrator \<Rightarrow> Returns (Drained, drain_start draining, s, [])
           | _ \<Rightarrow> abort_orchestrator H sha256 J joined now_ms (drain_start draining) s))"

end
