(* ===== verification/Prover.thy ===== *)
theory Prover
  imports Api Shutdown
begin

text \<open>
  Proving: model of \<open>prover.rs\<close> and \<open>domain/guest.rs\<close>. A command of the deployment is a function of
  what it is given; the files are a map from paths to bytes.
\<close>

section \<open>The vault's guest key\<close>

record 'v prover_libs =
  pl_json :: "'v jsonlib"
  pl_hex :: hexlib
  pl_json_error :: "string \<Rightarrow> string"
  pl_show :: "'v \<Rightarrow> string"

datatype guest_key_error = Key_Record string | Key_Mismatch string string

datatype vault_key = VaultGuestKey bytes

definition from_deployment ::
  "('v, 'm) prover_libs_scheme \<Rightarrow> string \<Rightarrow> guest_key_error + vault_key option" where
  "from_deployment L json =
     and_then (ok_or (Key_Record (pl_json_error L json)) (js_parse (pl_json L) json)) (\<lambda>record.
       case js_pointer (pl_json L) record ''/deployment/vkey'' of
         None \<Rightarrow> Ok None
       | Some vkey \<Rightarrow>
           (case js_as_str (pl_json L) vkey of
              None \<Rightarrow> Err (Key_Record (''deployment.vkey is not 32 bytes of hex: '' @ pl_show L vkey))
            | Some text \<Rightarrow>
                (case parse_hex32 (pl_hex L) text of
                   None \<Rightarrow> Err (Key_Record (''deployment.vkey is not 32 bytes of hex: '' @ pl_show L vkey))
                 | Some key \<Rightarrow> Ok (Some (VaultGuestKey key)))))"

fun key_text :: "('v, 'm) prover_libs_scheme \<Rightarrow> vault_key \<Rightarrow> string" where
  "key_text L (VaultGuestKey key) = ''0x'' @ hex_encode (pl_hex L) key"

fun admit_key ::
  "('v, 'm) prover_libs_scheme \<Rightarrow> vault_key \<Rightarrow> string \<Rightarrow> guest_key_error + unit" where
  "admit_key L (VaultGuestKey key) program_vkey =
     (if parse_hex32 (pl_hex L) program_vkey = Some key then Ok ()
      else Err (Key_Mismatch program_vkey (key_text L (VaultGuestKey key))))"

section \<open>Errors and commands\<close>

datatype prover_error =
    Prover_Host s1_error
  | Prover_Join string
  | Prover_Command string
  | MissingSp1Elf
  | Prover_Guest guest_key_error
  | Prover_Io string

datatype guest_check = NotProving | Unpinned string | Admitted_Key string

datatype key_run = Key_TimedOut | Key_NotStarted string | Key_Ran cmd_output

type_synonym files = "string \<rightharpoonup> bytes"

section \<open>Checking the guest before the service starts\<close>

text \<open>\<open>parse\<close> reads \<open>{vkey}\<close> off the standard output of the command.\<close>

definition program_vkey ::
  "(string \<Rightarrow> key_run) \<Rightarrow> (string \<Rightarrow> string + string) \<Rightarrow> string \<Rightarrow> prover_error + string" where
  "program_vkey run parse elf =
     (case run elf of
        Key_TimedOut \<Rightarrow> Err (Prover_Command ''the guest key command timed out'')
      | Key_NotStarted e \<Rightarrow> Err (Prover_Command (''could not start the guest key command: '' @ e))
      | Key_Ran out \<Rightarrow>
          if \<not> cmd_success out
          then Err (Prover_Command (''the guest key command exited with '' @ co_status out
                 @ ''; see the log above for its output''))
          else map_err (\<lambda>e. Prover_Command (''the guest key command did not answer with its key: '' @ e))
                 (parse (co_stdout out)))"

definition vault_guest_key ::
  "('v, 'm) prover_libs_scheme \<Rightarrow> (string \<Rightarrow> string + string) \<Rightarrow> string option
   \<Rightarrow> guest_key_error + vault_key option" where
  "vault_guest_key L read_text path =
     (case path of
        None \<Rightarrow> Ok None
      | Some p \<Rightarrow> and_then (map_err (\<lambda>e. Key_Record (''read '' @ p @ '': '' @ e)) (read_text p)) (from_deployment L))"

definition check_guest ::
  "('v, 'm) prover_libs_scheme \<Rightarrow> (string \<Rightarrow> string + string) \<Rightarrow> (string \<Rightarrow> key_run)
   \<Rightarrow> (string \<Rightarrow> string + string) \<Rightarrow> 'addr service_config \<Rightarrow> prover_error + guest_check" where
  "check_guest L read_text run parse c =
     (if sv_prove_mode c = PrecheckOnly then Ok NotProving else
      and_then (ok_or MissingSp1Elf (sv_elf_path c)) (\<lambda>elf.
      and_then (map_err Prover_Guest (vault_guest_key L read_text (sv_deployment_config_path c))) (\<lambda>vault.
      and_then (program_vkey run parse elf) (\<lambda>vkey.
      case vault of
        None \<Rightarrow> Ok (Unpinned vkey)
      | Some key \<Rightarrow> and_then (map_err Prover_Guest (admit_key L key vkey)) (\<lambda>_. Ok (Admitted_Key vkey))))))"

section \<open>Proving a batch\<close>

record proof_info_file =
  pi_proof_mode :: string
  pi_vkey :: "string option"
  pi_public_values :: string
  pi_proof_bytes :: string

definition hex_field :: "hexlib \<Rightarrow> (string \<Rightarrow> string) \<Rightarrow> string \<Rightarrow> string + bytes" where
  "hex_field H err_text value = ok_or (err_text (strip_0x value)) (hex_decode H (strip_0x value))"

definition from_info_json ::
  "hexlib \<Rightarrow> (string \<Rightarrow> string) \<Rightarrow> (bytes \<Rightarrow> string + proof_info_file) \<Rightarrow> bytes \<Rightarrow> string + proof_bundle" where
  "from_info_json H err_text parse bs =
     and_then (parse bs) (\<lambda>info.
     and_then (hex_field H err_text (pi_public_values info)) (\<lambda>pv.
     and_then (hex_field H err_text (pi_proof_bytes info)) (\<lambda>pf.
     Ok \<lparr>pb_mode = pi_proof_mode info, pb_public_values = pv, pb_proof_bytes = pf,
         pb_vkey_hash = pi_vkey info\<rparr>)))"

record proof_paths =
  pp_batch_id :: string
  pp_wire :: string
  pp_proof :: string
  pp_info :: string

definition proof_paths_new :: "string \<Rightarrow> string \<Rightarrow> proof_paths" where
  "proof_paths_new root batch_id =
     \<lparr>pp_batch_id = batch_id, pp_wire = root @ ''/'' @ batch_id @ ''.wire'',
      pp_proof = root @ ''/'' @ batch_id @ ''.bin'', pp_info = root @ ''/'' @ batch_id @ ''.json''\<rparr>"

text \<open>
  A child of the service: its process group, the nanoseconds after which it ends (\<open>None\<close>: never), how,
  and the files as it has left them after so many nanoseconds.
\<close>

datatype child_end = Exited int | Killed_By nat | Wait_Failed string

record child =
  ch_group :: "nat option"
  ch_ends :: "nat option"
  ch_end :: child_end
  ch_files :: "nat \<Rightarrow> files"

text \<open>
  The wait of \<open>run_prove_command\<close>: when it is over, and whether the child ended. \<open>None\<close> is a wait that
  is never over.
\<close>

definition wait_child :: "duration \<Rightarrow> child \<Rightarrow> (nat \<times> bool) option" where
  "wait_child limit ch =
     (if span_nanos limit = 0 then map_option (\<lambda>n. (n, True)) (ch_ends ch)
      else case ch_ends ch of
        None \<Rightarrow> Some (span_nanos limit, False)
      | Some n \<Rightarrow> if n \<le> span_nanos limit then Some (n, True) else Some (span_nanos limit, False))"

text \<open>
  What the prover works with: the proving command, started on the files it finds; the error of creating
  the directory; the error of a write with what it leaves at the path; whether a file that is there can
  be removed (the code goes on when it cannot).
\<close>

record proving =
  pv_spawn :: "string \<Rightarrow> proof_paths \<Rightarrow> files \<Rightarrow> string + child"
  pv_mkdir :: "string \<Rightarrow> string option"
  pv_write :: "string \<Rightarrow> (string \<times> bytes option) option"
  pv_removes :: "string \<Rightarrow> bool"
  pv_parse_info :: "bytes \<Rightarrow> string + proof_info_file"
  pv_hex_text :: "string \<Rightarrow> string"
  pv_read_error :: "string \<Rightarrow> string"
  pv_join_text :: string

definition remove_file :: "proving \<Rightarrow> string \<Rightarrow> files \<Rightarrow> files" where
  "remove_file P path fs = (if pv_removes P path then fs(path := None) else fs)"

definition int_text :: "int \<Rightarrow> string" where
  "int_text i = (if i < 0 then ''-'' @ dec_text (nat (- i)) else dec_text (nat i))"

text \<open>The answer, the files, and the process groups that are killed.\<close>

definition run_prove_command ::
  "proving \<Rightarrow> duration \<Rightarrow> string \<Rightarrow> proof_paths \<Rightarrow> files \<Rightarrow> ((prover_error + unit) \<times> files \<times> nat list) option" where
  "run_prove_command P timeout elf paths fs =
     (let fs0 = remove_file P (pp_info paths) fs in
      case pv_spawn P elf paths fs0 of
        Inl e \<Rightarrow> Some (Err (Prover_Command (''could not start the proving command: '' @ e)), fs0, [])
      | Inr ch \<Rightarrow>
          (case wait_child timeout ch of
             None \<Rightarrow> None
           | Some (n, False) \<Rightarrow>
               Some (Err (Prover_Command (''proving '' @ pp_batch_id paths @ '' timed out after ''
                        @ dec_text (unat (d_secs timeout)) @ ''s'')),
                     ch_files ch n, (case ch_group ch of None \<Rightarrow> [] | Some g \<Rightarrow> [g]))
           | Some (n, True) \<Rightarrow>
               Some ((case ch_end ch of
                  Wait_Failed e \<Rightarrow> Err (Prover_Io e)
                | Exited code \<Rightarrow>
                    if code = 0 then Ok ()
                    else Err (Prover_Command (''the proving command for '' @ pp_batch_id paths
                      @ '' exited with status '' @ int_text code @ ''; see the log above for its output''))
                | Killed_By signal \<Rightarrow> Err (Prover_Command (''the proving command for '' @ pp_batch_id paths
                      @ '' was killed by signal '' @ dec_text signal @ ''; see the log above for its output''))),
                 ch_files ch n, [])))"

definition prove_sp1 ::
  "hexlib \<Rightarrow> proving \<Rightarrow> 'addr service_config \<Rightarrow> string \<Rightarrow> bytes \<Rightarrow> files
   \<Rightarrow> ((prover_error + proof_bundle) \<times> files \<times> nat list) option" where
  "prove_sp1 H P c batch_id wire_input fs =
     (case sv_elf_path c of
        None \<Rightarrow> Some (Err MissingSp1Elf, fs, [])
      | Some elf \<Rightarrow>
          (let paths = proof_paths_new (sv_proof_dir c) batch_id in
           case pv_mkdir P (sv_proof_dir c) of
             Some e \<Rightarrow> Some (Err (Prover_Io e), fs, [])
           | None \<Rightarrow>
               (case pv_write P (pp_wire paths) of
                  Some (e, left) \<Rightarrow> Some (Err (Prover_Io e), fs(pp_wire paths := left), [])
                | None \<Rightarrow>
                    (case run_prove_command P (sv_prove_timeout c) elf paths (fs(pp_wire paths \<mapsto> wire_input)) of
                       None \<Rightarrow> None
                     | Some (outcome, fs1, killed) \<Rightarrow>
                         (let fs2 = remove_file P (pp_wire paths) fs1 in
                          Some (and_then outcome (\<lambda>_.
                             case fs2 (pp_info paths) of
                               None \<Rightarrow> Err (Prover_Command (''the proving command for '' @ batch_id
                                 @ '' exited 0 without writing '' @ pp_info paths @ '': ''
                                 @ pv_read_error P (pp_info paths)))
                             | Some info \<Rightarrow>
                                 map_err (\<lambda>e. Prover_Command (pp_info paths @ '' of '' @ batch_id
                                     @ '' is not a proof info: '' @ e))
                                   (from_info_json H (pv_hex_text P) (pv_parse_info P) info)),
                           fs2, killed))))))"

text \<open>A panic of the precheck is the failure of the task it runs in.\<close>

definition prove ::
  "('m) api_libs_scheme \<Rightarrow> proving \<Rightarrow> 'addr service_config \<Rightarrow> string \<Rightarrow> bytes \<Rightarrow> files
   \<Rightarrow> ((prover_error + proof_bundle) \<times> files \<times> nat list) option" where
  "prove L P c batch_id wire_input fs =
     (case sv_prove_mode c of
        PrecheckOnly \<Rightarrow>
          Some ((case precheck_wire (al_fuel L) (al_sha256 L) (al_keccak L) (al_sdk L) wire_input of
              None \<Rightarrow> Err (Prover_Join (pv_join_text P))
            | Some (Inl e) \<Rightarrow> Err (Prover_Host e)
            | Some (Inr report) \<Rightarrow>
                Ok \<lparr>pb_mode = ''precheck_only'', pb_public_values = pr_public_values_abi report,
                    pb_proof_bytes = [], pb_vkey_hash = None\<rparr>), fs, [])
      | Sp1Groth16 \<Rightarrow> prove_sp1 (al_hex L) P c batch_id wire_input fs)"

text \<open>\<open>Prover::abandon\<close> on the process group of the proof in flight: what is left of it, and what is killed.\<close>

definition abandon :: "nat option \<Rightarrow> nat option \<times> nat list" where
  "abandon active = (None, case active of None \<Rightarrow> [] | Some g \<Rightarrow> [g])"

end
