(* ===== verification/Start.thy ===== *)
theory Start
  imports Prover
begin

text \<open>
  The start of the service: model of \<open>main.rs\<close>, of \<open>load_intake\<close> and \<open>load_submitter\<close> of \<open>lib.rs\<close> and
  of the constructors from the environment of \<open>submitter.rs\<close> and \<open>sequencer.rs\<close>. A refusal to start is
  the process's exit with status 2.
\<close>

section \<open>What the service is given\<close>

text \<open>
  \<open>ho_env\<close> is the environment, \<open>ho_read\<close> \<open>read_to_string\<close>, \<open>ho_shell\<close> a command line run with a limit
  (the run depends on the limit), \<open>ho_state\<close> the journal found in a state directory, \<open>ho_debug_path\<close> the
  debug text of a path, \<open>ho_vkey_cmd\<close> the guest key command on an ELF and \<open>ho_vkey_answer\<close> the reader of
  its answer.
\<close>

record ('addr, 'v) host =
  ho_env :: environment
  ho_localhost :: 'addr
  ho_parse_addr :: "string \<Rightarrow> 'addr option"
  ho_read :: "string \<Rightarrow> string + string"
  ho_debug_path :: "string \<Rightarrow> string"
  ho_shell :: "duration \<Rightarrow> string \<Rightarrow> run_cmd"
  ho_state :: "string \<Rightarrow> bytes option"
  ho_libs :: "'v prover_libs"
  ho_trust_base :: "string \<Rightarrow> trust_base option"
  ho_vkey_cmd :: "duration \<Rightarrow> string \<Rightarrow> string \<Rightarrow> key_run"
  ho_vkey_answer :: "string \<Rightarrow> string + string"

section \<open>The parts\<close>

definition load_intake ::
  "('addr, 'v, 'm) host_scheme \<Rightarrow> sdk \<Rightarrow> (s1_error \<Rightarrow> string) \<Rightarrow> 'addr service_config
   \<Rightarrow> string + envelope_intake" where
  "load_intake W S host_text c =
     (case (sv_deployment_config_path c, sv_trust_base_path c) of
        (Some dep, Some tb) \<Rightarrow>
          and_then (map_err (\<lambda>e. ''read '' @ ho_debug_path W dep @ '': '' @ e) (ho_read W dep)) (\<lambda>dep_json.
          and_then (map_err (\<lambda>e. ''read '' @ ho_debug_path W tb @ '': '' @ e) (ho_read W tb)) (\<lambda>tb_json.
          map_err (\<lambda>e. ''intake init: '' @ host_text e)
            (intake_from_json (pl_json (ho_libs W)) (pl_hex (ho_libs W)) S (ho_trust_base W) dep_json tb_json
               (sv_justification_tag c))))
      | _ \<Rightarrow> Err ''BRIDGE_DEPLOYMENT_CONFIG and TRUST_BASE_PATH are required'')"

definition env_command :: "environment \<Rightarrow> string \<Rightarrow> string option" where
  "env_command env key =
     (case env key of None \<Rightarrow> None | Some cmd \<Rightarrow> if trim cmd = [] then None else Some cmd)"

definition submitter_from_env :: "('addr, 'v, 'm) host_scheme \<Rightarrow> duration \<Rightarrow> submitter" where
  "submitter_from_env W timeout =
     \<lparr>sm_submit = map_option (ho_shell W timeout) (env_command (ho_env W) ''BRIDGE_RETURN_SUBMIT_CMD''),
      sm_simulate = map_option (ho_shell W timeout) (env_command (ho_env W) ''BRIDGE_RETURN_SIMULATE_CMD'')\<rparr>"

definition load_submitter ::
  "('addr, 'v, 'm) host_scheme \<Rightarrow> 'addr service_config \<Rightarrow> string + submitter" where
  "load_submitter W c = require_simulation (submitter_from_env W (sv_command_timeout c))"

definition chain_events_from_env :: "('addr, 'v, 'm) host_scheme \<Rightarrow> duration \<Rightarrow> chain_events" where
  "chain_events_from_env W timeout =
     \<lparr>ce_backend = map_option (ho_shell W timeout) (env_command (ho_env W) ''BRIDGE_RETURN_EVENTS_CMD''),
      ce_confirm = map_option (ho_shell W timeout) (env_command (ho_env W) ''BRIDGE_RETURN_CONFIRM_CMD'')\<rparr>"

definition open_store ::
  "('addr, 'v, 'm) host_scheme \<Rightarrow> (bytes \<Rightarrow> bytes) \<Rightarrow> event_json \<Rightarrow> 'addr service_config \<Rightarrow> u128
   \<Rightarrow> io_error + store" where
  "open_store W sha256 J c now_ms =
     (case sv_state_dir c of
        Some dir \<Rightarrow> store_open (pl_hex (ho_libs W)) sha256 J (ho_state W dir) (sv_retry c) now_ms
      | None \<Rightarrow> Ok (store_memory (sv_retry c)))"

definition guest_of ::
  "('addr, 'v, 'm) host_scheme \<Rightarrow> 'addr service_config \<Rightarrow> prover_error + guest_check" where
  "guest_of W c =
     check_guest (ho_libs W) (ho_read W) (ho_vkey_cmd W (sv_command_timeout c) (sv_vkey_cmd c))
       (ho_vkey_answer W) c"

section \<open>Starting\<close>

datatype start_refusal =
    Refused_Config config_error
  | Refused_Intake string
  | Refused_State io_error
  | Refused_Submitter string
  | Refused_Guest prover_error

record 'addr service =
  se_app :: "'addr app_state"
  se_submitter :: submitter
  se_limits :: limits
  se_retry :: retry_policy
  se_guest :: guest_check

definition start ::
  "('addr, 'v, 'm) host_scheme \<Rightarrow> ('n) api_libs_scheme \<Rightarrow> u128 \<Rightarrow> start_refusal + 'addr service" where
  "start W L now_ms =
     and_then (map_err Refused_Config
         (from_env (ho_localhost W) (ho_parse_addr W) (pl_hex (ho_libs W)) (ho_env W))) (\<lambda>c.
     and_then (map_err Refused_Intake (load_intake W (al_sdk L) (al_host_text L) c)) (\<lambda>intake.
     and_then (map_err Refused_State (open_store W (al_sha256 L) (al_json L) c now_ms)) (\<lambda>s.
     and_then (map_err Refused_Submitter (load_submitter W c)) (\<lambda>submitter.
     let events = chain_events_from_env W (sv_command_timeout c) in
     and_then (map_err Refused_Guest (guest_of W c)) (\<lambda>check.
       Ok \<lparr>se_app = \<lparr>ap_config = c, ap_store = s, ap_intake = Some intake, ap_chain_events = events,
              ap_draining = False, ap_submits = submits submitter\<rparr>,
           se_submitter = submitter, se_limits = limits_of c, se_retry = sv_retry c,
           se_guest = check\<rparr>)))))"

text \<open>What \<open>main\<close> does once the service has stopped: an abandoned proof is killed.\<close>

definition shut_down :: "stopped \<Rightarrow> nat option \<Rightarrow> nat list" where
  "shut_down how active = (case how of Drained \<Rightarrow> [] | Abandoned \<Rightarrow> snd (abandon active))"

end
