(* ===== verification/Json_Lib.thy ===== *)
theory Json_Lib
  imports Text_Lib
begin

text \<open>
  A JSON value as data, with the readers of \<open>jsonlib\<close> on it: the concrete library the witnesses use.
  The parser of texts stays a parameter.
\<close>

datatype json =
    J_Null
  | J_Bool bool
  | J_Num u64
  | J_Str string
  | J_Arr "json list"
  | J_Obj "(string \<times> json) list"

fun json_get :: "json \<Rightarrow> string \<Rightarrow> json option" where
  "json_get (J_Obj fs) key = map_of fs key"
| "json_get _ key = None"

definition json_index :: "json \<Rightarrow> string \<Rightarrow> json" where
  "json_index v key = (case json_get v key of None \<Rightarrow> J_Null | Some x \<Rightarrow> x)"

fun json_as_str :: "json \<Rightarrow> string option" where
  "json_as_str (J_Str s) = Some s"
| "json_as_str _ = None"

fun json_as_array :: "json \<Rightarrow> json list option" where
  "json_as_array (J_Arr xs) = Some xs"
| "json_as_array _ = None"

fun json_as_u64 :: "json \<Rightarrow> u64 option" where
  "json_as_u64 (J_Num n) = Some n"
| "json_as_u64 _ = None"

fun json_as_bool :: "json \<Rightarrow> bool option" where
  "json_as_bool (J_Bool b) = Some b"
| "json_as_bool _ = None"

text \<open>A pointer is the keys between its slashes; escapes and positions in arrays are not read.\<close>

fun pointer_keys :: "string \<Rightarrow> string \<Rightarrow> string list" where
  "pointer_keys key [] = [key]"
| "pointer_keys key (c # cs) = (if c = CHR ''/'' then key # pointer_keys [] cs else pointer_keys (key @ [c]) cs)"

definition json_pointer :: "json \<Rightarrow> string \<Rightarrow> json option" where
  "json_pointer v path =
     foldl (\<lambda>x key. case x of None \<Rightarrow> None | Some y \<Rightarrow> json_get y key) (Some v) (tl (pointer_keys [] path))"

definition std_json :: "(string \<Rightarrow> json option) \<Rightarrow> json jsonlib" where
  "std_json parse =
     \<lparr>js_parse = parse, js_index = json_index, js_get = json_get, js_pointer = json_pointer,
      js_as_str = json_as_str, js_as_array = json_as_array, js_as_u64 = json_as_u64,
      js_is_null = (\<lambda>v. v = J_Null)\<rparr>"

end
