(* ===== verification/Start_Proofs.thy ===== *)
theory Start_Proofs
  imports Start Api_Proofs Json_Lib
begin

text \<open>
  What a started service is known to have, and that stopping it in order and starting it again costs
  no return an attempt.
\<close>

section \<open>Starting\<close>

lemma load_intake_Ok:
  "load_intake W S text c = Ok i \<longleftrightarrow>
     (\<exists>dep tb dep_json tb_json. sv_deployment_config_path c = Some dep \<and> sv_trust_base_path c = Some tb
       \<and> ho_read W dep = Ok dep_json \<and> ho_read W tb = Ok tb_json
       \<and> intake_from_json (pl_json (ho_libs W)) (pl_hex (ho_libs W)) S (ho_trust_base W) dep_json tb_json
           (sv_justification_tag c) = Ok i)"
  by (auto simp: load_intake_def and_then_Ok_iff split: option.splits)

lemma load_submitter_Ok:
  "load_submitter W c = Ok s \<longleftrightarrow> s = submitter_from_env W (sv_command_timeout c) \<and> sm_simulate s \<noteq> None"
  by (auto simp: load_submitter_def require_simulation_def split: if_splits)

lemma check_guest_Ok:
  assumes "check_guest L read_text cmd parse c = Ok g"
  shows "(g = NotProving \<longleftrightarrow> sv_prove_mode c = PrecheckOnly)
    \<and> (sv_prove_mode c = Sp1Groth16 \<longrightarrow> (\<exists>elf vkey. sv_elf_path c = Some elf \<and> program_vkey cmd parse elf = Ok vkey
        \<and> (case vault_guest_key L read_text (sv_deployment_config_path c) of
             Ok None \<Rightarrow> g = Unpinned vkey
           | Ok (Some (VaultGuestKey key)) \<Rightarrow> g = Admitted_Key vkey \<and> parse_hex32 (pl_hex L) vkey = Some key
           | _ \<Rightarrow> False)))"
proof (cases "sv_prove_mode c")
  case PrecheckOnly
  with assms show ?thesis by (simp add: check_guest_def)
next
  case Sp1Groth16
  with assms obtain elf vault vkey where e: "sv_elf_path c = Some elf"
    "vault_guest_key L read_text (sv_deployment_config_path c) = Ok vault" "program_vkey cmd parse elf = Ok vkey"
    "(case vault of None \<Rightarrow> Ok (Unpinned vkey)
      | Some key \<Rightarrow> and_then (map_err Prover_Guest (admit_key L key vkey)) (\<lambda>_. Ok (Admitted_Key vkey))) = Ok g"
    by (auto simp: check_guest_def and_then_Ok_iff ok_or_def split: option.splits)
  show ?thesis
  proof (cases vault)
    case None
    with e Sp1Groth16 show ?thesis by auto
  next
    case (Some k)
    then obtain key where "vault = Some (VaultGuestKey key)" by (cases k) auto
    with e Sp1Groth16 show ?thesis by (auto simp: and_then_Ok_iff split: if_splits)
  qed
qed

lemma start_Ok:
  assumes "start W L now = Ok se"
  obtains c i s where "from_env (ho_localhost W) (ho_parse_addr W) (pl_hex (ho_libs W)) (ho_env W) = Ok c"
    "load_intake W (al_sdk L) (al_host_text L) c = Ok i" "open_store W (al_sha256 L) (al_json L) c now = Ok s"
    "load_submitter W c = Ok (se_submitter se)" "guest_of W c = Ok (se_guest se)"
    "se_app se = \<lparr>ap_config = c, ap_store = s, ap_intake = Some i,
       ap_chain_events = chain_events_from_env W (sv_command_timeout c), ap_draining = False,
       ap_submits = submits (se_submitter se)\<rparr>"
    "se_limits se = limits_of c" "se_retry se = sv_retry c"
  using assms by (auto simp: start_def and_then_Ok_iff Let_def)

lemma simulation_command:
  "sm_simulate (submitter_from_env W timeout) \<noteq> None \<Longrightarrow>
   \<exists>cmd. ho_env W ''BRIDGE_RETURN_SIMULATE_CMD'' = Some cmd \<and> trim cmd \<noteq> []
     \<and> sm_simulate (submitter_from_env W timeout) = Some (ho_shell W timeout cmd)"
  by (auto simp: submitter_from_env_def env_command_def split: option.splits if_splits)

text \<open>What the proving command would do with another program than the configured one changes no proof.\<close>

lemma prove_only_elf:
  "sv_elf_path c = Some elf \<Longrightarrow>
   prove L (P\<lparr>pv_spawn := \<lambda>program. if program = elf then pv_spawn P program else other program\<rparr>) c bid wire fs
     = prove L P c bid wire fs"
proof -
  assume elf: "sv_elf_path c = Some elf"
  let ?Q = "P\<lparr>pv_spawn := \<lambda>program. if program = elf then pv_spawn P program else other program\<rparr>"
  have rm: "remove_file ?Q path f = remove_file P path f" for path f by (simp add: remove_file_def)
  have run: "run_prove_command ?Q d elf paths f = run_prove_command P d elf paths f" for d paths f
    by (simp add: run_prove_command_def rm)
  show ?thesis
    by (simp add: prove_def prove_sp1_def elf rm run Let_def
        cong: option.case_cong sum.case_cong prod.case_cong prove_mode.case_cong)
qed

text \<open>C34. The service fails closed: when it starts, every burn it admits is checked against a deployment and a trust
  base it has read, it has the command line of the environment to simulate batches with, and its limits are
  positive. When it proves, the guest key command has answered the key of the very ELF that proofs are
  made with (another program is never run), and that is the key the deployment record names for the
  vault, or the record names none. Whatever of this is missing is a refusal to start.\<close>

theorem started_service:
  assumes "start W L now = Ok se"
  shows "(\<exists>i dep tb. ap_intake (se_app se) = Some i
      \<and> sv_deployment_config_path (ap_config (se_app se)) = Some dep
      \<and> sv_trust_base_path (ap_config (se_app se)) = Some tb
      \<and> (\<exists>dep_json tb_json. ho_read W dep = Ok dep_json \<and> ho_read W tb = Ok tb_json
          \<and> intake_from_json (pl_json (ho_libs W)) (pl_hex (ho_libs W)) (al_sdk L) (ho_trust_base W) dep_json
              tb_json (sv_justification_tag (ap_config (se_app se))) = Ok i
          \<and> (sv_prove_mode (ap_config (se_app se)) = Sp1Groth16 \<longrightarrow>
              (\<exists>vkey elf. sv_elf_path (ap_config (se_app se)) = Some elf
                 \<and> program_vkey (ho_vkey_cmd W (sv_command_timeout (ap_config (se_app se)))
                       (sv_vkey_cmd (ap_config (se_app se)))) (ho_vkey_answer W) elf = Ok vkey
                 \<and> (\<forall>P other bid wire fs.
                       prove L (P\<lparr>pv_spawn := \<lambda>program. if program = elf then pv_spawn P program else other program\<rparr>)
                         (ap_config (se_app se)) bid wire fs
                       = prove L P (ap_config (se_app se)) bid wire fs)
                 \<and> (from_deployment (ho_libs W) dep_json = Ok None \<and> se_guest se = Unpinned vkey
                   \<or> (\<exists>key. from_deployment (ho_libs W) dep_json = Ok (Some (VaultGuestKey key))
                        \<and> parse_hex32 (pl_hex (ho_libs W)) vkey = Some key \<and> se_guest se = Admitted_Key vkey))))))
    \<and> (\<exists>cmd. ho_env W ''BRIDGE_RETURN_SIMULATE_CMD'' = Some cmd \<and> trim cmd \<noteq> []
        \<and> sm_simulate (se_submitter se) = Some (ho_shell W (sv_command_timeout (ap_config (se_app se))) cmd))
    \<and> ap_submits (se_app se) = submits (se_submitter se)
    \<and> 0 < lim_max_size (se_limits se) \<and> 0 < lim_max_bytes (se_limits se)
    \<and> \<not> ap_draining (se_app se)"
proof -
  obtain c i s where st: "from_env (ho_localhost W) (ho_parse_addr W) (pl_hex (ho_libs W)) (ho_env W) = Ok c"
    "load_intake W (al_sdk L) (al_host_text L) c = Ok i" "load_submitter W c = Ok (se_submitter se)"
    "guest_of W c = Ok (se_guest se)" and app: "ap_config (se_app se) = c" "ap_intake (se_app se) = Some i"
    "ap_submits (se_app se) = submits (se_submitter se)" "\<not> ap_draining (se_app se)" "se_limits se = limits_of c"
    by (rule start_Ok[OF assms]) simp
  have lim: "0 < lim_max_size (limits_of c)" "0 < lim_max_bytes (limits_of c)"
    using from_env_ok(1)[OF st(1)] by (auto simp: config_ok_def limits_of_def)
  obtain dep tb dep_json tb_json where d: "sv_deployment_config_path c = Some dep" "sv_trust_base_path c = Some tb"
    "ho_read W dep = Ok dep_json" "ho_read W tb = Ok tb_json"
    "intake_from_json (pl_json (ho_libs W)) (pl_hex (ho_libs W)) (al_sdk L) (ho_trust_base W) dep_json tb_json
       (sv_justification_tag c) = Ok i"
    using st(2) unfolding load_intake_Ok by blast
  have g: "\<exists>vkey elf. sv_elf_path c = Some elf
      \<and> program_vkey (ho_vkey_cmd W (sv_command_timeout c) (sv_vkey_cmd c)) (ho_vkey_answer W) elf = Ok vkey
      \<and> (\<forall>P other bid wire fs.
           prove L (P\<lparr>pv_spawn := \<lambda>program. if program = elf then pv_spawn P program else other program\<rparr>) c bid wire fs
           = prove L P c bid wire fs)
      \<and> (from_deployment (ho_libs W) dep_json = Ok None \<and> se_guest se = Unpinned vkey
        \<or> (\<exists>key. from_deployment (ho_libs W) dep_json = Ok (Some (VaultGuestKey key))
             \<and> parse_hex32 (pl_hex (ho_libs W)) vkey = Some key \<and> se_guest se = Admitted_Key vkey))"
    if m: "sv_prove_mode c = Sp1Groth16"
  proof -
    obtain elf vkey where e: "sv_elf_path c = Some elf"
      "program_vkey (ho_vkey_cmd W (sv_command_timeout c) (sv_vkey_cmd c)) (ho_vkey_answer W) elf = Ok vkey"
      "case vault_guest_key (ho_libs W) (ho_read W) (sv_deployment_config_path c) of
         Ok None \<Rightarrow> se_guest se = Unpinned vkey
       | Ok (Some (VaultGuestKey key)) \<Rightarrow>
           se_guest se = Admitted_Key vkey \<and> parse_hex32 (pl_hex (ho_libs W)) vkey = Some key
       | _ \<Rightarrow> False"
      using check_guest_Ok[OF st(4)[unfolded guest_of_def]] m by blast
    from e(3) have "from_deployment (ho_libs W) dep_json = Ok None \<and> se_guest se = Unpinned vkey
        \<or> (\<exists>key. from_deployment (ho_libs W) dep_json = Ok (Some (VaultGuestKey key))
             \<and> parse_hex32 (pl_hex (ho_libs W)) vkey = Some key \<and> se_guest se = Admitted_Key vkey)"
      by (auto simp: vault_guest_key_def d(1,3) split: sum.splits option.splits vault_key.splits)
    with e(1,2) prove_only_elf[where c = c, OF e(1)] show ?thesis by blast
  qed
  have sim: "\<exists>cmd. ho_env W ''BRIDGE_RETURN_SIMULATE_CMD'' = Some cmd \<and> trim cmd \<noteq> []
      \<and> sm_simulate (se_submitter se) = Some (ho_shell W (sv_command_timeout c) cmd)"
    using st(3) simulation_command[of W "sv_command_timeout c"] unfolding load_submitter_Ok by (elim conjE) simp
  show ?thesis unfolding app using d g lim app(3,4) sim by blast
qed

definition ex_vkey :: bytes where "ex_vkey = replicate 32 7"

definition ex_deployment :: json where
  "ex_deployment = J_Obj [(''config'', J_Obj
       [(''source_chain_id'', J_Num (cfg_source_chain_id wit_config)),
        (''vault'', J_Str (hex32 std_hex (cfg_vault wit_config))),
        (''asset'', J_Str (hex32 std_hex (cfg_asset wit_config))),
        (''token_type'', J_Str (hex32 std_hex (cfg_token_type wit_config))),
        (''coin_id'', J_Str (hex32 std_hex (cfg_coin_id wit_config))),
        (''reason_tag'', J_Num (cfg_reason_tag wit_config)),
        (''lock_domain'', J_Str (hex32 std_hex (cfg_lock_domain wit_config))),
        (''nullifier_domain'', J_Str (hex32 std_hex (cfg_nullifier_domain wit_config)))]),
     (''deployment'', J_Obj [(''vkey'', J_Str (hex32 std_hex ex_vkey))])]"

definition ex_host :: "(unit, json) host" where
  "ex_host = \<lparr>ho_env = [''BRIDGE_DEPLOYMENT_CONFIG'' \<mapsto> ''dep'', ''TRUST_BASE_PATH'' \<mapsto> ''tb'',
        ''SP1_GUEST_ELF'' \<mapsto> ''elf'', ''BRIDGE_RETURN_PROVE_MODE'' \<mapsto> ''sp1_groth16'',
        ''BRIDGE_RETURN_SIMULATE_CMD'' \<mapsto> ''sim''],
     ho_localhost = (), ho_parse_addr = (\<lambda>_. None), ho_read = (\<lambda>path. Ok path), ho_debug_path = id,
     ho_shell = (\<lambda>_ _ _. Err []), ho_state = (\<lambda>_. None),
     ho_libs = \<lparr>pl_json = std_json (\<lambda>text. if text = ''dep'' then Some ex_deployment else None),
        pl_hex = std_hex, pl_json_error = id, pl_show = (\<lambda>_. [])\<rparr>,
     ho_trust_base = (\<lambda>_. Some ex_tb),
     ho_vkey_cmd = (\<lambda>_ _ _. Key_Ran \<lparr>co_code = Some 0, co_status = [], co_stdout = ''answer'', co_stderr = []\<rparr>),
     ho_vkey_answer = (\<lambda>_. Ok (hex32 std_hex ex_vkey))\<rparr>"

lemma ex_host_config:
  "\<exists>c. from_env () (\<lambda>_. None) std_hex (ho_env ex_host) = Ok c \<and> sv_deployment_config_path c = Some ''dep''
     \<and> sv_trust_base_path c = Some ''tb'' \<and> sv_elf_path c = Some ''elf'' \<and> sv_prove_mode c = Sp1Groth16
     \<and> sv_state_dir c = None"
  by (simp add: eval_config ex_host_def)

lemma decode_hex32 [simp]: "hex_decode std_hex (strip_0x (hex32 std_hex bs)) = Some bs"
  using std_hex_ok hex_bytes_hex32[of std_hex bs] by (simp add: hex_bytes_def)

lemma ex_host_intake:
  "\<exists>i. intake_from_json (pl_json (ho_libs ex_host)) std_hex S (ho_trust_base ex_host) ''dep'' tb tag = Ok i"
proof -
  let ?J = "std_json (\<lambda>text. if text = ''dep'' then Some ex_deployment else None)"
  have l: "length (cfg_vault wit_config) = 20" "length (cfg_asset wit_config) = 20"
    "length (cfg_token_type wit_config) = 32" "length (cfg_coin_id wit_config) = 32"
    "length (cfg_lock_domain wit_config) = 32" "length (cfg_nullifier_domain wit_config) = 32"
    by (simp_all add: wit_config_def)
  obtain fs where c: "json_get ex_deployment ''config'' = Some fs" "bridge_config_from_json ?J std_hex fs = Ok wit_config"
  proof (rule that)
    show "json_get ex_deployment ''config'' = Some (the (json_get ex_deployment ''config''))"
      by (simp add: ex_deployment_def)
    show "bridge_config_from_json ?J std_hex (the (json_get ex_deployment ''config'')) = Ok wit_config"
      by (simp add: ex_deployment_def bridge_config_from_json_def json_u64_def json_hex_def std_json_def
          json_index_def l)
  qed
  have "json_get ex_deployment ''trust_base'' = None" by (simp add: ex_deployment_def)
  then show ?thesis using c
    by (simp add: intake_from_json_def ex_host_def std_json_def Let_def)
qed

lemma ex_host_key:
  "json_pointer ex_deployment ''/deployment/vkey'' = Some (J_Str (hex32 std_hex ex_vkey))"
  "parse_hex32 std_hex (hex32 std_hex ex_vkey) = Some ex_vkey"
  using std_hex_ok by (simp_all add: json_pointer_def ex_deployment_def ex_vkey_def)

lemma ex_host_record:
  "from_deployment (ho_libs ex_host) ''dep'' = Ok (Some (VaultGuestKey ex_vkey))"
  by (simp add: from_deployment_def ex_host_def std_json_def ex_host_key)

lemma ex_host_guest:
  assumes "sv_prove_mode c = Sp1Groth16" "sv_elf_path c = Some ''elf''" "sv_deployment_config_path c = Some ''dep''"
  shows "guest_of ex_host c = Ok (Admitted_Key (hex32 std_hex ex_vkey))"
proof -
  have v: "vault_guest_key (ho_libs ex_host) (ho_read ex_host) (Some ''dep'') = Ok (Some (VaultGuestKey ex_vkey))"
    using ex_host_record by (simp add: vault_guest_key_def ex_host_def)
  have h: "pl_hex (ho_libs ex_host) = std_hex" by (simp add: ex_host_def)
  have k: "program_vkey (ho_vkey_cmd ex_host d e) (ho_vkey_answer ex_host) elf = Ok (hex32 std_hex ex_vkey)" for d e elf
    by (simp add: program_vkey_def ex_host_def cmd_success_def)
  show ?thesis using assms by (simp add: guest_of_def check_guest_def v h k ex_host_key)
qed

lemma ex_host_starts:
  assumes "from_env () (\<lambda>_. None) std_hex (ho_env ex_host) = Ok c" "sv_deployment_config_path c = Some ''dep''"
    "sv_trust_base_path c = Some ''tb''" "sv_elf_path c = Some ''elf''" "sv_prove_mode c = Sp1Groth16"
    "sv_state_dir c = None"
  shows "\<exists>se. start ex_host ex_libs 0 = Ok se \<and> ap_config (se_app se) = c"
proof -
  have e: "ho_parse_addr ex_host = (\<lambda>_. None)" "pl_hex (ho_libs ex_host) = std_hex"
    unfolding ex_host_def host.simps prover_libs.simps by (rule refl)+
  have r: "ho_read ex_host p = Ok p" for p unfolding ex_host_def host.simps by (rule refl)
  obtain i where "intake_from_json (pl_json (ho_libs ex_host)) std_hex (al_sdk ex_libs) (ho_trust_base ex_host)
      ''dep'' ''tb'' (sv_justification_tag c) = Ok i" using ex_host_intake by blast
  then have i: "load_intake ex_host (al_sdk ex_libs) (al_host_text ex_libs) c = Ok i"
    using assms(2,3) unfolding load_intake_Ok e r by simp
  have "env_command (ho_env ex_host) ''BRIDGE_RETURN_SIMULATE_CMD'' = Some ''sim''"
    by (simp add: env_command_def ex_host_def trim_def is_space_def)
  then have s: "load_submitter ex_host c = Ok (submitter_from_env ex_host (sv_command_timeout c))"
    unfolding load_submitter_Ok by (simp add: submitter_from_env_def)
  have o: "open_store ex_host (al_sha256 ex_libs) (al_json ex_libs) c 0 = Ok (store_memory (sv_retry c))"
    using assms(6) by (simp add: open_store_def)
  show ?thesis
    unfolding start_def e using assms(1) i s o ex_host_guest[OF assms(5,4,2)] by (simp add: Let_def)
qed

theorem started_service_witness:
  "\<exists>se. start ex_host ex_libs 0 = Ok se \<and> ap_intake (se_app se) \<noteq> None
     \<and> (\<exists>vkey. se_guest se = Admitted_Key vkey \<or> se_guest se = Unpinned vkey)"
proof -
  obtain c se where c: "start ex_host ex_libs 0 = Ok se" "sv_prove_mode (ap_config (se_app se)) = Sp1Groth16"
    using ex_host_config ex_host_starts by metis
  from started_service[OF c(1)] c show ?thesis by blast
qed

section \<open>Stopping\<close>

text \<open>A drain ends with the orchestrator's task, also when that has panicked in the middle of a batch.\<close>

lemma drained_after_panic:
  "ready w \<noteq> [] \<Longrightarrow> stop H sha256 J (Some Terminate) w (\<lambda>_. Wake_Orchestrator) Joined_Panicked t d s
     = Returns (Drained, True, s, [])"
  by (simp add: stop_def drain_start_def)

lemma wake_ready_iff:
  "b \<in> set (ready w) \<longleftrightarrow> (\<exists>t. wake_at w b = Some t \<and> (\<forall>c u. wake_at w c = Some u \<longrightarrow> t \<le> u))"
proof -
  have all: "(\<forall>c. P c) \<longleftrightarrow> P Wake_Orchestrator \<and> P Wake_Signal \<and> P Wake_Expiry" for P
    by (metis wake.exhaust)
  have m: "b \<in> set [Wake_Orchestrator, Wake_Signal, Wake_Expiry]" by (cases b) simp_all
  show ?thesis unfolding ready_def all using m by (auto split: option.splits)
qed

lemma stop_abandoned:
  assumes "stop H sha256 J first w pick joined t d s = Returns (Abandoned, d', s', ids)" "joined \<noteq> Joined_Panicked"
  shows "stop_proving H sha256 J t s = Some (s', ids)"
  using assms by (auto simp: stop_def abort_orchestrator_def split: option.splits stop_signal.splits if_splits
      wake.splits joined.splits)

lemma active_batch_idle: "active_batch l = None \<Longrightarrow> interruptions l t orderly = []"
  by (auto simp: interruptions_def active_batch_def find_None_iff filter_empty_conv)

lemma interrupt_record_orderly:
  assumes "rr_status (rt_record r) = Proving"
  shows "is_pending (on_record (interrupt_record True t retry) r)"
    "rr_attempts (rt_record (on_record (interrupt_record True t retry) r)) = rr_attempts (rt_record r)"
    "rt_burn (on_record (interrupt_record True t retry) r) = rt_burn r"
  using assms by (auto simp: on_record_def interrupt_record_def requeue_after_stop_def is_pending_def)

lemma reopen:
  assumes "durable H sha256 J s" "active_batch (st_ledger s) = None" "writes J (Snapshot (st_ledger s))"
  shows "\<exists>s'. store_open H sha256 J (Some (journal_bytes (st_journal s))) (st_retry s) t = Ok s'
    \<and> st_ledger s' = st_ledger s \<and> durable H sha256 J s'"
proof -
  obtain fs where fs: "\<forall>e \<in> set fs. writes J e" "st_journal s = File (journal_of J fs)"
    "st_ledger s = foldl (apply_event H sha256 (st_retry s)) ledger_default fs"
    using assms(1) by (auto simp: durable_def)
  have t: "torn J [] (Snapshot (st_ledger s))" "\<not> entered J [] (Snapshot (st_ledger s))" "utf8_valid []"
    using assms(3) by (auto simp: torn_def entered_def elim!: writesD)
  have r: "ledger_recover (st_ledger s) t = []" using assms(2) by (simp add: ledger_recover_def active_batch_idle)
  have "store_open H sha256 J (Some (journal_of J fs @ [])) (st_retry s) t
      = Ok \<lparr>st_ledger = st_ledger s, st_journal = File (journal_of J [Snapshot (st_ledger s)]), st_retry = st_retry s\<rparr>"
    using open_written[OF fs(1) assms(3) t(1) _ refl, of "st_ledger s" H sha256 "st_retry s" t] t(2,3) r assms(3)
    by (simp add: fs(3)[symmetric])
  moreover have "durable H sha256 J
      \<lparr>st_ledger = st_ledger s, st_journal = File (journal_of J [Snapshot (st_ledger s)]), st_retry = st_retry s\<rparr>"
    unfolding durable_def using assms(3) by (intro exI[of _ "[Snapshot (st_ledger s)]"]) simp
  ultimately show ?thesis by (simp add: fs(2))
qed

text \<open>C35. A restart costs no attempt: when the service is stopped in the middle of a batch, whether by a second
  signal, an interrupt or the drain's timeout, and is started again on what it has written, the store is
  that of the stop, nothing is being proven, every return the stop found in the prover is back in
  the queue with the attempts it had, and no other return has changed.\<close>

theorem stop_costs_nothing:
  assumes "durable H sha256 J s" "ledger_run H sha256 (st_retry s) ledger_default es (st_ledger s)"
    and "stop H sha256 J first w pick joined t d s = Returns (Abandoned, d', s', ids)" "joined \<noteq> Joined_Panicked"
    and "\<forall>e \<in> set (ledger_stop (st_ledger s) t) \<union> {Snapshot (st_ledger s')}. writes J e"
  shows "\<exists>s2. store_open H sha256 J (Some (journal_bytes (st_journal s'))) (st_retry s) t2 = Ok s2
    \<and> st_ledger s2 = st_ledger s' \<and> durable H sha256 J s2 \<and> active_batch (st_ledger s2) = None
    \<and> (\<forall>k r. ledger_get (st_ledger s) k = Some r \<longrightarrow>
        (\<exists>r'. ledger_get (st_ledger s2) k = Some r' \<and> rt_burn r' = rt_burn r
          \<and> rr_attempts (rt_record r') = rr_attempts (rt_record r)
          \<and> (if rr_status (rt_record r) = Proving then is_pending r' else r' = r)))"
proof -
  have ok: "ledger_ok (st_retry s) (st_ledger s)" by (rule ledger_run_keeps[OF assms(2) ledger_default_ok])
  have c: "commit_all H sha256 J (ledger_stop (st_ledger s) t) s = Some s'"
    using stop_abandoned[OF assms(3,4)] by (auto simp: stop_proving_def dest: stop_loop_commits)
  have l: "st_retry s' = st_retry s"
    "st_ledger s' = foldl (apply_event H sha256 (st_retry s)) (st_ledger s) (interruptions (st_ledger s) t True)"
    using commit_all_ledger[OF c] by (simp_all add: ledger_stop_def)
  have idle: "active_batch (st_ledger s') = None" by (rule interrupted_active[OF ok l(2)])
  obtain s2 where s2: "store_open H sha256 J (Some (journal_bytes (st_journal s'))) (st_retry s) t2 = Ok s2"
    "st_ledger s2 = st_ledger s'" "durable H sha256 J s2"
    using reopen[OF durable_commits[OF assms(1) c] idle, of t2] assms(5) l(1) by auto
  have "\<exists>r'. ledger_get (st_ledger s') k = Some r' \<and> rt_burn r' = rt_burn r
      \<and> rr_attempts (rt_record r') = rr_attempts (rt_record r)
      \<and> (if rr_status (rt_record r) = Proving then is_pending r' else r' = r)"
    if "ledger_get (st_ledger s) k = Some r" for k r
    unfolding interrupted_get[OF ok that l(2)] using interrupt_record_orderly by auto
  with s2 idle show ?thesis by auto
qed

text \<open>A codec of four events, for the example.\<close>

definition quad_json :: "event \<Rightarrow> event \<Rightarrow> event \<Rightarrow> event \<Rightarrow> event_json" where
  "quad_json a b c d =
     \<lparr>ej_to_vec = (\<lambda>e. if e = a then Some [123, 97] else if e = b then Some [123, 98]
         else if e = c then Some [123, 99] else if e = d then Some [123, 100] else None),
      ej_from_str = (\<lambda>t. if t = ''{a'' then Some a else if t = ''{b'' then Some b
         else if t = ''{c'' then Some c else if t = ''{d'' then Some d else None)\<rparr>"

lemma quad_json_writes:
  assumes "distinct [a, b, c, d]" "e \<in> {a, b, c, d}"
  shows "writes (quad_json a b c d) e"
proof -
  have t: "from_utf8 [123, 97] = Some ''{a''" "from_utf8 [123, 98] = Some ''{b''" "from_utf8 [123, 99] = Some ''{c''"
    "from_utf8 [123, 100] = Some ''{d''" by code_simp+
  have p: "ej_from_str (quad_json a b c d) u = None" if "[123, x] = p @ q" "q \<noteq> []" "from_utf8 p = Some u" for x p q u
  proof -
    have "p = [] \<or> p = [123]" using that by (cases p) (auto simp: Cons_eq_append_conv)
    then show ?thesis using that(3) by (auto simp: from_utf8_def quad_json_def utf8_ranges_def split: if_splits)
  qed
  show ?thesis
    unfolding writes_def using assms p t by (auto simp: quad_json_def is_blank_def)
qed

lemma stop_loop_writes:
  "\<forall>e \<in> set es. writes J e \<Longrightarrow> st_journal s = File bs \<Longrightarrow> \<exists>s' out. stop_loop H sha256 J es ids s = Some (s', out)"
proof (induction es arbitrary: s bs ids)
  case (Cons e es)
  then have "\<exists>s1. commit_event H sha256 J e s = Some s1 \<and> st_journal s1 = File (bs @ event_text J e @ [10])"
    by (simp add: commit_event_def journal_append_def event_line_writes)
  with Cons show ?case by fastforce
qed simp

theorem stop_costs_nothing_witness:
  "\<exists>J s s' ids s2 r. st_ledger s = ex_proving_ledger
     \<and> stop std_hex ex_sha J (Some Interrupt) \<lparr>wt_orchestrator = None, wt_signal = None, wt_timeout = from_secs 0\<rparr>
         hd Joined_Cancelled 50 False s = Returns (Abandoned, False, s', ids)
     \<and> store_open std_hex ex_sha J (Some (journal_bytes (st_journal s'))) ex_policy 60 = Ok s2
     \<and> ledger_get (st_ledger s2) ''a'' = Some r \<and> is_pending r"
proof -
  let ?l = "ex_proving_ledger"
  let ?w = "\<lparr>wt_orchestrator = None, wt_signal = None, wt_timeout = from_secs 0\<rparr>"
  have r: "ledger_run std_hex ex_sha ex_policy ledger_default (take 2 ex_events) ?l"
    unfolding ex_proving_ledger_def by (rule ex_run_proving)
  have ok: "ledger_ok ex_policy ?l" by (rule ledger_run_keeps[OF r ledger_default_ok])
  obtain i where i: "set (ledger_stop ?l 50) \<subseteq> {BatchInterrupted i 50 True}"
    unfolding ledger_stop_def interruptions_eq[OF ok] by (cases "active_batch ?l") auto
  define a b where ab: "a = Accepted (Ledger_Runs.ex_burn ''a'') (ex_record ''a'' 1)" "b = BatchFormed [''a''] 10"
  define d where d: "d = Snapshot (foldl (apply_event std_hex ex_sha ex_policy) ?l (ledger_stop ?l 50))"
  define J where "J = quad_json a b (BatchInterrupted i 50 True) d"
  have w: "writes J e" if "e \<in> {a, b, BatchInterrupted i 50 True, d}" for e
    unfolding J_def by (rule quad_json_writes[OF _ that]) (simp add: ab d)
  have es: "take 2 ex_events = [a, b]" by (simp add: ex_events_def ab)
  let ?s = "\<lparr>st_ledger = ?l, st_journal = File (journal_of J [a, b]), st_retry = ex_policy\<rparr>"
  have dur: "durable std_hex ex_sha J ?s"
    unfolding durable_def using w es by (intro exI[of _ "[a, b]"]) (simp add: ex_proving_ledger_def)
  have ws: "\<forall>e \<in> set (ledger_stop ?l 50). writes J e" using w i by blast
  obtain s' ids where st: "stop_proving std_hex ex_sha J 50 ?s = Some (s', ids)"
    using stop_loop_writes[OF ws, of ?s "journal_of J [a, b]" std_hex ex_sha "[]"]
    unfolding stop_proving_def store.simps by blast
  then have stop: "stop std_hex ex_sha J (Some Interrupt) ?w hd Joined_Cancelled 50 False ?s
      = Returns (Abandoned, False, s', ids)" by (simp add: stop_def abort_orchestrator_def)
  have "st_ledger s' = foldl (apply_event std_hex ex_sha ex_policy) ?l (ledger_stop ?l 50)"
    using commit_all_ledger[OF stop_loop_commits] st by (fastforce simp: stop_proving_def)
  then have "\<forall>e \<in> set (ledger_stop (st_ledger ?s) 50) \<union> {Snapshot (st_ledger s')}. writes J e"
    using ws w d by auto
  from stop_costs_nothing[OF dur _ stop _ this, of "take 2 ex_events" 60] r
  obtain s2 where s2: "store_open std_hex ex_sha J (Some (journal_bytes (st_journal s'))) ex_policy 60 = Ok s2"
    "\<forall>k r. ledger_get ?l k = Some r \<longrightarrow> (\<exists>r'. ledger_get (st_ledger s2) k = Some r'
      \<and> (if rr_status (rt_record r) = Proving then is_pending r' else r' = r))"
    by simp blast
  obtain r where "ledger_get ?l ''a'' = Some r" "rr_status (rt_record r) = Proving"
    using ex_proving unfolding ex_proving_ledger_def by (auto simp del: foldl_Cons take_Suc_Cons)
  with s2(2) obtain r' where r': "ledger_get (st_ledger s2) ''a'' = Some r'" "is_pending r'" by fastforce
  have "st_ledger ?s = ?l" by simp
  with stop s2(1) r' show ?thesis by (intro exI conjI)
qed

end
