(* ===== verification/Vec_Hash.thy ===== *)
theory Vec_Hash
  imports Prelude
begin

text \<open>
  The hashes of the reference generator: model of \<open>protocol/vectors/gen/src/hash.rs\<close>, which implements
  SHA-256 and Keccak-256 without a library. Arrays are lists; \<open>while\<close> loops that pad are the
  recursion \<open>zero_pad\<close>.
\<close>

unbundle bit_operations_syntax

section \<open>Shared loops\<close>

text \<open>\<open>while msg.len() % n != r { msg.push(0) }\<close>, for \<open>r < n\<close>.\<close>

function zero_pad :: "nat \<Rightarrow> nat \<Rightarrow> bytes \<Rightarrow> bytes" where
  "zero_pad n r msg = (if r < n \<and> length msg mod n \<noteq> r then zero_pad n r (msg @ [0]) else msg)"
  by pat_completeness auto

lemma zero_pad_measure:
  fixes r n l :: nat
  assumes "r < n" "l mod n \<noteq> r"
  shows "(r + n - Suc l mod n) mod n < (r + n - l mod n) mod n"
proof -
  let ?x = "l mod n"
  have x: "?x < n" using assms(1) by simp
  have s: "Suc l mod n = (if Suc ?x = n then 0 else Suc ?x)" by (simp add: mod_Suc)
  consider "?x < r" | "r < ?x" using assms(2) by linarith
  then show ?thesis
  proof cases
    case 1
    then have "r + n - ?x = n + (r - ?x)" "r + n - Suc ?x = n + (r - Suc ?x)" "Suc ?x \<noteq> n"
      using assms(1) by linarith+
    moreover have "(n + (r - ?x)) mod n = r - ?x" "(n + (r - Suc ?x)) mod n = r - Suc ?x"
      using assms(1) by simp_all
    ultimately show ?thesis using 1 unfolding s by simp linarith
  next
    case 2
    then have l: "(r + n - ?x) mod n = r + n - ?x" using x by simp
    show ?thesis
    proof (cases "Suc ?x = n")
      case True
      with 2 x assms(1) l show ?thesis by (simp add: s)
    next
      case False
      with 2 x have "(r + n - Suc ?x) mod n = r + n - Suc ?x" by simp
      with False x l show ?thesis by (simp add: s)
    qed
  qed
qed

termination zero_pad
  by (relation "measure (\<lambda>(n, r, msg). (r + n - length msg mod n) mod n)") (auto intro: zero_pad_measure)

declare zero_pad.simps [simp del]

text \<open>\<open>slice::chunks\<close>, for a positive size.\<close>

function chunks :: "nat \<Rightarrow> 'a list \<Rightarrow> 'a list list" where
  "chunks n xs = (if n = 0 \<or> xs = [] then [] else take n xs # chunks n (drop n xs))"
  by pat_completeness auto
termination by (relation "measure (\<lambda>(n, xs). length xs)") auto

declare chunks.simps [simp del]

section \<open>SHA-256\<close>

text \<open>The table in the eight rows in which the source writes it.\<close>

definition sha_k0 :: "u32 list" where
  "sha_k0 = [0x428a2f98, 0x71374491, 0xb5c0fbcf, 0xe9b5dba5, 0x3956c25b, 0x59f111f1, 0x923f82a4, 0xab1c5ed5]"

definition sha_k1 :: "u32 list" where
  "sha_k1 = [0xd807aa98, 0x12835b01, 0x243185be, 0x550c7dc3, 0x72be5d74, 0x80deb1fe, 0x9bdc06a7, 0xc19bf174]"

definition sha_k2 :: "u32 list" where
  "sha_k2 = [0xe49b69c1, 0xefbe4786, 0x0fc19dc6, 0x240ca1cc, 0x2de92c6f, 0x4a7484aa, 0x5cb0a9dc, 0x76f988da]"

definition sha_k3 :: "u32 list" where
  "sha_k3 = [0x983e5152, 0xa831c66d, 0xb00327c8, 0xbf597fc7, 0xc6e00bf3, 0xd5a79147, 0x06ca6351, 0x14292967]"

definition sha_k4 :: "u32 list" where
  "sha_k4 = [0x27b70a85, 0x2e1b2138, 0x4d2c6dfc, 0x53380d13, 0x650a7354, 0x766a0abb, 0x81c2c92e, 0x92722c85]"

definition sha_k5 :: "u32 list" where
  "sha_k5 = [0xa2bfe8a1, 0xa81a664b, 0xc24b8b70, 0xc76c51a3, 0xd192e819, 0xd6990624, 0xf40e3585, 0x106aa070]"

definition sha_k6 :: "u32 list" where
  "sha_k6 = [0x19a4c116, 0x1e376c08, 0x2748774c, 0x34b0bcb5, 0x391c0cb3, 0x4ed8aa4a, 0x5b9cca4f, 0x682e6ff3]"

definition sha_k7 :: "u32 list" where
  "sha_k7 = [0x748f82ee, 0x78a5636f, 0x84c87814, 0x8cc70208, 0x90befffa, 0xa4506ceb, 0xbef9a3f7, 0xc67178f2]"

definition SHA256_K :: "u32 list" where
  "SHA256_K = concat [sha_k0, sha_k1, sha_k2, sha_k3, sha_k4, sha_k5, sha_k6, sha_k7]"

definition SHA256_H :: "u32 list" where
  "SHA256_H = [0x6a09e667, 0xbb67ae85, 0x3c6ef372, 0xa54ff53a, 0x510e527f, 0x9b05688c, 0x1f83d9ab, 0x5be0cd19]"

definition rotate_right :: "u32 \<Rightarrow> nat \<Rightarrow> u32" where
  "rotate_right x n = drop_bit n x OR push_bit (32 - n) x"

definition sha256_pad :: "bytes \<Rightarrow> bytes" where
  "sha256_pad input = zero_pad 64 56 (input @ [0x80]) @ be64 (of_nat (length input) * 8)"

definition schedule_step :: "u32 list \<Rightarrow> nat \<Rightarrow> u32 list" where
  "schedule_step w i =
     (let s0 = rotate_right (w ! (i - 15)) 7 XOR rotate_right (w ! (i - 15)) 18 XOR drop_bit 3 (w ! (i - 15));
          s1 = rotate_right (w ! (i - 2)) 17 XOR rotate_right (w ! (i - 2)) 19 XOR drop_bit 10 (w ! (i - 2))
      in w[i := w ! (i - 16) + s0 + w ! (i - 7) + s1])"

definition sha_schedule :: "bytes \<Rightarrow> u32 list" where
  "sha_schedule block =
     foldl schedule_step
       (map (\<lambda>i. of_be32 [block ! (4 * i), block ! (4 * i + 1), block ! (4 * i + 2), block ! (4 * i + 3)])
          [0..<16] @ replicate 48 0)
       [16..<64]"

record sha_vars =
  sha_a :: u32
  sha_b :: u32
  sha_c :: u32
  sha_d :: u32
  sha_e :: u32
  sha_f :: u32
  sha_g :: u32
  sha_h :: u32

definition sha_round :: "u32 list \<Rightarrow> sha_vars \<Rightarrow> nat \<Rightarrow> sha_vars" where
  "sha_round w v i =
     (let s1 = rotate_right (sha_e v) 6 XOR rotate_right (sha_e v) 11 XOR rotate_right (sha_e v) 25;
          choice = (sha_e v AND sha_f v) XOR (NOT (sha_e v) AND sha_g v);
          t1 = sha_h v + s1 + choice + SHA256_K ! i + w ! i;
          s0 = rotate_right (sha_a v) 2 XOR rotate_right (sha_a v) 13 XOR rotate_right (sha_a v) 22;
          majority = (sha_a v AND sha_b v) XOR (sha_a v AND sha_c v) XOR (sha_b v AND sha_c v);
          t2 = s0 + majority
      in \<lparr>sha_a = t1 + t2, sha_b = sha_a v, sha_c = sha_b v, sha_d = sha_c v, sha_e = sha_d v + t1, sha_f = sha_e v,
          sha_g = sha_f v, sha_h = sha_g v\<rparr>)"

definition sha_block :: "u32 list \<Rightarrow> bytes \<Rightarrow> u32 list" where
  "sha_block h block =
     (let v = foldl (sha_round (sha_schedule block))
            \<lparr>sha_a = h ! 0, sha_b = h ! 1, sha_c = h ! 2, sha_d = h ! 3, sha_e = h ! 4, sha_f = h ! 5, sha_g = h ! 6,
             sha_h = h ! 7\<rparr> [0..<64]
      in [h ! 0 + sha_a v, h ! 1 + sha_b v, h ! 2 + sha_c v, h ! 3 + sha_d v, h ! 4 + sha_e v, h ! 5 + sha_f v,
          h ! 6 + sha_g v, h ! 7 + sha_h v])"

definition sha256_ref :: "bytes \<Rightarrow> bytes" where
  "sha256_ref input =
     (let h = foldl sha_block SHA256_H (chunks 64 (sha256_pad input))
      in concat (map (\<lambda>i. be32 (h ! i)) [0..<8]))"

section \<open>Keccak-256\<close>

definition KECCAK_RC :: "u64 list" where
  "KECCAK_RC =
     [0x0000000000000001, 0x0000000000008082, 0x800000000000808a, 0x8000000080008000, 0x000000000000808b,
      0x0000000080000001, 0x8000000080008081, 0x8000000000008009, 0x000000000000008a, 0x0000000000000088,
      0x0000000080008009, 0x000000008000000a, 0x000000008000808b, 0x800000000000008b, 0x8000000000008089,
      0x8000000000008003, 0x8000000000008002, 0x8000000000000080, 0x000000000000800a, 0x800000008000000a,
      0x8000000080008081, 0x8000000000008080, 0x0000000080000001, 0x8000000080008008]"

definition KECCAK_ROT :: "nat list" where
  "KECCAK_ROT = [1, 3, 6, 10, 15, 21, 28, 36, 45, 55, 2, 14, 27, 41, 56, 8, 25, 43, 62, 18, 39, 61, 20, 44]"

definition KECCAK_PI :: "nat list" where
  "KECCAK_PI = [10, 7, 11, 17, 18, 3, 5, 16, 8, 21, 24, 4, 15, 23, 19, 13, 12, 2, 20, 14, 22, 9, 6, 1]"

definition rotate_left :: "u64 \<Rightarrow> nat \<Rightarrow> u64" where
  "rotate_left x n = push_bit n x OR drop_bit (64 - n) x"

definition xor_at :: "u64 \<Rightarrow> u64 list \<Rightarrow> nat \<Rightarrow> u64 list" where
  "xor_at t s j = s[j := s ! j XOR t]"

definition keccak_theta :: "u64 list \<Rightarrow> u64 list" where
  "keccak_theta s =
     (let bc = map (\<lambda>i. s ! i XOR s ! (i + 5) XOR s ! (i + 10) XOR s ! (i + 15) XOR s ! (i + 20)) [0..<5]
      in foldl (\<lambda>s i. foldl (\<lambda>s j. xor_at (bc ! ((i + 4) mod 5) XOR rotate_left (bc ! ((i + 1) mod 5)) 1) s (j + i))
                        s [0, 5, 10, 15, 20]) s [0..<5])"

definition keccak_rho_pi :: "u64 list \<Rightarrow> u64 list" where
  "keccak_rho_pi s =
     fst (foldl (\<lambda>(s, t) i. (s[KECCAK_PI ! i := rotate_left t (KECCAK_ROT ! i)], s ! (KECCAK_PI ! i)))
            (s, s ! 1) [0..<24])"

definition keccak_chi :: "u64 list \<Rightarrow> u64 list" where
  "keccak_chi s =
     foldl (\<lambda>s j. let row = [s ! j, s ! (j + 1), s ! (j + 2), s ! (j + 3), s ! (j + 4)]
              in foldl (\<lambda>s i. xor_at (NOT (row ! ((i + 1) mod 5)) AND row ! ((i + 2) mod 5)) s (j + i)) s [0..<5])
       s [0, 5, 10, 15, 20]"

definition keccak_f1600 :: "u64 list \<Rightarrow> u64 list" where
  "keccak_f1600 s =
     foldl (\<lambda>s round. xor_at (KECCAK_RC ! round) (keccak_chi (keccak_rho_pi (keccak_theta s))) 0) s [0..<24]"

definition RATE :: nat where "RATE = 136"

definition keccak_pad :: "bytes \<Rightarrow> bytes" where
  "keccak_pad input =
     (let msg = zero_pad RATE 0 (input @ [0x01]); final = length msg - 1
      in msg[final := msg ! final OR 0x80])"

definition keccak_absorb :: "u64 list \<Rightarrow> bytes \<Rightarrow> u64 list" where
  "keccak_absorb s block =
     keccak_f1600 (foldl (\<lambda>s (i, byte). xor_at (push_bit (8 * (i mod 8)) (ucast byte)) s (i div 8)) s
       (enumerate 0 block))"

definition keccak256_ref :: "bytes \<Rightarrow> bytes" where
  "keccak256_ref input =
     (let s = foldl keccak_absorb (replicate 25 0) (chunks RATE (keccak_pad input))
      in map (\<lambda>i. ucast (drop_bit (8 * (i mod 8)) (s ! (i div 8)))) [0..<32])"

end
