(* ===== verification/Vec_Derive.thy ===== *)
theory Vec_Derive
  imports Vec_Hash
begin

text \<open>
  The derivations of the reference generator: model of \<open>abi.rs\<close>, \<open>cbor.rs\<close> and \<open>derive.rs\<close> under
  \<open>protocol/vectors/gen/src\<close>. The generator shares no code with the prover's core; the names carry the
  suffix \<open>_ref\<close>. A panic is \<open>None\<close>.
\<close>

section \<open>ABI words\<close>

datatype val_ref =
    RStr string
  | RU32 u32
  | RU64 u64
  | RU256 bytes
  | RAddr bytes
  | RB32 bytes

text \<open>\<open>w[at..].copy_from_slice(src)\<close>, which panics when the lengths differ.\<close>

definition copy_tail :: "bytes \<Rightarrow> nat \<Rightarrow> bytes \<Rightarrow> bytes option" where
  "copy_tail w pos src = (if length w - pos = length src then Some (take pos w @ src) else None)"

definition zero_word :: bytes where "zero_word = replicate 32 0"

fun is_dynamic_ref :: "val_ref \<Rightarrow> bool" where
  "is_dynamic_ref (RStr _) = True"
| "is_dynamic_ref _ = False"

fun word_ref :: "val_ref \<Rightarrow> bytes option" where
  "word_ref (RU32 n) = copy_tail zero_word 28 (be32 n)"
| "word_ref (RU64 n) = copy_tail zero_word 24 (be64 n)"
| "word_ref (RU256 b) = copy_tail zero_word 0 b"
| "word_ref (RAddr a) = copy_tail zero_word 12 a"
| "word_ref (RB32 b) = copy_tail zero_word 0 b"
| "word_ref (RStr _) = None"

definition word_u64_ref :: "u64 \<Rightarrow> bytes" where
  "word_u64_ref n = take 24 zero_word @ be64 n"

text \<open>\<open>data.resize(len, 0)\<close> to a greater length.\<close>

definition resized :: "bytes \<Rightarrow> nat \<Rightarrow> bytes" where
  "resized data n = data @ replicate (n - length data) 0"

definition str_tail_ref :: "string \<Rightarrow> bytes" where
  "str_tail_ref s =
     (let data = map of_char s; r = length data mod 32
      in word_u64_ref (of_nat (length s)) @ (if r \<noteq> 0 then resized data (length data + (32 - r)) else data))"

definition encode_step_ref :: "nat \<Rightarrow> (bytes \<times> bytes) option \<Rightarrow> val_ref \<Rightarrow> (bytes \<times> bytes) option" where
  "encode_step_ref head_size st v =
     (case st of
        None \<Rightarrow> None
      | Some (head, tail) \<Rightarrow>
          (case v of
             RStr s \<Rightarrow> Some (head @ word_u64_ref (of_nat (head_size + length tail)), tail @ str_tail_ref s)
           | _ \<Rightarrow> map_option (\<lambda>w. (head @ w, tail)) (word_ref v)))"

definition encode_ref :: "val_ref list \<Rightarrow> bytes option" where
  "encode_ref vals =
     map_option (\<lambda>(head, tail). head @ tail)
       (foldl (encode_step_ref (32 * length vals)) (Some ([], [])) vals)"

definition pack_words_ref :: "val_ref list \<Rightarrow> bytes option" where
  "pack_words_ref vals =
     foldl (\<lambda>out v. case out of None \<Rightarrow> None | Some bs \<Rightarrow> map_option (\<lambda>w. bs @ w) (word_ref v)) (Some []) vals"

section \<open>CBOR\<close>

definition head_ref :: "u8 \<Rightarrow> u64 \<Rightarrow> bytes" where
  "head_ref maj arg =
     (let m = push_bit 5 maj in
      if arg < 24 then [m OR ucast arg]
      else if arg \<le> 0xff then [m OR 24, ucast arg]
      else if arg \<le> 0xffff then [m OR 25] @ be16 (ucast arg)
      else if arg \<le> 0xffffffff then [m OR 26] @ be32 (ucast arg)
      else [m OR 27] @ be64 arg)"

definition uint_ref :: "u64 \<Rightarrow> bytes" where "uint_ref n = head_ref 0 n"
definition bytes_ref :: "bytes \<Rightarrow> bytes" where "bytes_ref b = head_ref 2 (of_nat (length b)) @ b"
definition text_ref :: "string \<Rightarrow> bytes" where
  "text_ref s = head_ref 3 (of_nat (length s)) @ map of_char s"
definition array_header_ref :: "u64 \<Rightarrow> bytes" where "array_header_ref n = head_ref 4 n"
definition tag_ref :: "u64 \<Rightarrow> bytes" where "tag_ref t = head_ref 6 t"

definition h_array_ref :: "bytes list \<Rightarrow> bytes" where
  "h_array_ref items =
     sha256_ref (foldl (\<lambda>buf it. buf @ it) (array_header_ref (of_nat (length items))) items)"

section \<open>Derivations\<close>

definition DOMAIN_CONFIG_ref :: string where "DOMAIN_CONFIG_ref = ''unicity-bridge-return-config:v1''"
definition DOMAIN_LOCK_ref :: string where "DOMAIN_LOCK_ref = ''unicity-bridge-lock:v1''"
definition DOMAIN_RETURN_ref :: string where "DOMAIN_RETURN_ref = ''unicity-bridge-return:v1''"
definition DOMAIN_BURN_TRANSITION_ref :: string where "DOMAIN_BURN_TRANSITION_ref = ''unicity-burn-transition:v1''"
definition DOMAIN_NULLIFIER_ref :: string where "DOMAIN_NULLIFIER_ref = ''unicity-bridge-return-nullifier:v1''"

record config_ref =
  vc_source_chain_id :: u64
  vc_vault :: bytes
  vc_asset :: bytes
  vc_token_type :: bytes
  vc_coin_id :: bytes
  vc_reason_tag :: u64
  vc_lock_domain :: bytes
  vc_nullifier_domain :: bytes

record lock_record_ref =
  vl_nonce :: u64
  vl_amount :: bytes
  vl_unicity_token_id :: bytes
  vl_recipient_commitment :: bytes

record reason_params =
  vq_version :: u64
  vq_recipient :: bytes
  vq_amount :: bytes
  vq_fee_recipient :: bytes
  vq_fee_amount :: bytes
  vq_deadline :: u64

record return_leaf_ref =
  vf_nullifier :: bytes
  vf_recipient :: bytes
  vf_amount :: bytes
  vf_fee_recipient :: bytes
  vf_fee_amount :: bytes
  vf_deadline :: u64

record lock_ref_ref =
  vk_nonce :: u64
  vk_digest :: bytes

record public_values_ref =
  vv_domain_tag :: bytes
  vv_config_hash :: bytes
  vv_trust_base_hash :: bytes
  vv_spent_root_old :: bytes
  vv_spent_root_new :: bytes
  vv_return_root :: bytes
  vv_lock_ref_root :: bytes
  vv_batch_size :: u32
  vv_total_amount :: bytes

definition token_type_ref :: "string \<Rightarrow> string \<Rightarrow> string \<Rightarrow> bytes" where
  "token_type_ref chain_family chain_id_str asset_evm_hex =
     sha256_ref (map of_char (''unicity-bridge:'' @ chain_family @ '':'' @ chain_id_str @ '':'' @ asset_evm_hex))"

definition coin_id_ref :: "string \<Rightarrow> string \<Rightarrow> string \<Rightarrow> bytes" where
  "coin_id_ref chain_family chain_id_str asset_evm_hex =
     sha256_ref (map of_char (''unicity-bridge-coin:'' @ chain_family @ '':'' @ chain_id_str @ '':'' @ asset_evm_hex))"

definition recipient_commitment_ref :: "bytes \<Rightarrow> bytes" where
  "recipient_commitment_ref recipient_cbor = sha256_ref recipient_cbor"

definition u256_ref :: "u64 \<Rightarrow> bytes" where
  "u256_ref n = take 24 zero_word @ be64 n"

definition config_hash_ref :: "config_ref \<Rightarrow> bytes option" where
  "config_hash_ref c =
     map_option keccak256_ref (encode_ref
       [RStr DOMAIN_CONFIG_ref, RU64 (vc_source_chain_id c), RAddr (vc_vault c), RAddr (vc_asset c),
        RB32 (vc_token_type c), RB32 (vc_coin_id c), RU64 (vc_reason_tag c), RB32 (vc_lock_domain c),
        RB32 (vc_nullifier_domain c)])"

definition lock_digest_ref :: "config_ref \<Rightarrow> lock_record_ref \<Rightarrow> bytes option" where
  "lock_digest_ref c r =
     map_option keccak256_ref (encode_ref
       [RStr DOMAIN_LOCK_ref, RU64 (vc_source_chain_id c), RAddr (vc_vault c), RU256 (u256_ref (vl_nonce r)),
        RAddr (vc_asset c), RB32 (vc_token_type c), RB32 (vc_coin_id c), RU256 (vl_amount r),
        RB32 (vl_unicity_token_id r), RB32 (vl_recipient_commitment r)])"

text \<open>\<open>position(|&x| x != 0).unwrap_or(32)\<close> is the length of the leading zeros of 32 bytes.\<close>

definition minimal_be_ref :: "bytes \<Rightarrow> bytes" where
  "minimal_be_ref b =
     (let first = length (takeWhile (\<lambda>x. x = 0) b); first = (if first = length b then 32 else first)
      in drop first b)"

definition reason_cbor_ref :: "config_ref \<Rightarrow> reason_params \<Rightarrow> bytes" where
  "reason_cbor_ref c r =
     foldl (\<lambda>out item. out @ item) (tag_ref (vc_reason_tag c))
       [array_header_ref 11, uint_ref (vq_version r), uint_ref (vc_source_chain_id c), bytes_ref (vc_vault c),
        bytes_ref (vc_asset c), bytes_ref (vc_token_type c), bytes_ref (vc_coin_id c), bytes_ref (vq_recipient r),
        bytes_ref (minimal_be_ref (vq_amount r)), bytes_ref (vq_fee_recipient r),
        bytes_ref (minimal_be_ref (vq_fee_amount r)), uint_ref (vq_deadline r)]"

definition burn_transition_id_ref :: "bytes \<Rightarrow> bytes \<Rightarrow> bytes" where
  "burn_transition_id_ref state_id tx_hash =
     h_array_ref [text_ref DOMAIN_BURN_TRANSITION_ref, bytes_ref state_id, bytes_ref tx_hash]"

definition nullifier_ref :: "bytes \<Rightarrow> bytes \<Rightarrow> bytes" where
  "nullifier_ref cfg_hash burn_id =
     h_array_ref [text_ref DOMAIN_NULLIFIER_ref, bytes_ref cfg_hash, bytes_ref burn_id]"

definition leaf_words_ref :: "return_leaf_ref \<Rightarrow> bytes option" where
  "leaf_words_ref l =
     pack_words_ref [RB32 (vf_nullifier l), RAddr (vf_recipient l), RU256 (vf_amount l), RAddr (vf_fee_recipient l),
       RU256 (vf_fee_amount l), RU64 (vf_deadline l)]"

fun extend_all :: "('a \<Rightarrow> bytes option) \<Rightarrow> bytes \<Rightarrow> 'a list \<Rightarrow> bytes option" where
  "extend_all f buf [] = Some buf"
| "extend_all f buf (x # xs) =
     (case f x of None \<Rightarrow> None | Some w \<Rightarrow> extend_all f (buf @ w) xs)"

definition return_root_ref :: "return_leaf_ref list \<Rightarrow> bytes option" where
  "return_root_ref leaves = map_option keccak256_ref (extend_all leaf_words_ref [] leaves)"

definition ref_words_ref :: "lock_ref_ref \<Rightarrow> bytes option" where
  "ref_words_ref r = pack_words_ref [RU256 (u256_ref (vk_nonce r)), RB32 (vk_digest r)]"

text \<open>The assertion on every window of two references panics when two nonces are equal.\<close>

definition lock_ref_root_ref :: "lock_ref_ref list \<Rightarrow> bytes option" where
  "lock_ref_root_ref refs =
     (let sorted_refs = sort_key vk_nonce refs in
      if list_all (\<lambda>(a, b). vk_nonce a \<noteq> vk_nonce b) (zip sorted_refs (tl sorted_refs))
      then map_option keccak256_ref (extend_all ref_words_ref [] sorted_refs)
      else None)"

definition domain_tag_ref :: bytes where
  "domain_tag_ref = keccak256_ref (map of_char DOMAIN_RETURN_ref)"

definition public_values_abi_ref :: "public_values_ref \<Rightarrow> bytes option" where
  "public_values_abi_ref p =
     encode_ref [RB32 (vv_domain_tag p), RB32 (vv_config_hash p), RB32 (vv_trust_base_hash p),
       RB32 (vv_spent_root_old p), RB32 (vv_spent_root_new p), RB32 (vv_return_root p), RB32 (vv_lock_ref_root p),
       RU32 (vv_batch_size p), RU256 (vv_total_amount p)]"

end
