(* ===== verification/Vec_Accumulator.thy ===== *)
theory Vec_Accumulator
  imports Vec_Derive
begin

text \<open>
  The reference accumulator: model of \<open>protocol/vectors/gen/src/accumulator.rs\<close>. A panic (an assertion,
  an \<open>expect\<close> or an index out of bounds) is \<open>None\<close>.
\<close>

section \<open>Data\<close>

definition EMPTY_TREE_ROOT_ref :: bytes where "EMPTY_TREE_ROOT_ref = replicate 32 0"
definition DEPTH_ref :: nat where "DEPTH_ref = 256"

datatype terminal_ref = Empty_ref | Occupied_ref bytes

record step_ref =
  vs_depth :: u8
  vs_sibling_hash :: bytes

record witness_ref =
  vw_terminal :: terminal_ref
  vw_steps :: "step_ref list"

type_synonym tree_ref = "bytes list"

section \<open>Hashes\<close>

definition bit_at_ref :: "bytes \<Rightarrow> nat \<Rightarrow> bool" where
  "bit_at_ref key depth = (drop_bit (depth mod 8) (key ! (depth div 8)) AND 1 = 1)"

definition leaf_hash_ref :: "bytes \<Rightarrow> bytes" where
  "leaf_hash_ref key = sha256_ref (concat [[0], key, [1]])"

definition node_hash_ref :: "u8 \<Rightarrow> bytes \<Rightarrow> bytes \<Rightarrow> bytes" where
  "node_hash_ref depth left right = sha256_ref (concat [[1, depth], left, right])"

definition empty_hashes_ref :: "bytes list" where
  "empty_hashes_ref =
     foldl (\<lambda>table depth. table[depth := node_hash_ref (of_nat depth) (table ! (depth + 1)) (table ! (depth + 1))])
       ((replicate (DEPTH_ref + 1) (replicate 32 0))[DEPTH_ref := EMPTY_TREE_ROOT_ref]) (rev [0..<DEPTH_ref])"

definition single_key_hash_ref :: "bytes \<Rightarrow> nat \<Rightarrow> bytes" where
  "single_key_hash_ref key depth =
     foldl (\<lambda>h level. if bit_at_ref key level
              then node_hash_ref (of_nat level) (empty_hashes_ref ! (level + 1)) h
              else node_hash_ref (of_nat level) h (empty_hashes_ref ! (level + 1)))
       (leaf_hash_ref key) (rev [depth..<DEPTH_ref])"

text \<open>Beyond the last bit the index of \<open>bit_at\<close> is out of bounds.\<close>

function subtree_hash_ref :: "bytes list \<Rightarrow> nat \<Rightarrow> bytes option" where
  "subtree_hash_ref keys depth =
     (case keys of
        [] \<Rightarrow> Some (empty_hashes_ref ! depth)
      | [key] \<Rightarrow> Some (single_key_hash_ref key depth)
      | _ \<Rightarrow>
          (if DEPTH_ref \<le> depth then None
           else case partition (\<lambda>k. bit_at_ref k depth) keys of
             (right, left) \<Rightarrow>
               (case (subtree_hash_ref left (depth + 1), subtree_hash_ref right (depth + 1)) of
                  (Some l, Some r) \<Rightarrow> Some (node_hash_ref (of_nat depth) l r)
                | _ \<Rightarrow> None)))"
  by pat_completeness auto
termination by (relation "measure (\<lambda>(_, depth). DEPTH_ref - depth)") auto

declare subtree_hash_ref.simps [simp del]

definition first_differing_bit_ref :: "bytes \<Rightarrow> bytes \<Rightarrow> nat option" where
  "first_differing_bit_ref left right =
     find (\<lambda>depth. bit_at_ref left depth \<noteq> bit_at_ref right depth) [0..<DEPTH_ref]"

section \<open>The tree\<close>

definition root_ref :: "tree_ref \<Rightarrow> bytes option" where
  "root_ref keys = (if keys = [] then Some EMPTY_TREE_ROOT_ref else subtree_hash_ref keys 0)"

function witness_loop_ref :: "bytes \<Rightarrow> bytes list \<Rightarrow> nat \<Rightarrow> step_ref list \<Rightarrow> step_ref list option" where
  "witness_loop_ref key current depth steps =
     (case current of
        [] \<Rightarrow> Some steps
      | [other] \<Rightarrow>
          (case first_differing_bit_ref key other of
             None \<Rightarrow> None
           | Some f \<Rightarrow>
               Some (steps
                 @ map (\<lambda>d. \<lparr>vs_depth = of_nat d, vs_sibling_hash = empty_hashes_ref ! (d + 1)\<rparr>) [depth..<f]
                 @ [\<lparr>vs_depth = of_nat f, vs_sibling_hash = single_key_hash_ref other (f + 1)\<rparr>]))
      | _ \<Rightarrow>
          (if DEPTH_ref \<le> depth then None
           else case partition (\<lambda>k. bit_at_ref k depth = bit_at_ref key depth) current of
             (mine, sibling) \<Rightarrow>
               (case subtree_hash_ref sibling (depth + 1) of
                  None \<Rightarrow> None
                | Some h \<Rightarrow>
                    witness_loop_ref key mine (depth + 1)
                      (steps @ [\<lparr>vs_depth = of_nat depth, vs_sibling_hash = h\<rparr>]))))"
  by pat_completeness auto
termination by (relation "measure (\<lambda>(_, _, depth, _). DEPTH_ref - depth)") auto

declare witness_loop_ref.simps [simp del]

text \<open>The outer \<open>None\<close> is a panic, the inner one the \<open>None\<close> the code returns.\<close>

definition tree_witness_ref :: "tree_ref \<Rightarrow> bytes \<Rightarrow> witness_ref option option" where
  "tree_witness_ref keys key =
     (if list_ex (\<lambda>existing. existing = key) keys then Some None
      else map_option (\<lambda>steps. Some \<lparr>vw_terminal = Empty_ref, vw_steps = rev steps\<rparr>)
             (witness_loop_ref key keys 0 []))"

definition tree_insert_ref :: "tree_ref \<Rightarrow> bytes \<Rightarrow> tree_ref option" where
  "tree_insert_ref keys key = (if list_ex (\<lambda>existing. existing = key) keys then None else Some (keys @ [key]))"

end
