(* ===== verification/Vec_Gen.thy ===== *)
theory Vec_Gen
  imports Vec_Accumulator Text_Lib "HOL-Library.Monad_Syntax"
begin

text \<open>
  The generator of the conformance vectors: model of \<open>json.rs\<close> and \<open>main.rs\<close> under
  \<open>protocol/vectors/gen/src\<close>. A text is the list of its UTF-8 bytes; what is written is the list of
  the groups, file names and contents, and a panic is \<open>None\<close>.
\<close>

section \<open>The JSON writer\<close>

type_synonym obj = "(string \<times> string) list"

definition quoted :: "string \<Rightarrow> string" where
  "quoted s = CHR 0x22 # s @ [CHR 0x22]"

definition hex_ref :: "bytes \<Rightarrow> string" where
  "hex_ref b = concat (map (\<lambda>x. [digit_char (unat x div 16), digit_char (unat x mod 16)]) b)"

definition replace_char :: "char \<Rightarrow> string \<Rightarrow> string \<Rightarrow> string" where
  "replace_char c by s = concat (map (\<lambda>x. if x = c then by else [x]) s)"

definition jstr :: "string \<Rightarrow> string" where
  "jstr v = quoted (replace_char (CHR 0x22) [CHR 0x5C, CHR 0x22]
     (replace_char (CHR 0x5C) [CHR 0x5C, CHR 0x5C] v))"

definition obj_new :: obj where "obj_new = []"

definition obj_str :: "string \<Rightarrow> string \<Rightarrow> obj \<Rightarrow> obj" where
  "obj_str k v ob = ob @ [(k, jstr v)]"

definition obj_num :: "string \<Rightarrow> u64 \<Rightarrow> obj \<Rightarrow> obj" where
  "obj_num k v ob = ob @ [(k, dec_text (unat v))]"

definition obj_hex :: "string \<Rightarrow> bytes \<Rightarrow> obj \<Rightarrow> obj" where
  "obj_hex k v ob = ob @ [(k, quoted (''0x'' @ hex_ref v))]"

text \<open>\<open>join\<close> of a list of texts.\<close>

fun join_text :: "string \<Rightarrow> string list \<Rightarrow> string" where
  "join_text sep [] = []"
| "join_text sep [x] = x"
| "join_text sep (x # y # xs) = x @ sep @ join_text sep (y # xs)"

definition render_inline :: "obj \<Rightarrow> string" where
  "render_inline ob = ''{ '' @ join_text '', '' (map (\<lambda>(k, v). quoted k @ '': '' @ v) ob) @ '' }''"

definition obj_obj :: "string \<Rightarrow> obj \<Rightarrow> obj \<Rightarrow> obj" where
  "obj_obj k child ob = ob @ [(k, render_inline child)]"

definition obj_raw :: "string \<Rightarrow> string \<Rightarrow> obj \<Rightarrow> obj" where
  "obj_raw k v ob = ob @ [(k, v)]"

text \<open>The line feed.\<close>

definition newline :: string where "newline = [CHR 0x0A]"

definition render :: "obj \<Rightarrow> string" where
  "render ob =
     ''{'' @ newline
     @ concat (map (\<lambda>(i, k, v). ''  '' @ quoted k @ '': '' @ v @ (if i + 1 < length ob then '','' else []) @ newline)
         (enumerate 0 ob))
     @ ''}'' @ newline"

section \<open>Helpers\<close>

definition u256_gen :: "u128 \<Rightarrow> bytes" where
  "u256_gen n = take 16 zero_word @ be128 n"

text \<open>\<open>u8::from_str_radix(_, 16)\<close> of two characters: a sign may come first. Half a pair panics.\<close>

definition byte_of_hex :: "char \<Rightarrow> char \<Rightarrow> u8 option" where
  "byte_of_hex a b =
     (if a = CHR ''+'' then map_option of_nat (digit_value 16 b)
      else do { x \<leftarrow> digit_value 16 a; y \<leftarrow> digit_value 16 b; Some (of_nat (16 * x + y)) })"

fun unhex :: "string \<Rightarrow> bytes option" where
  "unhex [] = Some []"
| "unhex [a] = None"
| "unhex (a # b # s) = do { x \<leftarrow> byte_of_hex a b; xs \<leftarrow> unhex s; Some (x # xs) }"

definition h20 :: "string \<Rightarrow> bytes option" where
  "h20 s = do { v \<leftarrow> unhex s; if length v = 20 then Some v else None }"

section \<open>The example deployment\<close>

definition gen_chain_id_str :: string where "gen_chain_id_str = ''728126428''"
definition gen_asset_evm_hex :: string where "gen_asset_evm_hex = ''a614f803b6fd780986a42c78ec9c7f77e6ded13c''"

definition sha_text :: "string \<Rightarrow> bytes" where "sha_text s = sha256_ref (map of_char s)"

definition gen_config :: "config_ref option" where
  "gen_config =
     do { vault \<leftarrow> h20 ''00000000000000000000000000000000000000a1'';
          asset \<leftarrow> h20 gen_asset_evm_hex;
          Some \<lparr>vc_source_chain_id = 728126428, vc_vault = vault, vc_asset = asset,
                vc_token_type = token_type_ref ''tron'' gen_chain_id_str gen_asset_evm_hex,
                vc_coin_id = coin_id_ref ''tron'' gen_chain_id_str gen_asset_evm_hex, vc_reason_tag = 39048,
                vc_lock_domain = sha_text ''UNICITY_BR_LOCK'', vc_nullifier_domain = sha_text ''UNICITY_BR_NUL''\<rparr> }"

definition gen_recipient_cbor :: bytes where "gen_recipient_cbor = [0xa2, 0x01, 0x58, 0x21, 0x03]"

definition gen_lock :: lock_record_ref where
  "gen_lock = \<lparr>vl_nonce = 7, vl_amount = u256_gen 1000000,
     vl_unicity_token_id = sha_text ''example-unicity-token-id'',
     vl_recipient_commitment = recipient_commitment_ref gen_recipient_cbor\<rparr>"

definition gen_reason :: "reason_params option" where
  "gen_reason =
     do { recipient \<leftarrow> h20 ''00000000000000000000000000000000000000b2'';
          fee_recipient \<leftarrow> h20 ''00000000000000000000000000000000000000c3'';
          Some \<lparr>vq_version = 1, vq_recipient = recipient, vq_amount = u256_gen 1000000,
                vq_fee_recipient = fee_recipient, vq_fee_amount = u256_gen 2000, vq_deadline = 1900000000\<rparr> }"

definition gen_leaves :: "reason_params \<Rightarrow> bytes \<Rightarrow> bytes \<Rightarrow> return_leaf_ref list option" where
  "gen_leaves reason nullifier_a nullifier_b =
     do { recipient \<leftarrow> h20 ''00000000000000000000000000000000000000d4'';
          fee_recipient \<leftarrow> h20 ''0000000000000000000000000000000000000000'';
          Some [\<lparr>vf_nullifier = nullifier_a, vf_recipient = vq_recipient reason, vf_amount = u256_gen 400000,
                 vf_fee_recipient = vq_fee_recipient reason, vf_fee_amount = u256_gen 1000,
                 vf_deadline = vq_deadline reason\<rparr>,
                \<lparr>vf_nullifier = nullifier_b, vf_recipient = recipient, vf_amount = u256_gen 600000,
                 vf_fee_recipient = fee_recipient, vf_fee_amount = u256_gen 0, vf_deadline = 0\<rparr>] }"

definition gen_refs :: "bytes \<Rightarrow> lock_ref_ref list" where
  "gen_refs digest = [\<lparr>vk_nonce = 7, vk_digest = digest\<rparr>, \<lparr>vk_nonce = 3, vk_digest = sha_text ''another-lock-digest''\<rparr>]"

section \<open>The files\<close>

text \<open>The section sign of the descriptions, in UTF-8.\<close>

definition sect :: string where "sect = [CHR 0xC2, CHR 0xA7]"

definition config_vector :: "config_ref \<Rightarrow> bytes \<Rightarrow> obj" where
  "config_vector cfg cfg_hash =
     obj_obj ''out'' (obj_hex ''config_hash'' cfg_hash (obj_hex ''coin_id'' (vc_coin_id cfg)
         (obj_hex ''token_type'' (vc_token_type cfg) obj_new)))
     (obj_obj ''in'' (obj_hex ''nullifier_domain'' (vc_nullifier_domain cfg)
         (obj_hex ''lock_domain'' (vc_lock_domain cfg) (obj_num ''reason_tag'' (vc_reason_tag cfg)
         (obj_hex ''asset'' (vc_asset cfg) (obj_hex ''vault'' (vc_vault cfg)
         (obj_str ''asset_evm_hex'' gen_asset_evm_hex (obj_str ''chain_id_str'' gen_chain_id_str
         (obj_num ''source_chain_id'' (vc_source_chain_id cfg) obj_new))))))))
     (obj_str ''description'' (''config -> tokenType/coinId + configHash (00 '' @ sect
         @ ''2); configHash = keccak256(abi.encode(...))'') obj_new))"

definition lock_vector :: "bytes \<Rightarrow> bytes \<Rightarrow> obj" where
  "lock_vector cfg_hash digest =
     obj_obj ''out'' (obj_hex ''lock_digest'' digest
         (obj_hex ''recipient_commitment'' (vl_recipient_commitment gen_lock) obj_new))
     (obj_obj ''in'' (obj_hex ''config_hash'' cfg_hash (obj_hex ''recipient_cbor'' gen_recipient_cbor
         (obj_hex ''unicity_token_id'' (vl_unicity_token_id gen_lock) (obj_hex ''amount'' (vl_amount gen_lock)
         (obj_num ''nonce'' (vl_nonce gen_lock) obj_new)))))
     (obj_str ''description'' (''LockRecord -> recipientCommitment + lockDigest (00 '' @ sect
         @ ''3); lockDigest = keccak256(abi.encode(...))'') obj_new))"

definition reason_vector :: "config_ref \<Rightarrow> reason_params \<Rightarrow> bytes \<Rightarrow> obj" where
  "reason_vector cfg reason cbor =
     obj_obj ''out'' (obj_hex ''reason_hash'' (sha256_ref cbor) (obj_hex ''reason_cbor'' cbor obj_new))
     (obj_obj ''in'' (obj_num ''reason_tag'' (vc_reason_tag cfg) (obj_num ''deadline'' (vq_deadline reason)
         (obj_hex ''fee_amount'' (vq_fee_amount reason) (obj_hex ''fee_recipient'' (vq_fee_recipient reason)
         (obj_hex ''amount'' (vq_amount reason) (obj_hex ''recipient'' (vq_recipient reason)
         (obj_hex ''coin_id'' (vc_coin_id cfg) (obj_hex ''token_type'' (vc_token_type cfg)
         (obj_hex ''asset'' (vc_asset cfg) (obj_hex ''vault'' (vc_vault cfg)
         (obj_num ''source_chain_id'' (vc_source_chain_id cfg) (obj_num ''version'' (vq_version reason)
         obj_new))))))))))))
     (obj_str ''description'' (''BridgeBackReason fields -> canonical CBOR (reasonBytes, in burn aux data) + ''
         @ ''reasonHash bound by BurnPredicate(H(reasonBytes)) (00 '' @ sect
         @ ''4); PROVISIONAL, confirm vs SDK at M0'') obj_new))"

definition nullifier_vector :: "bytes \<Rightarrow> bytes \<Rightarrow> bytes \<Rightarrow> bytes \<Rightarrow> bytes \<Rightarrow> obj" where
  "nullifier_vector state_id tx_hash cfg_hash bt_id nullifier_a =
     obj_obj ''out'' (obj_hex ''nullifier'' nullifier_a (obj_hex ''burn_transition_id'' bt_id obj_new))
     (obj_obj ''in'' (obj_hex ''config_hash'' cfg_hash (obj_hex ''tx_hash'' tx_hash
         (obj_hex ''state_id'' state_id obj_new)))
     (obj_str ''description'' (''(stateId, txHash, configHash) -> burnTransitionId, nullifier (00 '' @ sect
         @ ''5); H = SHA-256 over CBOR array'') obj_new))"

definition leaf_json :: "return_leaf_ref \<Rightarrow> string" where
  "leaf_json l =
     render_inline (obj_num ''deadline'' (vf_deadline l) (obj_hex ''fee_amount'' (vf_fee_amount l)
       (obj_hex ''fee_recipient'' (vf_fee_recipient l) (obj_hex ''amount'' (vf_amount l)
       (obj_hex ''recipient'' (vf_recipient l) (obj_hex ''nullifier'' (vf_nullifier l) obj_new))))))"

definition ref_json :: "lock_ref_ref \<Rightarrow> string" where
  "ref_json r = render_inline (obj_hex ''digest'' (vk_digest r) (obj_num ''nonce'' (vk_nonce r) obj_new))"

definition bracketed :: "string list \<Rightarrow> string" where
  "bracketed xs = ''['' @ join_text '', '' xs @ '']''"

definition public_vector ::
  "return_leaf_ref list \<Rightarrow> lock_ref_ref list \<Rightarrow> public_values_ref \<Rightarrow> bytes \<Rightarrow> obj" where
  "public_vector leaves refs pv pv_abi =
     obj_obj ''out'' (obj_hex ''public_values_abi'' pv_abi (obj_hex ''config_hash'' (vv_config_hash pv)
         (obj_hex ''lock_ref_root'' (vv_lock_ref_root pv) (obj_hex ''return_root'' (vv_return_root pv)
         (obj_hex ''domain_tag'' (vv_domain_tag pv) obj_new)))))
     (obj_obj ''in'' (obj_hex ''total_amount'' (vv_total_amount pv) (obj_num ''batch_size'' (ucast (vv_batch_size pv))
         (obj_hex ''spent_root_new'' (vv_spent_root_new pv) (obj_hex ''spent_root_old'' (vv_spent_root_old pv)
         (obj_hex ''trust_base_hash'' (vv_trust_base_hash pv)
         (obj_raw ''lock_refs'' (bracketed (map ref_json refs))
         (obj_raw ''leaves'' (bracketed (map leaf_json leaves)) obj_new)))))))
     (obj_str ''description'' (''ReturnLeaf[]/SourceLockRef[] -> returnRoot/lockRefRoot (keccak over fixed-width words)''
         @ '' + PublicValues ABI (00 '' @ sect @ ''7)'') obj_new))"

definition hex_text_json :: "bytes \<Rightarrow> string" where
  "hex_text_json b = quoted (''0x'' @ hex_ref b)"

definition step_json :: "step_ref \<Rightarrow> string" where
  "step_json s = render_inline (obj_hex ''sibling_hash'' (vs_sibling_hash s) (obj_num ''depth'' (ucast (vs_depth s)) obj_new))"

definition terminal_json :: "terminal_ref \<Rightarrow> string" where
  "terminal_json t =
     (case t of
        Empty_ref \<Rightarrow> render_inline (obj_str ''kind'' ''empty'' obj_new)
      | Occupied_ref key \<Rightarrow> render_inline (obj_hex ''key'' key (obj_str ''kind'' ''occupied'' obj_new)))"

definition witness_json :: "bytes \<Rightarrow> bytes \<Rightarrow> bytes \<Rightarrow> witness_ref \<Rightarrow> string" where
  "witness_json n against_root new_root w =
     render_inline (obj_raw ''steps'' (bracketed (map step_json (vw_steps w)))
       (obj_raw ''terminal'' (terminal_json (vw_terminal w)) (obj_hex ''new_root'' new_root
       (obj_hex ''against_root'' against_root (obj_hex ''nullifier'' n obj_new)))))"

text \<open>The loop that inserts the nullifiers: the roots and the witnesses it collects.\<close>

fun acc_entries ::
  "tree_ref \<Rightarrow> bytes list \<Rightarrow> (bytes \<times> bytes \<times> bytes \<times> witness_ref) list option" where
  "acc_entries tree [] = Some []"
| "acc_entries tree (n # ns) =
     do { against_root \<leftarrow> root_ref tree;
          w \<leftarrow> tree_witness_ref tree n;
          w \<leftarrow> w;
          tree \<leftarrow> tree_insert_ref tree n;
          new_root \<leftarrow> root_ref tree;
          rest \<leftarrow> acc_entries tree ns;
          Some ((n, against_root, new_root, w) # rest) }"

definition accumulator_vector :: "bytes list \<Rightarrow> (bytes \<times> bytes \<times> bytes \<times> witness_ref) list \<Rightarrow> obj" where
  "accumulator_vector nullifiers entries =
     obj_obj ''out'' (obj_raw ''witnesses'' (bracketed (map (\<lambda>(n, against, new, w). witness_json n against new w) entries))
         (obj_raw ''roots'' (bracketed (map (\<lambda>(n, against, new, w). hex_text_json new) entries)) obj_new))
     (obj_obj ''in'' (obj_raw ''nullifiers'' (bracketed (map hex_text_json nullifiers))
         (obj_hex ''empty_root'' EMPTY_TREE_ROOT_ref obj_new))
     (obj_str ''description'' (''Ordered nullifier accumulator inserts (00 '' @ sect
         @ ''6); each witness is valid against the intermediate root after prior inserts'') obj_new))"

definition value_payload :: "bytes \<Rightarrow> bytes \<Rightarrow> bytes" where
  "value_payload coin memo =
     tag_ref 39050 @ array_header_ref 3 @ uint_ref 1 @ array_header_ref 1 @ array_header_ref 2 @ bytes_ref coin
     @ bytes_ref (drop 5 (be64 1000000)) @ memo"

definition invalid_json :: "string \<Rightarrow> bytes \<Rightarrow> string" where
  "invalid_json why bs = render_inline (obj_hex ''payload'' bs (obj_str ''why'' why obj_new))"

definition value_vector :: "bytes \<Rightarrow> obj" where
  "value_vector coin =
     (let null_memo = value_payload coin [0xf6] in
      obj_raw ''invalid'' (bracketed
          [invalid_json ''the memo is an integer'' (value_payload coin (uint_ref 0)),
           invalid_json ''the memo is a text string'' (value_payload coin (text_ref ''memo'')),
           invalid_json ''a byte follows the payload'' (null_memo @ [0])])
      (obj_raw ''valid'' (bracketed [hex_text_json null_memo,
          hex_text_json (value_payload coin (bytes_ref (map of_char ''memo'')))])
      (obj_obj ''in'' (obj_num ''amount'' 1000000 (obj_hex ''coin_id'' coin obj_new))
      (obj_str ''description'' (''wallet value payload tag(39050) [ 1, [[coinId, amount]], memo ]: the memo is a byte ''
          @ ''string or null and nothing follows the item; accept `valid` with this amount, reject every `invalid`'')
          obj_new))))"

section \<open>The program\<close>

definition self_test :: "unit option" where
  "self_test =
     (if hex_ref (sha256_ref []) = ''e3b0c44298fc1c149afbf4c8996fb92427ae41e4649b934ca495991b7852b855''
       \<and> hex_ref (sha256_ref (map of_char ''abc'')) = ''ba7816bf8f01cfea414140de5dae2223b00361a396177a9cb410ff61f20015ad''
       \<and> hex_ref (keccak256_ref []) = ''c5d2460186f7233c927e7db2dcc703c0e500b653ca82273b7bfad8045d85a470''
       \<and> hex_ref (keccak256_ref (map of_char ''abc'')) = ''4e03657aea45a94fc7d47ba826c8d667c0d1e6e33a64a036ec44f58fa12d6c45''
      then Some () else None)"

definition gen_nullifier_a :: "bytes \<Rightarrow> bytes" where
  "gen_nullifier_a cfg_hash =
     nullifier_ref cfg_hash (burn_transition_id_ref (sha_text ''example-burn-state-id'') (sha_text ''example-burn-tx-hash''))"

definition gen_nullifier_b :: "bytes \<Rightarrow> bytes" where
  "gen_nullifier_b cfg_hash =
     nullifier_ref cfg_hash (burn_transition_id_ref (sha_text ''burn-state-b'') (sha_text ''burn-tx-b''))"

definition gen_nullifiers :: "bytes \<Rightarrow> bytes list" where
  "gen_nullifiers cfg_hash = [gen_nullifier_a cfg_hash, gen_nullifier_b cfg_hash, sha_text ''burn-nullifier-c'']"

definition gen_public :: "bytes \<Rightarrow> bytes \<Rightarrow> bytes \<Rightarrow> public_values_ref" where
  "gen_public cfg_hash rroot lroot =
     \<lparr>vv_domain_tag = domain_tag_ref, vv_config_hash = cfg_hash,
      vv_trust_base_hash = sha_text ''example-root-trust-base'', vv_spent_root_old = replicate 32 0,
      vv_spent_root_new = sha_text ''example-new-spent-root'', vv_return_root = rroot,
      vv_lock_ref_root = lroot, vv_batch_size = 2, vv_total_amount = u256_gen 1000000\<rparr>"

text \<open>The files in the order in which they are written, after the hashes have been tested.\<close>

definition gen_files :: "(string \<times> string \<times> obj) list option" where
  "gen_files =
     do { cfg \<leftarrow> gen_config;
          cfg_hash \<leftarrow> config_hash_ref cfg;
          digest \<leftarrow> lock_digest_ref cfg gen_lock;
          reason \<leftarrow> gen_reason;
          let bt_id = burn_transition_id_ref (sha_text ''example-burn-state-id'') (sha_text ''example-burn-tx-hash'');
          leaves \<leftarrow> gen_leaves reason (gen_nullifier_a cfg_hash) (gen_nullifier_b cfg_hash);
          rroot \<leftarrow> return_root_ref leaves;
          lroot \<leftarrow> lock_ref_root_ref (gen_refs digest);
          let pv = gen_public cfg_hash rroot lroot;
          pv_abi \<leftarrow> public_values_abi_ref pv;
          entries \<leftarrow> acc_entries [] (gen_nullifiers cfg_hash);
          Some [(''config'', ''config-00.json'', config_vector cfg cfg_hash),
                (''lock'', ''lock-00.json'', lock_vector cfg_hash digest),
                (''reason'', ''reason-00.json'', reason_vector cfg reason (reason_cbor_ref cfg reason)),
                (''nullifier'', ''nullifier-00.json'', nullifier_vector (sha_text ''example-burn-state-id'')
                    (sha_text ''example-burn-tx-hash'') cfg_hash bt_id (gen_nullifier_a cfg_hash)),
                (''public'', ''public-00.json'', public_vector leaves (gen_refs digest) pv pv_abi),
                (''accumulator'', ''accumulator-00.json'', accumulator_vector (gen_nullifiers cfg_hash) entries),
                (''value'', ''value-00.json'', value_vector (vc_coin_id cfg))] }"

definition gen_main :: "(string \<times> string \<times> string) list option" where
  "gen_main =
     do { self_test;
          files \<leftarrow> gen_files;
          Some (map (\<lambda>(group, file, ob). (group, file, render ob)) files) }"

end
