(* ===== verification/Vec_Hash_Proofs.thy ===== *)
theory Vec_Hash_Proofs
  imports Vec_Hash
begin

text \<open>
  The framing of the reference hashes: the padded message is a whole number of blocks and determines the
  message, so two inputs with the same digest are a collision of the compression function or of the
  permutation, and never of the padding. The bound is where the 64-bit length of SHA-256 wraps.
\<close>

section \<open>Padding\<close>

lemma zero_pad_shape:
  assumes "r < n"
  shows "\<exists>k < n. zero_pad n r msg = msg @ replicate k 0 \<and> (length msg + k) mod n = r"
proof -
  define m where "m = (r + n - length msg mod n) mod n"
  have "\<exists>k \<le> m. zero_pad n r msg = msg @ replicate k 0 \<and> (length msg + k) mod n = r"
    using assms unfolding m_def
  proof (induction n r msg rule: zero_pad.induct)
    case (1 n r msg)
    show ?case
    proof (cases "length msg mod n = r")
      case True
      then show ?thesis by (subst zero_pad.simps) auto
    next
      case False
      obtain k where k: "k \<le> (r + n - length (msg @ [0]) mod n) mod n"
        "zero_pad n r (msg @ [0]) = (msg @ [0]) @ replicate k 0" "(length (msg @ [0]) + k) mod n = r"
        using 1 False by blast
      have "Suc k \<le> (r + n - length msg mod n) mod n"
        using k(1) zero_pad_measure[OF 1(2) False] by simp
      moreover have "zero_pad n r msg = msg @ replicate (Suc k) 0"
        using False 1(2) k(2) by (subst zero_pad.simps) simp
      ultimately show ?thesis using k(3) by (intro exI[of _ "Suc k"]) simp
    qed
  qed
  then obtain k where k: "k \<le> m" "zero_pad n r msg = msg @ replicate k 0" "(length msg + k) mod n = r" by blast
  have "k < n" using k(1) assms by (simp add: m_def) (metis le_less_trans mod_less_divisor gr_implies_not0 not_gr0)
  with k show ?thesis by blast
qed

text \<open>A separator that is not zero marks the end of the message.\<close>

lemma unpad:
  fixes xs ys :: "'a :: zero list"
  assumes "xs @ a # replicate k 0 = ys @ b # replicate l 0" "a \<noteq> 0" "b \<noteq> 0"
  shows "xs = ys"
proof -
  have "dropWhile (\<lambda>x. x = 0) (replicate k 0 @ a # zs) = a # zs" if "a \<noteq> 0" for zs :: "'a list" and a k
    using that by (induction k) simp_all
  then have "dropWhile (\<lambda>x. x = 0) (rev (xs @ a # replicate k 0)) = a # rev xs" if "a \<noteq> 0" for xs :: "'a list" and a k
    using that by simp
  from this[of a xs k] this[of b ys l] assms show ?thesis by simp
qed

lemma sha256_pad_shape:
  "\<exists>k < 64. sha256_pad input = input @ 0x80 # replicate k 0 @ be64 (of_nat (length input) * 8)
     \<and> length (sha256_pad input) mod 64 = 0"
proof -
  obtain k where k: "k < 64" "zero_pad 64 56 (input @ [0x80]) = (input @ [0x80]) @ replicate k 0"
    "(length (input @ [0x80]) + k) mod 64 = 56"
    using zero_pad_shape[of 56 64 "input @ [0x80]"] by auto
  have "(length (input @ [0x80]) + k + 8) mod 64 = ((length (input @ [0x80]) + k) mod 64 + 8) mod 64"
    by (simp only: mod_simps)
  with k have "(length (input @ [0x80]) + k + 8) mod 64 = 0" by simp
  with k show ?thesis by (intro exI[of _ k]) (simp add: sha256_pad_def algebra_simps)
qed

lemma sha256_pad_inj:
  assumes "sha256_pad x = sha256_pad y"
  shows "x = y"
proof -
  obtain k l where "sha256_pad x = (x @ 0x80 # replicate k 0) @ be64 (of_nat (length x) * 8)"
    "sha256_pad y = (y @ 0x80 # replicate l 0) @ be64 (of_nat (length y) * 8)"
    using sha256_pad_shape[of x] sha256_pad_shape[of y] by auto
  with assms have "x @ (0x80 :: u8) # replicate k 0 = y @ 0x80 # replicate l 0"
    by (metis append_eq_append_conv length_be_words(3))
  then show ?thesis by (rule unpad) simp_all
qed

lemma keccak_pad_shape:
  "\<exists>k < RATE. keccak_pad input = (if k = 0 then input @ [0x81] else (input @ 0x01 # replicate (k - 1) 0) @ [0x80])
     \<and> length (keccak_pad input) mod RATE = 0"
proof -
  obtain k where k: "k < RATE" "zero_pad RATE 0 (input @ [0x01]) = (input @ [0x01]) @ replicate k 0"
    "(length (input @ [0x01]) + k) mod RATE = 0"
    using zero_pad_shape[of 0 RATE "input @ [0x01]"] by (auto simp: RATE_def)
  have "keccak_pad input = (if k = 0 then input @ [0x81] else (input @ 0x01 # replicate (k - 1) 0) @ [0x80])"
  proof (cases k)
    case (Suc l)
    have "input @ 0x01 # replicate l 0 @ [0] = input @ 0x01 # 0 # replicate l (0 :: u8)"
      by (simp add: replicate_append_same)
    then have "zero_pad RATE 0 (input @ [0x01]) = (input @ 0x01 # replicate l 0) @ [0]" using k(2) Suc by simp
    then show ?thesis using Suc by (simp add: keccak_pad_def Let_def nth_append list_update_append)
  qed (use k(2) in \<open>simp add: keccak_pad_def Let_def nth_append list_update_append\<close>)
  moreover have "length (keccak_pad input) = length (input @ [0x01]) + k"
    using k(2) by (simp add: keccak_pad_def Let_def)
  ultimately show ?thesis using k by auto
qed

lemma keccak_pad_inj:
  assumes "keccak_pad x = keccak_pad y"
  shows "x = y"
proof -
  obtain k where k: "keccak_pad x = (if k = 0 then x @ [0x81] else (x @ 0x01 # replicate (k - 1) 0) @ [0x80])"
    using keccak_pad_shape by blast
  obtain l where l: "keccak_pad y = (if l = 0 then y @ [0x81] else (y @ 0x01 # replicate (l - 1) 0) @ [0x80])"
    using keccak_pad_shape by blast
  show ?thesis
  proof (cases "k = 0")
    case True
    with assms k l show ?thesis by (auto split: if_splits)
  next
    case False
    then have "last (keccak_pad x) = 0x80" using k by simp
    then have "l \<noteq> 0" using assms l by (auto split: if_splits)
    with False assms k l have "x @ (0x01 :: u8) # replicate (k - 1) 0 = y @ 0x01 # replicate (l - 1) 0" by simp
    then show ?thesis by (rule unpad) simp_all
  qed
qed

section \<open>Blocks\<close>

lemma chunks_full:
  assumes "0 < n" "length xs mod n = 0"
  shows "list_all (\<lambda>b. length b = n) (chunks n xs)"
  using assms
proof (induction n xs rule: chunks.induct)
  case (1 n xs)
  show ?case
  proof (cases "xs = []")
    case True
    then show ?thesis by (simp add: chunks.simps)
  next
    case False
    then have "n \<le> length xs" using 1(2,3) by (metis length_greater_0_conv mod_less not_le_imp_less order.strict_iff_not)
    moreover have "length (drop n xs) mod n = 0" using 1(2,3) \<open>n \<le> length xs\<close> by (simp add: le_mod_geq)
    ultimately show ?thesis using 1 False by (subst chunks.simps) simp
  qed
qed

lemma concat_chunks: "0 < n \<Longrightarrow> concat (chunks n xs) = xs"
  by (induction n xs rule: chunks.induct) (subst chunks.simps, simp)

section \<open>States\<close>

lemma foldl_length: "(\<And>s x. length (f s x) = length s) \<Longrightarrow> length (foldl f s xs) = length s"
  by (induction xs arbitrary: s) simp_all

lemma xor_at_length [simp]: "length (xor_at t s j) = length s"
  by (simp add: xor_at_def)

lemma keccak_steps_length [simp]:
  "length (keccak_theta s) = length s" "length (keccak_rho_pi s) = length s" "length (keccak_chi s) = length s"
proof -
  have "length (fst (foldl (\<lambda>(s, t) i. (s[KECCAK_PI ! i := rotate_left t (KECCAK_ROT ! i)], s ! (KECCAK_PI ! i))) p xs))
      = length (fst p)" for p :: "u64 list \<times> u64" and xs
    by (induction xs arbitrary: p) (auto split: prod.split)
  then show "length (keccak_rho_pi s) = length s" by (simp add: keccak_rho_pi_def)
qed (unfold keccak_theta_def keccak_chi_def Let_def, (intro foldl_length xor_at_length)+)

lemma keccak_absorb_length [simp]: "length (keccak_absorb s block) = length s"
proof -
  have "length (keccak_f1600 s) = length s" for s
    unfolding keccak_f1600_def by (intro foldl_length) simp
  moreover have "length (foldl (\<lambda>s (i, byte). xor_at (push_bit (8 * (i mod 8)) (ucast (byte :: u8))) s (i div 8)) s xs)
      = length s" for xs
    by (intro foldl_length) (simp split: prod.split)
  ultimately show ?thesis by (simp add: keccak_absorb_def)
qed

lemma sha_block_length [simp]: "length (sha_block h block) = 8"
  by (simp add: sha_block_def Let_def)

lemma sha_schedule_length [simp]: "length (sha_schedule block) = 64"
proof -
  have "length (foldl schedule_step w xs) = length w" for w xs
    by (intro foldl_length) (simp add: schedule_step_def Let_def)
  then show ?thesis unfolding sha_schedule_def by (simp only: length_append length_map length_upt length_replicate)
qed

lemma sha256_ref_length [simp]: "length (sha256_ref x) = 32"
  unfolding sha256_ref_def Let_def
  by (simp only: length_concat map_map o_def length_be_words sum_list_triv length_upt) simp

lemma keccak256_ref_length [simp]: "length (keccak256_ref x) = 32"
  unfolding keccak256_ref_def Let_def by (simp only: length_map length_upt)

text \<open>The reference hashes frame their input without loss: padding yields whole blocks, so no index
  into a block is out of range, two messages are padded alike only when they are equal, and every
  digest has 32 bytes.\<close>

theorem digests_framed:
  "length (sha256_ref x) = 32 \<and> length (keccak256_ref x) = 32
   \<and> list_all (\<lambda>block. length block = 64) (chunks 64 (sha256_pad x))
   \<and> concat (chunks 64 (sha256_pad x)) = sha256_pad x
   \<and> list_all (\<lambda>block. length block = RATE) (chunks RATE (keccak_pad x))
   \<and> concat (chunks RATE (keccak_pad x)) = keccak_pad x
   \<and> (sha256_pad x = sha256_pad y) = (x = y) \<and> (keccak_pad x = keccak_pad y) = (x = y)"
proof -
  have "length (sha256_pad x) mod 64 = 0" "length (keccak_pad x) mod RATE = 0" "0 < RATE"
    using sha256_pad_shape keccak_pad_shape by (auto simp: RATE_def)
  then show ?thesis using sha256_pad_inj[of x y] keccak_pad_inj[of x y]
    by (simp only: sha256_ref_length keccak256_ref_length chunks_full concat_chunks zero_less_numeral) blast
qed

end
