(* ===== verification/Vec_Proofs.thy ===== *)
theory Vec_Proofs
  imports Vec_Accumulator Vec_Hash_Proofs Accumulator_Proofs
begin

text \<open>
  The reference generator and the prover compute the same: every derivation of \<open>derive.rs\<close> is the one of
  the core with the generator's hashes, and the reference accumulator is the one of the SDK extension.
\<close>

section \<open>Encodings\<close>

fun core_val :: "val_ref \<Rightarrow> val" where
  "core_val (RStr s) = VStr s"
| "core_val (RU32 n) = VU32 n"
| "core_val (RU64 n) = VU64 n"
| "core_val (RU256 b) = VU256 b"
| "core_val (RAddr a) = VAddr a"
| "core_val (RB32 b) = VB32 b"

lemma copy_tail_word: "length src = 32 - pos \<Longrightarrow> copy_tail zero_word pos src = Some (replicate (min pos 32) 0 @ src)"
  by (simp add: copy_tail_def zero_word_def min.commute)

lemma word_ref_core: "wf_val (core_val v) \<Longrightarrow> word_ref v = val_word (core_val v)"
  by (cases v) (simp_all add: copy_tail_word)

lemma word_u64_ref_core [simp]: "word_u64_ref n = word_u64 n"
  by (simp add: word_u64_ref_def word_u64_def zero_word_def)

lemma u256_ref_core [simp]: "u256_ref n = u256_from_u64 n"
  by (simp add: u256_ref_def u256_from_u64_def zero_word_def)

lemma str_tail_ref_core: "str_tail_ref s = word_u64 (of_nat (length s)) @ pad32 (as_bytes s)"
  by (simp add: str_tail_ref_def pad32_def as_bytes_def resized_def Let_def)

lemma encode_steps_core:
  "\<forall>v \<in> set vs. wf_val (core_val v) \<Longrightarrow>
   encode_loop n (map core_val vs) h t
     = map_option (\<lambda>(head, tail). head @ tail) (foldl (encode_step_ref n) (Some (h, t)) vs)"
proof (induction vs arbitrary: h t)
  case (Cons v vs)
  note [simp] = word_ref_core[symmetric]
  show ?case
  proof (cases "\<exists>s. v = RStr s")
    case True
    with Cons show ?thesis by (auto simp: encode_step_ref_def str_tail_ref_core)
  next
    case False
    then have d: "\<not> is_dynamic (core_val v)" by (cases v) auto
    then obtain w where w: "val_word (core_val v) = Some w" using val_word_static by blast
    then have "encode_step_ref n (Some (h, t)) v = Some (h @ w, t)"
      using False Cons.prems word_ref_core[of v] by (cases v) (simp_all add: encode_step_ref_def)
    moreover have "encode_loop n (core_val v # map core_val vs) h t = encode_loop n (map core_val vs) (h @ w) t"
      using d w by (cases "core_val v") simp_all
    ultimately show ?thesis using Cons by simp
  qed
qed simp

lemma encode_ref_core:
  "\<forall>v \<in> set vs. wf_val (core_val v) \<Longrightarrow> encode_ref vs = abi_encode (map core_val vs)"
  by (simp add: encode_ref_def abi_encode_def encode_steps_core)

lemma pack_loop_core:
  "\<forall>v \<in> set vs. wf_val (core_val v) \<Longrightarrow>
   foldl (\<lambda>out v. case out of None \<Rightarrow> None | Some bs \<Rightarrow> map_option (\<lambda>w. bs @ w) (word_ref v)) (Some acc) vs
     = map_option (\<lambda>bs. acc @ bs) (pack_words (map core_val vs))"
proof (induction vs arbitrary: acc)
  case (Cons v vs)
  have none: "foldl (\<lambda>out v. case out of None \<Rightarrow> None | Some bs \<Rightarrow> map_option (\<lambda>w. bs @ w) (word_ref v)) None vs = None"
    by (induction vs) auto
  from Cons show ?case
    by (cases "val_word (core_val v)") (auto simp: word_ref_core none split: option.splits)
qed simp

lemma pack_words_ref_core:
  "\<forall>v \<in> set vs. wf_val (core_val v) \<Longrightarrow> pack_words_ref vs = pack_words (map core_val vs)"
  by (simp add: pack_words_ref_def pack_loop_core option.map_ident)

lemma head_ref_core [simp]: "head_ref = major"
proof -
  have "v < 24 \<longleftrightarrow> v \<le> 23" for v :: u64 by (simp add: word_less_nat_alt word_le_nat_alt less_Suc_eq_le[of _ 23, simplified])
  then show ?thesis by (intro ext) (simp add: head_ref_def major_def Let_def)
qed

lemma cbor_ref_core [simp]:
  "uint_ref n = cbor_uint n" "bytes_ref b = cbor_bytes b" "text_ref s = cbor_text s"
  "array_header_ref n = array_header n" "tag_ref n = cbor_tag n"
  by (simp_all add: uint_ref_def cbor_uint_def bytes_ref_def cbor_bytes_def text_ref_def cbor_text_def
      array_header_ref_def array_header_def tag_ref_def cbor_tag_def as_bytes_def)

lemma foldl_append_concat: "foldl (\<lambda>buf it. buf @ it) acc items = acc @ concat items"
  by (induction items arbitrary: acc) simp_all

lemma h_array_ref_core [simp]: "h_array_ref items = h_array sha256_ref items"
  by (simp add: h_array_ref_def h_array_def foldl_append_concat)

lemma minimal_be_ref_core: "length b = 32 \<Longrightarrow> minimal_be_ref b = minimal_be b"
proof -
  assume l: "length b = 32"
  have p: "position (\<lambda>x. x \<noteq> 0) xs
      = (if takeWhile (\<lambda>x. x = 0) xs = xs then None else Some (length (takeWhile (\<lambda>x. x = 0) xs)))" for xs :: bytes
    by (induction xs) auto
  have "length (takeWhile (\<lambda>x. x = 0) b) = length b \<longleftrightarrow> takeWhile (\<lambda>x. x = 0) b = b"
    by (metis takeWhile_eq_take take_all order_refl)
  moreover have "length (takeWhile (\<lambda>x. x = 0) b) \<le> 32" using length_takeWhile_le[of _ b] by (simp add: l)
  ultimately show ?thesis by (auto simp: minimal_be_ref_def minimal_be_def p l Let_def simp del: takeWhile_eq_all_conv)
qed

section \<open>Records\<close>

definition core_config :: "config_ref \<Rightarrow> bridge_config" where
  "core_config c = \<lparr>cfg_source_chain_id = vc_source_chain_id c, cfg_vault = vc_vault c, cfg_asset = vc_asset c,
     cfg_token_type = vc_token_type c, cfg_coin_id = vc_coin_id c, cfg_reason_tag = vc_reason_tag c,
     cfg_lock_domain = vc_lock_domain c, cfg_nullifier_domain = vc_nullifier_domain c\<rparr>"

definition core_lock :: "lock_record_ref \<Rightarrow> lock_record" where
  "core_lock r = \<lparr>lock_nonce = vl_nonce r, lock_amount = vl_amount r, lock_unicity_token_id = vl_unicity_token_id r,
     lock_recipient_commitment = vl_recipient_commitment r\<rparr>"

definition core_reason :: "reason_params \<Rightarrow> bridge_back_reason" where
  "core_reason r = \<lparr>rsn_version = vq_version r, rsn_recipient = vq_recipient r, rsn_amount = vq_amount r,
     rsn_fee_recipient = vq_fee_recipient r, rsn_fee_amount = vq_fee_amount r, rsn_deadline = vq_deadline r\<rparr>"

definition core_leaf :: "return_leaf_ref \<Rightarrow> return_leaf" where
  "core_leaf l = \<lparr>leaf_nullifier = vf_nullifier l, leaf_recipient = vf_recipient l, leaf_amount = vf_amount l,
     leaf_fee_recipient = vf_fee_recipient l, leaf_fee_amount = vf_fee_amount l, leaf_deadline = vf_deadline l\<rparr>"

definition core_ref :: "lock_ref_ref \<Rightarrow> source_lock_ref" where
  "core_ref r = \<lparr>ref_nonce = vk_nonce r, ref_digest = vk_digest r\<rparr>"

definition core_public :: "public_values_ref \<Rightarrow> public_values" where
  "core_public p = \<lparr>pv_domain_tag = vv_domain_tag p, pv_config_hash = vv_config_hash p,
     pv_trust_base_hash = vv_trust_base_hash p, pv_spent_root_old = vv_spent_root_old p,
     pv_spent_root_new = vv_spent_root_new p, pv_return_root = vv_return_root p,
     pv_lock_ref_root = vv_lock_ref_root p, pv_batch_size = vv_batch_size p, pv_total_amount = vv_total_amount p\<rparr>"

lemmas core_records = core_config_def core_lock_def core_reason_def core_leaf_def core_ref_def core_public_def

lemmas domains_ref = DOMAIN_CONFIG_ref_def DOMAIN_LOCK_ref_def DOMAIN_RETURN_ref_def DOMAIN_BURN_TRANSITION_ref_def
  DOMAIN_NULLIFIER_ref_def DOMAIN_CONFIG_def DOMAIN_LOCK_def DOMAIN_RETURN_def DOMAIN_BURN_TRANSITION_def
  DOMAIN_NULLIFIER_def

section \<open>Derivations\<close>

lemma identifiers_agree:
  "token_type_ref f i a = token_type sha256_ref f i a" "coin_id_ref f i a = coin_id sha256_ref f i a"
  "recipient_commitment_ref b = recipient_commitment sha256_ref b"
  "burn_transition_id_ref s t = burn_transition_id sha256_ref s t"
  "nullifier_ref h b = nullifier sha256_ref h b" "domain_tag_ref = domain_tag keccak256_ref"
  by (simp_all add: token_type_ref_def token_type_def coin_id_ref_def coin_id_def recipient_commitment_ref_def
      recipient_commitment_def burn_transition_id_ref_def burn_transition_id_def nullifier_ref_def nullifier_def
      domain_tag_ref_def domain_tag_def domains_ref as_bytes_def)

lemma the_encode: "map_option f (abi_encode vs) = Some (f (the (abi_encode vs)))"
  using abi_encode_total[of vs] by auto

lemma config_hash_agrees:
  assumes "wf_config (core_config c)"
  shows "config_hash_ref c = Some (config_hash keccak256_ref (core_config c))"
  using assms by (subst config_hash_ref_def, subst encode_ref_core)
    (simp_all add: the_encode config_hash_def config_vals_def core_config_def domains_ref wf_simps)

lemma lock_digest_agrees:
  assumes "wf_config (core_config c)" "wf_lock_record (core_lock r)"
  shows "lock_digest_ref c r = Some (lock_digest keccak256_ref (core_config c) (core_lock r))"
  using assms by (subst lock_digest_ref_def, subst encode_ref_core)
    (simp_all add: the_encode lock_digest_def lock_vals_def core_records domains_ref wf_simps)

lemma reason_cbor_agrees:
  assumes "wf_reason (core_reason r)"
  shows "reason_cbor_ref c r = reason_cbor (core_config c) (core_reason r)"
  using assms by (simp add: reason_cbor_ref_def reason_cbor_def core_records wf_simps minimal_be_ref_core)

lemma extend_all_core:
  assumes "\<forall>x \<in> set xs. f x = Some (g x)"
  shows "extend_all f acc xs = Some (acc @ concat (map g xs))"
  using assms by (induction xs arbitrary: acc) simp_all

lemma return_root_buf_concat: "return_root_buf ls = concat (map (\<lambda>l. the (pack_words (leaf_vals l))) ls)"
  by (induction ls) simp_all

lemma the_pack: "\<forall>v \<in> set vs. \<not> is_dynamic v \<Longrightarrow> pack_words vs = Some (the (pack_words vs))"
  using pack_words_static by fastforce

lemma leaf_words_agree:
  assumes "wf_leaf (core_leaf l)"
  shows "leaf_words_ref l = Some (the (pack_words (leaf_vals (core_leaf l))))"
proof -
  have "leaf_words_ref l = pack_words (leaf_vals (core_leaf l))"
    using assms by (subst leaf_words_ref_def, subst pack_words_ref_core)
      (simp_all add: leaf_vals_def core_leaf_def wf_simps)
  then show ?thesis using the_pack[of "leaf_vals (core_leaf l)"] by (simp add: leaf_vals_def)
qed

lemma return_root_agrees:
  assumes "\<forall>l \<in> set ls. wf_leaf (core_leaf l)"
  shows "return_root_ref ls = Some (return_root keccak256_ref (map core_leaf ls))"
  using assms leaf_words_agree
  by (simp add: return_root_ref_def return_root_def return_root_buf_concat o_def
      extend_all_core[where g = "\<lambda>l. the (pack_words (leaf_vals (core_leaf l)))"])

lemma ref_words_agree:
  assumes "wf_ref (core_ref r)"
  shows "ref_words_ref r = Some (u256_from_u64 (vk_nonce r) @ vk_digest r)"
  using assms by (subst ref_words_ref_def, subst pack_words_ref_core) (simp_all add: core_ref_def wf_simps)

lemma windows_distinct:
  "sorted (map f xs) \<Longrightarrow> list_all (\<lambda>(a, b). f a \<noteq> f b) (zip xs (tl xs)) \<longleftrightarrow> distinct (map f xs)"
proof (induction xs)
  case (Cons x xs)
  then show ?case by (cases xs) auto
qed simp

lemma map_insort: "map f (insort_key (\<lambda>x. g (f x)) x xs) = insort_key g (f x) (map f xs)"
  by (induction xs) simp_all

lemma map_sort_key: "map f (sort_key (\<lambda>x. g (f x)) xs) = sort_key g (map f xs)"
  by (induction xs) (simp_all add: map_insort)

lemma sort_key_core: "map core_ref (sort_key vk_nonce refs) = sort_key ref_nonce (map core_ref refs)"
  using map_sort_key[of core_ref ref_nonce refs] by (simp add: core_ref_def)

lemma lock_ref_root_agrees:
  assumes "\<forall>r \<in> set refs. wf_ref (core_ref r)"
  shows "sorted_lock_ref_root keccak256_ref (map core_ref refs)
     = (case lock_ref_root_ref refs of None \<Rightarrow> Err DuplicateLockRefNonce | Some root \<Rightarrow> Ok root)"
proof -
  let ?s = "sort_key vk_nonce refs"
  have d: "distinct (map ref_nonce (map core_ref refs)) \<longleftrightarrow> distinct (map vk_nonce refs)"
    by (simp add: core_ref_def o_def)
  have w: "list_all (\<lambda>(a, b). vk_nonce a \<noteq> vk_nonce b) (zip ?s (tl ?s)) \<longleftrightarrow> distinct (map vk_nonce refs)"
    by (simp add: windows_distinct) (metis mset_eq_imp_distinct_iff mset_map mset_sort)
  have e: "extend_all ref_words_ref [] ?s = Some (refs_buf (sort_key ref_nonce (map core_ref refs)))"
    using assms extend_all_core[of ?s ref_words_ref "\<lambda>r. u256_from_u64 (vk_nonce r) @ vk_digest r" "[]"]
    by (simp add: ref_words_agree refs_buf_def flip: sort_key_core) (simp add: core_ref_def o_def)
  show ?thesis
    using d by (simp add: sorted_lock_ref_root_cases lock_ref_root_ref_def w e Let_def)
qed

lemma public_values_abi_agrees:
  assumes "wf_public_values (core_public p)"
  shows "public_values_abi_ref p = Some (public_values_abi (core_public p))"
  using assms the_encode[of "\<lambda>x. x" "public_vals (core_public p)"]
  by (subst public_values_abi_ref_def, subst encode_ref_core)
    (simp_all add: public_values_abi_def public_vals_def core_records wf_simps option.map_ident)

section \<open>The accumulator\<close>

definition core_step :: "step_ref \<Rightarrow> smt_proof_step" where
  "core_step s = mk_step (vs_depth s) (vs_sibling_hash s)"

fun core_terminal :: "terminal_ref \<Rightarrow> terminal" where
  "core_terminal Empty_ref = Empty"
| "core_terminal (Occupied_ref key) = Occupied key"

definition core_witness :: "witness_ref \<Rightarrow> witness" where
  "core_witness w = \<lparr>wit_terminal = core_terminal (vw_terminal w), wit_steps = map core_step (vw_steps w)\<rparr>"

lemma bit_at_ref_core [simp]: "bit_at_ref = bit_at"
  by (intro ext) (simp add: bit_at_ref_def bit_at_def)

lemma node_hash_ref_core [simp]: "node_hash_ref = node_hash sha256_ref"
  by (intro ext) (simp add: node_hash_ref_def node_hash_def node_preimage_def NODE_PREFIX_def)

lemma tree_constants [simp]:
  "EMPTY_TREE_ROOT_ref = EMPTY_TREE_ROOT" "DEPTH_ref = DEPTH" "leaf_hash_ref key = leaf_hash sha256_ref key"
  by (simp_all add: EMPTY_TREE_ROOT_ref_def EMPTY_TREE_ROOT_def DEPTH_ref_def DEPTH_def
      leaf_hash_ref_def leaf_hash_def leaf_preimage_def LEAF_PREFIX_def PRESENCE_VALUE_def)

lemma empty_hashes_ref_core [simp]: "empty_hashes_ref = empty_hashes sha256_ref"
  by (simp add: empty_hashes_ref_def empty_hashes_def)

lemma single_key_hash_ref_core [simp]:
  "single_key_hash_ref key d = single_key_hash sha256_ref key d (empty_hashes sha256_ref)"
proof -
  have "(\<lambda>h level. if bit_at key level then node_hash sha256_ref (of_nat level) (empty_hashes sha256_ref ! (level + 1)) h
        else node_hash sha256_ref (of_nat level) h (empty_hashes sha256_ref ! (level + 1)))
      = key_step sha256_ref (empty_hashes sha256_ref) key" by (intro ext) (simp add: key_step_def Let_def)
  then show ?thesis
    unfolding single_key_hash_ref_def single_key_hash_def node_hash_ref_core empty_hashes_ref_core bit_at_ref_core
      tree_constants by simp
qed

lemma case_both:
  "(case (a, b) of (Some l, Some r) \<Rightarrow> Some (f l r) | _ \<Rightarrow> None)
    = (case a of None \<Rightarrow> None | Some l \<Rightarrow> (case b of None \<Rightarrow> None | Some r \<Rightarrow> Some (f l r)))"
  by (cases a; cases b) simp_all

lemma subtree_hash_ref_core: "subtree_hash_ref keys d = subtree_hash sha256_ref (empty_hashes sha256_ref) keys d"
proof (induction sha256_ref "empty_hashes sha256_ref" keys d rule: subtree_hash.induct)
  case (3 k1 k2 ks d)
  show ?case
  proof (cases "DEPTH \<le> d")
    case True
    then show ?thesis by (simp add: subtree_hash_ref.simps[of "k1 # k2 # ks" d])
  next
    case False
    let ?keys = "k1 # k2 # ks"
    note l = 3(1)[OF False refl refl refl]
    let ?left = "filter (\<lambda>k. \<not> bit_at k d) ?keys" and ?right = "filter (\<lambda>k. bit_at k d) ?keys"
    have p: "partition (\<lambda>k. bit_at k d) ?keys = (?right, ?left)" by (simp add: o_def)
    have "subtree_hash_ref ?keys d = (case (subtree_hash_ref ?left (d + 1), subtree_hash_ref ?right (d + 1)) of
        (Some l, Some r) \<Rightarrow> Some (node_hash sha256_ref (of_nat d) l r) | _ \<Rightarrow> None)"
      by (subst subtree_hash_ref.simps) (simp only: list.case p prod.case False tree_constants if_False
          bit_at_ref_core node_hash_ref_core)
    also have "\<dots> = subtree_hash sha256_ref (empty_hashes sha256_ref) ?keys d"
      unfolding subtree_hash.simps(3) Let_def if_not_P[OF False] case_both l
      using 3(2)[OF False refl refl refl]
      by (cases "subtree_hash sha256_ref (empty_hashes sha256_ref) ?left (d + 1)") simp_all
    finally show ?thesis .
  qed
qed (simp_all add: subtree_hash_ref.simps)

lemma first_differing_bit_ref_core [simp]: "first_differing_bit_ref = first_differing_bit"
  by (intro ext) (simp add: first_differing_bit_ref_def first_differing_bit_def)

lemma core_step_mk [simp]: "core_step \<lparr>vs_depth = d, vs_sibling_hash = h\<rparr> = mk_step d h"
  by (simp add: core_step_def)

lemma root_ref_core: "root_ref keys = tree_root sha256_ref keys"
  by (simp add: root_ref_def tree_root_def subtree_hash_ref_core)

text \<open>Where the prover's loop returns \<open>None\<close> (an absent key that equals a present one), the generator's panics.\<close>

lemma witness_loop_ref_core:
  "map_option (map core_step) (witness_loop_ref key current d steps)
     = Option.bind (witness_loop sha256_ref (empty_hashes sha256_ref) key current d (map core_step steps)) (\<lambda>x. x)"
proof (induction key current d steps rule: witness_loop_ref.induct)
  case (1 key current d steps)
  show ?case
  proof (cases current rule: remdups_adj.cases)
    case (3 k1 k2 ks)
    show ?thesis
    proof (cases "DEPTH \<le> d")
      case True
      then show ?thesis using 3 by (simp add: witness_loop_ref.simps[of key "k1 # k2 # ks"])
    next
      case False
      let ?keys = "k1 # k2 # ks"
      let ?mine = "filter (\<lambda>k. bit_at k d = bit_at key d) ?keys" and ?sib = "filter (\<lambda>k. bit_at k d \<noteq> bit_at key d) ?keys"
      let ?h = "subtree_hash sha256_ref (empty_hashes sha256_ref) ?sib (d + 1)"
      have p: "partition (\<lambda>k. bit_at k d = bit_at key d) ?keys = (?mine, ?sib)" by (simp add: o_def)
      have c: "witness_loop_ref key ?keys d steps = (case ?h of None \<Rightarrow> None
          | Some h \<Rightarrow> witness_loop_ref key ?mine (d + 1) (steps @ [\<lparr>vs_depth = of_nat d, vs_sibling_hash = h\<rparr>]))"
        by (subst witness_loop_ref.simps) (simp only: list.case p prod.case False tree_constants if_False
            bit_at_ref_core subtree_hash_ref_core)
      have i: "map_option (map core_step) (witness_loop_ref key ?mine (d + 1) (steps @ [\<lparr>vs_depth = of_nat d, vs_sibling_hash = h\<rparr>]))
          = Option.bind (witness_loop sha256_ref (empty_hashes sha256_ref) key ?mine (d + 1)
              (map core_step steps @ [mk_step (of_nat d) h])) (\<lambda>x. x)" if "?h = Some h" for h
        using 1[of k1 "k2 # ks" k2 ks ?mine ?sib h] 3 False p that by (simp add: subtree_hash_ref_core)
      show ?thesis unfolding 3 c unfolding witness_loop.simps(3) Let_def if_not_P[OF False]
        by (cases ?h) (simp_all only: option.case option.map Option.bind.simps i)
    qed
  qed (simp_all add: witness_loop_ref.simps o_def split: option.split)
qed

lemma tree_witness_ref_core:
  "map_option (map_option core_witness) (tree_witness_ref keys key)
     = (case non_membership_witness sha256_ref keys key of
          Some None \<Rightarrow> if key \<in> set keys then Some None else None
        | w \<Rightarrow> w)"
  using witness_loop_ref_core[of key keys 0 "[]"]
  by (auto simp: tree_witness_ref_def non_membership_witness_def list_ex_iff core_witness_def rev_map
      bind_eq_Some_conv split: option.splits)

lemma tree_insert_ref_core: "tree_insert_ref keys key = (case tree_insert keys key of Inl _ \<Rightarrow> None | Inr t \<Rightarrow> Some t)"
  by (simp add: tree_insert_ref_def tree_insert_def list_ex_iff)

section \<open>Agreement\<close>

text \<open>C36. The reference generator and the crates derive the same bytes. For every configuration, lock,
  reason, batch and public values whose arrays have their declared sizes, each derivation of the generator
  is the core's with the generator's two hashes, and neither panics; the only refusal, of repeated lock
  nonces, is the same on both sides.\<close>

theorem reference_agrees:
  assumes "wf_config (core_config c)" "wf_lock_record (core_lock l)" "wf_reason (core_reason r)"
    and "\<forall>leaf \<in> set leaves. wf_leaf (core_leaf leaf)" "\<forall>x \<in> set refs. wf_ref (core_ref x)"
    and "wf_public_values (core_public p)"
  shows "token_type_ref chain vault asset = token_type sha256_ref chain vault asset
    \<and> coin_id_ref chain vault asset = coin_id sha256_ref chain vault asset
    \<and> recipient_commitment_ref owner = recipient_commitment sha256_ref owner
    \<and> burn_transition_id_ref state tx = burn_transition_id sha256_ref state tx
    \<and> nullifier_ref h burn = nullifier sha256_ref h burn \<and> domain_tag_ref = domain_tag keccak256_ref
    \<and> config_hash_ref c = Some (config_hash keccak256_ref (core_config c))
    \<and> lock_digest_ref c l = Some (lock_digest keccak256_ref (core_config c) (core_lock l))
    \<and> reason_cbor_ref c r = reason_cbor (core_config c) (core_reason r)
    \<and> return_root_ref leaves = Some (return_root keccak256_ref (map core_leaf leaves))
    \<and> sorted_lock_ref_root keccak256_ref (map core_ref refs)
        = (case lock_ref_root_ref refs of None \<Rightarrow> Err DuplicateLockRefNonce | Some root \<Rightarrow> Ok root)
    \<and> public_values_abi_ref p = Some (public_values_abi (core_public p))"
  using assms
  by (intro conjI identifiers_agree config_hash_agrees lock_digest_agrees reason_cbor_agrees return_root_agrees
      lock_ref_root_agrees public_values_abi_agrees)

definition ref_config_ex :: config_ref where
  "ref_config_ex = \<lparr>vc_source_chain_id = 1, vc_vault = replicate 20 1, vc_asset = replicate 20 2,
     vc_token_type = replicate 32 3, vc_coin_id = replicate 32 4, vc_reason_tag = 39049,
     vc_lock_domain = replicate 32 5, vc_nullifier_domain = replicate 32 6\<rparr>"

definition ref_leaf_ex :: return_leaf_ref where
  "ref_leaf_ex = \<lparr>vf_nullifier = replicate 32 7, vf_recipient = replicate 20 8, vf_amount = u256_ref 9,
     vf_fee_recipient = replicate 20 0, vf_fee_amount = u256_ref 0, vf_deadline = 10\<rparr>"

definition ref_public_ex :: public_values_ref where
  "ref_public_ex = \<lparr>vv_domain_tag = replicate 32 1, vv_config_hash = replicate 32 2, vv_trust_base_hash = replicate 32 3,
     vv_spent_root_old = replicate 32 4, vv_spent_root_new = replicate 32 5, vv_return_root = replicate 32 6,
     vv_lock_ref_root = replicate 32 7, vv_batch_size = 1, vv_total_amount = u256_ref 9\<rparr>"

theorem reference_agrees_witness:
  "config_hash_ref ref_config_ex = Some (config_hash keccak256_ref (core_config ref_config_ex))
   \<and> return_root_ref [ref_leaf_ex] = Some (return_root keccak256_ref [core_leaf ref_leaf_ex])
   \<and> sorted_lock_ref_root keccak256_ref (map core_ref [\<lparr>vk_nonce = 3, vk_digest = replicate 32 1\<rparr>])
       = (case lock_ref_root_ref [\<lparr>vk_nonce = 3, vk_digest = replicate 32 1\<rparr>] of
            None \<Rightarrow> Err DuplicateLockRefNonce | Some root \<Rightarrow> Ok root)
   \<and> public_values_abi_ref ref_public_ex = Some (public_values_abi (core_public ref_public_ex))"
proof -
  let ?l = "\<lparr>vl_nonce = 1, vl_amount = u256_ref 9, vl_unicity_token_id = replicate 32 1,
    vl_recipient_commitment = replicate 32 2\<rparr>"
  let ?r = "\<lparr>vq_version = 1, vq_recipient = replicate 20 1, vq_amount = u256_ref 9, vq_fee_recipient = replicate 20 0,
    vq_fee_amount = u256_ref 0, vq_deadline = 10\<rparr>"
  note wf = core_records wf_simps ref_config_ex_def ref_leaf_ex_def ref_public_ex_def
  have "wf_config (core_config ref_config_ex)" "wf_lock_record (core_lock ?l)" "wf_reason (core_reason ?r)"
    "\<forall>leaf \<in> set [ref_leaf_ex]. wf_leaf (core_leaf leaf)"
    "\<forall>x \<in> set [\<lparr>vk_nonce = 3, vk_digest = replicate 32 1\<rparr>]. wf_ref (core_ref x)"
    "wf_public_values (core_public ref_public_ex)"
    by (simp_all add: wf)
  from reference_agrees[OF this] show ?thesis by simp
qed

text \<open>C37. The reference accumulator agrees with the prover's: on distinct 32-byte nullifiers it never panics,
  its root is the root of the prover's tree, and the witness it writes for an absent nullifier is the
  prover's witness, which the prover's check accepts against that root and the prover's insertion
  turns into the root of the enlarged reference tree.\<close>

theorem reference_accumulates:
  assumes "distinct keys" "\<forall>k \<in> set keys. key_ok k" "key_ok key" "key \<notin> set keys"
  shows "\<exists>root w keys'. root_ref keys = Some root \<and> tree_root sha256_ref keys = Some root
    \<and> tree_witness_ref keys key = Some (Some w)
    \<and> non_membership_witness sha256_ref keys key = Some (Some (core_witness w))
    \<and> verify_non_member sha256_ref root key (core_witness w)
    \<and> tree_insert_ref keys key = Some keys'
    \<and> root_ref keys' = acc_insert sha256_ref root key (core_witness w)"
proof -
  obtain v where v: "non_membership_witness sha256_ref keys key = Some (Some v)"
    "verify_non_member sha256_ref (commit sha256_ref (set keys)) key v"
    "acc_insert sha256_ref (commit sha256_ref (set keys)) key v = Some (commit sha256_ref (insert key (set keys)))"
    using witness_accepted[OF assms] by blast
  obtain w where w: "tree_witness_ref keys key = Some (Some w)" "v = core_witness w"
    using tree_witness_ref_core[of keys key] v(1) by auto
  have "tree_root sha256_ref keys = Some (commit sha256_ref (set keys))"
    "tree_root sha256_ref (keys @ [key]) = Some (commit sha256_ref (insert key (set keys)))"
    using assms by (simp add: tree_root_commit, subst tree_root_commit) auto
  moreover have "tree_insert_ref keys key = Some (keys @ [key])"
    using assms(4) by (simp add: tree_insert_ref_def list_ex_iff)
  ultimately show ?thesis using v w by (intro exI conjI) (auto simp: root_ref_core)
qed

theorem reference_accumulates_witness:
  "\<exists>root w. root_ref [replicate 32 1] = Some root
    \<and> tree_witness_ref [replicate 32 1] (replicate 32 2) = Some (Some w)
    \<and> verify_non_member sha256_ref root (replicate 32 2) (core_witness w)"
proof -
  have "replicate 32 (2 :: u8) \<notin> set [replicate 32 1]"
    by (simp add: numeral_eq_Suc)
  from reference_accumulates[OF _ _ _ this] show ?thesis by (auto simp: key_ok_def)
qed

end
