(* ===== verification/Host_Vectors.thy ===== *)
theory Host_Vectors
  imports S2
begin

text \<open>
  The conformance check of the prover: model of \<open>host/src/lib.rs\<close>, which holds the vectors of
  \<open>protocol/vectors\<close> against the core, the accumulator and the guest. The texts of errors that come
  from libraries are fields of \<open>vec_libs\<close>. An outer \<open>None\<close> is a panic of the guest.
\<close>

section \<open>Reading JSON\<close>

datatype host_error =
    Host_Io string
  | Host_Json string
  | Host_Hex string
  | Host_Check string

record 'v vec_libs =
  vb_fuel :: nat
  vb_sha256 :: "bytes \<Rightarrow> bytes"
  vb_keccak :: "bytes \<Rightarrow> bytes"
  vb_sdk :: sdk
  vb_json :: "'v jsonlib"
  vb_hex :: hexlib
  vb_as_bool :: "'v \<Rightarrow> bool option"
  vb_io_error :: "string \<Rightarrow> string"
  vb_json_error :: "string \<Rightarrow> string"
  vb_hex_error :: "string \<Rightarrow> string"
  vb_debug :: "bridge_core_error \<Rightarrow> string"
  vb_sdk_error :: "bytes \<Rightarrow> string"
  vb_trust_error :: string

definition str_field :: "('v, 'm) vec_libs_scheme \<Rightarrow> 'v \<Rightarrow> string \<Rightarrow> host_error + string" where
  "str_field L v field =
     ok_or (Host_Check (''missing string field '' @ field)) (js_as_str (vb_json L) (js_index (vb_json L) v field))"

definition u64_field :: "('v, 'm) vec_libs_scheme \<Rightarrow> 'v \<Rightarrow> string \<Rightarrow> host_error + u64" where
  "u64_field L v field =
     ok_or (Host_Check (''missing u64 field '' @ field)) (js_as_u64 (vb_json L) (js_index (vb_json L) v field))"

definition array_field :: "('v, 'm) vec_libs_scheme \<Rightarrow> 'v \<Rightarrow> string \<Rightarrow> host_error + 'v list" where
  "array_field L v field =
     ok_or (Host_Check (''missing array field '' @ field)) (js_as_array (vb_json L) (js_index (vb_json L) v field))"

definition bytes_from_hex :: "('v, 'm) vec_libs_scheme \<Rightarrow> string \<Rightarrow> host_error + bytes" where
  "bytes_from_hex L value =
     ok_or (Host_Hex (vb_hex_error L (strip_0x value))) (hex_decode (vb_hex L) (strip_0x value))"

definition bytes_field :: "('v, 'm) vec_libs_scheme \<Rightarrow> 'v \<Rightarrow> string \<Rightarrow> host_error + bytes" where
  "bytes_field L v field = and_then (str_field L v field) (bytes_from_hex L)"

definition fixed_len :: "nat \<Rightarrow> bytes \<Rightarrow> string \<Rightarrow> host_error + bytes" where
  "fixed_len n bs field =
     (if length bs = n then Ok bs
      else Err (Host_Check (field @ '' length '' @ dec_text (length bs) @ '', expected '' @ dec_text n)))"

definition b20_field :: "('v, 'm) vec_libs_scheme \<Rightarrow> 'v \<Rightarrow> string \<Rightarrow> host_error + bytes" where
  "b20_field L v field = and_then (bytes_field L v field) (\<lambda>bs. fixed_len 20 bs field)"

definition b32_field :: "('v, 'm) vec_libs_scheme \<Rightarrow> 'v \<Rightarrow> string \<Rightarrow> host_error + bytes" where
  "b32_field L v field = and_then (bytes_field L v field) (\<lambda>bs. fixed_len 32 bs field)"

definition b32_value :: "('v, 'm) vec_libs_scheme \<Rightarrow> string \<Rightarrow> 'v \<Rightarrow> host_error + bytes" where
  "b32_value L what v =
     and_then (ok_or (Host_Check (''missing hex string '' @ what)) (js_as_str (vb_json L) v)) (\<lambda>s.
     and_then (bytes_from_hex L s) (\<lambda>bs. fixed_len 32 bs what))"

definition eq_hex_vec ::
  "('v, 'm) vec_libs_scheme \<Rightarrow> string \<Rightarrow> bytes \<Rightarrow> 'v \<Rightarrow> string \<Rightarrow> host_error + unit" where
  "eq_hex_vec L name actual output field =
     and_then (bytes_field L output field) (\<lambda>expected.
       if actual \<noteq> expected then
         Err (Host_Check (name @ '' mismatch: actual=0x'' @ hex_encode (vb_hex L) actual @ '' expected=0x''
           @ hex_encode (vb_hex L) expected))
       else Ok ())"

definition eq_hex ::
  "('v, 'm) vec_libs_scheme \<Rightarrow> string \<Rightarrow> bytes \<Rightarrow> 'v \<Rightarrow> string \<Rightarrow> host_error + unit" where
  "eq_hex L name actual output field = eq_hex_vec L name actual output field"

abbreviation ix :: "('v, 'm) vec_libs_scheme \<Rightarrow> 'v \<Rightarrow> string \<Rightarrow> 'v" where
  "ix L v key \<equiv> js_index (vb_json L) v key"

definition vec_config_from_json :: "('v, 'm) vec_libs_scheme \<Rightarrow> 'v \<Rightarrow> 'v \<Rightarrow> host_error + bridge_config" where
  "vec_config_from_json L input output =
     and_then (u64_field L input ''source_chain_id'') (\<lambda>chain.
     and_then (b20_field L input ''vault'') (\<lambda>vault.
     and_then (b20_field L input ''asset'') (\<lambda>asset.
     and_then (b32_field L output ''token_type'') (\<lambda>ttype.
     and_then (b32_field L output ''coin_id'') (\<lambda>coin.
     and_then (u64_field L input ''reason_tag'') (\<lambda>tag.
     and_then (b32_field L input ''lock_domain'') (\<lambda>ldom.
     and_then (b32_field L input ''nullifier_domain'') (\<lambda>ndom.
     Ok \<lparr>cfg_source_chain_id = chain, cfg_vault = vault, cfg_asset = asset, cfg_token_type = ttype,
         cfg_coin_id = coin, cfg_reason_tag = tag, cfg_lock_domain = ldom, cfg_nullifier_domain = ndom\<rparr>))))))))"

definition return_leaf_from_json :: "('v, 'm) vec_libs_scheme \<Rightarrow> 'v \<Rightarrow> host_error + return_leaf" where
  "return_leaf_from_json L v =
     and_then (b32_field L v ''nullifier'') (\<lambda>nl.
     and_then (b20_field L v ''recipient'') (\<lambda>recipient.
     and_then (b32_field L v ''amount'') (\<lambda>amount.
     and_then (b20_field L v ''fee_recipient'') (\<lambda>fee_recipient.
     and_then (b32_field L v ''fee_amount'') (\<lambda>fee_amount.
     and_then (u64_field L v ''deadline'') (\<lambda>deadline.
     Ok \<lparr>leaf_nullifier = nl, leaf_recipient = recipient, leaf_amount = amount,
         leaf_fee_recipient = fee_recipient, leaf_fee_amount = fee_amount, leaf_deadline = deadline\<rparr>))))))"

definition lock_ref_from_json :: "('v, 'm) vec_libs_scheme \<Rightarrow> 'v \<Rightarrow> host_error + source_lock_ref" where
  "lock_ref_from_json L v =
     and_then (u64_field L v ''nonce'') (\<lambda>nonce.
     and_then (b32_field L v ''digest'') (\<lambda>digest. Ok \<lparr>ref_nonce = nonce, ref_digest = digest\<rparr>))"

text \<open>\<open>as u32\<close> keeps the low 32 bits of \<open>batch_size\<close>.\<close>

definition public_values_from_json :: "('v, 'm) vec_libs_scheme \<Rightarrow> 'v \<Rightarrow> host_error + public_values" where
  "public_values_from_json L v =
     and_then (b32_field L v ''domain_tag'') (\<lambda>tag.
     and_then (b32_field L v ''config_hash'') (\<lambda>ch.
     and_then (b32_field L v ''trust_base_hash'') (\<lambda>tbh.
     and_then (b32_field L v ''spent_root_old'') (\<lambda>old.
     and_then (b32_field L v ''spent_root_new'') (\<lambda>new.
     and_then (b32_field L v ''return_root'') (\<lambda>rroot.
     and_then (b32_field L v ''lock_ref_root'') (\<lambda>lroot.
     and_then (u64_field L v ''batch_size'') (\<lambda>size.
     and_then (b32_field L v ''total_amount'') (\<lambda>total.
     Ok \<lparr>pv_domain_tag = tag, pv_config_hash = ch, pv_trust_base_hash = tbh, pv_spent_root_old = old,
         pv_spent_root_new = new, pv_return_root = rroot, pv_lock_ref_root = lroot,
         pv_batch_size = ucast size, pv_total_amount = total\<rparr>)))))))))"

definition step_from_json :: "('v, 'm) vec_libs_scheme \<Rightarrow> 'v \<Rightarrow> host_error + smt_proof_step" where
  "step_from_json L step =
     and_then (u64_field L step ''depth'') (\<lambda>depth.
     and_then (if depth < 256 then Ok (ucast depth) else Err (Host_Check ''accumulator step depth exceeds u8'')) (\<lambda>d.
     and_then (b32_field L step ''sibling_hash'') (\<lambda>h. Ok (mk_step d h))))"

definition non_membership_witness_from_json ::
  "('v, 'm) vec_libs_scheme \<Rightarrow> 'v \<Rightarrow> host_error + witness" where
  "non_membership_witness_from_json L v =
     and_then (str_field L (ix L v ''terminal'') ''kind'') (\<lambda>kind.
     and_then
       (if kind = ''empty'' then Ok Empty
        else if kind = ''occupied'' then
          and_then (b32_field L (ix L v ''terminal'') ''key'') (\<lambda>key. Ok (Occupied key))
        else Err (Host_Check (''unknown accumulator terminal kind '' @ kind))) (\<lambda>term.
     and_then (array_field L v ''steps'') (\<lambda>steps.
     and_then (collect_results (step_from_json L) steps) (\<lambda>steps.
     Ok \<lparr>wit_terminal = term, wit_steps = steps\<rparr>))))"

section \<open>The groups\<close>

definition family_of :: "('v, 'm) vec_libs_scheme \<Rightarrow> 'v \<Rightarrow> string" where
  "family_of L input =
     (case js_as_str (vb_json L) (ix L input ''chain_family'') of None \<Rightarrow> ''tron'' | Some f \<Rightarrow> f)"

definition check_config :: "('v, 'm) vec_libs_scheme \<Rightarrow> 'v \<Rightarrow> host_error + unit" where
  "check_config L v =
     (let input = ix L v ''in''; output = ix L v ''out'' in
     and_then (vec_config_from_json L input output) (\<lambda>cfg.
     and_then (str_field L input ''chain_id_str'') (\<lambda>chain.
     and_then (str_field L input ''asset_evm_hex'') (\<lambda>asset.
     and_then (eq_hex L ''token_type'' (token_type (vb_sha256 L) (family_of L input) chain asset) output ''token_type'') (\<lambda>_.
     and_then (eq_hex L ''coin_id'' (coin_id (vb_sha256 L) (family_of L input) chain asset) output ''coin_id'') (\<lambda>_.
     eq_hex L ''config_hash'' (config_hash (vb_keccak L) cfg) output ''config_hash''))))))"

definition check_lock :: "('v, 'm) vec_libs_scheme \<Rightarrow> 'v \<Rightarrow> 'v \<Rightarrow> host_error + unit" where
  "check_lock L lock config =
     (let input = ix L lock ''in''; output = ix L lock ''out'' in
     and_then (vec_config_from_json L (ix L config ''in'') (ix L config ''out'')) (\<lambda>cfg.
     and_then (bytes_field L input ''recipient_cbor'') (\<lambda>recipient_cbor.
     and_then (u64_field L input ''nonce'') (\<lambda>nonce.
     and_then (b32_field L input ''amount'') (\<lambda>amount.
     and_then (b32_field L input ''unicity_token_id'') (\<lambda>token_id.
     let record = \<lparr>lock_nonce = nonce, lock_amount = amount, lock_unicity_token_id = token_id,
           lock_recipient_commitment = recipient_commitment (vb_sha256 L) recipient_cbor\<rparr> in
     and_then (eq_hex L ''recipient_commitment'' (lock_recipient_commitment record) output ''recipient_commitment'') (\<lambda>_.
     eq_hex L ''lock_digest'' (lock_digest (vb_keccak L) cfg record) output ''lock_digest'')))))))"

definition check_value :: "('v, 'm) vec_libs_scheme \<Rightarrow> 'v \<Rightarrow> host_error + unit" where
  "check_value L v =
     and_then (b32_field L (ix L v ''in'') ''coin_id'') (\<lambda>coin.
     and_then (u64_field L (ix L v ''in'') ''amount'') (\<lambda>amount.
     and_then (array_field L v ''valid'') (\<lambda>valid.
     and_then (collect_results (\<lambda>payload.
         and_then (bytes_from_hex L (case js_as_str (vb_json L) payload of None \<Rightarrow> [] | Some s \<Rightarrow> s)) (\<lambda>bs.
         and_then (ok_or (Host_Check (''value vector rejected a valid payload: '' @ vb_sdk_error L bs))
             (decode_bridged_payment_data (vb_sdk L) bs)) (\<lambda>assets.
           if map_option asset_value (find_asset assets coin) \<noteq> Some (unat amount)
           then Err (Host_Check ''value vector amount mismatch'') else Ok ()))) valid) (\<lambda>_.
     and_then (array_field L v ''invalid'') (\<lambda>invalid.
     and_then (collect_results (\<lambda>c.
         and_then (bytes_field L c ''payload'') (\<lambda>bs.
           if decode_bridged_payment_data (vb_sdk L) bs \<noteq> None
           then and_then (str_field L c ''why'') (\<lambda>why.
             Err (Host_Check (''value vector accepted an invalid payload: '' @ why)))
           else Ok ())) invalid) (\<lambda>_. Ok ()))))))"

definition check_reason :: "('v, 'm) vec_libs_scheme \<Rightarrow> 'v \<Rightarrow> host_error + unit" where
  "check_reason L v =
     (let input = ix L v ''in''; output = ix L v ''out'' in
     and_then (u64_field L input ''source_chain_id'') (\<lambda>chain.
     and_then (b20_field L input ''vault'') (\<lambda>vault.
     and_then (b20_field L input ''asset'') (\<lambda>asset.
     and_then (b32_field L input ''token_type'') (\<lambda>ttype.
     and_then (b32_field L input ''coin_id'') (\<lambda>coin.
     and_then (u64_field L input ''reason_tag'') (\<lambda>tag.
     let cfg = \<lparr>cfg_source_chain_id = chain, cfg_vault = vault, cfg_asset = asset, cfg_token_type = ttype,
           cfg_coin_id = coin, cfg_reason_tag = tag, cfg_lock_domain = replicate 32 0,
           cfg_nullifier_domain = replicate 32 0\<rparr> in
     and_then (u64_field L input ''version'') (\<lambda>version.
     and_then (b20_field L input ''recipient'') (\<lambda>recipient.
     and_then (b32_field L input ''amount'') (\<lambda>amount.
     and_then (b20_field L input ''fee_recipient'') (\<lambda>fee_recipient.
     and_then (b32_field L input ''fee_amount'') (\<lambda>fee_amount.
     and_then (u64_field L input ''deadline'') (\<lambda>deadline.
     let reason_bytes = reason_cbor cfg
           \<lparr>rsn_version = version, rsn_recipient = recipient, rsn_amount = amount,
            rsn_fee_recipient = fee_recipient, rsn_fee_amount = fee_amount, rsn_deadline = deadline\<rparr> in
     and_then (eq_hex_vec L ''reason_cbor'' reason_bytes output ''reason_cbor'') (\<lambda>_.
     eq_hex L ''reason_hash'' (reason_hash (vb_sha256 L) reason_bytes) output ''reason_hash''))))))))))))))"

definition check_nullifier :: "('v, 'm) vec_libs_scheme \<Rightarrow> 'v \<Rightarrow> host_error + unit" where
  "check_nullifier L v =
     (let input = ix L v ''in''; output = ix L v ''out'' in
     and_then (b32_field L input ''state_id'') (\<lambda>state_id.
     and_then (b32_field L input ''tx_hash'') (\<lambda>tx_hash.
     let burn_id = burn_transition_id (vb_sha256 L) state_id tx_hash in
     and_then (eq_hex L ''burn_transition_id'' burn_id output ''burn_transition_id'') (\<lambda>_.
     and_then (b32_field L input ''config_hash'') (\<lambda>ch.
     eq_hex L ''nullifier'' (nullifier (vb_sha256 L) ch burn_id) output ''nullifier'')))))"

text \<open>The loop over the nullifiers, with \<open>idx\<close> for the messages.\<close>

fun check_inserts ::
  "('v, 'm) vec_libs_scheme \<Rightarrow> nat \<Rightarrow> bytes \<Rightarrow> bytes list \<Rightarrow> bytes list \<Rightarrow> 'v list \<Rightarrow> host_error + unit" where
  "check_inserts L idx running (nl # nullifiers) (root # roots) (entry # witnesses) =
     and_then (b32_field L entry ''nullifier'') (\<lambda>n.
     if n \<noteq> nl then Err (Host_Check (''accumulator witness '' @ dec_text idx @ '' nullifier mismatch'')) else
     and_then (b32_field L entry ''against_root'') (\<lambda>against.
     if against \<noteq> running
     then Err (Host_Check (''accumulator witness '' @ dec_text idx @ '' against_root mismatch'')) else
     and_then (non_membership_witness_from_json L entry) (\<lambda>w.
     if \<not> verify_non_member (sdk_sha256 (vb_sdk L)) running nl w
     then Err (Host_Check (''accumulator witness '' @ dec_text idx @ '' does not verify'')) else
     and_then (ok_or (Host_Check (''accumulator insert '' @ dec_text idx @ '' failed''))
         (acc_insert (sdk_sha256 (vb_sdk L)) running nl w)) (\<lambda>next_root.
     and_then
       (if next_root \<noteq> root then Ok True
        else and_then (b32_field L entry ''new_root'') (\<lambda>new. Ok (next_root \<noteq> new))) (\<lambda>differs.
     if differs then
       Err (Host_Check (''accumulator root '' @ dec_text idx @ '' mismatch: actual=0x''
         @ hex_encode (vb_hex L) next_root @ '' expected=0x'' @ hex_encode (vb_hex L) root))
     else check_inserts L (idx + 1) next_root nullifiers roots witnesses)))))"
| "check_inserts L idx running nullifiers roots witnesses = Ok ()"

definition check_accumulator :: "('v, 'm) vec_libs_scheme \<Rightarrow> 'v \<Rightarrow> host_error + unit" where
  "check_accumulator L v =
     (let input = ix L v ''in''; output = ix L v ''out'' in
     and_then (b32_field L input ''empty_root'') (\<lambda>empty_root.
     if empty_root \<noteq> EMPTY_TREE_ROOT then
       Err (Host_Check (''empty accumulator root mismatch: actual=0x'' @ hex_encode (vb_hex L) EMPTY_TREE_ROOT
         @ '' expected=0x'' @ hex_encode (vb_hex L) empty_root))
     else
     and_then (array_field L input ''nullifiers'') (\<lambda>ns.
     and_then (collect_results (b32_value L ''nullifier'') ns) (\<lambda>nullifiers.
     and_then (array_field L output ''roots'') (\<lambda>rs.
     and_then (collect_results (b32_value L ''root'') rs) (\<lambda>roots.
     and_then (array_field L output ''witnesses'') (\<lambda>witnesses.
     if length witnesses \<noteq> length nullifiers \<or> length roots \<noteq> length nullifiers
     then Err (Host_Check ''accumulator vector length mismatch'')
     else check_inserts L 0 EMPTY_TREE_ROOT nullifiers roots witnesses)))))))"

definition check_public :: "('v, 'm) vec_libs_scheme \<Rightarrow> 'v \<Rightarrow> 'v \<Rightarrow> host_error + unit" where
  "check_public L public_vec config =
     (let input = ix L public_vec ''in''; output = ix L public_vec ''out'' in
     and_then (vec_config_from_json L (ix L config ''in'') (ix L config ''out'')) (\<lambda>cfg.
     and_then (array_field L input ''leaves'') (\<lambda>ls.
     and_then (collect_results (return_leaf_from_json L) ls) (\<lambda>leaves.
     and_then (array_field L input ''lock_refs'') (\<lambda>rs.
     and_then (collect_results (lock_ref_from_json L) rs) (\<lambda>refs.
     and_then (map_err (\<lambda>e. Host_Check (''lock ref root: '' @ vb_debug L e))
         (sorted_lock_ref_root (vb_keccak L) refs)) (\<lambda>lroot.
     and_then (b32_field L input ''trust_base_hash'') (\<lambda>tbh.
     and_then (b32_field L input ''spent_root_old'') (\<lambda>old.
     and_then (b32_field L input ''spent_root_new'') (\<lambda>new.
     and_then (u64_field L input ''batch_size'') (\<lambda>size.
     and_then (b32_field L input ''total_amount'') (\<lambda>total.
     let pv = \<lparr>pv_domain_tag = domain_tag (vb_keccak L), pv_config_hash = config_hash (vb_keccak L) cfg,
           pv_trust_base_hash = tbh, pv_spent_root_old = old, pv_spent_root_new = new,
           pv_return_root = return_root (vb_keccak L) leaves, pv_lock_ref_root = lroot,
           pv_batch_size = ucast size, pv_total_amount = total\<rparr> in
     and_then (eq_hex L ''domain_tag'' (pv_domain_tag pv) output ''domain_tag'') (\<lambda>_.
     and_then (eq_hex L ''return_root'' (pv_return_root pv) output ''return_root'') (\<lambda>_.
     and_then (eq_hex L ''lock_ref_root'' lroot output ''lock_ref_root'') (\<lambda>_.
     and_then (eq_hex L ''config_hash'' (pv_config_hash pv) output ''config_hash'') (\<lambda>_.
     eq_hex_vec L ''public_values_abi'' (public_values_abi pv) output ''public_values_abi''))))))))))))))))"

section \<open>The token vectors\<close>

definition node_from_json :: "('v, 'm) vec_libs_scheme \<Rightarrow> 'v \<Rightarrow> host_error + root_node" where
  "node_from_json L node =
     and_then (str_field L node ''node_id'') (\<lambda>nid.
     and_then (bytes_field L node ''signing_key'') (\<lambda>bs.
     and_then (ok_or (Host_Check (''trust base signing key: '' @ vb_sdk_error L bs)) (sdk_public_key (vb_sdk L) bs)) (\<lambda>key.
     and_then (u64_field L node ''stake'') (\<lambda>stake.
     Ok \<lparr>node_id = nid, node_signing_key = key, node_stake = stake\<rparr>))))"

definition vec_trust_base_from_json :: "('v, 'm) vec_libs_scheme \<Rightarrow> 'v \<Rightarrow> host_error + trust_base" where
  "vec_trust_base_from_json L v =
     and_then (array_field L v ''root_nodes'') (\<lambda>ns.
     and_then (collect_results (node_from_json L) ns) (\<lambda>nodes.
     and_then (u64_field L v ''network_id'') (\<lambda>nid.
     and_then (if nid < 65536 then Ok (ucast nid) else Err (Host_Check ''network_id exceeds u16'')) (\<lambda>nid16.
     and_then (ok_or (Host_Check (''network_id: '' @ vb_sdk_error L (be16 nid16)))
         (sdk_network_id (vb_sdk L) nid16)) (\<lambda>network.
     and_then (u64_field L v ''version'') (\<lambda>version.
     and_then (u64_field L v ''epoch'') (\<lambda>epoch.
     and_then (u64_field L v ''epoch_start_round'') (\<lambda>start.
     and_then (u64_field L v ''quorum_threshold'') (\<lambda>quorum.
     let tb = \<lparr>tb_version = version, tb_network_id = network, tb_epoch = epoch, tb_epoch_start_round = start,
           tb_root_nodes = nodes, tb_quorum_threshold = quorum\<rparr> in
     if sdk_trust_valid (vb_sdk L) tb then Ok tb
     else Err (Host_Check (''trust base: '' @ vb_trust_error L)))))))))))"

definition bridge_burn_from_json :: "('v, 'm) vec_libs_scheme \<Rightarrow> 'v \<Rightarrow> host_error + burn_witness" where
  "bridge_burn_from_json L v =
     and_then (bytes_field L v ''token_cbor'') (\<lambda>token_cbor.
     and_then (ok_or (Host_Check (''token decode: '' @ vb_sdk_error L token_cbor))
         (sdk_token_from_cbor (vb_sdk L) token_cbor)) (\<lambda>token.
     and_then (vec_trust_base_from_json L (ix L v ''trust_base'')) (\<lambda>tb.
     and_then
       (case js_get (vb_json L) v ''certified'' of
          Some c \<Rightarrow> if vb_as_bool L c = Some True then Ok True else Ok False
        | None \<Rightarrow> Ok False) (\<lambda>certified.
     and_then
       (if certified then Ok Certified
        else
          and_then (bytes_field L v ''anchor_certificate_cbor'') (\<lambda>bs.
          if \<not> dec_finish (sdk_decoder (vb_sdk L)) bs
          then Err (Host_Check (''anchor certificate trailing data: '' @ vb_sdk_error L bs)) else
          and_then (ok_or (Host_Check (''anchor certificate decode: '' @ vb_sdk_error L bs))
            (sdk_certificate_from_cbor (vb_sdk L) bs)) (\<lambda>cert. Ok (Anchored cert)))) (\<lambda>verification.
     and_then (u64_field L v ''lock_justification_tag'') (\<lambda>tag.
     Ok \<lparr>bw_token = token, bw_trust_base = tb, bw_verification = verification,
         bw_lock_justification_tag = tag\<rparr>))))))"

definition burn_values :: "('v, 'm) vec_libs_scheme \<Rightarrow> 'v \<Rightarrow> 'v list" where
  "burn_values L input =
     (case js_get (vb_json L) input ''burns'' of
        None \<Rightarrow> [input]
      | Some burns \<Rightarrow> (case js_as_array (vb_json L) burns of None \<Rightarrow> [input] | Some bs \<Rightarrow> bs))"

definition token_input :: "('v, 'm) vec_libs_scheme \<Rightarrow> 'v \<Rightarrow> 'v \<Rightarrow> host_error + guest_input" where
  "token_input L token config =
     (let input = ix L token ''in''; output = ix L token ''out'' in
     and_then (vec_config_from_json L (ix L config ''in'') (ix L config ''out'')) (\<lambda>cfg.
     and_then (array_field L input ''leaves'') (\<lambda>ls.
     and_then (collect_results (return_leaf_from_json L) ls) (\<lambda>leaves.
     and_then (array_field L input ''lock_refs'') (\<lambda>rs.
     and_then (collect_results (lock_ref_from_json L) rs) (\<lambda>refs.
     and_then (array_field L input ''accumulator_witnesses'') (\<lambda>ws.
     and_then (collect_results (non_membership_witness_from_json L) ws) (\<lambda>witnesses.
     and_then (collect_results (bridge_burn_from_json L) (burn_values L input)) (\<lambda>burns.
     and_then (public_values_from_json L output) (\<lambda>pv.
     Ok \<lparr>gi_config = cfg, gi_public_values = pv, gi_return_leaves = leaves, gi_sorted_lock_refs = refs,
         gi_witness = \<lparr>rw_accumulator_witnesses = witnesses, rw_bridge_burns = burns\<rparr>\<rparr>))))))))))"

definition check_token :: "('v, 'm) vec_libs_scheme \<Rightarrow> 'v \<Rightarrow> 'v \<Rightarrow> (host_error + unit) option" where
  "check_token L token config =
     (let input = ix L token ''in''; output = ix L token ''out'' in
     run_then (Some (token_input L token config)) (\<lambda>relation_input.
     let pv = gi_public_values relation_input in
     run_then (map_option (map_err (\<lambda>e. Host_Check (''guest token vector rejected: '' @ vb_debug L e)))
         (execute (vb_fuel L) (vb_sha256 L) (vb_keccak L) (vb_sdk L) relation_input)) (\<lambda>actual.
     if actual \<noteq> pv then Some (Err (Host_Check ''token public values mismatch'')) else
     run_then (Some (bytes_field L input ''guest_wire_input'')) (\<lambda>wire_bytes.
     run_then (map_option (map_err (\<lambda>e. Host_Check (''guest wire vector rejected: '' @ vb_debug L e)))
         (execute_wire (vb_fuel L) (vb_sha256 L) (vb_keccak L) (vb_sdk L) wire_bytes)) (\<lambda>wire_output.
     if go_public_values wire_output \<noteq> pv then Some (Err (Host_Check ''wire public values mismatch''))
     else if go_public_values_abi wire_output \<noteq> public_values_abi pv
     then Some (Err (Host_Check ''wire public ABI mismatch''))
     else if go_public_values_digest wire_output \<noteq> public_values_digest (vb_keccak L) pv
     then Some (Err (Host_Check ''wire public digest mismatch''))
     else Some (eq_hex_vec L ''public_values_abi'' (public_values_abi pv) output ''public_values_abi''))))))"

section \<open>All vectors\<close>

text \<open>\<open>files\<close> are the texts under the root, by their relative path.\<close>

definition vec_read :: "('v, 'm) vec_libs_scheme \<Rightarrow> (string \<rightharpoonup> string) \<Rightarrow> string \<Rightarrow> host_error + 'v" where
  "vec_read L files relative =
     and_then (ok_or (Host_Io (vb_io_error L relative)) (files relative)) (\<lambda>text.
     ok_or (Host_Json (vb_json_error L text)) (js_parse (vb_json L) text))"

definition check_vectors :: "('v, 'm) vec_libs_scheme \<Rightarrow> (string \<rightharpoonup> string) \<Rightarrow> (host_error + unit) option" where
  "check_vectors L files =
     run_then (Some (ok_or (Host_Io (vb_io_error L ''VERSION'')) (files ''VERSION''))) (\<lambda>version.
     if trim version \<noteq> dec_text (unat BRIDGE_PROTO_VERSION) then
       Some (Err (Host_Check (''BRIDGE_PROTO_VERSION mismatch: vectors='' @ trim version @ '', core=''
         @ dec_text (unat BRIDGE_PROTO_VERSION))))
     else
     let file = vec_read L files; config = file ''config/config-00.json'';
         token = (\<lambda>name. run_then (Some (file name)) (\<lambda>t. run_then (Some config) (check_token L t))) in
     run_then (Some (and_then config (check_config L))) (\<lambda>_.
     run_then (Some (and_then (file ''lock/lock-00.json'') (\<lambda>l. and_then config (check_lock L l)))) (\<lambda>_.
     run_then (Some (and_then (file ''reason/reason-00.json'') (check_reason L))) (\<lambda>_.
     run_then (Some (and_then (file ''nullifier/nullifier-00.json'') (check_nullifier L))) (\<lambda>_.
     run_then (Some (and_then (file ''accumulator/accumulator-00.json'') (check_accumulator L))) (\<lambda>_.
     run_then (Some (and_then (file ''public/public-00.json'') (\<lambda>p. and_then config (check_public L p)))) (\<lambda>_.
     run_then (token ''token/token-00.json'') (\<lambda>_.
     run_then (token ''token/token-01.json'') (\<lambda>_.
     run_then (token ''token/token-02.json'') (\<lambda>_.
     Some (and_then (file ''value/value-00.json'') (check_value L))))))))))))"

end
