(* ===== verification/Fixture_Json.thy ===== *)
theory Fixture_Json
  imports Host_Vectors Json_Lib
begin

text \<open>
  The token vectors the host emits: model of the JSON of \<open>host/src/fixture.rs\<close>. The builders of the fixtures,
  which mint, burn and sign tokens through the SDK, are not modelled: a vector is made of any batch.
\<close>

definition hex0 :: "('v, 'm) vec_libs_scheme \<Rightarrow> bytes \<Rightarrow> json" where
  "hex0 L b = J_Str (''0x'' @ hex_encode (vb_hex L) b)"

definition node_json :: "('v, 'm) vec_libs_scheme \<Rightarrow> root_node \<Rightarrow> json" where
  "node_json L node =
     J_Obj [(''node_id'', J_Str (node_id node)), (''signing_key'', hex0 L (node_signing_key node)),
            (''stake'', J_Num (node_stake node))]"

definition trust_base_json :: "('v, 'm) vec_libs_scheme \<Rightarrow> trust_base \<Rightarrow> json" where
  "trust_base_json L tb =
     J_Obj [(''version'', J_Num (tb_version tb)), (''network_id'', J_Num (ucast (tb_network_id tb))),
            (''epoch'', J_Num (tb_epoch tb)), (''epoch_start_round'', J_Num (tb_epoch_start_round tb)),
            (''quorum_threshold'', J_Num (tb_quorum_threshold tb)),
            (''root_nodes'', J_Arr (map (node_json L) (tb_root_nodes tb)))]"

definition return_leaf_json :: "('v, 'm) vec_libs_scheme \<Rightarrow> return_leaf \<Rightarrow> json" where
  "return_leaf_json L leaf =
     J_Obj [(''nullifier'', hex0 L (leaf_nullifier leaf)), (''recipient'', hex0 L (leaf_recipient leaf)),
            (''amount'', hex0 L (leaf_amount leaf)), (''fee_recipient'', hex0 L (leaf_fee_recipient leaf)),
            (''fee_amount'', hex0 L (leaf_fee_amount leaf)), (''deadline'', J_Num (leaf_deadline leaf))]"

definition lock_ref_json :: "('v, 'm) vec_libs_scheme \<Rightarrow> source_lock_ref \<Rightarrow> json" where
  "lock_ref_json L r = J_Obj [(''nonce'', J_Num (ref_nonce r)), (''digest'', hex0 L (ref_digest r))]"

fun fixture_terminal_json :: "('v, 'm) vec_libs_scheme \<Rightarrow> terminal \<Rightarrow> json" where
  "fixture_terminal_json L Empty = J_Obj [(''kind'', J_Str ''empty'')]"
| "fixture_terminal_json L (Occupied key) = J_Obj [(''kind'', J_Str ''occupied''), (''key'', hex0 L key)]"

definition fixture_step_json :: "('v, 'm) vec_libs_scheme \<Rightarrow> smt_proof_step \<Rightarrow> json" where
  "fixture_step_json L s =
     J_Obj [(''depth'', J_Num (ucast (step_depth s))), (''sibling_hash'', hex0 L (step_sibling s))]"

definition fixture_witness_json :: "('v, 'm) vec_libs_scheme \<Rightarrow> witness \<Rightarrow> json" where
  "fixture_witness_json L w =
     J_Obj [(''terminal'', fixture_terminal_json L (wit_terminal w)),
            (''steps'', J_Arr (map (fixture_step_json L) (wit_steps w)))]"

definition public_values_json :: "('v, 'm) vec_libs_scheme \<Rightarrow> public_values \<Rightarrow> json" where
  "public_values_json L p =
     J_Obj [(''domain_tag'', hex0 L (pv_domain_tag p)), (''config_hash'', hex0 L (pv_config_hash p)),
            (''trust_base_hash'', hex0 L (pv_trust_base_hash p)), (''spent_root_old'', hex0 L (pv_spent_root_old p)),
            (''spent_root_new'', hex0 L (pv_spent_root_new p)), (''return_root'', hex0 L (pv_return_root p)),
            (''lock_ref_root'', hex0 L (pv_lock_ref_root p)), (''batch_size'', J_Num (ucast (pv_batch_size p))),
            (''total_amount'', hex0 L (pv_total_amount p)),
            (''public_values_abi'', hex0 L (public_values_abi p))]"

text \<open>A certified burn has no anchor to emit: a panic.\<close>

definition burn_json :: "('v, 'm) vec_libs_scheme \<Rightarrow> burn_witness \<Rightarrow> json option" where
  "burn_json L burn =
     (case bw_verification burn of
        Certified \<Rightarrow> None
      | Anchored anchor \<Rightarrow>
          Some (J_Obj [(''token_cbor'', hex0 L (sdk_token_to_cbor (vb_sdk L) (bw_token burn))),
            (''trust_base'', trust_base_json L (bw_trust_base burn)),
            (''anchor_certificate_cbor'', hex0 L (sdk_certificate_to_cbor (vb_sdk L) anchor)),
            (''lock_justification_tag'', J_Num (bw_lock_justification_tag burn))]))"

text \<open>The panics of \<open>map(burn_json)\<close>, in order.\<close>

fun all_some :: "'a option list \<Rightarrow> 'a list option" where
  "all_some [] = Some []"
| "all_some (x # xs) = (case x of None \<Rightarrow> None | Some y \<Rightarrow> map_option (Cons y) (all_some xs))"

definition multi_burn_fixture_json :: "('v, 'm) vec_libs_scheme \<Rightarrow> string \<Rightarrow> guest_input \<Rightarrow> json option" where
  "multi_burn_fixture_json L description input =
     (case (encode_guest_input (vb_sdk L) input, all_some (map (burn_json L) (rw_bridge_burns (gi_witness input)))) of
        (Some wire, Some burns) \<Rightarrow>
          Some (J_Obj [(''description'', J_Str description),
            (''in'', J_Obj [(''guest_wire_input'', hex0 L wire), (''burns'', J_Arr burns),
               (''leaves'', J_Arr (map (return_leaf_json L) (gi_return_leaves input))),
               (''lock_refs'', J_Arr (map (lock_ref_json L) (gi_sorted_lock_refs input))),
               (''accumulator_witnesses'',
                  J_Arr (map (fixture_witness_json L) (rw_accumulator_witnesses (gi_witness input))))]),
            (''out'', public_values_json L (gi_public_values input))])
      | _ \<Rightarrow> None)"

text \<open>The single-burn vector: the first burn, with the anchor and the witnesses of the fixture. No burn is a panic.\<close>

definition fixture_json ::
  "('v, 'm) vec_libs_scheme \<Rightarrow> string \<Rightarrow> guest_input \<Rightarrow> certificate \<Rightarrow> witness list \<Rightarrow> json option" where
  "fixture_json L description input anchor witnesses =
     (case rw_bridge_burns (gi_witness input) of
        [] \<Rightarrow> None
      | burn # _ \<Rightarrow>
          map_option (\<lambda>wire.
            J_Obj [(''description'', J_Str description),
              (''in'', J_Obj [(''guest_wire_input'', hex0 L wire),
                 (''token_cbor'', hex0 L (sdk_token_to_cbor (vb_sdk L) (bw_token burn))),
                 (''trust_base'', trust_base_json L (bw_trust_base burn)),
                 (''anchor_certificate_cbor'', hex0 L (sdk_certificate_to_cbor (vb_sdk L) anchor)),
                 (''lock_justification_tag'', J_Num (bw_lock_justification_tag burn)),
                 (''leaves'', J_Arr (map (return_leaf_json L) (gi_return_leaves input))),
                 (''lock_refs'', J_Arr (map (lock_ref_json L) (gi_sorted_lock_refs input))),
                 (''accumulator_witnesses'', J_Arr (map (fixture_witness_json L) witnesses))]),
              (''out'', public_values_json L (gi_public_values input))])
            (encode_guest_input (vb_sdk L) input))"

record token_fixture =
  tf_input :: guest_input
  tf_anchor_certificate :: certificate
  tf_accumulator_witnesses :: "witness list"

definition b1_fixture_json :: "('v, 'm) vec_libs_scheme \<Rightarrow> token_fixture \<Rightarrow> json option" where
  "b1_fixture_json L fixture =
     fixture_json L (''B=1 direct bridge-lock token burned to BridgeBackReason; ''
         @ ''full guest relation execute vector'')
       (tf_input fixture) (tf_anchor_certificate fixture) (tf_accumulator_witnesses fixture)"

definition split_fixture_json :: "('v, 'm) vec_libs_scheme \<Rightarrow> token_fixture \<Rightarrow> json option" where
  "split_fixture_json L fixture =
     fixture_json L (''B=1 split bridge token burned to BridgeBackReason; ''
         @ ''exercises recursive source-lock extraction'')
       (tf_input fixture) (tf_anchor_certificate fixture) (tf_accumulator_witnesses fixture)"

definition b2_fixture_json :: "('v, 'm) vec_libs_scheme \<Rightarrow> guest_input \<Rightarrow> json option" where
  "b2_fixture_json L input =
     multi_burn_fixture_json L (''B=2 batch: two direct bridge-lock tokens burned to distinct BridgeBackReasons ''
         @ ''under one shared trust base; one ordered accumulator transition over both nullifiers'') input"

end
