(* ===== verification/Sp1.thy ===== *)
theory Sp1
  imports Prover Fixture_Json
begin

text \<open>
  Proving with SP1: model of \<open>host/src/sp1.rs\<close>, of the commands of \<open>host/src/main.rs\<close> that use it, and
  of the program that is proved, \<open>guest/src/bin/sp1.rs\<close>. The SP1 client is a parameter. An outer
  \<open>None\<close> is a panic of the guest relation. A command answers with what it prints and the files.
\<close>

section \<open>The proved program\<close>

text \<open>What the program commits, in the order of the two commits; \<open>None\<close> is its \<open>expect\<close>.\<close>

definition sp1_main ::
  "nat \<Rightarrow> (bytes \<Rightarrow> bytes) \<Rightarrow> (bytes \<Rightarrow> bytes) \<Rightarrow> sdk \<Rightarrow> bytes \<Rightarrow> bytes option" where
  "sp1_main fuel sha256 keccak S input =
     (case execute_wire fuel sha256 keccak S input of
        Some (Inr output) \<Rightarrow> Some (go_public_values_abi output @ go_public_values_digest output)
      | _ \<Rightarrow> None)"

section \<open>The client\<close>

datatype sp1_kind = Sp1_Core | Sp1_Compressed | Sp1_Plonk | Sp1_Groth16

text \<open>
  \<open>'k\<close> are proving keys and \<open>'p\<close> proofs. Saving a proof writes its image to a file; \<open>cl_load\<close> reads it.
\<close>

record ('k, 'p) sp1_client =
  cl_execute :: "bytes \<Rightarrow> bytes \<Rightarrow> string + bytes \<times> u64"
  cl_setup :: "bytes \<Rightarrow> string + 'k"
  cl_groth16 :: "'k \<Rightarrow> bytes \<Rightarrow> string + 'p"
  cl_verify :: "'p \<Rightarrow> 'k \<Rightarrow> string option"
  cl_bytes32 :: "'k \<Rightarrow> string"

record ('k, 'p) sp1_libs = "json vec_libs" +
  sl_cpu :: "('k, 'p) sp1_client"
  sl_mock :: "('k, 'p) sp1_client"
  sl_values :: "'p \<Rightarrow> bytes"
  sl_bytes :: "'p \<Rightarrow> bytes"
  sl_kind :: "'p \<Rightarrow> sp1_kind"
  sl_version :: "'p \<Rightarrow> string"
  sl_image :: "'p \<Rightarrow> bytes"
  sl_load :: "bytes \<Rightarrow> string + 'p"
  sl_load_missing :: "string \<Rightarrow> string"
  sl_circuit_version :: string
  sl_circuit_mode :: "string option"
  sl_write :: "string \<Rightarrow> (string \<times> bytes option) option"
  sl_pretty :: "json \<Rightarrow> string"
  sl_hex_text :: "string \<Rightarrow> string"
  sl_debug :: "string \<Rightarrow> string"
  sl_feature :: bool

record sp1_execution =
  se_public_values :: bytes
  se_expected_public_values :: bytes
  se_cycles :: "u64 option"

record sp1_info =
  sp_proof_mode :: string
  sp_public_values :: bytes
  sp_proof_bytes :: bytes
  sp_sp1_version :: string
  sp_vkey_hash :: "string option"

section \<open>The operations of \<open>sp1.rs\<close>\<close>

definition load_elf :: "('k, 'p, 'm) sp1_libs_scheme \<Rightarrow> files \<Rightarrow> string \<Rightarrow> host_error + bytes" where
  "load_elf L fs path = ok_or (Host_Io (vb_io_error L path)) (fs path)"

definition expected_output :: "('k, 'p, 'm) sp1_libs_scheme \<Rightarrow> bytes \<Rightarrow> (host_error + guest_output) option" where
  "expected_output L wire_input =
     map_option (map_err (\<lambda>e. Host_Check (''guest wire precheck failed: '' @ vb_debug L e)))
       (execute_wire (vb_fuel L) (vb_sha256 L) (vb_keccak L) (vb_sdk L) wire_input)"

definition expected_public_values :: "guest_output \<Rightarrow> bytes" where
  "expected_public_values output = go_public_values_abi output @ go_public_values_digest output"

definition ensure_public_values_match ::
  "('k, 'p, 'm) sp1_libs_scheme \<Rightarrow> bytes \<Rightarrow> guest_output \<Rightarrow> host_error + unit" where
  "ensure_public_values_match L actual output =
     (let expected = expected_public_values output in
      if actual \<noteq> expected then
        Err (Host_Check (''SP1 public values mismatch: actual=0x'' @ hex_encode (vb_hex L) actual
          @ '' expected=0x'' @ hex_encode (vb_hex L) expected))
      else Ok ())"

fun mode_text :: "sp1_kind \<Rightarrow> string" where
  "mode_text Sp1_Core = ''core''"
| "mode_text Sp1_Compressed = ''compressed''"
| "mode_text Sp1_Plonk = ''plonk''"
| "mode_text Sp1_Groth16 = ''groth16''"

definition proof_info :: "('k, 'p, 'm) sp1_libs_scheme \<Rightarrow> 'p \<Rightarrow> string option \<Rightarrow> sp1_info" where
  "proof_info L pf vkey_hash =
     \<lparr>sp_proof_mode = mode_text (sl_kind L pf), sp_public_values = sl_values L pf, sp_proof_bytes = sl_bytes L pf,
      sp_sp1_version = sl_version L pf, sp_vkey_hash = vkey_hash\<rparr>"

definition ensure_release_circuit_mode :: "('k, 'p, 'm) sp1_libs_scheme \<Rightarrow> host_error + unit" where
  "ensure_release_circuit_mode L =
     (if sl_circuit_mode L = Some ''dev'' then
        Err (Host_Check (''SP1_CIRCUIT_MODE=dev would use a private artifact bucket and fall back to local ''
          @ ''Groth16 key generation; unset it or set SP1_CIRCUIT_MODE=release''))
      else Ok ())"

definition execute_elf ::
  "('k, 'p, 'm) sp1_libs_scheme \<Rightarrow> files \<Rightarrow> string \<Rightarrow> bytes \<Rightarrow> (host_error + sp1_execution) option" where
  "execute_elf L fs elf_path wire_input =
     run_then (Some (load_elf L fs elf_path)) (\<lambda>elf.
     run_then (expected_output L wire_input) (\<lambda>expected.
     run_then (Some (map_err (\<lambda>e. Host_Check (''SP1 execute failed: '' @ e)) (cl_execute (sl_cpu L) elf wire_input)))
       (\<lambda>(actual, cycles).
     Some (and_then (ensure_public_values_match L actual expected) (\<lambda>_.
       Ok \<lparr>se_public_values = actual, se_expected_public_values = expected_public_values expected,
           se_cycles = Some cycles\<rparr>)))))"

text \<open>\<open>proof.save\<close> and \<open>fs::write\<close>: a failed write may leave something at the path.\<close>

definition write_file ::
  "('k, 'p, 'm) sp1_libs_scheme \<Rightarrow> string \<Rightarrow> bytes \<Rightarrow> files \<Rightarrow> (string + unit) \<times> files" where
  "write_file L path bs fs =
     (case sl_write L path of
        None \<Rightarrow> (Ok (), fs(path \<mapsto> bs))
      | Some (e, left) \<Rightarrow> (Err e, fs(path := left)))"

text \<open>What \<open>mock_groth16\<close> and \<open>real_groth16\<close> share: setup, proof, verification, comparison and saving.\<close>

definition groth16_with ::
  "('k, 'p, 'm) sp1_libs_scheme \<Rightarrow> ('k, 'p) sp1_client \<Rightarrow> string \<Rightarrow> string \<Rightarrow> bytes \<Rightarrow> bytes \<Rightarrow> guest_output
   \<Rightarrow> string \<Rightarrow> files \<Rightarrow> (host_error + sp1_info) \<times> files" where
  "groth16_with L client prove_text verify_text elf wire_input expected proof_path fs =
     (case and_then (map_err (\<lambda>e. Host_Check (''SP1 setup failed: '' @ e)) (cl_setup client elf)) (\<lambda>pk.
           and_then (map_err (\<lambda>e. Host_Check (prove_text @ e)) (cl_groth16 client pk wire_input)) (\<lambda>pf.
           case cl_verify client pf pk of
             Some e \<Rightarrow> Err (Host_Check (verify_text @ e))
           | None \<Rightarrow> and_then (ensure_public_values_match L (sl_values L pf) expected) (\<lambda>_. Ok (pk, pf)))) of
        Inl e \<Rightarrow> (Err e, fs)
      | Inr (pk, pf) \<Rightarrow>
          (case write_file L proof_path (sl_image L pf) fs of
             (Inl e, fs') \<Rightarrow> (Err (Host_Check (''save SP1 proof: '' @ e)), fs')
           | (Inr _, fs') \<Rightarrow> (Ok (proof_info L pf (Some (cl_bytes32 client pk))), fs')))"

definition mock_groth16 ::
  "('k, 'p, 'm) sp1_libs_scheme \<Rightarrow> files \<Rightarrow> string \<Rightarrow> bytes \<Rightarrow> string
   \<Rightarrow> ((host_error + sp1_info) \<times> files) option" where
  "mock_groth16 L fs elf_path wire_input proof_path =
     (case load_elf L fs elf_path of
        Inl e \<Rightarrow> Some (Err e, fs)
      | Inr elf \<Rightarrow>
          (case expected_output L wire_input of
             None \<Rightarrow> None
           | Some (Inl e) \<Rightarrow> Some (Err e, fs)
           | Some (Inr expected) \<Rightarrow>
               Some (groth16_with L (sl_mock L) ''SP1 mock groth16 failed: '' ''SP1 mock proof verify failed: ''
                 elf wire_input expected proof_path fs)))"

definition real_groth16 ::
  "('k, 'p, 'm) sp1_libs_scheme \<Rightarrow> files \<Rightarrow> string \<Rightarrow> bytes \<Rightarrow> string
   \<Rightarrow> ((host_error + sp1_info) \<times> files) option" where
  "real_groth16 L fs elf_path wire_input proof_path =
     (case and_then (ensure_release_circuit_mode L) (\<lambda>_. load_elf L fs elf_path) of
        Inl e \<Rightarrow> Some (Err e, fs)
      | Inr elf \<Rightarrow>
          (case expected_output L wire_input of
             None \<Rightarrow> None
           | Some (Inl e) \<Rightarrow> Some (Err e, fs)
           | Some (Inr expected) \<Rightarrow>
               Some (groth16_with L (sl_cpu L) ''SP1 groth16 prove failed: '' ''SP1 groth16 proof verify failed: ''
                 elf wire_input expected proof_path fs)))"

definition elf_vkey :: "('k, 'p, 'm) sp1_libs_scheme \<Rightarrow> files \<Rightarrow> string \<Rightarrow> host_error + string" where
  "elf_vkey L fs elf_path =
     and_then (load_elf L fs elf_path) (\<lambda>elf.
     and_then (map_err (\<lambda>e. Host_Check (''SP1 setup failed: '' @ e)) (cl_setup (sl_cpu L) elf)) (\<lambda>pk.
     Ok (cl_bytes32 (sl_cpu L) pk)))"

text \<open>\<open>SP1ProofWithPublicValues::load\<close>.\<close>

definition load_proof :: "('k, 'p, 'm) sp1_libs_scheme \<Rightarrow> files \<Rightarrow> string \<Rightarrow> host_error + 'p" where
  "load_proof L fs path =
     map_err (\<lambda>e. Host_Check (''load SP1 proof: '' @ e))
       (case fs path of None \<Rightarrow> Err (sl_load_missing L path) | Some saved \<Rightarrow> sl_load L saved)"

definition export_onchain ::
  "('k, 'p, 'm) sp1_libs_scheme \<Rightarrow> files \<Rightarrow> string \<Rightarrow> string \<Rightarrow> host_error + sp1_info" where
  "export_onchain L fs elf_path proof_path =
     and_then (load_elf L fs elf_path) (\<lambda>elf.
     and_then (map_err (\<lambda>e. Host_Check (''SP1 setup failed: '' @ e)) (cl_setup (sl_cpu L) elf)) (\<lambda>pk.
     and_then (load_proof L fs proof_path) (\<lambda>pf.
     case cl_verify (sl_cpu L) pf pk of
       Some e \<Rightarrow> Err (Host_Check (''saved proof fails verification: '' @ e))
     | None \<Rightarrow> Ok (proof_info L pf (Some (cl_bytes32 (sl_cpu L) pk))))))"

definition proof_info_from_file ::
  "('k, 'p, 'm) sp1_libs_scheme \<Rightarrow> files \<Rightarrow> string \<Rightarrow> host_error + sp1_info" where
  "proof_info_from_file L fs proof_path = and_then (load_proof L fs proof_path) (\<lambda>pf. Ok (proof_info L pf None))"

section \<open>The commands\<close>

type_synonym command_run = "((host_error + string) \<times> files) option"

definition require_arg :: "'a option \<Rightarrow> string \<Rightarrow> host_error + 'a" where
  "require_arg value name = ok_or (Host_Check (''missing '' @ name)) value"

definition decode_hex_arg :: "('k, 'p, 'm) sp1_libs_scheme \<Rightarrow> string \<Rightarrow> string \<Rightarrow> host_error + bytes" where
  "decode_hex_arg L value name =
     ok_or (Host_Check (name @ '': '' @ sl_hex_text L (strip_0x value))) (hex_decode (vb_hex L) (strip_0x value))"

definition j_opt :: "string option \<Rightarrow> json" where
  "j_opt x = (case x of None \<Rightarrow> J_Null | Some s \<Rightarrow> J_Str s)"

definition proof_info_json :: "('k, 'p, 'm) sp1_libs_scheme \<Rightarrow> sp1_info \<Rightarrow> json" where
  "proof_info_json L info =
     J_Obj [(''proof_mode'', J_Str (sp_proof_mode info)), (''sp1_version'', J_Str (sp_sp1_version info)),
            (''vkey'', j_opt (sp_vkey_hash info)), (''public_values'', hex0 L (sp_public_values info)),
            (''proof_bytes'', hex0 L (sp_proof_bytes info)),
            (''proof_bytes_len'', J_Num (of_nat (length (sp_proof_bytes info))))]"

definition print_proof_info :: "('k, 'p, 'm) sp1_libs_scheme \<Rightarrow> sp1_info \<Rightarrow> string" where
  "print_proof_info L info = sl_pretty L (proof_info_json L info)"

text \<open>Without the feature \<open>sp1\<close> every one of the commands is this refusal.\<close>

definition with_sp1 :: "('k, 'p, 'm) sp1_libs_scheme \<Rightarrow> files \<Rightarrow> command_run \<Rightarrow> command_run" where
  "with_sp1 L fs r =
     (if sl_feature L then r
      else Some (Err (Host_Check ''rebuild bridge-return-host with --features sp1''), fs))"

definition sp1_execute ::
  "('k, 'p, 'm) sp1_libs_scheme \<Rightarrow> files \<Rightarrow> string option \<Rightarrow> string option \<Rightarrow> command_run" where
  "sp1_execute L fs elf wire =
     with_sp1 L fs
       (map_option (\<lambda>r. (r, fs))
         (run_then (Some (require_arg elf ''guest.elf'')) (\<lambda>elf.
          run_then (Some (and_then (require_arg wire ''wire_hex'') (\<lambda>w. decode_hex_arg L w ''wire_hex''))) (\<lambda>wire.
          run_then (execute_elf L fs elf wire) (\<lambda>execution.
          Some (Ok (sl_pretty L (J_Obj
            [(''public_values'', hex0 L (se_public_values execution)),
             (''expected_public_values'', hex0 L (se_expected_public_values execution)),
             (''cycles'', (case se_cycles execution of None \<Rightarrow> J_Null | Some n \<Rightarrow> J_Num n))]))))))))"

text \<open>The two commands that take the wire on the command line differ only in the proof they make.\<close>

definition groth16_command ::
  "('k, 'p, 'm) sp1_libs_scheme \<Rightarrow> (string \<Rightarrow> bytes \<Rightarrow> string \<Rightarrow> ((host_error + sp1_info) \<times> files) option)
   \<Rightarrow> files \<Rightarrow> string option \<Rightarrow> string option \<Rightarrow> string option \<Rightarrow> command_run" where
  "groth16_command L mk_proof fs elf wire proof_path =
     with_sp1 L fs
       (case and_then (require_arg elf ''guest.elf'') (\<lambda>elf.
             and_then (require_arg wire ''wire_hex'') (\<lambda>w.
             and_then (decode_hex_arg L w ''wire_hex'') (\<lambda>wire.
             and_then (require_arg proof_path ''proof.bin'') (\<lambda>pf. Ok (elf, wire, pf))))) of
          Inl e \<Rightarrow> Some (Err e, fs)
        | Inr (elf, wire, pf) \<Rightarrow>
            (case mk_proof elf wire pf of
               None \<Rightarrow> None
             | Some (r, fs') \<Rightarrow> Some (and_then r (\<lambda>info. Ok (print_proof_info L info)), fs')))"

definition sp1_mock_groth16 ::
  "('k, 'p, 'm) sp1_libs_scheme \<Rightarrow> files \<Rightarrow> string option \<Rightarrow> string option \<Rightarrow> string option \<Rightarrow> command_run" where
  "sp1_mock_groth16 L fs = groth16_command L (mock_groth16 L fs) fs"

definition sp1_real_groth16 ::
  "('k, 'p, 'm) sp1_libs_scheme \<Rightarrow> files \<Rightarrow> string option \<Rightarrow> string option \<Rightarrow> string option \<Rightarrow> command_run" where
  "sp1_real_groth16 L fs = groth16_command L (real_groth16 L fs) fs"

text \<open>The command the service runs as a child.\<close>

definition sp1_real_groth16_files ::
  "('k, 'p, 'm) sp1_libs_scheme \<Rightarrow> files \<Rightarrow> string option \<Rightarrow> string option \<Rightarrow> string option \<Rightarrow> string option
   \<Rightarrow> command_run" where
  "sp1_real_groth16_files L fs elf wire proof_path info_path =
     with_sp1 L fs
       (case and_then (require_arg elf ''guest.elf'') (\<lambda>elf.
             and_then (require_arg wire ''wire.bin'') (\<lambda>wire_path.
             and_then (require_arg proof_path ''proof.bin'') (\<lambda>pf.
             and_then (require_arg info_path ''info.json'') (\<lambda>info_path.
             and_then (ok_or (Host_Check (''read '' @ wire_path @ '': '' @ vb_io_error L wire_path)) (fs wire_path))
               (\<lambda>wire. Ok (elf, wire, pf, info_path)))))) of
          Inl e \<Rightarrow> Some (Err e, fs)
        | Inr (elf, wire, pf, info_path) \<Rightarrow>
            (case real_groth16 L fs elf wire pf of
               None \<Rightarrow> None
             | Some (Inl e, fs') \<Rightarrow> Some (Err e, fs')
             | Some (Inr info, fs') \<Rightarrow>
                 (case write_file L info_path (map of_char (sl_pretty L (proof_info_json L info))) fs' of
                    (Inl e, fs'') \<Rightarrow> Some (Err (Host_Check (''write '' @ info_path @ '': '' @ e)), fs'')
                  | (Inr _, fs'') \<Rightarrow> Some (Ok (print_proof_info L info), fs''))))"

definition sp1_vkey :: "('k, 'p, 'm) sp1_libs_scheme \<Rightarrow> files \<Rightarrow> string option \<Rightarrow> command_run" where
  "sp1_vkey L fs elf =
     with_sp1 L fs
       (Some (and_then (require_arg elf ''guest.elf'') (\<lambda>elf.
              and_then (elf_vkey L fs elf) (\<lambda>vkey.
              Ok (sl_pretty L (J_Obj [(''vkey'', J_Str vkey), (''circuit_version'', J_Str (sl_circuit_version L))])))), fs))"

text \<open>The last 32 bytes of the public values, if there are so many.\<close>

definition export_digest :: "('k, 'p, 'm) sp1_libs_scheme \<Rightarrow> bytes \<Rightarrow> json" where
  "export_digest L values =
     (if length values < 32 then J_Null else hex0 L (drop (length values - 32) values))"

definition export_bundle :: "('k, 'p, 'm) sp1_libs_scheme \<Rightarrow> sp1_info \<Rightarrow> json" where
  "export_bundle L info =
     J_Obj [(''proto'', J_Num (ucast BRIDGE_PROTO_VERSION)), (''sp1_version'', J_Str (sp_sp1_version info)),
            (''circuit_version'', J_Str (sl_circuit_version L)), (''proof_mode'', J_Str (sp_proof_mode info)),
            (''vkey'', j_opt (sp_vkey_hash info)), (''public_values'', hex0 L (sp_public_values info)),
            (''public_values_digest'', export_digest L (sp_public_values info)),
            (''proof_bytes'', hex0 L (sp_proof_bytes info)),
            (''proof_bytes_len'', J_Num (of_nat (length (sp_proof_bytes info))))]"

definition sp1_export ::
  "('k, 'p, 'm) sp1_libs_scheme \<Rightarrow> files \<Rightarrow> string option \<Rightarrow> string option \<Rightarrow> string option \<Rightarrow> command_run" where
  "sp1_export L fs elf proof_path out =
     with_sp1 L fs
       (case and_then (require_arg elf ''guest.elf'') (\<lambda>elf.
             and_then (require_arg proof_path ''proof.bin'') (\<lambda>pf.
             and_then (require_arg out ''bundle.json'') (\<lambda>out.
             and_then (export_onchain L fs elf pf) (\<lambda>info. Ok (out, info))))) of
          Inl e \<Rightarrow> Some (Err e, fs)
        | Inr (out, info) \<Rightarrow>
            (case write_file L out (map of_char (sl_pretty L (export_bundle L info)) @ [10]) fs of
               (Inl e, fs') \<Rightarrow> Some (Err (Host_Check (''write '' @ sl_debug L out @ '': '' @ e)), fs')
             | (Inr _, fs') \<Rightarrow> Some (Ok (print_proof_info L info), fs')))"

definition sp1_proof_info :: "('k, 'p, 'm) sp1_libs_scheme \<Rightarrow> files \<Rightarrow> string option \<Rightarrow> command_run" where
  "sp1_proof_info L fs proof_path =
     with_sp1 L fs
       (Some (and_then (require_arg proof_path ''proof.bin'') (\<lambda>pf.
              and_then (proof_info_from_file L fs pf) (\<lambda>info. Ok (print_proof_info L info))), fs))"

end
