(* ===== verification/Fixture_Proofs.thy ===== *)
theory Fixture_Proofs
  imports Fixture_Json S1_Proofs Guest_Example
begin

text \<open>
  Reading a JSON value written with the field names the readers look for, and the round trip of the token
  vectors: the conformance check of a vector made of a batch runs the guest on that batch.
\<close>

section \<open>Fields\<close>

lemma str_value: "js_as_str (std_json parse) (J_Str s) = Some s"
  by (simp add: std_json_def)

lemma std_reads:
  assumes "vb_json L = std_json parse" "hex_ok (vb_hex L)"
  shows num_read: "json_index v k = J_Num n \<Longrightarrow> u64_field L v k = Ok n"
    and str_read: "json_index v k = J_Str s \<Longrightarrow> str_field L v k = Ok s"
    and arr_read: "json_index v k = J_Arr xs \<Longrightarrow> array_field L v k = Ok xs"
    and bytes_read: "json_index v k = hex0 L b \<Longrightarrow> bytes_field L v k = Ok b"
    and b20_read: "json_index v k = hex0 L b \<Longrightarrow> length b = 20 \<Longrightarrow> b20_field L v k = Ok b"
    and b32_read: "json_index v k = hex0 L b \<Longrightarrow> length b = 32 \<Longrightarrow> b32_field L v k = Ok b"
    and value_read: "length b = 32 \<Longrightarrow> b32_value L k (hex0 L b) = Ok b"
    and hex_same: "json_index v k = hex0 L b \<Longrightarrow> eq_hex_vec L name b v k = Ok ()"
    and ix_read: "ix L v k = json_index v k"
    and get_read: "js_get (vb_json L) v k = json_get v k"
    and array_read: "js_as_array (vb_json L) w = json_as_array w"
  using assms
  by (simp_all add: u64_field_def str_field_def array_field_def bytes_field_def b20_field_def b32_field_def
      fixed_len_def bytes_from_hex_def b32_value_def eq_hex_vec_def std_json_def hex0_def hex_ok_def)

lemma json_index_obj [simp]: "json_index (J_Obj fs) k = (case map_of fs k of None \<Rightarrow> J_Null | Some x \<Rightarrow> x)"
  by (simp add: json_index_def)

lemma collect_results_map:
  "\<forall>x \<in> set xs. f (g x) = Ok x \<Longrightarrow> collect_results f (map g xs) = Ok xs"
  by (induction xs) simp_all

section \<open>Writing and reading the parts of a batch\<close>

lemma leaf_read:
  assumes "vb_json L = std_json parse" "hex_ok (vb_hex L)" "wf_leaf leaf"
  shows "return_leaf_from_json L (return_leaf_json L leaf) = Ok leaf"
  using assms(3) by (simp add: return_leaf_from_json_def return_leaf_json_def std_reads[OF assms(1,2)] wf_simps)

lemma ref_read:
  assumes "vb_json L = std_json parse" "hex_ok (vb_hex L)" "wf_ref r"
  shows "lock_ref_from_json L (lock_ref_json L r) = Ok r"
  using assms(3) by (simp add: lock_ref_from_json_def lock_ref_json_def std_reads[OF assms(1,2)] wf_simps)

lemma ucast_back:
  "ucast (ucast (a :: u8) :: u64) = a" "(ucast a :: u64) < 256"
  "ucast (ucast (b :: u16) :: u64) = b" "(ucast b :: u64) < 65536"
  "ucast (ucast (c :: u32) :: u64) = c"
  using unsigned_less[of a, where 'a = nat] unsigned_less[of b, where 'a = nat]
  by (simp_all add: ucast_up_ucast_id is_up word_less_nat_alt unsigned_ucast_eq take_bit_nat_eq_self take_bit_word_eq_self)

lemma step_read:
  assumes "vb_json L = std_json parse" "hex_ok (vb_hex L)" "length (step_sibling s) = 32"
  shows "step_from_json L (fixture_step_json L s) = Ok s"
  using assms(3) by (cases s) (simp add: step_from_json_def fixture_step_json_def std_reads[OF assms(1,2)] ucast_back mk_step_def)

lemma witness_read:
  assumes "vb_json L = std_json parse" "hex_ok (vb_hex L)" "wf_terminal (wit_terminal w)" "wf_witness w"
  shows "non_membership_witness_from_json L (fixture_witness_json L w) = Ok w"
proof -
  have s: "collect_results (step_from_json L) (map (fixture_step_json L) (wit_steps w)) = Ok (wit_steps w)"
    using assms(4) by (intro collect_results_map) (simp add: step_read[OF assms(1,2)] wf_witness_def)
  show ?thesis
    using assms(3) s
    by (cases w; cases "wit_terminal w")
      (simp_all add: non_membership_witness_from_json_def fixture_witness_json_def std_reads[OF assms(1,2)] wf_terminal_def)
qed

lemma public_read:
  assumes "vb_json L = std_json parse" "hex_ok (vb_hex L)" "wf_public_values p"
  shows "public_values_from_json L (public_values_json L p) = Ok p"
  using assms(3)
  by (simp add: public_values_from_json_def public_values_json_def std_reads[OF assms(1,2)] wf_simps ucast_back)

lemma trust_base_read:
  assumes "vb_json L = std_json parse" "hex_ok (vb_hex L)" "wf_trust_base (vb_sdk L) tb"
  shows "vec_trust_base_from_json L (trust_base_json L tb) = Ok tb"
proof -
  have "node_from_json L (node_json L n) = Ok n" if "wf_node (vb_sdk L) n" for n
    using that by (simp add: node_from_json_def node_json_def std_reads[OF assms(1,2)] wf_node_def)
  then have "collect_results (node_from_json L) (map (node_json L) (tb_root_nodes tb)) = Ok (tb_root_nodes tb)"
    using assms(3) by (intro collect_results_map) (simp add: wf_trust_base_def)
  then show ?thesis
    using assms(3)
    by (cases tb) (simp add: vec_trust_base_from_json_def trust_base_json_def std_reads[OF assms(1,2)] ucast_back wf_trust_base_def Let_def)
qed

lemma burn_read:
  assumes "vb_json L = std_json parse" "hex_ok (vb_hex L)" "wf_burn (vb_sdk L) b" "burn_json L b = Some doc"
  shows "bridge_burn_from_json L doc = Ok b"
  using assms(3,4)
  by (auto simp: burn_json_def bridge_burn_from_json_def std_reads[OF assms(1,2)] trust_base_read[OF assms(1,2)]
      wf_burn_def wf_verification_def split: burn_verification.splits)

lemma burns_read:
  assumes "vb_json L = std_json parse" "hex_ok (vb_hex L)" "\<forall>b \<in> set bs. wf_burn (vb_sdk L) b"
    and "all_some (map (burn_json L) bs) = Some docs"
  shows "collect_results (bridge_burn_from_json L) docs = Ok bs"
  using assms(3,4)
  by (induction bs arbitrary: docs) (auto simp: burn_read[OF assms(1,2)] split: option.splits)

section \<open>A vector of a batch\<close>

lemma multi_burn_read:
  assumes "vb_json L = std_json parse" "hex_ok (vb_hex L)" "wf_input (vb_sdk L) input"
    and "multi_burn_fixture_json L description input = Some doc"
    and "vec_config_from_json L (json_index config ''in'') (json_index config ''out'') = Ok (gi_config input)"
  shows "token_input L doc config = Ok input"
    and "\<exists>wire. encode_guest_input (vb_sdk L) input = Some wire
      \<and> json_index (json_index doc ''in'') ''guest_wire_input'' = hex0 L wire"
    and "json_index (json_index doc ''out'') ''public_values_abi'' = hex0 L (public_values_abi (gi_public_values input))"
proof -
  obtain wire burns where e: "encode_guest_input (vb_sdk L) input = Some wire"
    "all_some (map (burn_json L) (rw_bridge_burns (gi_witness input))) = Some burns"
    using assms(4) by (auto simp: multi_burn_fixture_json_def split: option.splits)
  note doc = assms(4)[unfolded multi_burn_fixture_json_def e, simplified, symmetric]
  have w: "collect_results (return_leaf_from_json L) (map (return_leaf_json L) (gi_return_leaves input)) = Ok (gi_return_leaves input)"
    "collect_results (lock_ref_from_json L) (map (lock_ref_json L) (gi_sorted_lock_refs input)) = Ok (gi_sorted_lock_refs input)"
    "collect_results (non_membership_witness_from_json L)
       (map (fixture_witness_json L) (rw_accumulator_witnesses (gi_witness input))) = Ok (rw_accumulator_witnesses (gi_witness input))"
    "collect_results (bridge_burn_from_json L) burns = Ok (rw_bridge_burns (gi_witness input))"
    using assms(3) burns_read[OF assms(1,2) _ e(2)]
    by (auto intro!: collect_results_map simp: leaf_read[OF assms(1,2)] ref_read[OF assms(1,2)]
        witness_read[OF assms(1,2)] wf_input_def)
  show "token_input L doc config = Ok input"
    using assms(3,5) w
    by (simp add: token_input_def doc std_reads[OF assms(1,2)] burn_values_def public_read[OF assms(1,2)] wf_input_def Let_def)
  show "\<exists>wire. encode_guest_input (vb_sdk L) input = Some wire
      \<and> json_index (json_index doc ''in'') ''guest_wire_input'' = hex0 L wire"
    using e by (simp add: doc)
  show "json_index (json_index doc ''out'') ''public_values_abi'' = hex0 L (public_values_abi (gi_public_values input))"
    by (simp add: doc public_values_json_def)
qed

text \<open>C39. A token vector tells exactly what the guest decides. A vector emitted for any batch of anchored burns
  is read back as that batch, and its conformance check succeeds when the guest accepts the batch and otherwise
  reports the guest's error; the other comparisons of the check never fail.\<close>

theorem token_vector_checked:
  assumes "vb_json L = std_json parse" "hex_ok (vb_hex L)" "wf_input (vb_sdk L) input"
    and "multi_burn_fixture_json L description input = Some doc"
    and "vec_config_from_json L (json_index config ''in'') (json_index config ''out'') = Ok (gi_config input)"
  shows "token_input L doc config = Ok input
    \<and> check_token L doc config
      = (case execute (vb_fuel L) (vb_sha256 L) (vb_keccak L) (vb_sdk L) input of
           None \<Rightarrow> None
         | Some (Inl e) \<Rightarrow> Some (Err (Host_Check (''guest token vector rejected: '' @ vb_debug L e)))
         | Some (Inr _) \<Rightarrow> Some (Ok ()))"
proof -
  note r = multi_burn_read[OF assms]
  obtain wire where w: "encode_guest_input (vb_sdk L) input = Some wire"
    "json_index (json_index doc ''in'') ''guest_wire_input'' = hex0 L wire" using r(2) by blast
  have x: "execute_wire (vb_fuel L) (vb_sha256 L) (vb_keccak L) (vb_sdk L) wire
      = execute_public_output (vb_fuel L) (vb_sha256 L) (vb_keccak L) (vb_sdk L) input"
    by (simp add: execute_wire_def decode_encoded[OF w(1) assms(3)])
  show ?thesis
  proof (cases "execute (vb_fuel L) (vb_sha256 L) (vb_keccak L) (vb_sdk L) input")
    case None
    then show ?thesis by (simp add: check_token_def r(1) Let_def)
  next
    case (Some res)
    then show ?thesis
      by (cases res)
        (auto simp: check_token_def r(1) Let_def ix_read[OF assms(1,2)] bytes_read[OF assms(1,2) w(2)] x
          execute_public_output_def public_output_def hex_same[OF assms(1,2) r(3)] dest!: execute_Ok)
  qed
qed

section \<open>An example\<close>

text \<open>The example batch, its burn anchored.\<close>

definition fx_sdk :: sdk where
  "fx_sdk = ex_sdk\<lparr>sdk_certificate_to_cbor := \<lambda>_. flat_doc 0 [], sdk_certificate_from_cbor := \<lambda>_. Some ex_cert\<rparr>"

definition fx_input :: guest_input where
  "fx_input = ex_input\<lparr>gi_witness := \<lparr>rw_accumulator_witnesses = [no_steps],
     rw_bridge_burns = [ex_burn\<lparr>bw_verification := Anchored ex_cert\<rparr>]\<rparr>\<rparr>"

definition fx_libs :: "json vec_libs" where
  "fx_libs = \<lparr>vb_fuel = 0, vb_sha256 = len32, vb_keccak = len32, vb_sdk = fx_sdk, vb_json = std_json (\<lambda>_. None),
     vb_hex = std_hex, vb_as_bool = (\<lambda>_. None), vb_io_error = (\<lambda>_. []), vb_json_error = (\<lambda>_. []),
     vb_hex_error = (\<lambda>_. []), vb_debug = (\<lambda>_. []), vb_sdk_error = (\<lambda>_. []), vb_trust_error = []\<rparr>"

definition fx_config :: json where
  "fx_config = J_Obj
     [(''in'', J_Obj [(''source_chain_id'', J_Num 1), (''vault'', hex0 fx_libs (replicate 20 0x11)),
        (''asset'', hex0 fx_libs (replicate 20 0x22)), (''reason_tag'', J_Num 39048),
        (''lock_domain'', hex0 fx_libs (replicate 32 0x55)), (''nullifier_domain'', hex0 fx_libs (replicate 32 0x66))]),
      (''out'', J_Obj [(''token_type'', hex0 fx_libs (replicate 32 0x33)),
        (''coin_id'', hex0 fx_libs (replicate 32 0x44))])]"

lemma fx_json: "vb_json fx_libs = std_json (\<lambda>_. None)" and fx_hex: "hex_ok (vb_hex fx_libs)"
  and fx_lib_sdk: "vb_sdk fx_libs = fx_sdk"
  by (simp_all add: fx_libs_def std_hex_ok)

lemma fx_config_read:
  "vec_config_from_json fx_libs (json_index fx_config ''in'') (json_index fx_config ''out'') = Ok (gi_config fx_input)"
  by (simp add: fx_config_def vec_config_from_json_def std_reads[OF fx_json fx_hex] fx_input_def ex_input_simps
      wit_config_def)

lemma fx_wf: "wf_input fx_sdk fx_input"
proof -
  have n: "wf_node fx_sdk k = wf_node ex_sdk k" for k by (simp add: wf_node_def fx_sdk_def)
  have t: "wf_trust_base fx_sdk tb = wf_trust_base ex_sdk tb" for tb
    by (simp add: wf_trust_base_def n) (simp add: fx_sdk_def)
  have "wf_verification fx_sdk (Anchored ex_cert)"
    using decoder_okD(1)[OF flat_decoder_ok, of "[]" 0] by (simp add: wf_verification_def fx_sdk_def ex_sdk_simps)
  then have "wf_burn fx_sdk (ex_burn\<lparr>bw_verification := Anchored ex_cert\<rparr>)"
    using ex_burn_wf by (simp add: wf_burn_def t) (simp add: fx_sdk_def)
  then show ?thesis using ex_wf by (simp add: wf_input_def fx_input_def ex_input_simps)
qed

lemma fx_encodes: "\<exists>bs. encode_guest_input fx_sdk fx_input = Some bs"
proof -
  have b: "\<exists>b. put_bytes x = Some b" if "length x < 2 ^ 32" for x
    using that by (simp add: put_bytes_def put_len_def)
  have "\<exists>t. put_trust_base ex_tb = Some t"
    by (simp add: put_trust_base_def ex_tb_def put_all_def put_len_def put_node_def put_bytes_def)
  then have "\<exists>x. put_bridge_burn fx_sdk (ex_burn\<lparr>bw_verification := Anchored ex_cert\<rparr>) = Some x"
    by (auto simp: put_bridge_burn_def ex_burn_def put_verification_def put_bytes_def put_len_def fx_sdk_def
        ex_sdk_def flat_doc_def flat_array_def cbor_tag_def array_header_def major_def Let_def)
  then show ?thesis
    by (auto simp: encode_guest_input_def put_config_def put_public_values_def put_all_def put_len_def
        put_return_leaf_def put_lock_ref_def put_accumulator_witness_def fx_input_def ex_input_simps no_steps_def
        put_terminal_def)
qed

theorem token_vector_checked_witness:
  "\<exists>doc. multi_burn_fixture_json fx_libs ''one anchored burn'' fx_input = Some doc
     \<and> token_input fx_libs doc fx_config = Ok fx_input"
proof -
  obtain bs where "encode_guest_input fx_sdk fx_input = Some bs" using fx_encodes by blast
  then obtain doc where d: "multi_burn_fixture_json fx_libs ''one anchored burn'' fx_input = Some doc"
    by (simp add: multi_burn_fixture_json_def fx_lib_sdk burn_json_def fx_input_def)
  from token_vector_checked[OF fx_json fx_hex _ d fx_config_read] d fx_wf show ?thesis by (simp add: fx_lib_sdk)
qed

end
