(* ===== verification/Sp1_Proofs.thy ===== *)
theory Sp1_Proofs
  imports Sp1 Fixture_Proofs
begin

text \<open>
  What a proof of the service proves: the bundle it reads back from the proving command holds what the
  proved program commits on the batch's wire, made under the key of the configured program.
\<close>

section \<open>One proof\<close>

lemma ensure_match_Ok:
  "ensure_public_values_match L actual output = Ok u \<longleftrightarrow> actual = expected_public_values output"
  by (simp add: ensure_public_values_match_def Let_def)

lemma groth16_with_Ok:
  assumes "groth16_with L client ptext vtext elf wire expected path fs = (Ok info, fs')"
  shows "\<exists>key pf. cl_setup client elf = Ok key \<and> cl_groth16 client key wire = Ok pf \<and> cl_verify client pf key = None
    \<and> sl_values L pf = expected_public_values expected \<and> info = proof_info L pf (Some (cl_bytes32 client key))
    \<and> fs' = fs(path \<mapsto> sl_image L pf)"
  using assms
  by (auto simp: groth16_with_def write_file_def and_then_Ok_iff ensure_match_Ok map_err_def and_then_def
      split: sum.splits option.splits prod.splits if_splits)

lemma real_groth16_Ok:
  assumes "real_groth16 L fs elf wire path = Some (Ok info, fs')"
  shows "\<exists>prog key pf output. fs elf = Some prog \<and> cl_setup (sl_cpu L) prog = Ok key
    \<and> cl_verify (sl_cpu L) pf key = None
    \<and> execute_wire (vb_fuel L) (vb_sha256 L) (vb_keccak L) (vb_sdk L) wire = Some (Ok output)
    \<and> sl_values L pf = expected_public_values output
    \<and> info = proof_info L pf (Some (cl_bytes32 (sl_cpu L) key)) \<and> fs' = fs(path \<mapsto> sl_image L pf)"
  using assms
  by (auto simp: real_groth16_def load_elf_def and_then_Ok_iff expected_output_def map_err_def
      split: sum.splits option.splits dest!: groth16_with_Ok)

lemma files_command_Ok:
  assumes "sp1_real_groth16_files L fs (Some elf) (Some wp) (Some pp) (Some ip) = Some (Ok out, fs')"
  shows "\<exists>wire info fs1. fs wp = Some wire \<and> real_groth16 L fs elf wire pp = Some (Ok info, fs1)
    \<and> fs' = fs1(ip \<mapsto> map of_char (sl_pretty L (proof_info_json L info)))"
  using assms
  by (auto simp: sp1_real_groth16_files_def with_sp1_def require_arg_def write_file_def and_then_def ok_or_def
      split: sum.splits option.splits if_splits prod.splits)

lemma executed_output:
  assumes "execute_public_output fuel sha256 keccak S input = Some (Ok res)"
  shows "execute fuel sha256 keccak S input = Some (Ok (gi_public_values input))"
    "res = public_output keccak (gi_public_values input)"
  using assms execute_Ok[of fuel sha256 keccak S input] by (auto simp: execute_public_output_Ok)

section \<open>The child of the service\<close>

text \<open>The proving command is the host's: a child that exits with 0 has run it to its end on the files it found.\<close>

definition runs_host :: "('k, 'p, 'm) sp1_libs_scheme \<Rightarrow> proving \<Rightarrow> bool" where
  "runs_host L P \<longleftrightarrow> (\<forall>elf paths fs ch n. pv_spawn P elf paths fs = Ok ch \<longrightarrow> ch_ends ch = Some n \<longrightarrow>
     ch_end ch = Exited 0 \<longrightarrow>
     (\<exists>out. sp1_real_groth16_files L fs (Some elf) (Some (pp_wire paths)) (Some (pp_proof paths))
        (Some (pp_info paths)) = Some (Ok out, ch_files ch n)))"

text \<open>\<open>serde_json\<close> reads back the four fields of a proof info that it has written.\<close>

definition reads_info :: "('k, 'p, 'm) sp1_libs_scheme \<Rightarrow> proving \<Rightarrow> bool" where
  "reads_info L P \<longleftrightarrow> (\<forall>pf key. let info = proof_info L pf (Some (cl_bytes32 (sl_cpu L) key)) in
     pv_parse_info P (map of_char (sl_pretty L (proof_info_json L info)))
       = Ok \<lparr>pi_proof_mode = sp_proof_mode info, pi_vkey = sp_vkey_hash info,
             pi_public_values = ''0x'' @ hex_encode (vb_hex L) (sp_public_values info),
             pi_proof_bytes = ''0x'' @ hex_encode (vb_hex L) (sp_proof_bytes info)\<rparr>)"

lemma hex_field_written: "hex_ok H \<Longrightarrow> hex_field H err_text (''0x'' @ hex_encode H bs) = Ok bs"
  by (simp add: hex_field_def hex_ok_def)

lemma info_read_back:
  assumes "hex_ok (vb_hex L)" "reads_info L P"
  defines "info pf key \<equiv> proof_info L pf (Some (cl_bytes32 (sl_cpu L) key))"
  shows "from_info_json (vb_hex L) err_text (pv_parse_info P)
       (map of_char (sl_pretty L (proof_info_json L (info pf key))))
     = Ok \<lparr>pb_mode = mode_text (sl_kind L pf), pb_public_values = sl_values L pf, pb_proof_bytes = sl_bytes L pf,
           pb_vkey_hash = Some (cl_bytes32 (sl_cpu L) key)\<rparr>"
  using assms(1,2) unfolding info_def reads_info_def Let_def from_info_json_def
  by (simp add: hex_field_written[simplified] proof_info_def)

lemma paths_apart:
  "pp_wire (proof_paths_new root i) \<noteq> pp_info (proof_paths_new root i)"
  by (simp add: proof_paths_new_def)

lemma prove_command_Ok:
  assumes "run_prove_command P timeout elf paths fs = Some (Ok u, fs', killed)"
  shows "\<exists>ch n. pv_spawn P elf paths (remove_file P (pp_info paths) fs) = Ok ch \<and> ch_ends ch = Some n
    \<and> ch_end ch = Exited 0 \<and> fs' = ch_files ch n"
  using assms
  by (auto simp: run_prove_command_def wait_child_def Let_def
      split: sum.splits option.splits bool.splits child_end.splits if_splits)

lemma prove_sp1_Ok:
  assumes "prove_sp1 H P c batch_id wire fs = Some (Ok bundle, fs', killed)"
  defines "paths \<equiv> proof_paths_new (sv_proof_dir c) batch_id"
  shows "\<exists>elf ch n info. sv_elf_path c = Some elf
    \<and> pv_spawn P elf paths (remove_file P (pp_info paths) (fs(pp_wire paths \<mapsto> wire))) = Ok ch
    \<and> ch_ends ch = Some n \<and> ch_end ch = Exited 0 \<and> remove_file P (pp_wire paths) (ch_files ch n) (pp_info paths) = Some info
    \<and> from_info_json H (pv_hex_text P) (pv_parse_info P) info = Ok bundle"
  using assms(1)
  by (auto simp: prove_sp1_def Let_def paths_def and_then_Ok_iff
      split: option.splits prod.splits dest!: prove_command_Ok)

text \<open>C29. A proof the service takes is a proof of its batch. Whatever the files held before, if proving a
  batch's wire with the host's command gives a bundle, then the guest accepts the batch; the bundle's public
  values are exactly what the proved program commits, they decode to the values of the batch, and the proof
  bytes come from a proof of them that verifies under the key set up from the configured program, whose
  hash the bundle carries.\<close>

theorem proved_bundle:
  assumes "encode_guest_input (vb_sdk L) input = Some wire" "wf_input (vb_sdk L) input"
    and "hex_ok (vb_hex L)" "reads_info L P" "runs_host L P"
    and "prove_sp1 (vb_hex L) P c batch_id wire fs = Some (Ok bundle, fs', killed)"
  defines "pv \<equiv> gi_public_values input"
  shows "execute (vb_fuel L) (vb_sha256 L) (vb_keccak L) (vb_sdk L) input = Some (Ok pv)
    \<and> sp1_main (vb_fuel L) (vb_sha256 L) (vb_keccak L) (vb_sdk L) wire = Some (pb_public_values bundle)
    \<and> pb_public_values bundle = public_values_abi pv @ public_values_digest (vb_keccak L) pv
    \<and> public_values_from_abi (pb_public_values bundle) = Some pv
    \<and> (\<exists>key pf. cl_verify (sl_cpu L) pf key = None \<and> sl_values L pf = pb_public_values bundle
        \<and> pb_proof_bytes bundle = sl_bytes L pf \<and> pb_mode bundle = mode_text (sl_kind L pf)
        \<and> pb_vkey_hash bundle = Some (cl_bytes32 (sl_cpu L) key)
        \<and> (\<exists>elf prog. sv_elf_path c = Some elf \<and> cl_setup (sl_cpu L) prog = Ok key
            \<and> (elf \<noteq> pp_wire (proof_paths_new (sv_proof_dir c) batch_id) \<longrightarrow> fs elf = Some prog)))"
proof -
  let ?p = "proof_paths_new (sv_proof_dir c) batch_id"
  let ?fs = "remove_file P (pp_info ?p) (fs(pp_wire ?p \<mapsto> wire))"
  obtain elf ch n info where s: "sv_elf_path c = Some elf" "pv_spawn P elf ?p ?fs = Ok ch" "ch_ends ch = Some n"
    "ch_end ch = Exited 0" "remove_file P (pp_wire ?p) (ch_files ch n) (pp_info ?p) = Some info"
    "from_info_json (vb_hex L) (pv_hex_text P) (pv_parse_info P) info = Ok bundle"
    using prove_sp1_Ok[OF assms(6)] by blast
  then obtain out where "sp1_real_groth16_files L ?fs (Some elf) (Some (pp_wire ?p)) (Some (pp_proof ?p))
      (Some (pp_info ?p)) = Some (Ok out, ch_files ch n)" using assms(5) unfolding runs_host_def by blast
  then obtain w pinfo fs1 where f: "?fs (pp_wire ?p) = Some w"
    "real_groth16 L ?fs elf w (pp_proof ?p) = Some (Ok pinfo, fs1)"
    "ch_files ch n = fs1(pp_info ?p \<mapsto> map of_char (sl_pretty L (proof_info_json L pinfo)))"
    using files_command_Ok by blast
  have w: "w = wire" using f(1) paths_apart by (auto simp: remove_file_def split: if_splits)
  obtain prog key pf res where r: "?fs elf = Some prog" "cl_setup (sl_cpu L) prog = Ok key"
    "cl_verify (sl_cpu L) pf key = None"
    "execute_wire (vb_fuel L) (vb_sha256 L) (vb_keccak L) (vb_sdk L) wire = Some (Ok res)"
    "sl_values L pf = expected_public_values res"
    "pinfo = proof_info L pf (Some (cl_bytes32 (sl_cpu L) key))"
    using real_groth16_Ok[OF f(2)] w by blast
  have "info = map of_char (sl_pretty L (proof_info_json L pinfo))"
    using s(5) f(3) paths_apart[of "sv_proof_dir c" batch_id] by (auto simp: remove_file_def split: if_splits)
  then have b: "bundle = \<lparr>pb_mode = mode_text (sl_kind L pf), pb_public_values = sl_values L pf,
      pb_proof_bytes = sl_bytes L pf, pb_vkey_hash = Some (cl_bytes32 (sl_cpu L) key)\<rparr>"
    using s(6) info_read_back[OF assms(3,4), of "pv_hex_text P" pf key] r(6) by simp
  have e: "execute_wire (vb_fuel L) (vb_sha256 L) (vb_keccak L) (vb_sdk L) wire
      = execute_public_output (vb_fuel L) (vb_sha256 L) (vb_keccak L) (vb_sdk L) input"
    by (simp add: execute_wire_def decode_encoded[OF assms(1,2)])
  have x: "execute (vb_fuel L) (vb_sha256 L) (vb_keccak L) (vb_sdk L) input = Some (Ok pv)"
    "res = public_output (vb_keccak L) pv"
    using executed_output[OF r(4)[unfolded e]] by (simp_all add: pv_def)
  have v: "pb_public_values bundle = public_values_abi pv @ public_values_digest (vb_keccak L) pv"
    using b r(5) x(2) by (simp add: expected_public_values_def public_output_def)
  moreover have "sp1_main (vb_fuel L) (vb_sha256 L) (vb_keccak L) (vb_sdk L) wire = Some (pb_public_values bundle)"
    using b r(4,5) by (simp add: sp1_main_def expected_public_values_def)
  moreover have "wf_public_values pv" using assms(2) by (simp add: wf_input_def pv_def)
  moreover have "fs elf = Some prog" if "elf \<noteq> pp_wire ?p"
    using r(1) that by (auto simp: remove_file_def split: if_splits)
  ultimately show ?thesis using x b r s(1) from_abi_encoded by auto
qed

section \<open>An example\<close>

text \<open>A client whose only proof is of the values of the example batch, and its command as the child.\<close>

definition sx_client :: "(unit, unit) sp1_client" where
  "sx_client = \<lparr>cl_execute = (\<lambda>_ _. Err []), cl_setup = (\<lambda>_. Ok ()), cl_groth16 = (\<lambda>_ _. Ok ()),
     cl_verify = (\<lambda>_ _. None), cl_bytes32 = (\<lambda>_. ''0x00'')\<rparr>"

definition sx_values :: bytes where
  "sx_values = public_values_abi ex_pv @ public_values_digest len32 ex_pv"

definition sx_libs :: "(unit, unit) sp1_libs" where
  "sx_libs = \<lparr>vb_fuel = 0, vb_sha256 = len32, vb_keccak = len32, vb_sdk = ex_sdk, vb_json = std_json (\<lambda>_. None),
     vb_hex = std_hex, vb_as_bool = (\<lambda>_. None), vb_io_error = (\<lambda>_. []), vb_json_error = (\<lambda>_. []),
     vb_hex_error = (\<lambda>_. []), vb_debug = (\<lambda>_. []), vb_sdk_error = (\<lambda>_. []), vb_trust_error = [],
     sl_cpu = sx_client, sl_mock = sx_client, sl_values = (\<lambda>_. sx_values), sl_bytes = (\<lambda>_. [1, 2, 3]),
     sl_kind = (\<lambda>_. Sp1_Groth16), sl_version = (\<lambda>_. ''v6''), sl_image = (\<lambda>_. [9]), sl_load = (\<lambda>_. Ok ()),
     sl_load_missing = (\<lambda>_. []), sl_circuit_version = ''v6'', sl_circuit_mode = None, sl_write = (\<lambda>_. None),
     sl_pretty = (\<lambda>_. ''{}''), sl_hex_text = (\<lambda>_. []), sl_debug = id, sl_feature = True\<rparr>"

definition sx_run :: "string \<Rightarrow> proof_paths \<Rightarrow> files \<Rightarrow> command_run" where
  "sx_run elf paths fs = sp1_real_groth16_files sx_libs fs (Some elf) (Some (pp_wire paths)) (Some (pp_proof paths))
     (Some (pp_info paths))"

definition sx_proving :: proving where
  "sx_proving = \<lparr>pv_spawn = (\<lambda>elf paths fs. Ok \<lparr>ch_group = None, ch_ends = Some 0,
       ch_end = (case sx_run elf paths fs of Some (Inr _, _) \<Rightarrow> Exited 0 | _ \<Rightarrow> Exited 1),
       ch_files = (\<lambda>_. case sx_run elf paths fs of None \<Rightarrow> fs | Some (_, fs') \<Rightarrow> fs')\<rparr>),
     pv_mkdir = (\<lambda>_. None), pv_write = (\<lambda>_. None), pv_removes = (\<lambda>_. True),
     pv_parse_info = (\<lambda>_. Ok \<lparr>pi_proof_mode = ''groth16'', pi_vkey = Some ''0x00'',
        pi_public_values = ''0x'' @ hex_encode std_hex sx_values, pi_proof_bytes = ''0x'' @ hex_encode std_hex [1, 2, 3]\<rparr>),
     pv_hex_text = (\<lambda>_. []), pv_read_error = (\<lambda>_. []), pv_join_text = []\<rparr>"

definition sx_config :: "unit service_config" where
  "sx_config = (config_default ())\<lparr>sv_elf_path := Some ''elf'', sv_proof_dir := ''dir''\<rparr>"

lemma sx_runs: "runs_host sx_libs sx_proving"
  by (auto simp: runs_host_def sx_proving_def sx_run_def split: option.splits prod.splits sum.splits)

lemma sx_reads: "reads_info sx_libs sx_proving"
  by (simp add: reads_info_def sx_proving_def proof_info_def sx_libs_def sx_client_def Let_def)

lemma sx_selectors [simp]:
  "vb_fuel sx_libs = 0" "vb_sha256 sx_libs = len32" "vb_keccak sx_libs = len32" "vb_sdk sx_libs = ex_sdk"
  "vb_hex sx_libs = std_hex" "sl_cpu sx_libs = sx_client" "sl_values sx_libs u = sx_values"
  "sl_feature sx_libs" "sl_write sx_libs q = None" "sl_circuit_mode sx_libs = None"
  by (simp_all add: sx_libs_def)

lemma sx_real:
  assumes "encode_guest_input ex_sdk ex_input = Some wire" "fs elf = Some prog"
  shows "\<exists>info. real_groth16 sx_libs fs elf wire path = Some (Ok info, fs(path \<mapsto> sl_image sx_libs ()))"
proof -
  have "expected_output sx_libs wire = Some (Ok (public_output len32 ex_pv))"
    by (simp add: expected_output_def execute_wire_def decode_encoded[OF assms(1) ex_wf]
        execute_public_output_def ex_execute)
  then show ?thesis
    by (simp add: real_groth16_def ensure_release_circuit_mode_def load_elf_def assms(2) groth16_with_def sx_client_def
        ensure_public_values_match_def expected_public_values_def public_output_def sx_values_def write_file_def Let_def)
qed

lemma sx_spawn:
  "pv_spawn sx_proving elf paths fs = Ok \<lparr>ch_group = None, ch_ends = Some 0,
       ch_end = (case sx_run elf paths fs of Some (Inr _, _) \<Rightarrow> Exited 0 | _ \<Rightarrow> Exited 1),
       ch_files = (\<lambda>_. case sx_run elf paths fs of None \<Rightarrow> fs | Some (_, fs') \<Rightarrow> fs')\<rparr>"
  by (simp add: sx_proving_def)

lemma sx_removes: "remove_file sx_proving path fs = fs(path := None)"
  by (simp add: remove_file_def sx_proving_def)

lemma sx_writes: "pv_mkdir sx_proving d = None" "pv_write sx_proving d = None"
  by (simp_all add: sx_proving_def)

lemma wait_at_once: "ch_ends ch = Some 0 \<Longrightarrow> wait_child limit ch = Some (0, True)"
  by (simp add: wait_child_def)

theorem proved_bundle_witness:
  "\<exists>wire bundle fs'. encode_guest_input ex_sdk ex_input = Some wire
     \<and> prove_sp1 std_hex sx_proving sx_config ''b'' wire [''elf'' \<mapsto> [7]] = Some (Ok bundle, fs', [])
     \<and> pb_public_values bundle = public_values_abi ex_pv @ public_values_digest len32 ex_pv"
proof -
  obtain wire where w: "encode_guest_input ex_sdk ex_input = Some wire" using ex_encodes by blast
  let ?p = "proof_paths_new ''dir'' ''b''"
  let ?fs = "[''elf'' \<mapsto> [7], pp_wire ?p \<mapsto> wire](pp_info ?p := None)"
  have "?fs ''elf'' = Some [7]" by (simp add: proof_paths_new_def)
  then obtain info where i: "real_groth16 sx_libs ?fs ''elf'' wire (pp_proof ?p)
      = Some (Ok info, ?fs(pp_proof ?p \<mapsto> sl_image sx_libs ()))" using sx_real[OF w] by blast
  have "?fs (pp_wire ?p) = Some wire" by (simp add: proof_paths_new_def)
  then have r: "\<exists>msg fs'. sx_run ''elf'' ?p ?fs = Some (Ok msg, fs'(pp_info ?p \<mapsto> map of_char (sl_pretty sx_libs (proof_info_json sx_libs info))))"
    using i by (simp add: sx_run_def sp1_real_groth16_files_def with_sp1_def require_arg_def write_file_def) blast
  have c: "sv_elf_path sx_config = Some ''elf''" "sv_proof_dir sx_config = ''dir''" by (simp_all add: sx_config_def)
  have b: "from_info_json std_hex (pv_hex_text sx_proving) (pv_parse_info sx_proving) bs =
      Ok \<lparr>pb_mode = ''groth16'', pb_public_values = sx_values, pb_proof_bytes = [1, 2, 3], pb_vkey_hash = Some ''0x00''\<rparr>" for bs
    using hex_field_written[OF std_hex_ok] by (simp add: from_info_json_def sx_proving_def)
  obtain msg fs1 where x: "sx_run ''elf'' ?p ?fs
      = Some (Ok msg, fs1(pp_info ?p \<mapsto> map of_char (sl_pretty sx_libs (proof_info_json sx_libs info))))"
    using r by blast
  then have "\<exists>fs2. run_prove_command sx_proving (sv_prove_timeout sx_config) ''elf'' ?p [''elf'' \<mapsto> [7], pp_wire ?p \<mapsto> wire]
      = Some (Ok (), fs2, []) \<and> fs2 (pp_info ?p) \<noteq> None"
    by (simp add: run_prove_command_def sx_removes sx_spawn wait_at_once x)
  then obtain fs2 where "run_prove_command sx_proving (sv_prove_timeout sx_config) ''elf'' ?p
      [''elf'' \<mapsto> [7], pp_wire ?p \<mapsto> wire] = Some (Ok (), fs2, [])" "fs2 (pp_info ?p) \<noteq> None" by blast
  then obtain bd fs' where p: "prove_sp1 std_hex sx_proving sx_config ''b'' wire [''elf'' \<mapsto> [7]] = Some (Ok bd, fs', [])"
    using b paths_apart[of "''dir''" "''b''"]
    by (auto simp: prove_sp1_def c sx_writes sx_removes Let_def)
  have "pb_public_values bd = public_values_abi ex_pv @ public_values_digest len32 ex_pv"
    using proved_bundle[OF _ _ _ sx_reads sx_runs, of ex_input wire sx_config "''b''" "[''elf'' \<mapsto> [7]]" bd fs' "[]"]
      w p ex_wf std_hex_ok by (simp add: ex_input_simps)
  with w p show ?thesis by blast
qed

end
