(* ===== verification/S1_Fetch.thy ===== *)
theory S1_Fetch
  imports S1 Guest_Example
begin

text \<open>
  The aggregator client of the witness package: model of the module \<open>aggregator\<close> of \<open>host/src/s1.rs\<close>. The
  gateway is a function of how many calls came before, so its root may advance between two calls; every
  operation returns the number of calls made so far with its answer. Sleeping is not modelled.
\<close>

section \<open>The client\<close>

datatype fetch_error =
    Gateway_Unset
  | Gateway_Url string
  | Fetch_Failed string
  | No_Terminal
  | Refetch_Failed bridge_ext_error

text \<open>\<open>try_new\<close> and \<open>with_api_key\<close> are the SDK's.\<close>

definition client_from_env ::
  "(string \<Rightarrow> string + 'c) \<Rightarrow> (string \<Rightarrow> 'c \<Rightarrow> 'c) \<Rightarrow> (string \<rightharpoonup> string) \<Rightarrow> fetch_error + 'c" where
  "client_from_env try_new with_api_key env =
     and_then (ok_or Gateway_Unset (env ''UNICITY_GATEWAY'')) (\<lambda>url.
     and_then (map_err Gateway_Url (try_new url)) (\<lambda>client.
     Ok (case env ''UNICITY_API_KEY'' of
           None \<Rightarrow> client
         | Some key \<Rightarrow> if key \<noteq> [] then with_api_key key client else client)))"

type_synonym gateway = "nat \<Rightarrow> bytes \<Rightarrow> string + inclusion_proof"

definition fetch_inclusion_proof ::
  "gateway \<Rightarrow> nat \<Rightarrow> bytes \<Rightarrow> (fetch_error + inclusion_proof) \<times> nat" where
  "fetch_inclusion_proof G calls state_id = (map_err Fetch_Failed (G calls state_id), calls + 1)"

definition state_id_of :: "sdk \<Rightarrow> 'a transaction_scheme \<Rightarrow> bytes" where
  "state_id_of S tx = sdk_state_id S (tx_lock_script tx) (tx_source_state_hash tx)"

definition fetch_terminal_inclusion_proof ::
  "sdk \<Rightarrow> gateway \<Rightarrow> nat \<Rightarrow> token \<Rightarrow> (fetch_error + inclusion_proof) \<times> nat" where
  "fetch_terminal_inclusion_proof S G calls token =
     (case tok_transactions token of
        [] \<Rightarrow> (Err No_Terminal, calls)
      | ts \<Rightarrow> fetch_inclusion_proof G calls (state_id_of S (tr_transaction (last ts))))"

section \<open>The anchored token\<close>

text \<open>The loop over the transfers: the transfers rebuilt with fresh proofs, in order.\<close>

fun fetch_transfers ::
  "sdk \<Rightarrow> gateway \<Rightarrow> nat \<Rightarrow> transfer list \<Rightarrow> (fetch_error + transfer list) \<times> nat" where
  "fetch_transfers S G calls [] = (Ok [], calls)"
| "fetch_transfers S G calls (t # ts) =
     (case fetch_inclusion_proof G calls (state_id_of S (tr_transaction t)) of
        (Inl e, calls) \<Rightarrow> (Err e, calls)
      | (Inr proof, calls) \<Rightarrow>
          (case fetch_transfers S G calls ts of
             (Inl e, calls) \<Rightarrow> (Err e, calls)
           | (Inr rest, calls) \<Rightarrow> (Ok (t\<lparr>tr_inclusion_proof := proof\<rparr> # rest), calls)))"

text \<open>One attempt: the rebuilt token and the certificate of the mint's fresh proof.\<close>

definition refetch ::
  "sdk \<Rightarrow> gateway \<Rightarrow> nat \<Rightarrow> token \<Rightarrow> (fetch_error + token \<times> certificate) \<times> nat" where
  "refetch S G calls token =
     (case fetch_inclusion_proof G calls (state_id_of S (tok_mint token)) of
        (Inl e, calls) \<Rightarrow> (Err e, calls)
      | (Inr mint_proof, calls) \<Rightarrow>
          (case fetch_transfers S G calls (tok_transactions token) of
             (Inl e, calls) \<Rightarrow> (Err e, calls)
           | (Inr transfers, calls) \<Rightarrow>
               (Ok (token\<lparr>tok_mint_proof := mint_proof, tok_transactions := transfers\<rparr>,
                    ip_unicity_certificate mint_proof), calls)))"

text \<open>The loop over the attempts; \<open>None\<close> is its \<open>unreachable!\<close>.\<close>

fun fetch_attempts ::
  "sdk \<Rightarrow> gateway \<Rightarrow> trust_base \<Rightarrow> token \<Rightarrow> nat list \<Rightarrow> nat
   \<Rightarrow> ((fetch_error + token \<times> certificate) \<times> nat) option" where
  "fetch_attempts S G tb token [] calls = None"
| "fetch_attempts S G tb token (attempt # attempts) calls =
     (case refetch S G calls token of
        (Inl e, calls) \<Rightarrow> Some (Err e, calls)
      | (Inr (rebuilt, anchor), calls) \<Rightarrow>
          (case verify_token_anchored S rebuilt tb anchor of
             Inr _ \<Rightarrow> Some (Ok (rebuilt, anchor), calls)
           | Inl e \<Rightarrow>
               if attempt = 5 then Some (Err (Refetch_Failed e), calls)
               else fetch_attempts S G tb token attempts calls))"

definition fetch_anchored_token ::
  "sdk \<Rightarrow> gateway \<Rightarrow> nat \<Rightarrow> token \<Rightarrow> trust_base \<Rightarrow> ((fetch_error + token \<times> certificate) \<times> nat) option" where
  "fetch_anchored_token S G calls token tb = fetch_attempts S G tb token [0..<6] calls"

section \<open>What a fetch returns\<close>

text \<open>A token without its proofs.\<close>

definition unproved :: "token \<Rightarrow> mint_transaction \<times> (transaction \<times> bytes) list" where
  "unproved token = (tok_mint token, map (\<lambda>t. (tr_transaction t, tr_recipient t)) (tok_transactions token))"

lemma fetch_transfers_calls:
  "snd (fetch_transfers S G calls ts) \<le> calls + length ts"
  by (induction S G calls ts rule: fetch_transfers.induct)
    (auto simp: fetch_inclusion_proof_def split: sum.splits prod.splits)

lemma fetch_transfers_Ok:
  "fetch_transfers S G calls ts = (Ok rs, calls') \<Longrightarrow>
   map (\<lambda>t. (tr_transaction t, tr_recipient t)) rs = map (\<lambda>t. (tr_transaction t, tr_recipient t)) ts
   \<and> calls' = calls + length ts"
  by (induction S G calls ts arbitrary: rs rule: fetch_transfers.induct)
    (fastforce simp: fetch_inclusion_proof_def map_err_def split: sum.splits prod.splits)+

lemma refetch_calls: "snd (refetch S G calls token) \<le> calls + (1 + length (tok_transactions token))"
  using fetch_transfers_calls[of S G "calls + 1" "tok_transactions token"]
  by (auto simp: refetch_def fetch_inclusion_proof_def split: sum.splits prod.splits)

lemma refetch_Ok:
  assumes "refetch S G calls token = (Ok (rebuilt, anchor), calls')"
  shows "unproved rebuilt = unproved token \<and> anchor = ip_unicity_certificate (tok_mint_proof rebuilt)
    \<and> calls' = calls + (1 + length (tok_transactions token))"
  using assms
  by (auto simp: refetch_def fetch_inclusion_proof_def unproved_def map_err_def split: sum.splits prod.splits
      dest!: fetch_transfers_Ok)

lemma fetch_attempts_runs:
  assumes "5 \<in> set attempts" "sorted_wrt (<) attempts"
  shows "\<exists>r calls'. fetch_attempts S G tb token attempts calls = Some (r, calls')
    \<and> calls' \<le> calls + length attempts * (1 + length (tok_transactions token))
    \<and> (\<forall>rebuilt anchor. r = Ok (rebuilt, anchor) \<longrightarrow>
         unproved rebuilt = unproved token \<and> anchor = ip_unicity_certificate (tok_mint_proof rebuilt)
         \<and> verify_token_anchored S rebuilt tb anchor = Ok ())"
  using assms
proof (induction attempts arbitrary: calls)
  case (Cons a attempts)
  let ?n = "1 + length (tok_transactions token)"
  obtain r c where rc: "refetch S G calls token = (r, c)" by fastforce
  have c: "c \<le> calls + ?n" using refetch_calls[of S G calls token] by (simp add: rc)
  show ?case
  proof (cases r)
    case (Inl e)
    then show ?thesis using rc c by (auto intro: le_trans)
  next
    case (Inr p)
    obtain rebuilt anchor where p: "p = (rebuilt, anchor)" by fastforce
    show ?thesis
    proof (cases "verify_token_anchored S rebuilt tb anchor")
      case (Inr u)
      then show ?thesis using rc \<open>r = Inr p\<close> p c refetch_Ok[of S G calls token rebuilt anchor c]
        by (auto intro: le_trans)
    next
      case (Inl e)
      show ?thesis
      proof (cases "a = 5")
        case True
        then show ?thesis using rc \<open>r = Inr p\<close> p c Inl by (auto intro: le_trans)
      next
        case False
        then have "5 \<in> set attempts" "sorted_wrt (<) attempts" using Cons.prems by auto
        from Cons.IH[OF this, of c] show ?thesis using rc \<open>r = Inr p\<close> p c Inl False
          by (fastforce simp: algebra_simps)
      qed
    qed
  qed
qed simp

lemma fetch_attempts_succeeds:
  assumes "k \<in> set attempts" "sorted_wrt (<) attempts" "k \<le> 5"
    and "\<forall>j \<in> set attempts. j \<le> k \<longrightarrow>
      (\<exists>rebuilt anchor. fst (refetch S G (calls + (j - hd attempts) * (1 + length (tok_transactions token))) token)
          = Ok (rebuilt, anchor) \<and> (j = k \<longrightarrow> verify_token_anchored S rebuilt tb anchor = Ok ()))"
    and "attempts = [hd attempts..<6]"
  shows "\<exists>p calls'. fetch_attempts S G tb token attempts calls = Some (Ok p, calls')"
  using assms
proof (induction attempts arbitrary: calls)
  case (Cons a attempts)
  let ?n = "1 + length (tok_transactions token)"
  have ak: "a \<le> k" using Cons.prems(1,2) by auto
  obtain rebuilt anchor where r: "fst (refetch S G calls token) = Ok (rebuilt, anchor)"
    "a = k \<longrightarrow> verify_token_anchored S rebuilt tb anchor = Ok ()"
    using Cons.prems(4) ak by fastforce
  then obtain c where rc: "refetch S G calls token = (Ok (rebuilt, anchor), c)" by (cases "refetch S G calls token") auto
  then have c: "c = calls + ?n" using refetch_Ok by blast
  show ?case
  proof (cases "verify_token_anchored S rebuilt tb anchor")
    case (Inr u)
    then show ?thesis using rc by simp
  next
    case (Inl e)
    then have "a \<noteq> k" using r by auto
    then have a: "a < k" using ak by simp
    then have tail: "attempts = [Suc a..<6]" using Cons.prems(3,5) by (simp add: upt_rec)
    then have h: "hd attempts = Suc a" "attempts = [hd attempts..<6]" using a Cons.prems(3) by (simp_all add: upt_rec)
    have "\<exists>p calls'. fetch_attempts S G tb token attempts c = Some (Ok p, calls')"
    proof (rule Cons.IH)
      show "k \<in> set attempts" using a Cons.prems(3) tail by simp
      show "sorted_wrt (<) attempts" using Cons.prems(2) by simp
      show "attempts = [hd attempts..<6]" by (rule h(2))
      show "\<forall>j \<in> set attempts. j \<le> k \<longrightarrow>
        (\<exists>rebuilt anchor. fst (refetch S G (c + (j - hd attempts) * ?n) token)
          = Ok (rebuilt, anchor) \<and> (j = k \<longrightarrow> verify_token_anchored S rebuilt tb anchor = Ok ()))"
      proof (intro ballI impI)
        fix j assume j: "j \<in> set attempts" "j \<le> k"
        then have "Suc a \<le> j" using tail by simp
        then obtain d where "j = Suc a + d" by (metis le_Suc_ex)
        then have "c + (j - hd attempts) * ?n = calls + (j - a) * ?n" unfolding c h(1) by simp
        then show "\<exists>rebuilt anchor. fst (refetch S G (c + (j - hd attempts) * ?n) token)
          = Ok (rebuilt, anchor) \<and> (j = k \<longrightarrow> verify_token_anchored S rebuilt tb anchor = Ok ())"
          using Cons.prems(4) j by simp
      qed
    qed (use Cons.prems in simp)
    then show ?thesis using rc Inl a Cons.prems(3) by simp
  qed
qed simp

lemma fetch_attempts_succeeded:
  assumes "fetch_attempts S G tb token attempts calls = Some (Ok p, calls')" "attempts = [a..<6]"
  shows "\<exists>k. a \<le> k \<and> k \<le> 5 \<and> (\<forall>j. a \<le> j \<and> j \<le> k \<longrightarrow>
      (\<exists>rebuilt anchor. fst (refetch S G (calls + (j - a) * (1 + length (tok_transactions token))) token)
          = Ok (rebuilt, anchor) \<and> (j = k \<longrightarrow> verify_token_anchored S rebuilt tb anchor = Ok ())))"
  using assms
proof (induction attempts arbitrary: a calls)
  case (Cons b attempts)
  let ?n = "1 + length (tok_transactions token)"
  have a: "a \<le> 5" "b = a" "attempts = [Suc a..<6]"
    using Cons.prems(2) by (cases "a < 6"; simp add: upt_rec[of a])+
  obtain rebuilt anchor c where r: "refetch S G calls token = (Ok (rebuilt, anchor), c)"
    using Cons.prems(1) by (auto split: prod.splits sum.splits)
  show ?case
  proof (cases "verify_token_anchored S rebuilt tb anchor")
    case (Inr u)
    with r a(1) show ?thesis by (intro exI[of _ a]) auto
  next
    case (Inl e)
    have c: "c = calls + ?n" using refetch_Ok[OF r] by simp
    have "fetch_attempts S G tb token attempts c = Some (Ok p, calls')"
      using Cons.prems(1) r Inl by (auto split: if_splits)
    from Cons.IH[OF this a(3)] obtain k where k: "Suc a \<le> k" "k \<le> 5"
      "\<And>j. Suc a \<le> j \<Longrightarrow> j \<le> k \<Longrightarrow> \<exists>rebuilt anchor. fst (refetch S G (c + (j - Suc a) * ?n) token)
          = Ok (rebuilt, anchor) \<and> (j = k \<longrightarrow> verify_token_anchored S rebuilt tb anchor = Ok ())" by blast
    have "\<exists>rebuilt anchor. fst (refetch S G (calls + (j - a) * ?n) token)
          = Ok (rebuilt, anchor) \<and> (j = k \<longrightarrow> verify_token_anchored S rebuilt tb anchor = Ok ())"
      if j: "a \<le> j" "j \<le> k" for j
    proof (cases "j = a")
      case True
      with r k(1) show ?thesis by simp
    next
      case False
      then obtain d where "j = Suc a + d" using j(1) by (metis le_Suc_ex le_neq_implies_less Suc_leI)
      then have "c + (j - Suc a) * ?n = calls + (j - a) * ?n" unfolding c by simp
      with k(3)[of j] False j show ?thesis by simp
    qed
    with k(1,2) show ?thesis by (intro exI[of _ k]) auto
  qed
qed simp

text \<open>C9. An anchored fetch ends and returns nothing but an anchored token. It never runs out of its six
  attempts without an answer, whatever the gateway does, and makes at most six times one call for the mint
  and each transfer. A token it returns is the token it was given up to the inclusion proofs, and all its
  transitions are included under one root, certified by a quorum, whose certificate is returned with it.
  It succeeds exactly when one of the six attempts verifies, that is the token with the proofs of the
  attempt is genuine under the root of the mint's certificate, and the gateway has answered every request
  of that attempt and of those before it: one unanswered request ends the fetch with its error.\<close>

theorem anchored_fetch:
  "\<exists>r calls'. fetch_anchored_token S G calls token tb = Some (r, calls')
     \<and> calls' \<le> calls + 6 * (1 + length (tok_transactions token))
     \<and> (\<forall>rebuilt anchor. r = Ok (rebuilt, anchor) \<longrightarrow>
          unproved rebuilt = unproved token \<and> anchor = ip_unicity_certificate (tok_mint_proof rebuilt)
          \<and> (\<exists>root. verify_anchor_certificate S tb anchor = Ok root \<and> genuine S tb (included S root) rebuilt))
     \<and> ((\<exists>p. r = Ok p) \<longleftrightarrow> (\<exists>k \<le> 5. \<forall>j \<le> k. \<exists>rebuilt anchor.
            fst (refetch S G (calls + j * (1 + length (tok_transactions token))) token) = Ok (rebuilt, anchor)
            \<and> (j = k \<longrightarrow> verify_token_anchored S rebuilt tb anchor = Ok ())))"
proof -
  let ?n = "1 + length (tok_transactions token)"
  let ?reaches = "\<lambda>k. \<forall>j \<le> k. \<exists>rebuilt anchor.
      fst (refetch S G (calls + j * ?n) token) = Ok (rebuilt, anchor)
      \<and> (j = k \<longrightarrow> verify_token_anchored S rebuilt tb anchor = Ok ())"
  have s: "5 \<in> set [0..<6]" "sorted_wrt (<) [0..<6]" "length [0..<6] = 6" "hd [0..<6] = 0" by simp_all
  obtain r calls' where r: "fetch_attempts S G tb token [0..<6] calls = Some (r, calls')"
    "calls' \<le> calls + 6 * ?n"
    "\<forall>rebuilt anchor. r = Ok (rebuilt, anchor) \<longrightarrow>
         unproved rebuilt = unproved token \<and> anchor = ip_unicity_certificate (tok_mint_proof rebuilt)
         \<and> verify_token_anchored S rebuilt tb anchor = Ok ()"
    using fetch_attempts_runs[OF s(1,2), of S G tb token calls] unfolding s(3) by blast
  have enough: "\<exists>p. r = Ok p" if "k \<le> 5" "?reaches k" for k
  proof -
    have k: "k \<in> set [0..<6]" using that(1) by simp
    have "\<exists>p calls'. fetch_attempts S G tb token [0..<6] calls = Some (Ok p, calls')"
    proof (rule fetch_attempts_succeeds[OF k s(2) that(1)])
      show "\<forall>j \<in> set [0..<6]. j \<le> k \<longrightarrow> (\<exists>rebuilt anchor. fst (refetch S G (calls + (j - hd [0..<6]) * ?n) token)
          = Ok (rebuilt, anchor) \<and> (j = k \<longrightarrow> verify_token_anchored S rebuilt tb anchor = Ok ()))"
        unfolding s(4) diff_zero using that(2) by blast
    qed (simp only: s(4))
    then show ?thesis using r(1) by auto
  qed
  have reached: "\<exists>k \<le> 5. ?reaches k" if "r = Ok p" for p
    using fetch_attempts_succeeded[OF r(1)[unfolded that] refl] by simp
  have certified: "\<exists>root. verify_anchor_certificate S tb anchor = Ok root \<and> genuine S tb (included S root) rebuilt"
    if "verify_token_anchored S rebuilt tb anchor = Ok ()" for rebuilt anchor
    using that by (auto simp: verify_token_anchored_def and_then_Ok_iff verify_token_against_root_Ok_iff)
  show ?thesis
    unfolding fetch_anchored_token_def
  proof (intro exI[of _ r] exI[of _ calls'] conjI)
    show "\<forall>rebuilt anchor. r = Ok (rebuilt, anchor) \<longrightarrow>
        unproved rebuilt = unproved token \<and> anchor = ip_unicity_certificate (tok_mint_proof rebuilt)
        \<and> (\<exists>root. verify_anchor_certificate S tb anchor = Ok root \<and> genuine S tb (included S root) rebuilt)"
      using r(3) certified by blast
    show "(\<exists>p. r = Ok p) \<longleftrightarrow> (\<exists>k \<le> 5. ?reaches k)"
    proof
      assume "\<exists>p. r = Ok p"
      then show "\<exists>k \<le> 5. ?reaches k" by (elim exE) (rule reached)
    next
      assume "\<exists>k \<le> 5. ?reaches k"
      then show "\<exists>p. r = Ok p" by (elim exE conjE) (rule enough)
    qed
  qed (rule r(1), rule r(2))
qed

text \<open>A gateway whose root advances during the first attempt.\<close>

definition fetch_gateway :: gateway where
  "fetch_gateway calls sid = Ok (if calls = 3 then ex_proof [4] else ex_proof (replicate 32 1))"

lemma fetch_ex_refetch:
  "refetch ex_sdk fetch_gateway 0 ex_token = (Ok (ex_token\<lparr>tok_mint_proof := ex_proof (replicate 32 1),
       tok_transactions := [ex_transfer\<lparr>tr_inclusion_proof := ex_proof (replicate 32 1)\<rparr>]\<rparr>, ex_cert), 2)"
  "refetch ex_sdk fetch_gateway 2 ex_token = (Ok (ex_token, ex_cert), 4)"
proof -
  have "tr_inclusion_proof ex_transfer = ex_proof [4]" by (simp add: ex_transfer_def)
  then have "ex_transfer\<lparr>tr_inclusion_proof := ex_proof [4]\<rparr> = ex_transfer" by (cases ex_transfer) simp
  then show "refetch ex_sdk fetch_gateway 2 ex_token = (Ok (ex_token, ex_cert), 4)"
    by (simp add: refetch_def fetch_inclusion_proof_def fetch_gateway_def ex_token_def)
      (simp add: ex_proof_def)
  show "refetch ex_sdk fetch_gateway 0 ex_token = (Ok (ex_token\<lparr>tok_mint_proof := ex_proof (replicate 32 1),
       tok_transactions := [ex_transfer\<lparr>tr_inclusion_proof := ex_proof (replicate 32 1)\<rparr>]\<rparr>, ex_cert), 2)"
    by (simp add: refetch_def fetch_inclusion_proof_def fetch_gateway_def ex_token_def)
      (simp add: ex_proof_def)
qed

lemma fetch_ex_included:
  "certified_inclusion ex_sdk ex_tb p tx \<Longrightarrow> ip_unicity_certificate p = ex_cert \<Longrightarrow>
   included ex_sdk (replicate 32 6) p tx"
  by (auto simp: certified_inclusion_def ex_certificate)

lemma fetch_ex_verifies: "verify_token_anchored ex_sdk ex_token ex_tb ex_cert = Ok ()"
proof -
  have "genuine ex_sdk ex_tb (included ex_sdk (replicate 32 6)) ex_token"
    using ex_genuine by (auto simp: genuine_def ex_token_def intro!: fetch_ex_included)
      (simp_all add: ex_transfer_def ex_proof_def)
  moreover have "verify_anchor_certificate ex_sdk ex_tb ex_cert = Ok (replicate 32 6)"
    using ex_certificate by (simp add: verify_anchor_certificate_def ex_sdk_simps)
  ultimately show ?thesis by (simp add: verify_token_anchored_def verify_token_against_root_Ok_iff)
qed

theorem anchored_fetch_witness:
  "\<exists>p calls'. fetch_anchored_token ex_sdk fetch_gateway 0 ex_token ex_tb = Some (Ok p, calls') \<and> calls' \<le> 12"
proof -
  have n: "1 + length (tok_transactions ex_token) = 2" by (simp add: ex_token_def)
  have "\<exists>rebuilt anchor. fst (refetch ex_sdk fetch_gateway (0 + j * 2) ex_token) = Ok (rebuilt, anchor)
      \<and> (j = 1 \<longrightarrow> verify_token_anchored ex_sdk rebuilt ex_tb anchor = Ok ())" if "j \<le> 1" for j :: nat
    using that fetch_ex_verifies
    by (cases "j = 0") (simp_all add: fetch_ex_refetch fetch_ex_refetch(2)[unfolded numeral_2_eq_2] le_Suc_eq)
  then have h: "\<forall>j \<le> (1 :: nat). \<exists>rebuilt anchor. fst (refetch ex_sdk fetch_gateway (0 + j * 2) ex_token) = Ok (rebuilt, anchor)
      \<and> (j = 1 \<longrightarrow> verify_token_anchored ex_sdk rebuilt ex_tb anchor = Ok ())" by blast
  obtain r calls' where r: "fetch_anchored_token ex_sdk fetch_gateway 0 ex_token ex_tb = Some (r, calls')"
    "calls' \<le> 0 + 6 * 2"
    "(\<exists>p. r = Ok p) \<longleftrightarrow> (\<exists>k \<le> 5. \<forall>j \<le> k. \<exists>rebuilt anchor. fst (refetch ex_sdk fetch_gateway (0 + j * 2) ex_token)
       = Ok (rebuilt, anchor) \<and> (j = k \<longrightarrow> verify_token_anchored ex_sdk rebuilt ex_tb anchor = Ok ()))"
    using anchored_fetch[of ex_sdk fetch_gateway 0 ex_token ex_tb] unfolding n
    by (elim exE conjE) (rule that; assumption)
  have "\<exists>p. r = Ok p" by (rule r(3)[THEN iffD2], rule exI[of _ 1], rule conjI[OF _ h]) simp
  then show ?thesis using r(1,2) by auto
qed

end
