(* ===== verification/Host_Cli.thy ===== *)
theory Host_Cli
  imports Sp1
begin

text \<open>
  The command line of the host: model of \<open>host/src/main.rs\<close>. A command answers with what it prints and the
  files. The fixtures, which are built through the SDK, and the trust base's JSON reader are parameters.
\<close>

datatype cli_error =
    Cli_Host host_error
  | Cli_S1 s1_error
  | Cli_S2 s2_error

record ('k, 'p) cli_libs = "('k, 'p) sp1_libs" +
  ci_trust_base :: "string \<Rightarrow> string + trust_base"
  ci_b1_fixture :: token_fixture
  ci_split_fixture :: token_fixture
  ci_b2_fixture :: guest_input
  ci_b2_shared_fixture :: guest_input
  ci_settlement :: "bridge_config \<Rightarrow> bytes \<Rightarrow> u64 \<Rightarrow> u64 \<Rightarrow> u8 \<Rightarrow> bytes list \<Rightarrow> guest_input"
  ci_settlement_b2 :: "bridge_config \<Rightarrow> bytes list \<Rightarrow> u64 list \<Rightarrow> u64 list \<Rightarrow> guest_input"

abbreviation check :: "string \<Rightarrow> cli_error" where "check m \<equiv> Cli_Host (Host_Check m)"

section \<open>Reading a configuration\<close>

definition text_of :: "bytes \<Rightarrow> string" where "text_of bs = map (\<lambda>b. char_of (unat b)) bs"

definition read_doc :: "('k, 'p, 'm) sp1_libs_scheme \<Rightarrow> files \<Rightarrow> string \<Rightarrow> cli_error + json" where
  "read_doc L fs path = map_err Cli_Host (vec_read L (map_option text_of o fs) path)"

definition chain_family :: "('k, 'p, 'm) sp1_libs_scheme \<Rightarrow> json \<Rightarrow> string" where
  "chain_family L config =
     (case js_as_str (vb_json L) (ix L config ''chain_family'') of None \<Rightarrow> ''tron'' | Some s \<Rightarrow> s)"

text \<open>A number may be written as a string.\<close>

definition cli_u64 :: "('k, 'p, 'm) sp1_libs_scheme \<Rightarrow> json \<Rightarrow> string \<Rightarrow> cli_error + u64" where
  "cli_u64 L json k =
     ok_or (check (''missing u64 field '' @ k))
       (case js_as_u64 (vb_json L) (ix L json k) of
          Some n \<Rightarrow> Some n
        | None \<Rightarrow> Option.bind (js_as_str (vb_json L) (ix L json k)) (u64_from_radix 10))"

definition cli_hex :: "('k, 'p, 'm) sp1_libs_scheme \<Rightarrow> string \<Rightarrow> cli_error + bytes" where
  "cli_hex L s = map_err Cli_Host (bytes_from_hex L s)"

definition cli_arr :: "('k, 'p, 'm) sp1_libs_scheme \<Rightarrow> json \<Rightarrow> string \<Rightarrow> nat \<Rightarrow> cli_error + bytes" where
  "cli_arr L json k n =
     and_then (ok_or (check (''missing hex field '' @ k)) (js_as_str (vb_json L) (ix L json k))) (\<lambda>s.
     and_then (cli_hex L s) (\<lambda>v.
     if length v \<noteq> n
     then Err (check (k @ '' length '' @ dec_text (length v) @ '', expected '' @ dec_text n)) else Ok v))"

definition derived_config ::
  "('k, 'p, 'm) sp1_libs_scheme \<Rightarrow> string \<Rightarrow> u64 \<Rightarrow> bytes \<Rightarrow> bytes \<Rightarrow> u64 \<Rightarrow> bytes \<Rightarrow> bytes \<Rightarrow> bridge_config" where
  "derived_config L family chain vault asset tag ldom ndom =
     (let chain_id_str = dec_text (unat chain); asset_evm_hex = hex_encode (vb_hex L) asset in
      \<lparr>cfg_source_chain_id = chain, cfg_vault = vault, cfg_asset = asset,
       cfg_token_type = token_type (vb_sha256 L) family chain_id_str asset_evm_hex,
       cfg_coin_id = coin_id (vb_sha256 L) family chain_id_str asset_evm_hex, cfg_reason_tag = tag,
       cfg_lock_domain = ldom, cfg_nullifier_domain = ndom\<rparr>)"

section \<open>Freezing a configuration\<close>

definition frozen_config :: "('k, 'p, 'm) sp1_libs_scheme \<Rightarrow> json \<Rightarrow> cli_error + bridge_config" where
  "frozen_config L json =
     and_then (cli_u64 L json ''source_chain_id'') (\<lambda>chain.
     and_then (cli_arr L json ''vault'' 20) (\<lambda>vault.
     and_then (cli_arr L json ''asset'' 20) (\<lambda>asset.
     and_then (cli_u64 L json ''reason_tag'') (\<lambda>tag.
     and_then (cli_arr L json ''lock_domain'' 32) (\<lambda>ldom.
     and_then (cli_arr L json ''nullifier_domain'' 32) (\<lambda>ndom.
     Ok (derived_config L (chain_family L json) chain vault asset tag ldom ndom)))))))"

definition config_doc :: "('k, 'p, 'm) sp1_libs_scheme \<Rightarrow> string \<Rightarrow> bridge_config \<Rightarrow> json" where
  "config_doc L family cfg =
     J_Obj [(''chain_family'', J_Str family), (''source_chain_id'', J_Num (cfg_source_chain_id cfg)),
            (''vault'', hex0 L (cfg_vault cfg)), (''asset'', hex0 L (cfg_asset cfg)),
            (''token_type'', hex0 L (cfg_token_type cfg)), (''coin_id'', hex0 L (cfg_coin_id cfg)),
            (''reason_tag'', J_Num (cfg_reason_tag cfg)), (''lock_domain'', hex0 L (cfg_lock_domain cfg)),
            (''nullifier_domain'', hex0 L (cfg_nullifier_domain cfg)),
            (''config_hash'', hex0 L (config_hash (vb_keccak L) cfg)),
            (''domain_tag'', hex0 L (domain_tag (vb_keccak L)))]"

definition emit_config :: "('k, 'p, 'm) sp1_libs_scheme \<Rightarrow> files \<Rightarrow> string option \<Rightarrow> cli_error + string" where
  "emit_config L fs path =
     and_then (ok_or (check ''missing config-in.json'') path) (\<lambda>path.
     and_then (read_doc L fs path) (\<lambda>json.
     and_then (frozen_config L json) (\<lambda>cfg.
     Ok (sl_pretty L (config_doc L (chain_family L json) cfg)))))"

definition emit_trust_base_hash :: "('k, 'p, 'm) cli_libs_scheme \<Rightarrow> files \<Rightarrow> string option \<Rightarrow> cli_error + string" where
  "emit_trust_base_hash L fs path =
     and_then (ok_or (check ''missing trust-base.json'') path) (\<lambda>path.
     and_then (ok_or (Cli_Host (Host_Io (vb_io_error L path))) (fs path)) (\<lambda>bs.
     and_then (map_err (\<lambda>e. check (''trust base: '' @ e)) (ci_trust_base L (text_of bs))) (\<lambda>tb.
     Ok (''0x'' @ hex_encode (vb_hex L) (canonical_hash (vb_sdk L) tb)))))"

section \<open>Prechecking a wire\<close>

definition precheck_doc :: "('k, 'p, 'm) sp1_libs_scheme \<Rightarrow> precheck_report \<Rightarrow> json" where
  "precheck_doc L report =
     J_Obj [(''batch_size'', J_Num (ucast (pr_batch_size report))), (''total_amount'', hex0 L (pr_total_amount report)),
            (''public_values_abi'', hex0 L (pr_public_values_abi report)),
            (''public_values_digest'', hex0 L (pr_public_values_digest report)),
            (''wire_input_len'', J_Num (of_nat (length (pr_wire_input report))))]"

definition precheck_wire_command ::
  "('k, 'p, 'm) sp1_libs_scheme \<Rightarrow> string option \<Rightarrow> (cli_error + string) option" where
  "precheck_wire_command L wire =
     run_then (Some (and_then (ok_or (check ''missing wire_hex'') wire) (cli_hex L))) (\<lambda>bs.
     run_then (map_option (map_err Cli_S1) (precheck_wire (vb_fuel L) (vb_sha256 L) (vb_keccak L) (vb_sdk L) bs)) (\<lambda>report.
     Some (Ok (sl_pretty L (precheck_doc L report)))))"

section \<open>Rebuilding the accumulator\<close>

definition next_nullifier :: "('k, 'p, 'm) sp1_libs_scheme \<Rightarrow> json \<Rightarrow> cli_error + bytes" where
  "next_nullifier L v =
     and_then (ok_or (check ''expected hex string'') (js_as_str (vb_json L) v)) (\<lambda>s.
     and_then (cli_hex L s) (\<lambda>bs. if length bs = 32 then Ok bs else Err (check ''expected 32 bytes'')))"

definition next_doc :: "('k, 'p, 'm) sp1_libs_scheme \<Rightarrow> next_batch_inputs \<Rightarrow> json" where
  "next_doc L nb =
     J_Obj [(''spent_root_old'', hex0 L (nb_spent_root_old nb)), (''spent_root_new'', hex0 L (nb_spent_root_new nb)),
            (''witnesses'', J_Num (of_nat (length (nb_witnesses nb))))]"

definition rebuild_fields ::
  "('k, 'p, 'm) sp1_libs_scheme \<Rightarrow> settled_log \<Rightarrow> rebuilt_accumulator \<Rightarrow> (string \<times> json) list" where
  "rebuild_fields L log acc =
     [(''batches_replayed'', J_Num (of_nat (length (sl_batches log)))), (''spent_count'', J_Num (of_nat (ra_spent_count acc))),
      (''spent_root'', hex0 L (ra_spent_root acc)),
      (''verified_against_chain'', J_Bool (sl_on_chain_spent_root log \<noteq> None))]"

definition s2_rebuild :: "('k, 'p, 'm) sp1_libs_scheme \<Rightarrow> files \<Rightarrow> string option \<Rightarrow> (cli_error + string) option" where
  "s2_rebuild L fs path =
     run_then (Some (and_then (ok_or (check ''missing events.json'') path) (read_doc L fs))) (\<lambda>json.
     run_then (Some (map_err Cli_S2 (parse_settled_log (vb_json L) (vb_hex L) json))) (\<lambda>log.
     run_then (map_option (map_err Cli_S2) (rebuild_verified (sdk_sha256 (vb_sdk L)) log)) (\<lambda>acc.
     case js_get (vb_json L) json ''next_nullifiers'' of
       None \<Rightarrow> Some (Ok (sl_pretty L (J_Obj (rebuild_fields L log acc))))
     | Some next \<Rightarrow>
         run_then (Some (and_then (ok_or (check ''next_nullifiers: expected array'') (js_as_array (vb_json L) next))
             (collect_results (next_nullifier L)))) (\<lambda>nullifiers.
         run_then (map_option (map_err Cli_S2) (next_batch (sdk_sha256 (vb_sdk L)) acc nullifiers)) (\<lambda>nb.
         Some (Ok (sl_pretty L (J_Obj (rebuild_fields L log acc @ [(''next_batch'', next_doc L nb)])))))))))"

section \<open>Settlements\<close>

text \<open>The configuration of a settlement is derived as in \<open>emit_config\<close>, in the order in which its fields are read.\<close>

definition settlement_config :: "('k, 'p, 'm) sp1_libs_scheme \<Rightarrow> json \<Rightarrow> cli_error + bridge_config" where
  "settlement_config L json =
     and_then (cli_u64 L json ''source_chain_id'') (\<lambda>chain.
     and_then (cli_arr L json ''asset'' 20) (\<lambda>asset.
     and_then (cli_arr L json ''vault'' 20) (\<lambda>vault.
     and_then (cli_u64 L json ''reason_tag'') (\<lambda>tag.
     and_then (cli_arr L json ''lock_domain'' 32) (\<lambda>ldom.
     and_then (cli_arr L json ''nullifier_domain'' 32) (\<lambda>ndom.
     Ok (derived_config L (chain_family L json) chain vault asset tag ldom ndom)))))))"

definition settlement_values :: "('k, 'p, 'm) sp1_libs_scheme \<Rightarrow> public_values \<Rightarrow> json" where
  "settlement_values L p =
     J_Obj [(''domain_tag'', hex0 L (pv_domain_tag p)), (''config_hash'', hex0 L (pv_config_hash p)),
            (''trust_base_hash'', hex0 L (pv_trust_base_hash p)), (''spent_root_old'', hex0 L (pv_spent_root_old p)),
            (''spent_root_new'', hex0 L (pv_spent_root_new p)), (''return_root'', hex0 L (pv_return_root p)),
            (''lock_ref_root'', hex0 L (pv_lock_ref_root p)), (''batch_size'', J_Num (ucast (pv_batch_size p))),
            (''total_amount'', hex0 L (pv_total_amount p))]"

definition lock_seed :: "('k, 'p, 'm) sp1_libs_scheme \<Rightarrow> u64 \<Rightarrow> burn_witness \<Rightarrow> source_lock_ref \<Rightarrow> json" where
  "lock_seed L amount burn r =
     (let mint = tok_mint (bw_token burn) in
      J_Obj [(''amount'', J_Num amount), (''unicity_token_id'', hex0 L (mint_token_id mint)),
             (''recipient_commitment'',
                hex0 L (sdk_sha256 (vb_sdk L) (sdk_predicate_cbor (vb_sdk L) (mint_recipient mint)))),
             (''nonce'', J_Num (ref_nonce r))])"

text \<open>\<open>None\<close> is the panic of an index: a settlement has at least one leaf, lock reference and burn.\<close>

definition settlement_doc :: "('k, 'p, 'm) sp1_libs_scheme \<Rightarrow> u64 \<Rightarrow> guest_input \<Rightarrow> json option" where
  "settlement_doc L amount input =
     (case (gi_return_leaves input, gi_sorted_lock_refs input, rw_bridge_burns (gi_witness input)) of
        (leaf # _, r # _, burn # _) \<Rightarrow>
          map_option (\<lambda>wire. J_Obj [(''guest_wire_input'', hex0 L wire),
            (''public_values'', settlement_values L (gi_public_values input)), (''leaf'', return_leaf_json L leaf),
            (''lock_ref'', lock_ref_json L r), (''lock_seed'', lock_seed L amount burn r)])
            (encode_guest_input (vb_sdk L) input)
      | _ \<Rightarrow> None)"

definition settlement_b2_doc :: "('k, 'p, 'm) sp1_libs_scheme \<Rightarrow> u64 \<Rightarrow> guest_input \<Rightarrow> json option" where
  "settlement_b2_doc L amount input =
     (let n = length (gi_return_leaves input); refs = gi_sorted_lock_refs input;
          burns = rw_bridge_burns (gi_witness input) in
      if length refs < n \<or> length burns < n then None
      else map_option (\<lambda>wire. J_Obj [(''guest_wire_input'', hex0 L wire),
        (''public_values'', settlement_values L (gi_public_values input)),
        (''leaves'', J_Arr (map (return_leaf_json L) (gi_return_leaves input))),
        (''lock_refs'', J_Arr (map (lock_ref_json L) (take n refs))),
        (''lock_seeds'', J_Arr (map (\<lambda>(b, r). lock_seed L amount b r) (zip (take n burns) (take n refs))))])
        (encode_guest_input (vb_sdk L) input))"

definition printed :: "('k, 'p, 'm) sp1_libs_scheme \<Rightarrow> json option \<Rightarrow> (cli_error + string) option" where
  "printed L doc = map_option (\<lambda>d. Ok (sl_pretty L d)) doc"

text \<open>The three arguments of a settlement, the amount parsed before the file is read.\<close>

definition settlement_args ::
  "('k, 'p, 'm) sp1_libs_scheme \<Rightarrow> files \<Rightarrow> string option \<Rightarrow> string option \<Rightarrow> string option
   \<Rightarrow> cli_error + json \<times> string \<times> u64" where
  "settlement_args L fs config_path to_hex amount_str =
     and_then (ok_or (check ''missing config-in.json'') config_path) (\<lambda>path.
     and_then (ok_or (check ''missing recipient_hex'') to_hex) (\<lambda>recipient.
     and_then (ok_or (check ''missing amount'') amount_str) (\<lambda>a.
     and_then (ok_or (check ''amount must be u64'') (u64_from_radix 10 a)) (\<lambda>amount.
     and_then (read_doc L fs path) (\<lambda>json. Ok (json, recipient, amount))))))"

definition emit_settlement ::
  "('k, 'p, 'm) cli_libs_scheme \<Rightarrow> files \<Rightarrow> string option \<Rightarrow> string option \<Rightarrow> string option
   \<Rightarrow> (cli_error + string) option" where
  "emit_settlement L fs config_path to_hex amount_str =
     run_then (Some (settlement_args L fs config_path to_hex amount_str)) (\<lambda>(json, recipient, amount).
     run_then (Some (settlement_config L json)) (\<lambda>config.
     run_then (Some (and_then (cli_hex L recipient) (\<lambda>v.
       if length v \<noteq> 20 then Err (check (''expected 20 bytes, got '' @ dec_text (length v))) else Ok v))) (\<lambda>recipient.
     printed L (settlement_doc L amount (ci_settlement L config recipient amount 0 0x42 [])))))"

definition emit_settlement_b2 ::
  "('k, 'p, 'm) cli_libs_scheme \<Rightarrow> files \<Rightarrow> string option \<Rightarrow> string option \<Rightarrow> string option
   \<Rightarrow> (cli_error + string) option" where
  "emit_settlement_b2 L fs config_path to_hex amount_str =
     run_then (Some (settlement_args L fs config_path to_hex amount_str)) (\<lambda>(json, recipient, amount).
     run_then (Some (settlement_config L json)) (\<lambda>config.
     run_then (Some (and_then (cli_hex L recipient) (\<lambda>v.
       if length v \<noteq> 20 then Err (check ''recipient must be 20 bytes'') else Ok v))) (\<lambda>recipient.
     printed L (settlement_b2_doc L amount
       (ci_settlement_b2 L config [recipient, recipient] [amount, amount] [0, 1])))))"

text \<open>The continued settlement reads its fields with other messages, and the earlier nullifiers in order.\<close>

definition value_arr :: "('k, 'p, 'm) sp1_libs_scheme \<Rightarrow> nat \<Rightarrow> json \<Rightarrow> cli_error + bytes" where
  "value_arr L n v =
     and_then (ok_or (check ''expected hex string'') (js_as_str (vb_json L) v)) (\<lambda>s.
     and_then (cli_hex L s) (\<lambda>b.
     if length b \<noteq> n
     then Err (check (''expected '' @ dec_text n @ '' bytes, got '' @ dec_text (length b))) else Ok b))"

definition continued_config :: "('k, 'p, 'm) sp1_libs_scheme \<Rightarrow> json \<Rightarrow> cli_error + bridge_config" where
  "continued_config L json =
     and_then (cli_u64 L json ''source_chain_id'') (\<lambda>chain.
     and_then (value_arr L 20 (ix L json ''asset'')) (\<lambda>asset.
     and_then (value_arr L 20 (ix L json ''vault'')) (\<lambda>vault.
     and_then (cli_u64 L json ''reason_tag'') (\<lambda>tag.
     and_then (value_arr L 32 (ix L json ''lock_domain'')) (\<lambda>ldom.
     and_then (value_arr L 32 (ix L json ''nullifier_domain'')) (\<lambda>ndom.
     Ok (derived_config L (chain_family L json) chain vault asset tag ldom ndom)))))))"

definition emit_settlement_continued ::
  "('k, 'p, 'm) cli_libs_scheme \<Rightarrow> files \<Rightarrow> string option \<Rightarrow> (cli_error + string) option" where
  "emit_settlement_continued L fs path =
     run_then (Some (and_then (ok_or (check ''missing input.json'') path) (read_doc L fs))) (\<lambda>json.
     run_then (Some (continued_config L json)) (\<lambda>config.
     run_then (Some (value_arr L 20 (ix L json ''recipient''))) (\<lambda>recipient.
     run_then (Some (cli_u64 L json ''amount'')) (\<lambda>amount.
     run_then (Some (cli_u64 L json ''nonce'')) (\<lambda>nonce.
     run_then (Some (and_then (cli_u64 L json ''salt'') (\<lambda>s.
       if s < 256 then Ok (ucast s) else Err (check ''salt must be a byte'')))) (\<lambda>salt.
     run_then (Some (and_then
       (ok_or (check ''missing prior_nullifiers array'') (js_as_array (vb_json L) (ix L json ''prior_nullifiers'')))
       (collect_results (value_arr L 32)))) (\<lambda>prior.
     printed L (settlement_doc L amount (ci_settlement L config recipient amount nonce salt prior)))))))))"

section \<open>The program\<close>

definition nth_arg :: "string list \<Rightarrow> nat \<Rightarrow> string option" where
  "nth_arg args i = (if i < length args then Some (args ! i) else None)"

text \<open>The files under a root.\<close>

definition under_root :: "files \<Rightarrow> string \<Rightarrow> (string \<rightharpoonup> string)" where
  "under_root fs root = (\<lambda>relative. map_option text_of (fs (root @ ''/'' @ relative)))"

definition emit_wire :: "('k, 'p, 'm) sp1_libs_scheme \<Rightarrow> guest_input \<Rightarrow> (cli_error + string) option" where
  "emit_wire L input =
     map_option (\<lambda>wire. Ok (''0x'' @ hex_encode (vb_hex L) wire)) (encode_guest_input (vb_sdk L) input)"

definition host_error_run :: "command_run \<Rightarrow> ((cli_error + string) \<times> files) option" where
  "host_error_run r = map_option (\<lambda>(x, fs). (map_err Cli_Host x, fs)) r"

text \<open>Without a command, and with an unknown one, the usage goes to standard error.\<close>

definition host_main ::
  "('k, 'p, 'm) cli_libs_scheme \<Rightarrow> files \<Rightarrow> string list \<Rightarrow> ((cli_error + string) \<times> files) option" where
  "host_main L fs argv =
     (case argv of
        [] \<Rightarrow> Some (Ok [], fs)
      | cmd # args \<Rightarrow>
          let arg = nth_arg args; same = map_option (\<lambda>r. (r, fs)) in
          if cmd = ''check-vectors'' then
            same (map_option (\<lambda>r. and_then (map_err Cli_Host r) (\<lambda>_. Ok ''bridge return prover vectors ok''))
              (check_vectors L (under_root fs (case arg 0 of None \<Rightarrow> ''../protocol/vectors'' | Some root \<Rightarrow> root))))
          else if cmd = ''emit-b1-token-vector'' then same (printed L (b1_fixture_json L (ci_b1_fixture L)))
          else if cmd = ''emit-split-token-vector'' then same (printed L (split_fixture_json L (ci_split_fixture L)))
          else if cmd = ''emit-b1-wire-input'' then same (emit_wire L (tf_input (ci_b1_fixture L)))
          else if cmd = ''emit-split-wire-input'' then same (emit_wire L (tf_input (ci_split_fixture L)))
          else if cmd = ''emit-b2-token-vector'' then same (printed L (b2_fixture_json L (ci_b2_fixture L)))
          else if cmd = ''emit-b2-wire-input'' then same (emit_wire L (ci_b2_fixture L))
          else if cmd = ''emit-b2-shared-wire-input'' then same (emit_wire L (ci_b2_shared_fixture L))
          else if cmd = ''emit-config'' then same (Some (emit_config L fs (arg 0)))
          else if cmd = ''emit-trust-base-hash'' then same (Some (emit_trust_base_hash L fs (arg 0)))
          else if cmd = ''emit-settlement'' then same (emit_settlement L fs (arg 0) (arg 1) (arg 2))
          else if cmd = ''emit-settlement-b2'' then same (emit_settlement_b2 L fs (arg 0) (arg 1) (arg 2))
          else if cmd = ''emit-settlement-continued'' then same (emit_settlement_continued L fs (arg 0))
          else if cmd = ''s2-rebuild'' then same (s2_rebuild L fs (arg 0))
          else if cmd = ''precheck-wire'' then same (precheck_wire_command L (arg 0))
          else if cmd = ''sp1-execute'' then host_error_run (sp1_execute L fs (arg 0) (arg 1))
          else if cmd = ''sp1-mock-groth16'' then host_error_run (sp1_mock_groth16 L fs (arg 0) (arg 1) (arg 2))
          else if cmd = ''sp1-groth16'' then host_error_run (sp1_real_groth16 L fs (arg 0) (arg 1) (arg 2))
          else if cmd = ''sp1-groth16-files'' then
            host_error_run (sp1_real_groth16_files L fs (arg 0) (arg 1) (arg 2) (arg 3))
          else if cmd = ''sp1-vkey'' then host_error_run (sp1_vkey L fs (arg 0))
          else if cmd = ''sp1-export'' then host_error_run (sp1_export L fs (arg 0) (arg 1) (arg 2))
          else if cmd = ''sp1-proof-info'' then host_error_run (sp1_proof_info L fs (arg 0))
          else Some (Err (check (''unknown command '' @ sl_debug L cmd)), fs))"

end
