(* ===== verification/Json_Text.thy ===== *)
theory Json_Text
  imports Json_Lib
begin

text \<open>
  The texts of a JSON value, and a reader of them. What the code relies on in a JSON parser is that it reads
  the value of every text the grammar gives it; the reader is the instance on which witnesses run.
\<close>

section \<open>The grammar\<close>

definition is_blank :: "char \<Rightarrow> bool" where
  "is_blank c \<longleftrightarrow> c = CHR '' '' \<or> c = CHR 0x09 \<or> c = CHR 0x0A \<or> c = CHR 0x0D"

abbreviation blanks :: "string \<Rightarrow> bool" where "blanks w \<equiv> list_all is_blank w"

definition is_digit :: "char \<Rightarrow> bool" where
  "is_digit c \<longleftrightarrow> digit_value 10 c \<noteq> None"

definition escape_char :: "char \<Rightarrow> string" where
  "escape_char c = (if c = CHR 0x22 \<or> c = CHR 0x5C then [CHR 0x5C, c] else [c])"

definition json_string :: "string \<Rightarrow> string" where
  "json_string s = CHR 0x22 # concat (map escape_char s) @ [CHR 0x22]"

text \<open>Strings of the characters allowed (\<open>chars\<close>), numbers in decimal, objects without repeated keys.\<close>

definition plain_text :: "string \<Rightarrow> bool" where
  "plain_text s \<longleftrightarrow> list_all (\<lambda>c. 32 \<le> (of_char c :: nat)) s"

inductive json_doc :: "(string \<Rightarrow> bool) \<Rightarrow> string \<Rightarrow> json \<Rightarrow> bool"
  and json_items :: "(string \<Rightarrow> bool) \<Rightarrow> string \<Rightarrow> json list \<Rightarrow> bool"
  and json_fields :: "(string \<Rightarrow> bool) \<Rightarrow> string \<Rightarrow> (string \<times> json) list \<Rightarrow> bool"
  for chars :: "string \<Rightarrow> bool"
where
  doc_null: "json_doc chars ''null'' J_Null"
| doc_true: "json_doc chars ''true'' (J_Bool True)"
| doc_false: "json_doc chars ''false'' (J_Bool False)"
| doc_num: "json_doc chars (dec_text (unat n)) (J_Num n)"
| doc_str: "chars s \<Longrightarrow> json_doc chars (json_string s) (J_Str s)"
| doc_arr: "json_items chars t vs \<Longrightarrow> json_doc chars (CHR ''['' # t @ '']'') (J_Arr vs)"
| doc_obj: "json_fields chars t fs \<Longrightarrow> distinct (map fst fs) \<Longrightarrow> json_doc chars (CHR ''{'' # t @ ''}'') (J_Obj fs)"
| items_none: "blanks w \<Longrightarrow> json_items chars w []"
| items_one: "blanks w \<Longrightarrow> json_doc chars t v \<Longrightarrow> blanks w' \<Longrightarrow> json_items chars (w @ t @ w') [v]"
| items_more: "blanks w \<Longrightarrow> json_doc chars t v \<Longrightarrow> blanks w' \<Longrightarrow> json_items chars ts (x # vs) \<Longrightarrow>
    json_items chars (w @ t @ w' @ CHR '','' # ts) (v # x # vs)"
| fields_none: "blanks w \<Longrightarrow> json_fields chars w []"
| fields_one: "blanks w \<Longrightarrow> chars k \<Longrightarrow> blanks w1 \<Longrightarrow> blanks w2 \<Longrightarrow> json_doc chars t v \<Longrightarrow> blanks w3 \<Longrightarrow>
    json_fields chars (w @ json_string k @ w1 @ CHR '':'' # w2 @ t @ w3) [(k, v)]"
| fields_more: "blanks w \<Longrightarrow> chars k \<Longrightarrow> blanks w1 \<Longrightarrow> blanks w2 \<Longrightarrow> json_doc chars t v \<Longrightarrow> blanks w3 \<Longrightarrow>
    json_fields chars ts (f # fs) \<Longrightarrow>
    json_fields chars (w @ json_string k @ w1 @ CHR '':'' # w2 @ t @ w3 @ CHR '','' # ts) ((k, v) # f # fs)"

definition json_file :: "string \<Rightarrow> json \<Rightarrow> bool" where
  "json_file t v \<longleftrightarrow> (\<exists>w t' w'. blanks w \<and> blanks w' \<and> t = w @ t' @ w' \<and> json_doc plain_text t' v)"

text \<open>What the code relies on.\<close>

definition json_parser :: "(string \<Rightarrow> json option) \<Rightarrow> bool" where
  "json_parser parse \<longleftrightarrow> (\<forall>t v. json_file t v \<longrightarrow> parse t = Some v)"

section \<open>A reader\<close>

definition skip_blanks :: "string \<Rightarrow> string" where
  "skip_blanks s = dropWhile is_blank s"

fun read_str :: "string \<Rightarrow> (string \<times> string) option" where
  "read_str [] = None"
| "read_str (c # cs) =
     (if c = CHR 0x22 then Some ([], cs)
      else if c = CHR 0x5C then
        (case cs of [] \<Rightarrow> None
         | d # ds \<Rightarrow> if d = CHR 0x22 \<or> d = CHR 0x5C then map_option (\<lambda>(s, r). (d # s, r)) (read_str ds) else None)
      else map_option (\<lambda>(s, r). (c # s, r)) (read_str cs))"

definition read_num :: "string \<Rightarrow> (json \<times> string) option" where
  "read_num s = map_option (\<lambda>n. (J_Num (of_nat n), dropWhile is_digit s)) (radix_value 10 0 (takeWhile is_digit s))"

definition read_word :: "string \<Rightarrow> (json \<times> string) option" where
  "read_word s =
     (if take 4 s = ''null'' then Some (J_Null, drop 4 s)
      else if take 4 s = ''true'' then Some (J_Bool True, drop 4 s)
      else if take 5 s = ''false'' then Some (J_Bool False, drop 5 s) else None)"

fun read_value :: "nat \<Rightarrow> string \<Rightarrow> (json \<times> string) option"
  and read_items :: "nat \<Rightarrow> string \<Rightarrow> (json list \<times> string) option"
  and read_fields :: "nat \<Rightarrow> string \<Rightarrow> ((string \<times> json) list \<times> string) option"
where
  "read_value 0 s = None"
| "read_value (Suc n) s =
     (case s of
        [] \<Rightarrow> None
      | c # cs \<Rightarrow>
          if c = CHR 0x22 then map_option (\<lambda>(x, r). (J_Str x, r)) (read_str cs)
          else if c = CHR ''['' then
            (case skip_blanks cs of
               d # r \<Rightarrow> if d = CHR '']'' then Some (J_Arr [], r)
                        else map_option (\<lambda>(vs, r). (J_Arr vs, r)) (read_items n (d # r))
             | [] \<Rightarrow> None)
          else if c = CHR ''{'' then
            (case skip_blanks cs of
               d # r \<Rightarrow> if d = CHR ''}'' then Some (J_Obj [], r)
                        else map_option (\<lambda>(fs, r). (J_Obj fs, r)) (read_fields n (d # r))
             | [] \<Rightarrow> None)
          else if is_digit c then read_num (c # cs) else read_word (c # cs))"
| "read_items 0 s = None"
| "read_items (Suc n) s =
     (case read_value n s of
        None \<Rightarrow> None
      | Some (v, r) \<Rightarrow>
          (case skip_blanks r of
             [] \<Rightarrow> None
           | d # r' \<Rightarrow>
               if d = CHR '']'' then Some ([v], r')
               else if d = CHR '','' then map_option (\<lambda>(vs, q). (v # vs, q)) (read_items n (skip_blanks r')) else None))"
| "read_fields 0 s = None"
| "read_fields (Suc n) s =
     (case s of
        [] \<Rightarrow> None
      | c # cs \<Rightarrow>
          if c \<noteq> CHR 0x22 then None
          else (case read_str cs of
             None \<Rightarrow> None
           | Some (k, r) \<Rightarrow>
               (case skip_blanks r of
                  [] \<Rightarrow> None
                | d # r1 \<Rightarrow>
                    if d \<noteq> CHR '':'' then None
                    else (case read_value n (skip_blanks r1) of
                       None \<Rightarrow> None
                     | Some (v, r2) \<Rightarrow>
                         (case skip_blanks r2 of
                            [] \<Rightarrow> None
                          | e # r3 \<Rightarrow>
                              if e = CHR ''}'' then Some ([(k, v)], r3)
                              else if e = CHR '','' then
                                map_option (\<lambda>(fs, q). ((k, v) # fs, q)) (read_fields n (skip_blanks r3))
                              else None)))))"

definition read_json :: "string \<Rightarrow> json option" where
  "read_json s =
     (case read_value (Suc (length s)) (skip_blanks s) of
        None \<Rightarrow> None
      | Some (v, r) \<Rightarrow> if skip_blanks r = [] then Some v else None)"

section \<open>The reader reads the grammar\<close>

lemma read_str_string: "read_str (concat (map escape_char s) @ CHR 0x22 # rest) = Some (s, rest)"
  by (induction s) (auto simp: escape_char_def)

lemma radix_text_digits: "2 \<le> b \<Longrightarrow> b \<le> 10 \<Longrightarrow> list_all is_digit (radix_text b n)"
proof (induction b n rule: radix_text.induct)
  case (1 b n)
  have "is_digit (digit_char d)" if "d < b" for d
    using that 1(3) digit_value_digit_char[of d 10] by (simp add: is_digit_def)
  with 1 show ?case by (subst radix_text.simps) auto
qed

lemma dec_text_digits: "list_all is_digit (dec_text n)" "dec_text n \<noteq> []"
  using radix_text_digits[of 10 n] radix_text_not_plus[of 10 n] by (simp_all add: dec_text_def)

definition stops :: "string \<Rightarrow> bool" where
  "stops rest \<longleftrightarrow> (case rest of [] \<Rightarrow> True | c # _ \<Rightarrow> \<not> is_digit c)"

lemma read_num_text:
  assumes "stops rest"
  shows "read_num (dec_text (unat n) @ rest) = Some (J_Num n, rest)"
proof -
  have a: "\<forall>c \<in> set (dec_text (unat n)). is_digit c" using dec_text_digits(1) by (simp add: list_all_iff)
  have "takeWhile is_digit rest = []" "dropWhile is_digit rest = rest"
    using assms by (auto simp: stops_def split: list.splits)
  with a have "takeWhile is_digit (dec_text (unat n) @ rest) = dec_text (unat n)"
    "dropWhile is_digit (dec_text (unat n) @ rest) = rest"
    by (simp_all add: takeWhile_append2 dropWhile_append2)
  then show ?thesis using radix_value_text[of 10 "unat n"] by (simp add: read_num_def dec_text_def)
qed

lemma skip_blanks_append: "blanks w \<Longrightarrow> skip_blanks (w @ s) = skip_blanks s"
  by (simp add: skip_blanks_def dropWhile_append2 list_all_iff)

lemma skip_blanks_Cons [simp]: "\<not> is_blank c \<Longrightarrow> skip_blanks (c # s) = c # s"
  by (simp add: skip_blanks_def)

lemma marks_not_blank [simp]:
  "\<not> is_blank (CHR '']'')" "\<not> is_blank (CHR ''}'')" "\<not> is_blank (CHR '','')" "\<not> is_blank (CHR '':'')"
  "\<not> is_blank (CHR 0x22)"
  by (simp_all add: is_blank_def)

lemma marks_not_digit [simp]:
  "\<not> is_digit (CHR '']'')" "\<not> is_digit (CHR ''}'')" "\<not> is_digit (CHR '','')" "\<not> is_digit (CHR 0x22)"
  "\<not> is_digit (CHR ''['')" "\<not> is_digit (CHR ''{'')" "\<not> is_digit (CHR ''n'')" "\<not> is_digit (CHR ''t'')"
  "\<not> is_digit (CHR ''f'')"
  by (simp_all add: is_digit_def digit_value_def)

lemma blank_not_digit: "is_blank c \<Longrightarrow> \<not> is_digit c"
  by (auto simp: is_blank_def is_digit_def digit_value_def)

lemma stops_blanks: "blanks w \<Longrightarrow> stops rest \<Longrightarrow> stops (w @ rest)"
  by (cases w) (auto simp: stops_def blank_not_digit)

lemma stops_marks [simp]: "stops (CHR '']'' # r)" "stops (CHR ''}'' # r)" "stops (CHR '','' # r)"
  by (simp_all add: stops_def)

lemma digit_head:
  assumes "is_digit c"
  shows "\<not> is_blank c" "c \<noteq> CHR '']''" "c \<noteq> CHR ''}''" "c \<noteq> CHR 0x22" "c \<noteq> CHR ''[''" "c \<noteq> CHR ''{''"
  using assms blank_not_digit by auto

lemma json_doc_head:
  assumes "json_doc chars t v"
  shows "\<exists>c cs. t = c # cs \<and> \<not> is_blank c \<and> c \<noteq> CHR '']'' \<and> c \<noteq> CHR ''}''"
  using assms
proof cases
  case (doc_num n)
  obtain c cs where c: "dec_text (unat n) = c # cs" "is_digit c"
    using dec_text_digits[of "unat n"] by (cases "dec_text (unat n)") auto
  show ?thesis using digit_head[OF c(2)] c(1) doc_num by auto
qed (auto simp: is_blank_def json_string_def)

lemma read_value_digit:
  assumes "is_digit c"
  shows "read_value (Suc n) (c # cs) = read_num (c # cs)"
  using assms digit_head[OF assms] by simp

lemma read_value_word:
  "0 < n \<Longrightarrow> read_value n (CHR ''n'' # CHR ''u'' # CHR ''l'' # CHR ''l'' # rest) = Some (J_Null, rest)"
  "0 < n \<Longrightarrow> read_value n (CHR ''t'' # CHR ''r'' # CHR ''u'' # CHR ''e'' # rest) = Some (J_Bool True, rest)"
  "0 < n \<Longrightarrow>
    read_value n (CHR ''f'' # CHR ''a'' # CHR ''l'' # CHR ''s'' # CHR ''e'' # rest) = Some (J_Bool False, rest)"
  by (cases n; simp add: read_word_def is_digit_def digit_value_def)+

lemma read_value_correct:
  "json_doc chars t v \<Longrightarrow> length t \<le> n \<Longrightarrow> stops rest \<Longrightarrow> read_value n (t @ rest) = Some (v, rest)"
  and "json_items chars t vs \<Longrightarrow>
     (vs = [] \<longrightarrow> blanks t)
     \<and> (vs \<noteq> [] \<longrightarrow> (\<exists>c cs. skip_blanks (t @ CHR '']'' # rest) = c # cs \<and> c \<noteq> CHR '']'' )
        \<and> (length t < n \<longrightarrow> read_items n (skip_blanks (t @ CHR '']'' # rest)) = Some (vs, rest)))"
  and "json_fields chars t fs \<Longrightarrow>
     (fs = [] \<longrightarrow> blanks t)
     \<and> (fs \<noteq> [] \<longrightarrow> (\<exists>cs. skip_blanks (t @ CHR ''}'' # rest) = CHR 0x22 # cs)
        \<and> (length t < n \<longrightarrow> read_fields n (skip_blanks (t @ CHR ''}'' # rest)) = Some (fs, rest)))"
proof (induction arbitrary: n rest and n rest and n rest rule: json_doc_json_items_json_fields.inducts)
  case (doc_num n' n rest)
  obtain c cs where c: "dec_text (unat n') = c # cs" "is_digit c"
    using dec_text_digits[of "unat n'"] by (cases "dec_text (unat n')") auto
  with doc_num obtain m where "n = Suc m" by (cases n) auto
  with c doc_num show ?case using read_num_text[of rest n'] read_value_digit[of c m "cs @ rest"] by simp
next
  case (doc_str s n rest)
  then obtain m where "n = Suc m" by (cases n) (auto simp: json_string_def)
  then show ?case using read_str_string[of s rest] by (simp add: json_string_def)
next
  case (doc_arr t vs n rest)
  then obtain m where m: "n = Suc m" "length t < m" by (cases n) auto
  show ?case
  proof (cases "vs = []")
    case True
    with doc_arr have "skip_blanks (t @ CHR '']'' # rest) = CHR '']'' # rest"
      by (simp add: skip_blanks_append)
    then show ?thesis using m True by simp
  next
    case False
    with doc_arr.IH(2)[of rest m] m obtain c cs where "skip_blanks (t @ CHR '']'' # rest) = c # cs" "c \<noteq> CHR '']''"
      "read_items m (c # cs) = Some (vs, rest)" by auto
    then show ?thesis using m by simp
  qed
next
  case (doc_obj t fs n rest)
  then obtain m where m: "n = Suc m" "length t < m" by (cases n) auto
  show ?case
  proof (cases "fs = []")
    case True
    with doc_obj have "skip_blanks (t @ CHR ''}'' # rest) = CHR ''}'' # rest"
      by (simp add: skip_blanks_append)
    then show ?thesis using m True by simp
  next
    case False
    with doc_obj.IH(2)[of rest m] m obtain cs where "skip_blanks (t @ CHR ''}'' # rest) = CHR 0x22 # cs"
      "read_fields m (CHR 0x22 # cs) = Some (fs, rest)" by auto
    then show ?thesis using m by simp
  qed
next
  case (items_one w t v w' n rest)
  obtain c cs where h: "t = c # cs" "\<not> is_blank c" "c \<noteq> CHR '']''" using json_doc_head[OF items_one.IH(1)] by blast
  have s: "skip_blanks ((w @ t @ w') @ CHR '']'' # rest) = t @ w' @ CHR '']'' # rest"
    using items_one.hyps(1) h by (simp add: skip_blanks_append)
  have "read_items n (t @ w' @ CHR '']'' # rest) = Some ([v], rest)" if len: "length (w @ t @ w') < n"
  proof -
    obtain m where m: "n = Suc m" "length t \<le> m" using len by (cases n) auto
    then have "read_value m (t @ w' @ CHR '']'' # rest) = Some (v, w' @ CHR '']'' # rest)"
      by (intro items_one.IH(2)) (simp_all add: stops_blanks items_one.hyps)
    then show ?thesis using m items_one.hyps by (simp add: skip_blanks_append)
  qed
  then show ?case unfolding s using h by auto
next
  case (items_more w t v w' ts x vs n rest)
  obtain c cs where h: "t = c # cs" "\<not> is_blank c" "c \<noteq> CHR '']''" using json_doc_head[OF items_more.IH(1)] by blast
  have s: "skip_blanks ((w @ t @ w' @ CHR '','' # ts) @ CHR '']'' # rest)
      = t @ w' @ CHR '','' # ts @ CHR '']'' # rest"
    using items_more.hyps(1) h by (simp add: skip_blanks_append)
  have "read_items n (t @ w' @ CHR '','' # ts @ CHR '']'' # rest) = Some (v # x # vs, rest)"
    if len: "length (w @ t @ w' @ CHR '','' # ts) < n"
  proof -
    obtain m where m: "n = Suc m" "length t \<le> m" "length ts < m" using len by (cases n) auto
    then have "read_value m (t @ w' @ CHR '','' # ts @ CHR '']'' # rest)
        = Some (v, w' @ CHR '','' # ts @ CHR '']'' # rest)"
      by (intro items_more.IH(2)) (simp_all add: stops_blanks items_more.hyps)
    then show ?thesis using m items_more.hyps(2) items_more.IH(4)[of rest m] by (simp add: skip_blanks_append)
  qed
  then show ?case unfolding s using h by auto
next
  case (fields_one w k w1 w2 t v w3 n rest)
  obtain c cs where h: "t = c # cs" "\<not> is_blank c" using json_doc_head[OF fields_one.IH(2)] by blast
  let ?key = "concat (map escape_char k) @ CHR 0x22 # w1 @ CHR '':'' # w2 @ t @ w3 @ CHR ''}'' # rest"
  have s: "skip_blanks ((w @ json_string k @ w1 @ CHR '':'' # w2 @ t @ w3) @ CHR ''}'' # rest) = CHR 0x22 # ?key"
    using fields_one.hyps(1) by (simp add: skip_blanks_append json_string_def)
  have "read_fields n (CHR 0x22 # ?key) = Some ([(k, v)], rest)"
    if len: "length (w @ json_string k @ w1 @ CHR '':'' # w2 @ t @ w3) < n"
  proof -
    obtain m where m: "n = Suc m" "length t \<le> m" using len by (cases n) auto
    then have "read_value m (t @ w3 @ CHR ''}'' # rest) = Some (v, w3 @ CHR ''}'' # rest)"
      by (intro fields_one.IH(3)) (simp_all add: stops_blanks fields_one.hyps)
    then show ?thesis using m h fields_one.hyps by (simp add: read_str_string skip_blanks_append)
  qed
  then show ?case unfolding s by auto
next
  case (fields_more w k w1 w2 t v w3 ts f fs n rest)
  obtain c cs where h: "t = c # cs" "\<not> is_blank c" using json_doc_head[OF fields_more.IH(2)] by blast
  let ?key = "concat (map escape_char k) @ CHR 0x22 # w1 @ CHR '':'' # w2 @ t @ w3 @ CHR '','' # ts @ CHR ''}'' # rest"
  have s: "skip_blanks ((w @ json_string k @ w1 @ CHR '':'' # w2 @ t @ w3 @ CHR '','' # ts) @ CHR ''}'' # rest)
      = CHR 0x22 # ?key"
    using fields_more.hyps(1) by (simp add: skip_blanks_append json_string_def)
  have "read_fields n (CHR 0x22 # ?key) = Some ((k, v) # f # fs, rest)"
    if len: "length (w @ json_string k @ w1 @ CHR '':'' # w2 @ t @ w3 @ CHR '','' # ts) < n"
  proof -
    obtain m where m: "n = Suc m" "length t \<le> m" "length ts < m" using len by (cases n) auto
    then have "read_value m (t @ w3 @ CHR '','' # ts @ CHR ''}'' # rest)
        = Some (v, w3 @ CHR '','' # ts @ CHR ''}'' # rest)"
      by (intro fields_more.IH(3)) (simp_all add: stops_blanks fields_more.hyps)
    moreover have "read_fields m (skip_blanks (ts @ CHR ''}'' # rest)) = Some (f # fs, rest)"
      using fields_more.IH(5)[of rest m] m by simp
    ultimately show ?thesis using m h fields_more.hyps by (simp add: read_str_string skip_blanks_append)
  qed
  then show ?case unfolding s by auto
qed (simp_all add: read_value_word)

lemma read_json_doc:
  assumes "json_doc chars t' v" "blanks w" "blanks w'"
  shows "read_json (w @ t' @ w') = Some v"
proof -
  obtain c cs where "t' = c # cs" "\<not> is_blank c" using json_doc_head[OF assms(1)] by blast
  then have s: "skip_blanks (w @ t' @ w') = t' @ w'" using assms by (simp add: skip_blanks_append)
  have "read_value (Suc (length (w @ t' @ w'))) (t' @ w') = Some (v, w')"
    using assms stops_blanks[OF assms(3), of "[]"] by (intro read_value_correct(1)) (simp_all add: stops_def)
  moreover have "skip_blanks w' = []" using assms(3) by (simp add: skip_blanks_def list_all_iff)
  ultimately show ?thesis by (simp add: read_json_def s)
qed

lemma read_json_parser: "json_parser read_json"
  by (auto simp: json_parser_def json_file_def read_json_doc)

section \<open>A writer\<close>

fun join_commas :: "string list \<Rightarrow> string" where
  "join_commas [] = []"
| "join_commas [x] = x"
| "join_commas (x # y # xs) = x @ CHR '','' # join_commas (y # xs)"

fun json_text :: "json \<Rightarrow> string" where
  "json_text J_Null = ''null''"
| "json_text (J_Bool b) = (if b then ''true'' else ''false'')"
| "json_text (J_Num n) = dec_text (unat n)"
| "json_text (J_Str s) = json_string s"
| "json_text (J_Arr vs) = CHR ''['' # join_commas (map json_text vs) @ '']''"
| "json_text (J_Obj fs) = CHR ''{'' # join_commas (map (\<lambda>(k, v). json_string k @ '':'' @ json_text v) fs) @ ''}''"

lemma join_commas_induct [case_names Nil single more]:
  "P [] \<Longrightarrow> (\<And>x. P [x]) \<Longrightarrow> (\<And>x y zs. P (y # zs) \<Longrightarrow> P (x # y # zs)) \<Longrightarrow> P xs"
  by (induction xs rule: induct_list012) auto

text \<open>No object repeats a key.\<close>

fun tidy :: "json \<Rightarrow> bool" where
  "tidy (J_Arr vs) = list_all tidy vs"
| "tidy (J_Obj fs) = (distinct (map fst fs) \<and> list_all (\<lambda>(k, v). tidy v) fs)"
| "tidy _ = True"

lemma json_text_doc: "tidy v \<Longrightarrow> json_doc (\<lambda>_. True) (json_text v) v"
proof (induction v)
  case (J_Arr vs)
  have "json_items (\<lambda>_. True) (join_commas (map json_text vs)) vs"
    if "\<forall>v \<in> set vs. json_doc (\<lambda>_. True) (json_text v) v"
    using that
  proof (induction vs rule: join_commas_induct)
    case (single v)
    then show ?case using items_one[of "[]" _ "json_text v" v "[]"] by simp
  next
    case (more x y vs)
    then show ?case using items_more[of "[]" _ "json_text x" x "[]" "join_commas (map json_text (y # vs))" y vs] by simp
  qed (simp add: items_none)
  with J_Arr show ?case by (auto simp: list_all_iff intro: doc_arr)
next
  case (J_Obj fs)
  let ?t = "\<lambda>(k, v). json_string k @ '':'' @ json_text v"
  have "json_fields (\<lambda>_. True) (join_commas (map ?t fs)) fs"
    if "\<forall>f \<in> set fs. json_doc (\<lambda>_. True) (json_text (snd f)) (snd f)"
    using that
  proof (induction fs rule: join_commas_induct)
    case (single f)
    then show ?case using fields_one[of "[]" _ "fst f" "[]" "[]" "json_text (snd f)" "snd f" "[]"]
      by (simp add: case_prod_unfold)
  next
    case (more f g fs)
    then show ?case
      using fields_more[of "[]" _ "fst f" "[]" "[]" "json_text (snd f)" "snd f" "[]" "join_commas (map ?t (g # fs))" g fs]
      by (simp add: case_prod_unfold)
  qed (simp add: fields_none)
  moreover have "\<forall>f \<in> set fs. json_doc (\<lambda>_. True) (json_text (snd f)) (snd f)"
    using J_Obj by (fastforce simp: list_all_iff)
  ultimately show ?case using J_Obj.prems by (auto intro!: doc_obj)
next
  case (J_Bool b)
  show ?case by (cases b) (simp_all add: doc_true doc_false)
qed (auto intro: doc_null doc_num doc_str)

text \<open>What the code relies on in writing a value and reading it back.\<close>

definition reads_back :: "(string \<Rightarrow> json option) \<Rightarrow> (json \<Rightarrow> string) \<Rightarrow> bool" where
  "reads_back parse pretty \<longleftrightarrow> (\<forall>v. tidy v \<longrightarrow> parse (pretty v) = Some v)"

lemma read_json_back: "reads_back read_json json_text"
  using read_json_doc[OF json_text_doc, of _ "[]" "[]"] by (simp add: reads_back_def)

end
