(* ===== verification/Host_Cli_Proofs.thy ===== *)
theory Host_Cli_Proofs
  imports Host_Cli Json_Text Sp1_Proofs
begin

text \<open>
  What the host's command line prints: a frozen configuration is what the intake reads, and freezing it again
  changes nothing.
\<close>

section \<open>Texts\<close>

lemma of_char_back: "char_of (unat (of_char c :: u8)) = c"
proof -
  have "(of_char c :: u8) = of_nat (of_char c)" by (simp only: of_nat_of_char)
  moreover have "of_char c < (2 :: nat) ^ 8" using nat_of_char_less_256[of c] by simp
  ultimately have "unat (of_char c :: u8) = of_char c" by (simp add: unat_of_nat)
  then show ?thesis by simp
qed

lemma text_of_chars: "text_of (map of_char s) = s"
  by (simp add: text_of_def of_char_back o_def map_idI)

lemma printed_doc_read:
  assumes "vb_json L = std_json parse" "reads_back parse (sl_pretty L)" "tidy doc"
    and "fs p = Some (map of_char (sl_pretty L doc))"
  shows "read_doc L fs p = Ok doc"
  using assms
  by (simp add: read_doc_def vec_read_def text_of_chars reads_back_def std_json_def o_def)

section \<open>A frozen configuration\<close>

lemma cli_arr_length: "cli_arr L json k n = Ok bs \<Longrightarrow> length bs = n"
  by (auto simp: cli_arr_def and_then_Ok_iff split: if_splits)

lemma cli_reads:
  assumes "vb_json L = std_json parse" "hex_ok (vb_hex L)"
  shows cli_num_read: "json_index v k = J_Num n \<Longrightarrow> cli_u64 L v k = Ok n"
    and cli_arr_read: "json_index v k = hex0 L b \<Longrightarrow> length b = n' \<Longrightarrow> cli_arr L v k n' = Ok b"
    and cli_family_read: "json_index v ''chain_family'' = J_Str s \<Longrightarrow> chain_family L v = s"
  using assms
  by (simp_all add: cli_u64_def cli_arr_def cli_hex_def chain_family_def bytes_from_hex_def std_json_def hex0_def hex_ok_def)

lemma frozen_config_Ok:
  assumes "frozen_config L json = Ok cfg" "\<forall>x. length (vb_sha256 L x) = 32"
  shows "wf_config cfg \<and> cfg = derived_config L (chain_family L json) (cfg_source_chain_id cfg) (cfg_vault cfg)
    (cfg_asset cfg) (cfg_reason_tag cfg) (cfg_lock_domain cfg) (cfg_nullifier_domain cfg)"
  using assms
  by (auto simp: frozen_config_def and_then_Ok_iff derived_config_def Let_def wf_config_def token_type_def coin_id_def
      dest!: cli_arr_length)

lemma config_doc_read:
  assumes "vb_json L = std_json parse" "hex_ok (vb_hex L)" "wf_config cfg"
  shows "bridge_config_from_json (vb_json L) (vb_hex L) (config_doc L family cfg) = Ok cfg"
    and "frozen_config L (config_doc L family cfg) = Ok (derived_config L family (cfg_source_chain_id cfg) (cfg_vault cfg)
      (cfg_asset cfg) (cfg_reason_tag cfg) (cfg_lock_domain cfg) (cfg_nullifier_domain cfg))"
    and "chain_family L (config_doc L family cfg) = family"
    and "json_index (config_doc L family cfg) ''config_hash'' = hex0 L (config_hash (vb_keccak L) cfg)"
proof -
  have h: "json_hex (std_json parse) (vb_hex L) n v k = Ok b" if "json_index v k = hex0 L b" "length b = n" for n v k b
    using assms(2) that by (simp add: json_hex_def std_json_def hex0_def hex_ok_def)
  show "bridge_config_from_json (vb_json L) (vb_hex L) (config_doc L family cfg) = Ok cfg"
    using assms(3)
    by (simp add: bridge_config_from_json_def config_doc_def assms(1) h wf_config_def json_u64_def)
      (simp add: std_json_def)
  show "chain_family L (config_doc L family cfg) = family"
    by (rule cli_family_read[OF assms(1,2)]) (simp add: config_doc_def)
  then show "frozen_config L (config_doc L family cfg) = Ok (derived_config L family (cfg_source_chain_id cfg) (cfg_vault cfg)
      (cfg_asset cfg) (cfg_reason_tag cfg) (cfg_lock_domain cfg) (cfg_nullifier_domain cfg))"
    using assms(3)
    by (simp add: frozen_config_def config_doc_def cli_num_read[OF assms(1,2)] cli_arr_read[OF assms(1,2)] wf_config_def)
qed (simp add: config_doc_def)

lemma config_doc_tidy: "tidy (config_doc L family cfg)"
  by (simp add: config_doc_def hex0_def)

text \<open>C38. Freezing a configuration. What \<open>emit_config\<close> prints is read by the intake as a well-formed
  configuration whose token type and coin are those derived from the chain family, the chain and the asset
  of the input, and it carries the hash of that configuration, which is what the public values of a batch
  bind. A frozen configuration is stable: freezing it again prints the same text.\<close>

theorem config_frozen:
  assumes "vb_json L = std_json parse" "hex_ok (vb_hex L)" "reads_back parse (sl_pretty L)"
    and "\<forall>x. length (vb_sha256 L x) = 32" "emit_config L fs (Some path) = Ok out"
  shows "\<exists>doc cfg. parse out = Some doc
    \<and> bridge_config_from_json (vb_json L) (vb_hex L) doc = Ok cfg \<and> wf_config cfg
    \<and> (\<exists>json. read_doc L fs path = Ok json
        \<and> cfg_token_type cfg = token_type (vb_sha256 L) (chain_family L json) (dec_text (unat (cfg_source_chain_id cfg)))
            (hex_encode (vb_hex L) (cfg_asset cfg))
        \<and> cfg_coin_id cfg = coin_id (vb_sha256 L) (chain_family L json) (dec_text (unat (cfg_source_chain_id cfg)))
            (hex_encode (vb_hex L) (cfg_asset cfg)))
    \<and> json_index doc ''config_hash'' = hex0 L (config_hash (vb_keccak L) cfg)
    \<and> (\<forall>fs' p. fs' p = Some (map of_char out) \<longrightarrow> emit_config L fs' (Some p) = Ok out)"
proof -
  obtain json cfg where e: "read_doc L fs path = Ok json" "frozen_config L json = Ok cfg"
    "out = sl_pretty L (config_doc L (chain_family L json) cfg)"
    using assms(5) by (auto simp: emit_config_def and_then_Ok_iff)
  let ?doc = "config_doc L (chain_family L json) cfg"
  note f = frozen_config_Ok[OF e(2) assms(4)]
  note d = config_doc_read[OF assms(1,2) f[THEN conjunct1]]
  have "emit_config L fs' (Some p) = Ok out" if "fs' p = Some (map of_char out)" for fs' p
  proof -
    have "read_doc L fs' p = Ok ?doc"
      using printed_doc_read[OF assms(1,3) config_doc_tidy] that e(3) by blast
    then show ?thesis using d(2,3) f by (simp add: emit_config_def e(3))
  qed
  moreover have "cfg_token_type cfg = token_type (vb_sha256 L) (chain_family L json) (dec_text (unat (cfg_source_chain_id cfg)))
      (hex_encode (vb_hex L) (cfg_asset cfg))"
    "cfg_coin_id cfg = coin_id (vb_sha256 L) (chain_family L json) (dec_text (unat (cfg_source_chain_id cfg)))
      (hex_encode (vb_hex L) (cfg_asset cfg))"
    by (subst f[THEN conjunct2], simp add: derived_config_def Let_def)+
  moreover have "parse out = Some ?doc" using assms(3) config_doc_tidy[of L "chain_family L json" cfg] e(3)
    by (simp add: reads_back_def)
  ultimately show ?thesis using d(1,4) e(1) f by blast
qed

section \<open>An example\<close>

definition cx_libs :: "(unit, unit) sp1_libs" where
  "cx_libs = sx_libs\<lparr>vb_json := std_json read_json, sl_pretty := json_text\<rparr>"

definition cx_text :: string where
  "cx_text = json_text (J_Obj
     [(''source_chain_id'', J_Str ''728126428''), (''vault'', hex0 cx_libs (replicate 20 0x11)),
      (''asset'', hex0 cx_libs (replicate 20 0x22)), (''reason_tag'', J_Num 39048),
      (''lock_domain'', hex0 cx_libs (replicate 32 0x55)), (''nullifier_domain'', hex0 cx_libs (replicate 32 0x66))])"

theorem config_frozen_witness:
  "\<exists>out doc cfg. emit_config cx_libs [''in.json'' \<mapsto> map of_char cx_text] (Some ''in.json'') = Ok out
     \<and> read_json out = Some doc
     \<and> bridge_config_from_json (std_json read_json) std_hex doc = Ok cfg \<and> wf_config cfg
     \<and> emit_config cx_libs [''c.json'' \<mapsto> map of_char out] (Some ''c.json'') = Ok out"
proof -
  have l: "vb_json cx_libs = std_json read_json" "hex_ok (vb_hex cx_libs)" "reads_back read_json (sl_pretty cx_libs)"
    "\<forall>x. length (vb_sha256 cx_libs x) = 32" "vb_hex cx_libs = std_hex"
    by (simp_all add: cx_libs_def read_json_back std_hex_ok)
  let ?fs = "[''in.json'' \<mapsto> map of_char cx_text]"
  let ?in = "J_Obj
     [(''source_chain_id'', J_Str ''728126428''), (''vault'', hex0 cx_libs (replicate 20 0x11)),
      (''asset'', hex0 cx_libs (replicate 20 0x22)), (''reason_tag'', J_Num 39048),
      (''lock_domain'', hex0 cx_libs (replicate 32 0x55)), (''nullifier_domain'', hex0 cx_libs (replicate 32 0x66))]"
  have r: "read_doc cx_libs ?fs ''in.json'' = Ok ?in"
    by (rule printed_doc_read[OF l(1,3)]) (simp_all add: hex0_def cx_text_def cx_libs_def)
  have u: "u64_from_radix 10 ''728126428'' = Some 728126428" by (simp add: u64_from_radix_def digit_value_def)
  have "cli_u64 cx_libs ?in ''source_chain_id'' = Ok 728126428"
    unfolding cli_u64_def l(1) by (simp add: std_json_def u)
  then have "\<exists>cfg. frozen_config cx_libs ?in = Ok cfg"
    by (simp add: frozen_config_def cli_num_read[OF l(1,2)] cli_arr_read[OF l(1,2)])
  then obtain out where o: "emit_config cx_libs ?fs (Some ''in.json'') = Ok out"
    by (auto simp: emit_config_def r)
  from config_frozen[OF l(1-4) o] o show ?thesis unfolding l(1,5) by (metis fun_upd_same)
qed

end
