(* ===== verification/Fixture_Tree.thy ===== *)
theory Fixture_Tree
  imports Fixture_Json
begin

text \<open>
  The inclusion trees of the fixtures: model of \<open>one_sibling_path\<close>, \<open>multi_leaf_paths\<close> and of what they use in
  \<open>host/src/fixture.rs\<close>. Every certificate of a tree leads from its leaf to the root.
\<close>

section \<open>Bits and hashes\<close>

definition FIXTURE_REFERENCE_TIME :: u64 where "FIXTURE_REFERENCE_TIME = 1755000000"

definition fx_bit_at :: "bytes \<Rightarrow> nat \<Rightarrow> bool" where
  "fx_bit_at key depth \<longleftrightarrow> and (key ! (depth div 8)) (drop_bit (depth mod 8) 0x80) \<noteq> 0"

definition fx_set_bit :: "bytes \<Rightarrow> nat \<Rightarrow> bytes" where
  "fx_set_bit bitmap depth =
     bitmap[depth div 8 := or (bitmap ! (depth div 8)) (drop_bit (depth mod 8) 0x80)]"

definition fx_prefix_region :: "bytes \<Rightarrow> nat \<Rightarrow> bytes" where
  "fx_prefix_region key depth =
     (let full_bytes = depth div 8; prefix_bits = depth mod 8;
          region = take full_bytes key @ replicate (32 - full_bytes) 0 in
      if prefix_bits \<noteq> 0 then region[full_bytes := and (key ! full_bytes) (push_bit (8 - prefix_bits) 0xff)]
      else region)"

definition fx_leaf_hash :: "sdk \<Rightarrow> bytes \<Rightarrow> data_hash \<Rightarrow> bytes" where
  "fx_leaf_hash S state_id tx_hash =
     sdk_sha256 S (0x00 # state_id @ sdk_leaf_value S tx_hash FIXTURE_REFERENCE_TIME)"

definition fx_node_hash :: "sdk \<Rightarrow> u8 \<Rightarrow> bytes \<Rightarrow> bytes \<Rightarrow> bytes \<Rightarrow> bytes" where
  "fx_node_hash S depth key left right =
     sdk_sha256 S ([0x01, depth] @ fx_prefix_region key (unat depth) @ left @ right)"

section \<open>Two leaves\<close>

text \<open>\<open>decode\<close> is the SDK's; \<open>None\<close> is a panic: equal state ids, or a certificate that does not decode.\<close>

definition one_sibling_path ::
  "sdk \<Rightarrow> (bytes \<Rightarrow> 'c option) \<Rightarrow> bytes \<Rightarrow> data_hash \<Rightarrow> bytes \<Rightarrow> data_hash \<Rightarrow> ('c \<times> bytes) option" where
  "one_sibling_path S decode state_id tx_hash sibling_state_id sibling_tx_hash =
     Option.bind (find (\<lambda>depth. fx_bit_at state_id depth \<noteq> fx_bit_at sibling_state_id depth) [0..<256]) (\<lambda>depth.
       let leaf = fx_leaf_hash S state_id tx_hash;
           sibling = fx_leaf_hash S sibling_state_id sibling_tx_hash;
           root = (if fx_bit_at state_id depth then fx_node_hash S (of_nat depth) state_id sibling leaf
                   else fx_node_hash S (of_nat depth) state_id leaf sibling);
           raw = fx_set_bit (replicate 32 0) depth @ sibling
       in map_option (\<lambda>cert. (cert, root)) (decode raw))"

section \<open>Many leaves\<close>

text \<open>The loop that descends until the keys split; \<open>None\<close> is its assertion.\<close>

function split_level :: "(bytes \<times> bytes) list \<Rightarrow> nat list \<Rightarrow> nat \<Rightarrow> (nat \<times> nat list \<times> nat list) option" where
  "split_level entries indices d =
     (let ones = filter (\<lambda>i. fx_bit_at (fst (entries ! i)) d) indices;
          zeros = filter (\<lambda>i. \<not> fx_bit_at (fst (entries ! i)) d) indices in
      if zeros \<noteq> [] \<and> ones \<noteq> [] then Some (d, zeros, ones)
      else if 255 < d + 1 then None else split_level entries indices (d + 1))"
  by pat_completeness auto
termination by (relation "measure (\<lambda>(_, _, d). 256 - d)") auto

declare split_level.simps [simp del]

definition add_sibling :: "nat \<Rightarrow> bytes \<Rightarrow> nat list \<Rightarrow> (bytes \<times> bytes list) list \<Rightarrow> (bytes \<times> bytes list) list" where
  "add_sibling d h is paths =
     foldl (\<lambda>ps i. ps[i := (fx_set_bit (fst (ps ! i)) d, snd (ps ! i) @ [h])]) paths is"

lemma split_level_splits:
  assumes "split_level entries indices d = Some (e, zeros, ones)"
  shows "d \<le> e \<and> e \<le> max d 255 \<and> zeros = filter (\<lambda>i. \<not> fx_bit_at (fst (entries ! i)) e) indices
    \<and> ones = filter (\<lambda>i. fx_bit_at (fst (entries ! i)) e) indices \<and> zeros \<noteq> [] \<and> ones \<noteq> []
    \<and> (\<forall>l. d \<le> l \<and> l < e \<longrightarrow> (\<forall>i \<in> set indices. \<forall>j \<in> set indices.
         fx_bit_at (fst (entries ! i)) l = fx_bit_at (fst (entries ! j)) l))"
  using assms
proof (induction entries indices d rule: split_level.induct)
  case (1 entries indices d)
  let ?z = "filter (\<lambda>i. \<not> fx_bit_at (fst (entries ! i)) d) indices"
  let ?o = "filter (\<lambda>i. fx_bit_at (fst (entries ! i)) d) indices"
  show ?case
  proof (cases "?z \<noteq> [] \<and> ?o \<noteq> []")
    case True
    then show ?thesis using 1(2) by (subst (asm) split_level.simps) (auto simp: Let_def)
  next
    case False
    then have n: "\<not> 255 < d + 1" "split_level entries indices (d + 1) = Some (e, zeros, ones)"
      using 1(2) by (subst (asm) split_level.simps, auto simp: Let_def split: if_splits)+
    have s: "\<forall>i \<in> set indices. \<forall>j \<in> set indices. fx_bit_at (fst (entries ! i)) d = fx_bit_at (fst (entries ! j)) d"
      using False by (auto simp: filter_empty_conv)
    from 1(1)[OF refl refl False n] show ?thesis
      using s n(1) by (auto simp: le_Suc_eq) (metis le_antisym not_less_eq_eq)+
  qed
qed

lemma filter_both_shorter:
  "filter P xs \<noteq> [] \<Longrightarrow> filter (\<lambda>x. \<not> P x) xs \<noteq> [] \<Longrightarrow> length (filter P xs) < length xs"
  by (metis (mono_tags, lifting) filter_False length_filter_less filter_empty_conv)

lemma split_level_shorter:
  assumes "split_level entries indices d = Some (e, zeros, ones)"
  shows "length zeros < length indices" "length ones < length indices"
  using split_level_splits[OF assms]
    filter_both_shorter[of "\<lambda>i. fx_bit_at (fst (entries ! i)) e" indices]
    filter_both_shorter[of "\<lambda>i. \<not> fx_bit_at (fst (entries ! i)) e" indices] by auto

function build_subtree ::
  "sdk \<Rightarrow> (bytes \<times> bytes) list \<Rightarrow> nat list \<Rightarrow> nat \<Rightarrow> (bytes \<times> bytes list) list
   \<Rightarrow> (bytes \<times> (bytes \<times> bytes list) list) option" where
  "build_subtree S entries indices depth paths =
     (if length indices = 1 then Some (snd (entries ! hd indices), paths)
      else case split_level entries indices depth of
        None \<Rightarrow> None
      | Some (d, zeros, ones) \<Rightarrow>
          (case build_subtree S entries zeros (d + 1) paths of
             None \<Rightarrow> None
           | Some (zero_hash, paths) \<Rightarrow>
               (case build_subtree S entries ones (d + 1) paths of
                  None \<Rightarrow> None
                | Some (one_hash, paths) \<Rightarrow>
                    Some (fx_node_hash S (of_nat d) (fst (entries ! hd indices)) zero_hash one_hash,
                          add_sibling d zero_hash ones (add_sibling d one_hash zeros paths)))))"
  by pat_completeness auto
termination
  by (relation "measure (\<lambda>(_, _, indices, _). length indices)") (auto dest: split_level_shorter)

declare build_subtree.simps [simp del]

definition multi_leaf_paths ::
  "sdk \<Rightarrow> (bytes \<Rightarrow> 'c option) \<Rightarrow> (bytes \<times> data_hash) list \<Rightarrow> (bytes \<times> 'c list) option" where
  "multi_leaf_paths S decode leaves =
     (let entries = map (\<lambda>(state_id, tx_hash). (state_id, fx_leaf_hash S state_id tx_hash)) leaves in
      Option.bind (build_subtree S entries [0..<length entries] 0 (replicate (length entries) (replicate 32 0, [])))
        (\<lambda>(root, paths).
           map_option (Pair root) (all_some (map (\<lambda>(bitmap, siblings). decode (bitmap @ concat (rev siblings))) paths))))"

section \<open>The leaf of a burn\<close>

definition TRON_USDT_LOCK_JUSTIFICATION_TAG :: u64 where "TRON_USDT_LOCK_JUSTIFICATION_TAG = 1330002"

text \<open>\<open>None\<close> is a panic: a transaction hash that has not 32 bytes, or a mint that backs no lock.\<close>

definition leaf_and_lock_ref ::
  "(bytes \<Rightarrow> bytes) \<Rightarrow> (bytes \<Rightarrow> bytes) \<Rightarrow> sdk \<Rightarrow> bridge_config \<Rightarrow> token \<Rightarrow> bytes \<Rightarrow> transaction \<Rightarrow> bridge_back_reason
   \<Rightarrow> (return_leaf \<times> source_lock_ref) option" where
  "leaf_and_lock_ref sha256 keccak S config token burn_state_id burn reason =
     (let cfg_hash = config_hash keccak config;
          burn_tx_hash = dh_data (tx_calculated_hash burn) in
      if length burn_tx_hash \<noteq> 32 then None
      else
        let burn_id = burn_transition_id sha256 burn_state_id burn_tx_hash;
            leaf = \<lparr>leaf_nullifier = nullifier sha256 cfg_hash burn_id, leaf_recipient = rsn_recipient reason,
              leaf_amount = rsn_amount reason, leaf_fee_recipient = rsn_fee_recipient reason,
              leaf_fee_amount = rsn_fee_amount reason, leaf_deadline = rsn_deadline reason\<rparr>
        in case bridge_lock_obligation S keccak (tok_mint token) TRON_USDT_LOCK_JUSTIFICATION_TAG
               (sdk_bridge_config config) (decode_bridged_payment_data S) of
             Inl _ \<Rightarrow> None
           | Inr obligation \<Rightarrow> Some (leaf, \<lparr>ref_nonce = ob_nonce obligation, ref_digest = ob_digest obligation\<rparr>))"

end
