(* ===== verification/Fixture_Tree_Proofs.thy ===== *)
theory Fixture_Tree_Proofs
  imports Fixture_Tree S1 Guest_Example
begin

text \<open>
  Every certificate of an inclusion tree leads from its leaf to the root: the siblings of the bitmap's depths,
  folded from the leaf up, give the root.
\<close>

section \<open>Bits\<close>

lemma drop_bit_80:
  assumes "m < 8"
  shows "drop_bit m (0x80 :: u8) = 2 ^ (7 - m)"
proof -
  have "m = 0 \<or> m = 1 \<or> m = 2 \<or> m = 3 \<or> m = 4 \<or> m = 5 \<or> m = 6 \<or> m = 7" using assms by auto
  then show ?thesis by (elim disjE) simp_all
qed

lemma fx_bit_at_bit: "fx_bit_at key d \<longleftrightarrow> bit (key ! (d div 8)) (7 - d mod 8)"
proof -
  have m: "d mod 8 < 8" by simp
  show ?thesis unfolding fx_bit_at_def drop_bit_80[OF m] by (simp add: and_exp_eq_0_iff_not_bit)
qed

lemma fx_set_bit_length [simp]: "length (fx_set_bit bm d) = length bm"
  by (simp add: fx_set_bit_def)

lemma fx_bit_at_set:
  assumes "length bm = 32" "d < 256" "e < 256"
  shows "fx_bit_at (fx_set_bit bm d) e \<longleftrightarrow> e = d \<or> fx_bit_at bm e"
proof -
  have m: "d mod 8 < 8" "e mod 8 < 8" by simp_all
  have "e = d \<longleftrightarrow> e div 8 = d div 8 \<and> 7 - e mod 8 = 7 - d mod 8"
  proof -
    have "7 - e mod 8 = 7 - d mod 8 \<longleftrightarrow> e mod 8 = d mod 8" using m by linarith
    then show ?thesis by (metis div_mult_mod_eq)
  qed
  then show ?thesis
    unfolding fx_bit_at_bit fx_set_bit_def drop_bit_80[OF m(1)]
    using assms by (cases "e div 8 = d div 8") (auto simp: bit_simps bit_exp_iff)
qed

lemma fx_bit_at_zeros: "e < 256 \<Longrightarrow> \<not> fx_bit_at (replicate 32 0) e"
  by (simp add: fx_bit_at_bit)

lemma fx_prefix_length: "length k = 32 \<Longrightarrow> d \<le> 256 \<Longrightarrow> length (fx_prefix_region k d) = 32"
  by (auto simp: fx_prefix_region_def Let_def)

lemma byte_bit:
  assumes "n < (8 :: nat)"
  shows "(8 * i + (7 - n)) div 8 = i" "7 - (8 * i + (7 - n)) mod 8 = n"
proof -
  obtain m where m: "m < 8" "7 - n = m" "n = 7 - m" using assms by (intro that[of "7 - n"]) auto
  show "(8 * i + (7 - n)) div 8 = i" "7 - (8 * i + (7 - n)) mod 8 = n" unfolding m(2) using m by simp_all
qed

text \<open>The region depends on the bits above the depth only.\<close>

lemma fx_prefix_cong:
  assumes "length k = 32" "length k' = 32" "d \<le> 256" "\<forall>e < d. fx_bit_at k e = fx_bit_at k' e"
  shows "fx_prefix_region k d = fx_prefix_region k' d"
proof -
  have full: "k ! i = k' ! i" if "i < d div 8" for i
  proof (rule bit_eqI)
    fix n assume "possible_bit TYPE(u8) n"
    then have n: "n < 8" by simp
    then have "8 * i + (7 - n) < d" using that by linarith
    then show "bit (k ! i) n \<longleftrightarrow> bit (k' ! i) n" using assms(4) unfolding fx_bit_at_bit by (metis byte_bit[OF n])
  qed
  have part: "and (k ! (d div 8)) (push_bit (8 - d mod 8) 0xff) = and (k' ! (d div 8)) (push_bit (8 - d mod 8) (0xff :: u8))"
  proof (rule bit_eqI)
    fix n assume "possible_bit TYPE(u8) n"
    then have n: "n < 8" by simp
    show "bit (and (k ! (d div 8)) (push_bit (8 - d mod 8) 0xff)) n
        \<longleftrightarrow> bit (and (k' ! (d div 8)) (push_bit (8 - d mod 8) (0xff :: u8))) n"
    proof (cases "8 - d mod 8 \<le> n")
      case True
      then have "8 * (d div 8) + (7 - n) < d" using div_mult_mod_eq[of d 8] n by linarith
      then have "bit (k ! (d div 8)) n = bit (k' ! (d div 8)) n" using assms(4) unfolding fx_bit_at_bit by (metis byte_bit[OF n])
      then show ?thesis by (simp add: bit_and_iff)
    next
      case False
      then show ?thesis by (simp add: bit_and_iff bit_push_bit_iff)
    qed
  qed
  have "take (d div 8) k = take (d div 8) k'"
    using full assms(1,2) by (intro nth_equalityI) auto
  then show ?thesis using part by (simp add: fx_prefix_region_def Let_def)
qed

lemma keys_differ:
  assumes "length k = 32" "length k' = 32" "k \<noteq> k'"
  shows "\<exists>e < 256. fx_bit_at k e \<noteq> fx_bit_at k' e"
proof (rule ccontr)
  assume "\<not> ?thesis"
  then have "fx_prefix_region k 256 = fx_prefix_region k' 256" using assms(1,2) by (intro fx_prefix_cong) auto
  then show False using assms by (simp add: fx_prefix_region_def Let_def)
qed

section \<open>What a certificate proves\<close>

text \<open>
  The siblings of a certificate, the root's first: at each depth of the bitmap one of them is hashed with the
  subtree below, on the side the key's bit tells. All of them are used.
\<close>

function fold_path :: "sdk \<Rightarrow> bytes \<Rightarrow> bytes \<Rightarrow> nat \<Rightarrow> bytes list \<Rightarrow> bytes \<Rightarrow> bytes option" where
  "fold_path S key bitmap d sibs leaf =
     (if 256 \<le> d then if sibs = [] then Some leaf else None
      else if fx_bit_at bitmap d then
        (case sibs of
           [] \<Rightarrow> None
         | s # rest \<Rightarrow>
             map_option (\<lambda>h. if fx_bit_at key d then fx_node_hash S (of_nat d) key s h
                else fx_node_hash S (of_nat d) key h s) (fold_path S key bitmap (d + 1) rest leaf))
      else fold_path S key bitmap (d + 1) sibs leaf)"
  by pat_completeness auto
termination by (relation "measure (\<lambda>(_, _, _, d, _). 256 - d)") auto

declare fold_path.simps [simp del]

lemma fold_path_skip:
  assumes "d \<le> e" "e \<le> 256" "\<forall>l. d \<le> l \<and> l < e \<longrightarrow> \<not> fx_bit_at bm l"
  shows "fold_path S key bm d ss leaf = fold_path S key bm e ss leaf"
  using assms
proof (induction d rule: inc_induct)
  case (step d)
  then have "fold_path S key bm d ss leaf = fold_path S key bm (d + 1) ss leaf"
    by (subst fold_path.simps) auto
  then show ?case using step by simp
qed simp

lemma fold_path_cong:
  assumes "\<forall>l. d \<le> l \<and> l < 256 \<longrightarrow> fx_bit_at bm l = fx_bit_at bm' l"
  shows "fold_path S key bm d ss leaf = fold_path S key bm' d ss leaf"
  using assms
proof (induction S key bm d ss leaf rule: fold_path.induct)
  case (1 S key bm d ss leaf)
  show ?case
  proof (cases "256 \<le> d")
    case False
    then have b: "fx_bit_at bm d = fx_bit_at bm' d" using 1(3) by simp
    have t: "\<forall>l. d + 1 \<le> l \<and> l < 256 \<longrightarrow> fx_bit_at bm l = fx_bit_at bm' l" using 1(3) by simp
    show ?thesis
    proof (cases "fx_bit_at bm d")
      case True
      show ?thesis
      proof (cases ss)
        case Nil
        then show ?thesis using b True by (subst (1 2) fold_path.simps) simp
      next
        case (Cons s rest)
        then show ?thesis using b True 1(1)[OF False True Cons t] by (subst (1 2) fold_path.simps) simp
      qed
    next
      case False
      then show ?thesis using b \<open>\<not> 256 \<le> d\<close> 1(2)[OF \<open>\<not> 256 \<le> d\<close> False t] by (subst (1 2) fold_path.simps) simp
    qed
  qed (subst (1 2) fold_path.simps, simp)
qed

text \<open>A path of a subtree at a depth: its siblings are below it and lead to the subtree's hash.\<close>

definition leads :: "sdk \<Rightarrow> bytes \<times> bytes \<Rightarrow> nat \<Rightarrow> bytes \<times> bytes list \<Rightarrow> bytes \<Rightarrow> bool" where
  "leads S entry d path h \<longleftrightarrow> length (fst path) = 32 \<and> (\<forall>l < d. l < 256 \<longrightarrow> \<not> fx_bit_at (fst path) l)
     \<and> fold_path S (fst entry) (fst path) d (rev (snd path)) (snd entry) = Some h
     \<and> (\<forall>s \<in> set (snd path). length s = 32) \<and> length h = 32"

lemma leads_leaf: "d \<le> 256 \<Longrightarrow> length (snd entry) = 32 \<Longrightarrow> leads S entry d (replicate 32 0, []) (snd entry)"
  using fold_path_skip[of d 256 "replicate 32 0" S "fst entry" "[]" "snd entry"]
  by (simp add: leads_def fx_bit_at_zeros) (simp add: fold_path.simps)

lemma leads_up:
  assumes "leads S entry (e + 1) (bm, ss) h" "e < 256" "d \<le> e" "length s = 32" "\<forall>x. length (sdk_sha256 S x) = 32"
  shows "leads S entry d (fx_set_bit bm e, ss @ [s])
    (if fx_bit_at (fst entry) e then fx_node_hash S (of_nat e) (fst entry) s h
     else fx_node_hash S (of_nat e) (fst entry) h s)"
proof -
  have l: "length bm = 32" "\<forall>l < e + 1. l < 256 \<longrightarrow> \<not> fx_bit_at bm l"
    and f: "fold_path S (fst entry) bm (e + 1) (rev ss) (snd entry) = Some h"
    using assms(1) by (simp_all add: leads_def)
  note set = fx_bit_at_set[OF l(1) assms(2)]
  have "fold_path S (fst entry) (fx_set_bit bm e) (e + 1) (rev ss) (snd entry) = Some h"
    using f set by (subst fold_path_cong[of "e + 1" _ bm]) auto
  then have "fold_path S (fst entry) (fx_set_bit bm e) e (s # rev ss) (snd entry)
      = Some (if fx_bit_at (fst entry) e then fx_node_hash S (of_nat e) (fst entry) s h
         else fx_node_hash S (of_nat e) (fst entry) h s)"
    using assms(2) set[OF assms(2)] by (subst fold_path.simps) simp
  moreover have "fold_path S (fst entry) (fx_set_bit bm e) d (s # rev ss) (snd entry)
      = fold_path S (fst entry) (fx_set_bit bm e) e (s # rev ss) (snd entry)"
    using assms(2,3) set l(2) by (intro fold_path_skip) auto
  moreover have "\<forall>x \<in> set ss. length x = 32" using assms(1) by (simp add: leads_def)
  ultimately show ?thesis using l assms(2-5) set by (auto simp: leads_def fx_node_hash_def)
qed

lemma add_sibling_nth:
  assumes "distinct is" "\<forall>i \<in> set is. i < length paths"
  shows "length (add_sibling d h is paths) = length paths"
    "j < length paths \<Longrightarrow> add_sibling d h is paths ! j
      = (if j \<in> set is then (fx_set_bit (fst (paths ! j)) d, snd (paths ! j) @ [h]) else paths ! j)"
  using assms
  by (induction "is" arbitrary: paths) (auto simp: add_sibling_def nth_list_update)

section \<open>Building a tree\<close>

text \<open>The keys of the indices agree on the bits above a depth.\<close>

definition agree :: "(bytes \<times> bytes) list \<Rightarrow> nat list \<Rightarrow> nat \<Rightarrow> bool" where
  "agree entries indices d \<longleftrightarrow> (\<forall>l < d. l < 256 \<longrightarrow> (\<forall>i \<in> set indices. \<forall>j \<in> set indices.
     fx_bit_at (fst (entries ! i)) l = fx_bit_at (fst (entries ! j)) l))"

lemma agree_Suc:
  "agree entries indices (d + 1) \<longleftrightarrow> agree entries indices d
     \<and> (d < 256 \<longrightarrow> (\<forall>i \<in> set indices. \<forall>j \<in> set indices. fx_bit_at (fst (entries ! i)) d = fx_bit_at (fst (entries ! j)) d))"
  unfolding agree_def Suc_eq_plus1[symmetric] less_Suc_eq by blast

lemma agree_subset: "set xs \<subseteq> set ys \<Longrightarrow> agree entries ys d \<Longrightarrow> agree entries xs d"
  unfolding agree_def by blast

lemma agree_all:
  assumes "agree entries indices 256" "i \<in> set indices" "j \<in> set indices"
    "length (fst (entries ! i)) = 32" "length (fst (entries ! j)) = 32"
  shows "fst (entries ! i) = fst (entries ! j)"
proof (rule ccontr)
  assume "\<not> ?thesis"
  then obtain l where "l < 256" "fx_bit_at (fst (entries ! i)) l \<noteq> fx_bit_at (fst (entries ! j)) l"
    using keys_differ[OF assms(4,5)] by blast
  then show False using assms(1-3) unfolding agree_def by blast
qed

lemma split_level_finds:
  assumes "i \<in> set indices" "j \<in> set indices" "d \<le> 255" "agree entries indices d"
    "length (fst (entries ! i)) = 32" "length (fst (entries ! j)) = 32" "fst (entries ! i) \<noteq> fst (entries ! j)"
  shows "\<exists>r. split_level entries indices d = Some r"
  using assms
proof (induction entries indices d rule: split_level.induct)
  case (1 entries indices d)
  let ?z = "filter (\<lambda>i. \<not> fx_bit_at (fst (entries ! i)) d) indices"
  let ?o = "filter (\<lambda>i. fx_bit_at (fst (entries ! i)) d) indices"
  show ?case
  proof (cases "?z \<noteq> [] \<and> ?o \<noteq> []")
    case True
    then show ?thesis by (subst split_level.simps) (simp add: Let_def)
  next
    case False
    then have "\<forall>i \<in> set indices. \<forall>j \<in> set indices. fx_bit_at (fst (entries ! i)) d = fx_bit_at (fst (entries ! j)) d"
      by (auto simp: filter_empty_conv)
    then have a: "agree entries indices (d + 1)" using 1(5) agree_Suc by blast
    have "d \<noteq> 255" using agree_all[OF _ 1(2,3,6,7)] a 1(8) by force
    then have n: "\<not> 255 < d + 1" using 1(4) by simp
    then have "\<exists>r. split_level entries indices (d + 1) = Some r"
      using 1(1)[OF refl refl False n 1(2,3) _ a 1(6,7,8)] by simp
    then show ?thesis using False n by (subst split_level.simps) (auto simp: Let_def)
  qed
qed

lemma agree_split:
  assumes "split_level entries indices d = Some (e, zeros, ones)" "agree entries indices d"
  shows "agree entries indices e" "agree entries zeros (e + 1)" "agree entries ones (e + 1)"
proof -
  note s = split_level_splits[OF assms(1)]
  then have r: "\<forall>l. d \<le> l \<and> l < e \<longrightarrow> (\<forall>i \<in> set indices. \<forall>j \<in> set indices.
      fx_bit_at (fst (entries ! i)) l = fx_bit_at (fst (entries ! j)) l)" by blast
  show a: "agree entries indices e"
    using assms(2) r unfolding agree_def by (meson linorder_not_le)
  have "set zeros \<subseteq> set indices" "set ones \<subseteq> set indices" using s by auto
  then have "agree entries zeros e" "agree entries ones e" using a agree_subset by blast+
  moreover have "\<forall>i \<in> set zeros. \<not> fx_bit_at (fst (entries ! i)) e" "\<forall>i \<in> set ones. fx_bit_at (fst (entries ! i)) e"
    using s by auto
  ultimately show "agree entries zeros (e + 1)" "agree entries ones (e + 1)" unfolding agree_Suc by blast+
qed

lemma node_hash_agree:
  assumes "agree entries indices e" "i \<in> set indices" "j \<in> set indices" "e < 256"
    "length (fst (entries ! i)) = 32" "length (fst (entries ! j)) = 32"
  shows "fx_node_hash S (of_nat e) (fst (entries ! i)) l r = fx_node_hash S (of_nat e) (fst (entries ! j)) l r"
proof -
  have "\<forall>l < e. fx_bit_at (fst (entries ! i)) l = fx_bit_at (fst (entries ! j)) l"
    using assms(1-4) unfolding agree_def by (meson order.strict_trans)
  then have "fx_prefix_region (fst (entries ! i)) e = fx_prefix_region (fst (entries ! j)) e"
    using fx_prefix_cong[OF assms(5,6)] assms(4) by simp
  moreover have "unat (of_nat e :: u8) = e" using assms(4) by (simp add: unat_of_nat)
  ultimately show ?thesis by (simp add: fx_node_hash_def)
qed

definition fresh :: "(bytes \<times> bytes) list \<Rightarrow> nat list \<Rightarrow> (bytes \<times> bytes list) list \<Rightarrow> bool" where
  "fresh entries indices paths \<longleftrightarrow> distinct indices
     \<and> (\<forall>i \<in> set indices. i < length paths \<and> length (fst (entries ! i)) = 32 \<and> length (snd (entries ! i)) = 32
          \<and> paths ! i = (replicate 32 0, []))
     \<and> (\<forall>i \<in> set indices. \<forall>j \<in> set indices. i \<noteq> j \<longrightarrow> fst (entries ! i) \<noteq> fst (entries ! j))"

lemma build_subtree_leads:
  assumes "indices \<noteq> []" "fresh entries indices paths" "agree entries indices depth" "depth \<le> 256"
    "\<forall>x. length (sdk_sha256 S x) = 32"
  shows "\<exists>h paths'. build_subtree S entries indices depth paths = Some (h, paths') \<and> length paths' = length paths
    \<and> (\<forall>j < length paths. j \<notin> set indices \<longrightarrow> paths' ! j = paths ! j)
    \<and> (\<forall>i \<in> set indices. leads S (entries ! i) depth (paths' ! i) h)"
  using assms
proof (induction S entries indices depth paths rule: build_subtree.induct)
  case (1 S entries indices depth paths)
  show ?case
  proof (cases "length indices = 1")
    case True
    then obtain i where i: "indices = [i]" by (auto simp: length_Suc_conv)
    then have p: "paths ! i = (replicate 32 0, [])" "length (snd (entries ! i)) = 32" using 1(4) by (simp_all add: fresh_def)
    show ?thesis using leads_leaf[OF 1(6) p(2), of S]
      by (subst build_subtree.simps) (simp add: i p)
  next
    case False
    have f: "distinct indices" "\<forall>i \<in> set indices. i < length paths \<and> length (fst (entries ! i)) = 32
        \<and> length (snd (entries ! i)) = 32 \<and> paths ! i = (replicate 32 0, [])"
      "\<forall>i \<in> set indices. \<forall>j \<in> set indices. i \<noteq> j \<longrightarrow> fst (entries ! i) \<noteq> fst (entries ! j)"
      using 1(4) by (simp_all add: fresh_def)
    obtain i j where ij: "i \<in> set indices" "j \<in> set indices" "i \<noteq> j"
      using False 1(3) f(1) by (cases indices; cases "tl indices") auto
    have "depth \<noteq> 256" using agree_all[OF _ ij(1,2)] f(2,3) ij 1(5) by blast
    then have d: "depth \<le> 255" using 1(6) by simp
    obtain e zeros ones where s: "split_level entries indices depth = Some (e, zeros, ones)"
      using split_level_finds[OF ij(1,2) d 1(5)] f(2,3) ij by (metis prod_cases3)
    note sp = split_level_splits[OF s] and ag = agree_split[OF s 1(5)]
    have e: "e < 256" "depth \<le> e" using sp d by auto
    have sets: "set indices = set zeros \<union> set ones" "set zeros \<inter> set ones = {}" "distinct zeros" "distinct ones"
      using sp f(1) by auto
    have ne: "zeros \<noteq> []" "ones \<noteq> []" "e + 1 \<le> 256" using sp e(1) by (blast, blast, simp)
    have fz: "fresh entries zeros paths" using f sets(1,3) unfolding fresh_def by blast
    obtain zh p1 where z: "build_subtree S entries zeros (e + 1) paths = Some (zh, p1)" "length p1 = length paths"
      "\<forall>j < length paths. j \<notin> set zeros \<longrightarrow> p1 ! j = paths ! j" "\<forall>i \<in> set zeros. leads S (entries ! i) (e + 1) (p1 ! i) zh"
      using 1(1)[OF False s refl refl ne(1) fz ag(2) ne(3) 1(7)] by blast
    have "p1 ! i = (replicate 32 0, [])" "i < length p1" if "i \<in> set ones" for i
      using that f(2) sets(1,2) z(2,3) by auto
    then have fo: "fresh entries ones p1" using f sets(1,4) unfolding fresh_def by blast
    obtain oh p2 where o': "build_subtree S entries ones (e + 1) p1 = Some (oh, p2)" "length p2 = length p1"
      "\<forall>j < length p1. j \<notin> set ones \<longrightarrow> p2 ! j = p1 ! j" "\<forall>i \<in> set ones. leads S (entries ! i) (e + 1) (p2 ! i) oh"
      using 1(2)[OF False s refl refl z(1) refl ne(2) fo ag(3) ne(3) 1(7)] by blast
    have lh: "length zh = 32" "length oh = 32"
      using z(4) o'(4) ne(1,2) by (auto simp: leads_def neq_Nil_conv)
    let ?k = "fst (entries ! hd indices)"
    let ?h = "fx_node_hash S (of_nat e) ?k zh oh"
    let ?p3 = "add_sibling e oh zeros p2"
    let ?p4 = "add_sibling e zh ones ?p3"
    have hd: "hd indices \<in> set indices" using 1(3) by simp
    have n: "\<forall>i \<in> set zeros. i < length p2" "\<forall>i \<in> set ones. i < length p2" using f(2) sets(1) z(2) o'(2) by auto
    note a3 = add_sibling_nth[OF sets(3) n(1), where d = e and h = oh]
    have n4: "\<forall>i \<in> set ones. i < length ?p3" using n(2) a3(1) by simp
    note a4 = add_sibling_nth[OF sets(4) n4, where d = e and h = zh]
    have "build_subtree S entries indices depth paths = Some (?h, ?p4)"
      using False s z(1) o'(1) by (subst build_subtree.simps) simp
    moreover have "length ?p4 = length paths" using a3(1) a4(1) z(2) o'(2) by simp
    moreover have "?p4 ! j = paths ! j" if "j < length paths" "j \<notin> set indices" for j
      using that sets(1) a3 a4 z(2,3) o'(2,3) by simp
    moreover have "leads S (entries ! i) depth (?p4 ! i) ?h" if i: "i \<in> set indices" for i
    proof -
      have h: "?h = fx_node_hash S (of_nat e) (fst (entries ! i)) zh oh"
        using node_hash_agree[OF ag(1) hd i e(1)] f(2) hd i by simp
      show ?thesis
      proof (cases "i \<in> set zeros")
        case True
        then have "p2 ! i = p1 ! i" using o'(3) sets(2) n(1) o'(2) by auto
        then have "?p4 ! i = (fx_set_bit (fst (p1 ! i)) e, snd (p1 ! i) @ [oh])"
          using True sets(2) a3 a4 n(1) by auto
        moreover have "\<not> fx_bit_at (fst (entries ! i)) e" using True sp by auto
        moreover have L: "leads S (entries ! i) (e + 1) (fst (p1 ! i), snd (p1 ! i)) zh" using True z(4) by simp
        ultimately show ?thesis using leads_up[OF L e lh(2) 1(7)] h by simp
      next
        case False
        then have one: "i \<in> set ones" using i sets(1) by auto
        then have "?p4 ! i = (fx_set_bit (fst (p2 ! i)) e, snd (p2 ! i) @ [zh])"
          using False a3 a4 n(2) by auto
        moreover have "fx_bit_at (fst (entries ! i)) e" using one sp by auto
        moreover have L: "leads S (entries ! i) (e + 1) (fst (p2 ! i), snd (p2 ! i)) oh" using one o'(4) by simp
        ultimately show ?thesis using leads_up[OF L e lh(1) 1(7)] h by simp
      qed
    qed
    ultimately show ?thesis by blast
  qed
qed

lemma split_level_same:
  "\<forall>l < 256. \<forall>i \<in> set indices. \<forall>j \<in> set indices. fx_bit_at (fst (entries ! i)) l = fx_bit_at (fst (entries ! j)) l
   \<Longrightarrow> d < 256 \<Longrightarrow> split_level entries indices d = None"
proof (induction entries indices d rule: split_level.induct)
  case (1 entries indices d)
  let ?z = "filter (\<lambda>i. \<not> fx_bit_at (fst (entries ! i)) d) indices"
  let ?o = "filter (\<lambda>i. fx_bit_at (fst (entries ! i)) d) indices"
  have n: "\<not> (?z \<noteq> [] \<and> ?o \<noteq> [])" using 1(2,3) unfolding filter_empty_conv by blast
  have "split_level entries indices (d + 1) = None" if "\<not> 255 < d + 1"
    using 1(1)[OF refl refl n that 1(2)] that by simp
  then show ?case using n by (subst split_level.simps) (simp add: Let_def)
qed

lemma build_subtree_same:
  assumes "i \<in> set indices" "j \<in> set indices" "i \<noteq> j" "fst (entries ! i) = fst (entries ! j)"
  shows "build_subtree S entries indices depth paths = None"
  using assms
proof (induction S entries indices depth paths rule: build_subtree.induct)
  case (1 S entries indices depth paths)
  have n: "length indices \<noteq> 1" using 1(3-5) by (auto simp: length_Suc_conv)
  show ?case
  proof (cases "split_level entries indices depth")
    case None
    then show ?thesis using n by (subst build_subtree.simps) simp
  next
    case (Some p)
    then obtain e zeros ones where s: "split_level entries indices depth = Some (e, zeros, ones)" by (cases p) auto
    note sp = split_level_splits[OF s]
    have z: "build_subtree S entries zeros (e + 1) paths = None" if "\<not> fx_bit_at (fst (entries ! i)) e"
      using 1(1)[OF n s refl refl] that sp 1(3-6) by auto
    have o': "build_subtree S entries ones (e + 1) p1 = None"
      if "fx_bit_at (fst (entries ! i)) e" "build_subtree S entries zeros (e + 1) paths = Some (zh, p1)" for zh p1
      using 1(2)[OF n s refl refl that(2) refl] that sp 1(3-6) by auto
    show ?thesis
    proof (cases "build_subtree S entries zeros (e + 1) paths")
      case None
      then show ?thesis using n s by (subst build_subtree.simps) simp
    next
      case (Some q)
      then obtain zh p1 where q: "build_subtree S entries zeros (e + 1) paths = Some (zh, p1)" by (cases q) auto
      then have "fx_bit_at (fst (entries ! i)) e" using z by auto
      then show ?thesis using n s q o'[OF _ q] by (subst build_subtree.simps) simp
    qed
  qed
qed

section \<open>Certificates\<close>

fun chunks :: "bytes \<Rightarrow> bytes list" where
  "chunks [] = []"
| "chunks (b # bs) = (b # take 31 bs) # chunks (drop 31 bs)"

lemma chunks_concat: "\<forall>s \<in> set ss. length s = 32 \<Longrightarrow> chunks (concat ss) = ss"
proof (induction ss)
  case (Cons s ss)
  then obtain b bs where "s = b # bs" "length bs = 31" by (cases s) auto
  with Cons show ?case by simp
qed simp

text \<open>A certificate is a bitmap and the siblings, the root's first.\<close>

definition certifies :: "sdk \<Rightarrow> bytes \<Rightarrow> data_hash \<Rightarrow> bytes \<Rightarrow> bytes \<Rightarrow> bool" where
  "certifies S state_id tx_hash raw root \<longleftrightarrow>
     fold_path S state_id (take 32 raw) 0 (chunks (drop 32 raw)) (fx_leaf_hash S state_id tx_hash) = Some root"

lemma leads_certifies:
  assumes "leads S (state_id, fx_leaf_hash S state_id tx_hash) 0 (bm, ss) h"
  shows "certifies S state_id tx_hash (bm @ concat (rev ss)) h"
  using assms by (simp add: leads_def certifies_def chunks_concat)

lemma find_first: "e < n \<Longrightarrow> P e \<Longrightarrow> \<forall>l < e. \<not> P l \<Longrightarrow> find P [0..<n] = Some e"
  by (auto simp: find_Some_iff)

lemma build_two:
  assumes "length a = 32" "length b = 32" "a \<noteq> b"
  shows "\<exists>e < 256. find (\<lambda>l. fx_bit_at a l \<noteq> fx_bit_at b l) [0..<256] = Some e
    \<and> build_subtree S [(a, la), (b, lb)] [0, 1] 0 (replicate 2 (replicate 32 0, []))
      = Some (if fx_bit_at a e then fx_node_hash S (of_nat e) a lb la else fx_node_hash S (of_nat e) a la lb,
              [(fx_set_bit (replicate 32 0) e, [lb]), (fx_set_bit (replicate 32 0) e, [la])])"
proof -
  let ?es = "[(a, la), (b, lb)]"
  have "\<exists>r. split_level ?es [0, 1] 0 = Some r"
    by (rule split_level_finds[of 0 _ 1]) (use assms in \<open>simp_all add: agree_def\<close>)
  then obtain e zeros ones where s: "split_level ?es [0, 1] 0 = Some (e, zeros, ones)" by (metis prod_cases3)
  note sp = split_level_splits[OF s]
  have e: "e < 256" using sp by simp
  have d: "fx_bit_at a e \<noteq> fx_bit_at b e" using sp by (auto split: if_splits)
  have zo: "zeros = (if fx_bit_at a e then [1] else [0])" "ones = (if fx_bit_at a e then [0] else [1])"
    using sp d by auto
  have "fx_bit_at a l = fx_bit_at b l" if "l < e" for l
  proof -
    have "\<forall>i \<in> set [0, 1]. \<forall>j \<in> set [0, 1]. fx_bit_at (fst (?es ! i)) l = fx_bit_at (fst (?es ! j)) l"
      using sp that by blast
    then have "fx_bit_at (fst (?es ! 0)) l = fx_bit_at (fst (?es ! 1)) l" by (meson list.set_intros)
    then show ?thesis by simp
  qed
  then have "find (\<lambda>l. fx_bit_at a l \<noteq> fx_bit_at b l) [0..<256] = Some e"
    using find_first[of e 256 "\<lambda>l. fx_bit_at a l \<noteq> fx_bit_at b l"] e d by blast
  moreover have one: "build_subtree S ?es [i] k p = Some (snd (?es ! i), p)" for i k p
    by (subst build_subtree.simps) simp
  have "build_subtree S ?es [0, 1] 0 (replicate 2 (replicate 32 0, []))
      = Some (if fx_bit_at a e then fx_node_hash S (of_nat e) a lb la else fx_node_hash S (of_nat e) a la lb,
              [(fx_set_bit (replicate 32 0) e, [lb]), (fx_set_bit (replicate 32 0) e, [la])])"
    by (subst build_subtree.simps) (simp add: s[unfolded One_nat_def] zo one add_sibling_def numeral_2_eq_2)
  ultimately show ?thesis using e by blast
qed

text \<open>C40. The inclusion trees of the fixtures. For different state ids the tree is built, and the certificate
  of every leaf leads to its one root: the branches its bitmap names, hashed from the leaf up with its
  siblings, give the root, and no sibling is left. With two leaves it is the tree of \<open>one_sibling_path\<close>: the
  same root and the same certificate. Equal state ids, or no leaf, are a panic.\<close>

theorem inclusion_tree:
  assumes "\<forall>x. length (sdk_sha256 S x) = 32" "\<forall>p \<in> set leaves. length (fst p) = 32"
  shows "(leaves = [] \<or> \<not> distinct (map fst leaves) \<longrightarrow> multi_leaf_paths S decode leaves = None)
    \<and> (leaves \<noteq> [] \<and> distinct (map fst leaves) \<longrightarrow>
        (\<exists>root raws. multi_leaf_paths S decode leaves = map_option (Pair root) (all_some (map decode raws))
          \<and> length raws = length leaves
          \<and> (\<forall>i < length leaves. certifies S (fst (leaves ! i)) (snd (leaves ! i)) (raws ! i) root)
          \<and> (\<forall>a ha b hb. leaves = [(a, ha), (b, hb)] \<longrightarrow>
               one_sibling_path S decode a ha b hb = map_option (\<lambda>cert. (cert, root)) (decode (raws ! 0)))))"
proof -
  let ?es = "map (\<lambda>(state_id, tx_hash). (state_id, fx_leaf_hash S state_id tx_hash)) leaves"
  let ?n = "length leaves" and ?p = "replicate (length leaves) (replicate 32 (0 :: u8), [] :: bytes list)"
  let ?t = "build_subtree S ?es [0..<?n] 0 ?p"
  let ?raw = "\<lambda>(bitmap, siblings). bitmap @ concat (rev siblings) :: bytes"
  have m: "multi_leaf_paths S decode leaves = Option.bind ?t (\<lambda>(root, paths).
      map_option (Pair root) (all_some (map (\<lambda>(bitmap, siblings). decode (bitmap @ concat (rev siblings))) paths)))"
    by (simp add: multi_leaf_paths_def Let_def)
  have nth: "?es ! i = (fst (leaves ! i), fx_leaf_hash S (fst (leaves ! i)) (snd (leaves ! i)))" if "i < ?n" for i
    using that by (simp add: case_prod_unfold)
  have bad: "?t = None" if dup: "leaves = [] \<or> \<not> distinct (map fst leaves)"
  proof (cases "leaves = []")
    case True
    then show ?thesis using split_level_same[of "[]" "[]" 0] by (simp add: build_subtree.simps)
  next
    case False
    then obtain i j where ij: "i < ?n" "j < ?n" "i \<noteq> j" "fst (leaves ! i) = fst (leaves ! j)"
      using dup by (auto simp: distinct_conv_nth)
    show ?thesis by (rule build_subtree_same[of i _ j]) (use ij nth in simp_all)
  qed
  have good: "\<exists>root paths. ?t = Some (root, paths) \<and> length paths = ?n \<and> (\<forall>i < ?n. leads S (?es ! i) 0 (paths ! i) root)"
    if "leaves \<noteq> []" "distinct (map fst leaves)"
  proof -
    have "fresh ?es [0..<?n] ?p"
      using assms that nth by (auto simp: fresh_def fx_leaf_hash_def distinct_conv_nth)
    then show ?thesis
      using build_subtree_leads[of "[0..<?n]" ?es ?p 0 S] assms(1) that by (auto simp: agree_def)
  qed
  have "\<exists>root raws. multi_leaf_paths S decode leaves = map_option (Pair root) (all_some (map decode raws))
          \<and> length raws = length leaves
          \<and> (\<forall>i < length leaves. certifies S (fst (leaves ! i)) (snd (leaves ! i)) (raws ! i) root)
          \<and> (\<forall>a ha b hb. leaves = [(a, ha), (b, hb)] \<longrightarrow>
               one_sibling_path S decode a ha b hb = map_option (\<lambda>cert. (cert, root)) (decode (raws ! 0)))"
    if ok: "leaves \<noteq> []" "distinct (map fst leaves)"
  proof -
    obtain root paths where t: "?t = Some (root, paths)" "length paths = ?n" "\<forall>i < ?n. leads S (?es ! i) 0 (paths ! i) root"
      using good[OF ok] by blast
    have "multi_leaf_paths S decode leaves = map_option (Pair root) (all_some (map decode (map ?raw paths)))"
      unfolding m t(1) by (simp add: case_prod_unfold o_def)
    moreover have "certifies S (fst (leaves ! i)) (snd (leaves ! i)) (map ?raw paths ! i) root" if "i < ?n" for i
      using t(2,3) nth[OF that] that leads_certifies[of S "fst (leaves ! i)" "snd (leaves ! i)" "fst (paths ! i)" "snd (paths ! i)"]
      by (simp add: case_prod_unfold)
    moreover have "one_sibling_path S decode a ha b hb = map_option (\<lambda>cert. (cert, root)) (decode (map ?raw paths ! 0))"
      if l: "leaves = [(a, ha), (b, hb)]" for a ha b hb
    proof -
      have "length a = 32" "length b = 32" "a \<noteq> b" using assms(2) ok(2) l by auto
      from build_two[OF this, of S "fx_leaf_hash S a ha" "fx_leaf_hash S b hb"]
      obtain e where e: "find (\<lambda>l. fx_bit_at a l \<noteq> fx_bit_at b l) [0..<256] = Some e"
        "build_subtree S [(a, fx_leaf_hash S a ha), (b, fx_leaf_hash S b hb)] [0, 1] 0 (replicate 2 (replicate 32 0, []))
          = Some (if fx_bit_at a e then fx_node_hash S (of_nat e) a (fx_leaf_hash S b hb) (fx_leaf_hash S a ha)
                  else fx_node_hash S (of_nat e) a (fx_leaf_hash S a ha) (fx_leaf_hash S b hb),
              [(fx_set_bit (replicate 32 0) e, [fx_leaf_hash S b hb]), (fx_set_bit (replicate 32 0) e, [fx_leaf_hash S a ha])])"
        by blast
      have two: "length leaves = 2" "[0..<2] = [0, 1 :: nat]" by (simp_all add: l upt_rec)
      have "root = (if fx_bit_at a e then fx_node_hash S (of_nat e) a (fx_leaf_hash S b hb) (fx_leaf_hash S a ha)
                  else fx_node_hash S (of_nat e) a (fx_leaf_hash S a ha) (fx_leaf_hash S b hb))"
        "paths ! 0 = (fx_set_bit (replicate 32 0) e, [fx_leaf_hash S b hb])" "0 < length paths"
        using t(1,2) e(2) unfolding two by (simp_all add: l)
      then show ?thesis unfolding one_sibling_path_def e(1) by (simp add: Let_def)
    qed
    ultimately show ?thesis using t(2) by (intro exI[of _ root] exI[of _ "map ?raw paths"]) auto
  qed
  then show ?thesis using bad m by simp
qed

section \<open>The leaf of a burn\<close>

text \<open>The leaf of a fixture is the leaf the intake finds in the envelope of its token.\<close>

lemma fixture_leaf_envelope:
  assumes "leaf_and_lock_ref sha256 keccak S config token state_id burn reason = Some (leaf, r)"
    and "tok_transactions token \<noteq> []" "burn = tr_transaction (last (tok_transactions token))"
    and "state_id = sdk_state_id S (tx_lock_script burn) (tx_source_state_hash burn)"
    and "decode_bridge_back_reason (sdk_decoder S) (cfg_reason_tag config) reason_bytes = Ok (decoded_of config reason)"
  shows "envelope_leaf sha256 keccak S config token reason_bytes = Ok leaf"
  using assms by (auto simp: leaf_and_lock_ref_def envelope_leaf_def decoded_of_def Let_def split: if_splits sum.splits)

section \<open>An example\<close>

definition tree_ex :: "(bytes \<times> data_hash) list" where
  "tree_ex = [(replicate 32 0, ex_hash), (replicate 32 1, ex_hash), (replicate 32 2, ex_hash)]"

lemma all_some_map: "all_some (map Some xs) = Some xs"
  by (induction xs) simp_all

theorem inclusion_tree_witness:
  "\<exists>root raws. multi_leaf_paths ex_sdk Some tree_ex = Some (root, raws) \<and> length raws = 3
     \<and> (\<forall>i < 3. certifies ex_sdk (fst (tree_ex ! i)) (snd (tree_ex ! i)) (raws ! i) root)"
proof -
  have h: "\<forall>x. length (sdk_sha256 ex_sdk x) = 32" "\<forall>p \<in> set tree_ex. length (fst p) = 32"
    by (simp_all add: ex_sdk_simps tree_ex_def)
  have d: "tree_ex \<noteq> []" "distinct (map fst tree_ex)" "length tree_ex = 3" by (simp_all add: tree_ex_def)
  from inclusion_tree[OF h, of Some] d show ?thesis by (auto simp: all_some_map)
qed

end
