(* ===== verification/Spec2Isabelle.thy ===== *)
theory Spec2Isabelle
  imports Guest_Example S1_Proofs S2_Proofs Store_Proofs Orchestrator_Final Api_Proofs Start_Proofs
    Vec_Gen Vec_Proofs Sp1_Proofs S1_Fetch Host_Cli_Proofs Fixture_Tree_Proofs
begin

text \<open>
  A verification development for the prover of the Unicity bridge (Rust, \<open>src/prover/crates\<close>) and for the
  reference generator of its conformance vectors (\<open>src/protocol/vectors/gen\<close>).

  \<^bold>\<open>The program.\<close> A bridged token is backed by a lock in a vault of the source chain. Its owner burns it for a
  return; the service collects burns into batches, proves with SP1 that each batch satisfies the return
  relation, and submits the proof to the vault, which pays the leaves of the batch and moves the root of its
  nullifier accumulator. The crate \<open>core\<close> is the byte contract with the vault; \<open>sdk-ext\<close> verifies tokens and
  keeps the accumulator; \<open>guest\<close> is the relation that is proved; \<open>host\<close> assembles, prechecks and proves
  witnesses; \<open>service\<close> is the daemon: HTTP interface, journal, ledger, orchestrator and chain clients.

  \<^bold>\<open>Theories and sources.\<close> A name with \<open>_Proofs\<close> (and \<open>Ledger_Runs\<close>, \<open>Orchestrator_Safety\<close>,
  \<open>Orchestrator_Final\<close>, \<open>Accumulator_Tree\<close>) holds lemmas and properties only.

  \<^item> \<open>Prelude\<close>: integers at their width, byte strings, the result type \<open>'e + 'a\<close> with \<open>and_then\<close> for \<open>?\<close>, big-endian
    encodings, orders of slices. \<open>Text_Lib\<close>, \<open>Json_Lib\<close>, \<open>Json_Text\<close>: what is used of the standard library on
    text and time, of \<open>hex\<close> and of \<open>serde_json\<close>, and an instance of each on which the witnesses run.
  \<^item> \<open>Core_Abi\<close>, \<open>Core_Cbor\<close>, \<open>Core\<close>: \<open>core/src/abi.rs\<close>, \<open>cbor.rs\<close>, \<open>lib.rs\<close>.
  \<^item> \<open>Accumulator\<close> (with \<open>Accumulator_Tree\<close>, \<open>Accumulator_Proofs\<close>): \<open>sdk-ext/src/accumulator.rs\<close>. \<open>Sdk\<close>, \<open>Sdk_Verify\<close>,
    \<open>Sdk_Bridge\<close>: \<open>error.rs\<close>, \<open>trust.rs\<close>, \<open>verify.rs\<close>, \<open>bridge.rs\<close>. \<open>Cbor_Decoder\<close>: what is relied on of the SDK's
    CBOR decoder, and a decoder that satisfies it.
  \<^item> \<open>Guest_Wire\<close>, \<open>Guest\<close>: \<open>guest/src/wire.rs\<close>, \<open>lib.rs\<close>; \<open>Guest_Example\<close>: one batch that the guest accepts.
  \<^item> \<open>S1\<close>, \<open>S1_Fetch\<close>: \<open>host/src/s1.rs\<close> and \<open>public_values.rs\<close>; \<open>S2\<close>: \<open>host/src/s2.rs\<close>; \<open>Host_Vectors\<close>: \<open>host/src/lib.rs\<close>;
    \<open>Sp1\<close>: \<open>host/src/sp1.rs\<close>, its commands in \<open>host/src/main.rs\<close> and \<open>guest/src/bin/sp1.rs\<close>; \<open>Host_Cli\<close>: the other
    commands of \<open>host/src/main.rs\<close>; \<open>Fixture_Json\<close>, \<open>Fixture_Tree\<close>: parts of \<open>host/src/fixture.rs\<close>.
  \<^item> \<open>Service_Records\<close>, \<open>Service_Policy\<close>, \<open>Ledger\<close>, \<open>Assembler\<close>: \<open>service/src/domain\<close> and the types of \<open>store.rs\<close>;
    \<open>Store\<close>: \<open>journal.rs\<close> and the operations of \<open>store.rs\<close>; \<open>Clients\<close>: \<open>sequencer.rs\<close>, \<open>submitter.rs\<close>; \<open>Prover\<close>:
    \<open>prover.rs\<close> and \<open>domain/guest.rs\<close>; \<open>Orchestrator\<close>: \<open>orchestrator.rs\<close>; \<open>Config\<close>, \<open>Api\<close>, \<open>Shutdown\<close>, \<open>Start\<close>: \<open>config.rs\<close>,
    \<open>api.rs\<close>, \<open>shutdown.rs\<close>, \<open>main.rs\<close> and the loaders of \<open>lib.rs\<close>.
  \<^item> \<open>Vec_Hash\<close>, \<open>Vec_Derive\<close>, \<open>Vec_Accumulator\<close>, \<open>Vec_Gen\<close>: \<open>hash.rs\<close>, \<open>abi.rs\<close> with \<open>cbor.rs\<close> and \<open>derive.rs\<close>, \<open>accumulator.rs\<close>,
    \<open>json.rs\<close> with \<open>main.rs\<close> of the generator. It shares no code with the prover, and its model shares none with
    the model of the prover.

  \<^bold>\<open>Reading the model.\<close> A struct is a record, an enum a datatype, an integer a word of its width. A fallible
  function returns \<open>Err e\<close> or \<open>Ok a\<close>; where it can also panic, run out of fuel or end the process, an outer
  \<open>None\<close> says so. State is passed explicitly: the ledger is a record with the association lists of the code's
  maps; an operation of the store is one step on it, as the mutex makes it; a journal and the files of a
  command are bytes. The environment of a concurrent component is an argument: what other requests commit
  between two operations (\<open>others\<close> in \<open>Api\<close>, \<open>en_api\<close> in \<open>Orchestrator\<close>), what a gateway answers to each call
  (\<open>S1_Fetch\<close>), what a child process leaves in the files (\<open>Prover\<close>). Statements range over all of them.

  \<^bold>\<open>Interfaces.\<close> \<open>codec\<close> (an encoder and a cursor decoder that gives back the value and the rest) is interpreted on
  every type of the wire format. \<open>presence_set\<close> (a commitment to a set with absence witnesses and insertion) is
  interpreted on the accumulator; the guest's transition and S2 rest on it. \<open>event_contract\<close> (what every event
  the orchestrator commits keeps) carries an invariant of the ledger through a whole batch; its instance says
  which returns can settle.

  \<^bold>\<open>What is shown.\<close>

  \<^item> \<^bold>\<open>Relation and contract.\<close> An accepted batch is backed burn by burn by verified tokens and by distinct locks, its
    nullifiers were absent and are now in the tree, and its public values commit to the rest; the
    encodings are injective and round trip. The accumulator's shortcuts equal the plain tree hash. Statements
    about collisions name the finitely many hash inputs that would have to collide.
  \<^item> \<^bold>\<open>Host.\<close> The precheck decides what the guest decides; a rebuilt accumulator is that of a chain of settled
    batches whatever the order of the log; an anchored fetch ends, succeeds exactly when one of its attempts is
    answered and verifies, and returns only a token certified under one root; a proof bundle taken from the proving command holds what the proved program commits; a frozen
    configuration is stable and is what the intake reads; a token vector is checked as the guest decides;
    an inclusion tree's certificates lead to its root.
  \<^item> \<^bold>\<open>Service.\<close> The ledger's invariant holds after every event and it refines the life cycle of a return; attempts
    are bounded, a stop costs none. The outcomes found by a turn of the orchestrator are final; within a turn,
    a batch proven again after a rebase judges all its members again, also those it has settled or parked,
    which the life cycle has as a step of its own and the bound on the attempts counts. The journal resumes
    after a crash at any byte but one inside a character, which refuses it. A batch started is finished
    whatever the environment answers; a return settles only on the service's own receipt or on two sources;
    what is admitted was checked, and a started service is configured.
  \<^item> \<^bold>\<open>Reference generator.\<close> Every derivation and the accumulator agree with the prover's for all inputs, with the
    hashes written out.

  \<^bold>\<open>Fuel and bounds.\<close> Splits nest in tokens, so \<open>obligations_for_verified_token\<close> takes fuel; \<open>obligations_terminate\<close>
  gives the fuel that is enough for a token when nested tokens get smaller under a measure (\<open>nested_smaller\<close>; a
  nested token is a part of the bytes it is decoded from). Loops over depths end at 256, \<open>split_level\<close> at 255,
  the reader of JSON after the length of its text, the fetch after its six attempts. The waits of the
  orchestrator are the code's lists of delays; its rebase loop is a \<open>partial_function\<close>, and that it returns
  is a property. Lengths that the wire format cannot hold (2^32) are panics of the encoder and appear as
  hypotheses only through \<open>encode_guest_input input = Some wire\<close>.

  \<^bold>\<open>Parameters.\<close> The token SDK (the record \<open>sdk\<close>), the hash crates behind \<open>core/src/hash.rs\<close>, the SP1 client, \<open>hex\<close>,
  \<open>serde_json\<close>, the HTTP server, and the commands of a deployment. What a property needs of one of them is a
  named hypothesis (\<open>hex_ok\<close>, \<open>decoder_ok\<close>, \<open>reads_back\<close>, \<open>runs_host\<close>), and its witness instantiates it.

  \<^bold>\<open>Not modelled.\<close> \<open>core/src/hash.rs\<close> only forwards to the hash crates. The builders of \<open>host/src/fixture.rs\<close> mint, burn,
  split and sign tokens through the SDK and have no logic of their own beyond the parts modelled.
  \<open>service/src/ports.rs\<close> declares traits and forwards their methods. Logging, the usage text, waking of tasks
  and the clock's implementation are left out; so are the tests, and the contracts of the vault and the wallet,
  which are not Rust.
\<close>

end
